(* ===== verification/Prelude.thy ===== *)
theory Prelude
  imports Main "HOL-Library.Word" "HOL-Library.Monad_Syntax"
begin

text \<open>
  Shared vocabulary of the development: the machine-integer types the Rust code uses, the bit
  lemmas that turn masks into statements about single bits, and a few facts on lists and options.
  \<^item> \<open>u8\<close>, \<open>u16\<close>, \<open>u32\<close> are words of the width the code declares; \<open>usize\<close> and \<open>u64\<close> counters
    that never come near their width are \<^typ>\<open>nat\<close>.
  \<^item> A function of the code that can panic returns an \<^typ>\<open>'a option\<close>, \<^const>\<open>None\<close> being the panic.
  \<^item> \<open>mask_simps\<close> rewrites the single-bit masks of the sources (\<open>x & 0x04 != 0\<close>, \<open>x |= 0x04\<close>,
    \<open>x &= !0x04\<close>) into \<^const>\<open>bit\<close>, \<^const>\<open>set_bit\<close> and \<^const>\<open>unset_bit\<close>.
\<close>

unbundle bit_operations_syntax

type_synonym u8 = "8 word"
type_synonym u16 = "16 word"
type_synonym u32 = "32 word"

named_theorems mask_simps "single-bit masks as bit operations"
named_theorems bound_intros "an address the model forms is inside its array"

section \<open>Bytes as eight bits\<close>

lemma byte_eqI:
  fixes a b :: u8
  assumes "bit a 0 = bit b 0" "bit a 1 = bit b 1" "bit a 2 = bit b 2" "bit a 3 = bit b 3"
    and "bit a 4 = bit b 4" "bit a 5 = bit b 5" "bit a 6 = bit b 6" "bit a 7 = bit b 7"
  shows "a = b"
proof (rule bit_word_eqI)
  fix n assume "n < LENGTH(8)"
  then have "n \<in> {0, 1, 2, 3, 4, 5, 6, 7}" by auto
  then show "bit a n = bit b n" using assms by auto
qed

lemma byte_bit_cases:
  assumes "n < 8"
  obtains "n = 0" | "n = Suc 0" | "n = 2" | "n = 3" | "n = 4" | "n = 5" | "n = 6" | "n = 7"
proof -
  from assms have "n \<in> {0, Suc 0, 2, 3, 4, 5, 6, 7}" by auto
  then show thesis using that by auto
qed

lemma bit_u8_less: "bit (x :: u8) n \<Longrightarrow> n < 8"
  using bit_imp_le_length [of x n] by simp

lemma test_mask [mask_simps]:
  fixes x :: "'a::len word"
  shows "x AND 1 = 0 \<longleftrightarrow> \<not> bit x 0" "x AND 2 = 0 \<longleftrightarrow> \<not> bit x 1" "x AND 4 = 0 \<longleftrightarrow> \<not> bit x 2"
    "x AND 8 = 0 \<longleftrightarrow> \<not> bit x 3" "x AND 16 = 0 \<longleftrightarrow> \<not> bit x 4" "x AND 32 = 0 \<longleftrightarrow> \<not> bit x 5"
    "x AND 64 = 0 \<longleftrightarrow> \<not> bit x 6" "x AND 128 = 0 \<longleftrightarrow> \<not> bit x 7"
  using and_exp_eq_0_iff_not_bit [of x 0] and_exp_eq_0_iff_not_bit [of x 1]
    and_exp_eq_0_iff_not_bit [of x 2] and_exp_eq_0_iff_not_bit [of x 3]
    and_exp_eq_0_iff_not_bit [of x 4] and_exp_eq_0_iff_not_bit [of x 5]
    and_exp_eq_0_iff_not_bit [of x 6] and_exp_eq_0_iff_not_bit [of x 7]
  by simp_all

lemma or_mask [mask_simps]:
  fixes x :: "'a::len word"
  shows "x OR 1 = set_bit 0 x" "x OR 2 = set_bit 1 x" "x OR 4 = set_bit 2 x"
    "x OR 8 = set_bit 3 x" "x OR 16 = set_bit 4 x" "x OR 32 = set_bit 5 x"
    "x OR 64 = set_bit 6 x" "x OR 128 = set_bit 7 x"
  by (simp_all add: set_bit_eq_or)

lemma and_not_mask [mask_simps]:
  fixes x :: "'a::len word"
  shows "x AND NOT 1 = unset_bit 0 x" "x AND NOT 2 = unset_bit 1 x" "x AND NOT 4 = unset_bit 2 x"
    "x AND NOT 8 = unset_bit 3 x" "x AND NOT 16 = unset_bit 4 x" "x AND NOT 32 = unset_bit 5 x"
    "x AND NOT 64 = unset_bit 6 x" "x AND NOT 128 = unset_bit 7 x"
  by (simp_all add: unset_bit_eq_and_not)

lemmas bit_logic = bit_or_iff bit_and_iff bit_xor_iff

lemma and_neg_mask [mask_simps]:
  fixes x :: "'a::len word"
  shows "x AND - 2 = unset_bit 0 x" "x AND - 3 = unset_bit 1 x" "x AND - 5 = unset_bit 2 x"
    "x AND - 9 = unset_bit 3 x" "x AND - 17 = unset_bit 4 x" "x AND - 33 = unset_bit 5 x"
    "x AND - 65 = unset_bit 6 x" "x AND - 129 = unset_bit 7 x"
  by (simp_all add: unset_bit_eq_and_not)

lemma bit_set_bit_u8 [simp]: "bit (set_bit m (x :: u8)) n \<longleftrightarrow> bit x n \<or> (m = n \<and> n < 8)"
  by (auto simp: bit_set_bit_iff dest: bit_u8_less)

lemma bit_unset_bit_u8 [simp]: "bit (unset_bit m (x :: u8)) n \<longleftrightarrow> bit x n \<and> m \<noteq> n"
  by (auto simp: bit_unset_bit_iff)

section \<open>Fields of a word as div and mod\<close>

text \<open>
  \<open>field_nat\<close> reads the fields the decoders cut out of an opcode (\<open>(word >> 8) & 0x3F\<close>) as natural
  numbers, so that a statement on fields becomes linear arithmetic with \<^const>\<open>divide\<close> and \<^const>\<open>modulo\<close>.
\<close>

named_theorems field_nat "opcode fields as natural numbers"

lemma unat_drop_bit_div [field_nat]: "unat (drop_bit n (w :: 'a::len word)) = unat w div 2 ^ n"
  by (simp only: unat_drop_bit_eq drop_bit_eq_div [of n "unat w"])

lemma unat_take_bit_mod: "unat (take_bit n (w :: 'a::len word)) = unat w mod 2 ^ n"
  by (simp only: unsigned_take_bit_eq take_bit_eq_mod [of n "unat w"])

lemma and_low_mask:
  fixes w :: "'a::len word"
  shows "w AND 3 = take_bit 2 w" "w AND 7 = take_bit 3 w" "w AND 0xF = take_bit 4 w"
    "w AND 0x1F = take_bit 5 w" "w AND 0x3F = take_bit 6 w" "w AND 0x7F = take_bit 7 w"
    "w AND 0xFF = take_bit 8 w" "w AND 0x7FF = take_bit 11 w" "w AND 0x1FF = take_bit 9 w"
    "w AND 0xFFF = take_bit 12 w" "w AND 0x3FF = take_bit 10 w"
    "w AND 0xFFFF = take_bit 16 w"
  by (simp_all add: take_bit_eq_mask mask_eq_exp_minus_1)

lemma and_low_mask_1: "(w :: 'a::len word) AND 1 = take_bit 1 w"
  by (simp add: take_bit_eq_mask)

lemma unat_and_low_mask [field_nat]:
  fixes w :: "'a::len word"
  shows "unat (w AND 1) = unat w mod 2"
    "unat (w AND 3) = unat w mod 4" "unat (w AND 7) = unat w mod 8" "unat (w AND 0xF) = unat w mod 16"
    "unat (w AND 0x1F) = unat w mod 32" "unat (w AND 0x3F) = unat w mod 64"
    "unat (w AND 0x7F) = unat w mod 128" "unat (w AND 0xFF) = unat w mod 256"
    "unat (w AND 0x1FF) = unat w mod 512" "unat (w AND 0x3FF) = unat w mod 1024"
    "unat (w AND 0x7FF) = unat w mod 2048" "unat (w AND 0xFFF) = unat w mod 4096"
    "unat (w AND 0xFFFF) = unat w mod 65536"
  by (simp_all only: and_low_mask and_low_mask_1 unat_take_bit_mod) simp_all

lemma u8_less_256: "unat (x :: u8) < 256"
  using unsigned_less [of x, where ?'a = nat] by simp

lemma u16_less_65536: "unat (x :: u16) < 65536"
  using unsigned_less [of x, where ?'a = nat] by simp

lemma unat_ucast_u8 [simp]: "unat (ucast (x :: u8) :: u16) = unat x" "unat (ucast (x :: u8) :: u32) = unat x"
  using u8_less_256 [of x] by (simp_all add: unsigned_ucast_eq take_bit_nat_eq_self)

lemma unat_ucast_u16 [simp]: "unat (ucast (x :: u16) :: u32) = unat x"
  using u16_less_65536 [of x] by (simp add: unsigned_ucast_eq take_bit_nat_eq_self)

lemma u16_low4_cases:
  fixes x :: u16
  assumes "unat x < 16"
  obtains "x = 0" | "x = 1" | "x = 2" | "x = 3" | "x = 4" | "x = 5" | "x = 6" | "x = 7"
    | "x = 8" | "x = 9" | "x = 10" | "x = 11" | "x = 12" | "x = 13" | "x = 14" | "x = 15"
proof -
  have "unat x \<in> set [0..<16]" using assms by simp
  then have "unat x \<in> {0, 1, 2, 3, 4, 5, 6, 7, 8, 9, 10, 11, 12, 13, 14, 15}"
    by (simp add: upt_rec numeral_eq_Suc)
  then have "(of_nat (unat x) :: u16) \<in> {0, 1, 2, 3, 4, 5, 6, 7, 8, 9, 10, 11, 12, 13, 14, 15}"
    by (elim insertE emptyE) simp_all
  then have "x \<in> {0, 1, 2, 3, 4, 5, 6, 7, 8, 9, 10, 11, 12, 13, 14, 15}" by simp
  then show thesis using that by (elim insertE emptyE) blast+
qed

lemma u16_class_cases:
  fixes w :: u16
  obtains "drop_bit n w AND 3 = 0" | "drop_bit n w AND 3 = 1"
    | "drop_bit n w AND 3 = 2" | "drop_bit n w AND 3 = 3"
proof -
  let ?x = "drop_bit n w AND 3"
  have "unat ?x < 4" by (simp add: field_nat)
  then have "unat ?x \<in> {0, 1, 2, 3}" by auto
  then have "(of_nat (unat ?x) :: u16) \<in> {0, 1, 2, 3}" by (elim insertE emptyE) simp_all
  then have "?x \<in> {0, 1, 2, 3}" by simp
  then show thesis using that by (elim insertE emptyE) blast+
qed

text \<open>
  The byte-oriented class of the 12- and 14-bit cores has its two class bits clear, so its six-bit
  opcode field, which overlaps them, is at most 15.
\<close>

lemma op6_of_class:
  assumes "drop_bit (n + 4) (w :: u16) AND 3 = 0"
  shows "unat (drop_bit n w AND 0x3F) < 16"
proof -
  from assms have "unat (drop_bit (n + 4) w AND 3) = 0" by simp
  then have "unat w div 2 ^ (n + 4) mod 4 = 0" by (simp only: field_nat)
  then have "unat w div 2 ^ n div 16 mod 4 = 0" by (simp add: div_mult2_eq power_add)
  then have "unat w div 2 ^ n mod (16 * 4) = unat w div 2 ^ n mod 16"
    by (simp only: mod_mult2_eq mult_0_right add_0)
  then show ?thesis by (simp add: field_nat)
qed

lemma byte_class_op6: "drop_bit 12 (w :: u16) AND 3 = 0 \<Longrightarrow> unat (drop_bit 8 w AND 0x3F) < 16"
  using op6_of_class [of 8 w] by simp

lemma baseline_class_op6: "drop_bit 10 (w :: u16) AND 3 = 0 \<Longrightarrow> unat (drop_bit 6 w AND 0x3F) < 16"
  using op6_of_class [of 6 w] by simp

text \<open>The literal class of the 12-bit core has both class bits set, so its four-bit field is at least 12.\<close>

lemma baseline_literal_op:
  assumes "drop_bit 10 (w :: u16) AND 3 = 3"
  shows "12 \<le> unat (drop_bit 8 w AND 0xF)"
proof -
  from assms have "unat (drop_bit 10 w AND 3) = 3" by simp
  then have "unat w div 256 div 4 mod 4 = 3" by (simp add: field_nat div_mult2_eq [symmetric])
  then have "unat w div 256 mod (4 * 4) = 4 * 3 + unat w div 256 mod 4" by (simp only: mod_mult2_eq)
  then show ?thesis by (simp add: field_nat)
qed

text \<open>In the literal class of the 14-bit cores the low four bits of the opcode field determine it.\<close>

lemma op6_split:
  assumes "drop_bit 12 (w :: u16) AND 3 = 3"
  shows "drop_bit 8 w AND 0x3F = 0x30 + (drop_bit 8 w AND 0xF)"
proof -
  from assms have "unat (drop_bit 12 w AND 3) = 3" by simp
  then have h: "unat w div 256 div 16 mod 4 = 3" by (simp add: field_nat div_mult2_eq [symmetric])
  have "unat w div 256 mod (16 * 4) = 16 * 3 + unat w div 256 mod 16"
    by (simp only: mod_mult2_eq h)
  moreover have "unat w div 256 mod 16 < 16" by simp
  ultimately have "unat (drop_bit 8 w AND 0x3F) = unat (0x30 + (drop_bit 8 w AND 0xF))"
    by (simp add: field_nat unat_word_ariths)
  then show ?thesis by (simp add: word_eq_iff_unsigned [where ?'a = nat])
qed

lemma unat_less_not_bit:
  fixes w :: "'a::len word"
  assumes "unat w < 2 ^ n"
  shows "\<not> bit w n"
proof -
  have "unat (take_bit n w) = unat w" using assms by (simp only: unat_take_bit_mod mod_less)
  then have "take_bit n w = w" by (simp only: word_eq_iff_unsigned [where ?'a = nat])
  moreover have "\<not> bit (take_bit n w) n" by (simp only: bit_take_bit_iff) simp
  ultimately show ?thesis by simp
qed

text \<open>
  A decoder is a long chain of conditionals; a fact that holds of every arm is proved without
  carrying the conditions along.
\<close>

lemma if_SomeE:
  assumes "(if c then a else b) = Some x"
  obtains "a = Some x" | "b = Some x"
  using assms by (auto split: if_splits)

lemma unat_not_u8: "unat (NOT (x :: u8)) = 255 - unat x"
proof -
  have "NOT x = 255 - x" by (simp add: not_eq_complement)
  then have "unat (NOT x) = unat (255 :: u8) - unat x"
    by (simp only:) (rule unat_sub, simp add: word_le_nat_alt, use u8_less_256 [of x] in simp)
  then show ?thesis by simp
qed

lemma u8_high_nibble: "unat ((x :: u8) AND 0xF0) = unat x div 16 * 16"
proof -
  have "x AND 0xF0 = push_bit 4 (drop_bit 4 x)"
    by (rule byte_eqI) (simp_all add: bit_and_iff bit_push_bit_iff bit_drop_bit_eq)
  then have "unat (x AND 0xF0) = unat x div 16 * 16 mod 256"
    by (simp add: push_bit_eq_mult unat_word_ariths field_nat)
  moreover have "unat x div 16 * 16 < 256" using u8_less_256 [of x] by simp
  ultimately show ?thesis by simp
qed

text \<open>A 32-bit word whose top byte is clear, bit by bit and byte by byte.\<close>

lemma u32_byte_cases:
  fixes n :: nat
  obtains "n < 8" | k where "n = 8 + k" "k < 8" | k where "n = 16 + k" "k < 8" | "24 \<le> n"
proof -
  consider "n < 8" | "8 \<le> n" "n < 16" | "16 \<le> n" "n < 24" | "24 \<le> n" by linarith
  then show thesis
    using that(1) that(2) [of "n - 8"] that(3) [of "n - 16"] that(4) by cases auto
qed

lemma top_byte_clear: "drop_bit 24 (v :: u32) = 0 \<Longrightarrow> 24 \<le> n \<Longrightarrow> \<not> bit v n"
proof -
  assume "drop_bit 24 v = 0" "24 \<le> n"
  then have "\<not> bit (drop_bit 24 v) (n - 24)" by simp
  with \<open>24 \<le> n\<close> show ?thesis by (simp add: bit_drop_bit_eq)
qed

lemma u32_ff_mask: "(0xFF :: u32) = mask 8"
  by (simp add: mask_eq_exp_minus_1)

lemmas bit_fields = bit_or_iff bit_and_iff bit_not_iff bit_push_bit_iff bit_mask_iff bit_ucast_iff
  bit_unsigned_iff bit_drop_bit_eq

section \<open>Joining fields\<close>

lemma join_bits_word: "push_bit n (drop_bit n w) OR take_bit n w = (w :: 'a::len word)"
  by (rule bit_eqI) (auto simp: bit_or_iff bit_push_bit_iff bit_drop_bit_eq bit_take_bit_iff)

lemma join_bits_nat: "push_bit n (drop_bit n w) OR take_bit n w = (w :: nat)"
  by (rule bit_eqI) (auto simp: bit_or_iff bit_push_bit_iff bit_drop_bit_eq bit_take_bit_iff)

lemmas join_bits = join_bits_word join_bits_nat

lemma nat_and_ff: "(a :: nat) AND 0xFF = a mod 256"
  using take_bit_eq_mask [of 8 a] by (simp add: mask_eq_exp_minus_1 take_bit_eq_mod)

lemma or_eq_add:
  assumes "b < 2 ^ n"
  shows "push_bit n (of_nat a) OR of_nat b = (of_nat (a * 2 ^ n + b) :: 'a::len word)"
proof -
  have "take_bit n (a * 2 ^ n + b) = b" "drop_bit n (a * 2 ^ n + b) = a"
    using assms by (simp_all add: take_bit_eq_mod drop_bit_eq_div)
  then have "push_bit n a OR b = a * 2 ^ n + b" using join_bits_nat [of n "a * 2 ^ n + b"] by simp
  then show ?thesis by (metis of_nat_or_eq push_bit_of_nat)
qed

end
