(* ===== verification/Device.thy ===== *)
theory Device
  imports Prelude
begin

text \<open>
  \<^verbatim>\<open>crates/device\<close>: the per-part memory facts (\<open>Device\<close>) and the two address queries the allocator,
  the banking pass and the simulators ask of them, \<open>region_for\<close> and \<open>bank_of\<close>. The device table
  itself is generated from TOML by the build, so a device is an argument of the model; the parts
  used in witnesses copy their numbers from \<^verbatim>\<open>crates/device/devices/*.toml\<close>.
  The flash, config and interrupt-vector fields have their own readers elsewhere and are kept in the
  record; the SFR name table (\<open>sfrs\<close>) is read by no modelled code and is left out.
\<close>

datatype core = Pic14 | Pic18 | Pic14e | PicBaseline

record device =
  dev_name :: string
  dev_core :: core
  flash_words :: nat
  ram_banks :: "(u16 \<times> u16) list"
  common_ram :: "(u16 \<times> u16) option"
  access_bank :: "(u16 \<times> u16) option"
  fixed_retval :: "(u16 \<times> u16) option"
  isr_w_shadow :: "u16 option"
  isr_home_window :: "(u16 \<times> u16) option"
  stack_depth :: nat
  fsr_bank_bits :: nat
  interrupt_vectors :: "u16 list"

definition in_window :: "(u16 \<times> u16) option \<Rightarrow> u16 \<Rightarrow> bool" where
  "in_window w a = (case w of None \<Rightarrow> False | Some (lo, hi) \<Rightarrow> lo \<le> a \<and> a \<le> hi)"

definition mirrored_sfrs :: "u16 list" where
  "mirrored_sfrs = [0x00, 0x02, 0x03, 0x04, 0x0A, 0x0B]"

definition mirrored_sfrs_pic14e :: "u16 list" where
  "mirrored_sfrs_pic14e =
     [0x00, 0x01, 0x02, 0x03, 0x04, 0x05, 0x06, 0x07, 0x08, 0x09, 0x0A, 0x0B]"

definition mirrored_sfrs_pic_baseline :: "u16 list" where
  "mirrored_sfrs_pic_baseline = [0x00, 0x01, 0x02, 0x03, 0x04, 0x05, 0x06]"

text \<open>\<open>self.ram_banks[0].0\<close>: an empty bank list is an index panic.\<close>

definition gpr_start :: "device \<Rightarrow> u16 option" where
  "gpr_start d = (case ram_banks d of [] \<Rightarrow> None | (s, _) # _ \<Rightarrow> Some s)"

definition region_for :: "device \<Rightarrow> u16 \<Rightarrow> (u16 \<times> u16) option" where
  "region_for d a = find (\<lambda>(_, e). a \<le> e) (ram_banks d)"

text \<open>The \<open>enumerate\<close> loop of \<open>bank_of\<close>: the index of the first bank that holds the address.\<close>

fun bank_index :: "nat \<Rightarrow> (u16 \<times> u16) list \<Rightarrow> u16 \<Rightarrow> nat option" where
  "bank_index i [] a = None"
| "bank_index i ((s, e) # bs) a =
     (if s \<le> a \<and> a \<le> e then Some i else bank_index (Suc i) bs a)"

text \<open>
  \<open>bank_of\<close>: the outer option is the panic, the inner one the code's own \<open>Option<u8>\<close>
  (\<open>Some None\<close> is an address that needs no bank select).
\<close>

definition bank_of :: "device \<Rightarrow> u16 \<Rightarrow> u8 option option" where
  "bank_of d a =
     (if in_window (common_ram d) a then Some None
      else if in_window (fixed_retval d) a then Some None
      else if (case isr_w_shadow d of None \<Rightarrow> False | Some w \<Rightarrow> a AND 0x7F = w AND 0x7F) then Some None
      else case bank_index 0 (ram_banks d) a of
        Some i \<Rightarrow> Some (Some (of_nat i))
      | None \<Rightarrow> do {
          g \<leftarrow> gpr_start d;
          if a < g then
            (let mirrored = (case dev_core d of
                 Pic14e \<Rightarrow> mirrored_sfrs_pic14e
               | PicBaseline \<Rightarrow> mirrored_sfrs_pic_baseline
               | _ \<Rightarrow> mirrored_sfrs)
             in Some (if a \<in> set mirrored then None else Some 0))
          else if dev_core d = Pic14 \<or> dev_core d = Pic14e then
            (if in_window (common_ram d) (a AND 0x7F) then None
             else Some (Some (ucast (drop_bit 7 a))))
          else None
        })"

section \<open>Four parts of the device table\<close>

definition p16f877a :: device where
  "p16f877a = \<lparr>dev_name = ''p16f877a'', dev_core = Pic14, flash_words = 8192,
     ram_banks = [(0x20, 0x6F), (0xA0, 0xEF), (0x110, 0x16F), (0x190, 0x1EF)],
     common_ram = Some (0x70, 0x7F), access_bank = None, fixed_retval = None,
     isr_w_shadow = None, isr_home_window = None, stack_depth = 8, fsr_bank_bits = 0,
     interrupt_vectors = [4]\<rparr>"

definition p16f1938 :: device where
  "p16f1938 = \<lparr>dev_name = ''p16f1938'', dev_core = Pic14e, flash_words = 16384,
     ram_banks = [(0x0020, 0x006F), (0x00A0, 0x00EF), (0x0120, 0x016F), (0x01A0, 0x01EF),
       (0x0220, 0x026F), (0x02A0, 0x02EF), (0x0320, 0x036F), (0x03A0, 0x03EF), (0x0420, 0x046F),
       (0x04A0, 0x04EF), (0x0520, 0x056F), (0x05A0, 0x05EF), (0x0620, 0x064F)],
     common_ram = Some (0x70, 0x7F), access_bank = None, fixed_retval = None,
     isr_w_shadow = None, isr_home_window = None, stack_depth = 16, fsr_bank_bits = 0,
     interrupt_vectors = [4]\<rparr>"

definition p18f4550 :: device where
  "p18f4550 = \<lparr>dev_name = ''p18f4550'', dev_core = Pic18, flash_words = 16384,
     ram_banks = [(0x0010, 0x07FF)],
     common_ram = None, access_bank = Some (0x0000, 0x005F), fixed_retval = Some (0x0000, 0x000F),
     isr_w_shadow = None, isr_home_window = None, stack_depth = 31, fsr_bank_bits = 0,
     interrupt_vectors = [8, 0x18]\<rparr>"

definition p12f509 :: device where
  "p12f509 = \<lparr>dev_name = ''p12f509'', dev_core = PicBaseline, flash_words = 1024,
     ram_banks = [(0x10, 0x1F), (0x30, 0x3F)],
     common_ram = Some (0x07, 0x0F), access_bank = None, fixed_retval = None,
     isr_w_shadow = None, isr_home_window = None, stack_depth = 2, fsr_bank_bits = 1,
     interrupt_vectors = []\<rparr>"

section \<open>Facts about the bank search\<close>

lemma bank_index_Some:
  "bank_index i bs a = Some j \<Longrightarrow>
     i \<le> j \<and> j < i + length bs \<and> fst (bs ! (j - i)) \<le> a \<and> a \<le> snd (bs ! (j - i))"
  by (induction i bs a rule: bank_index.induct)
    (auto split: if_splits simp: nth_Cons' Suc_diff_le)

lemma bank_index_None:
  "bank_index i bs a = None \<longleftrightarrow> (\<forall>(s, e) \<in> set bs. \<not> (s \<le> a \<and> a \<le> e))"
  by (induction i bs a rule: bank_index.induct) auto

end
