(* ===== verification/Eeprom.thy ===== *)
theory Eeprom
  imports Prelude
begin

text \<open>
  The data-EEPROM cell array the three larger cores share (\<open>Eeprom\<close> in \<^verbatim>\<open>crates/sim/src/lib.rs\<close>):
  256 cells behind EEADR/EEDATA/EECON1/EECON2, with the 0x55/0xAA unlock sequence. The cells are
  indexed by a byte, so the array read of the code can never be out of range.
\<close>

record eeprom =
  ee_cells :: "u8 \<Rightarrow> u8"
  ee_seq :: u8

definition ee_new :: eeprom where
  "ee_new = \<lparr>ee_cells = (\<lambda>_. 0xFF), ee_seq = 0\<rparr>"

text \<open>
  \<open>on_store\<close>: the new array, the new EEDATA value (the code's \<open>&mut eedata\<close>) and the code's
  result, the value to store or \<^const>\<open>None\<close> when the store is not an EEPROM register's.
\<close>

definition ee_unlock :: "u8 \<Rightarrow> u8 \<Rightarrow> u8" where
  "ee_unlock q v = (if q = 0 \<and> v = 0x55 then 1 else if q = 1 \<and> v = 0xAA then 2 else 0)"

definition ee_on_store ::
  "eeprom \<Rightarrow> nat \<Rightarrow> nat \<Rightarrow> nat \<Rightarrow> u8 \<Rightarrow> u8 \<Rightarrow> u8 \<Rightarrow> bool \<Rightarrow> eeprom \<times> u8 \<times> u8 option" where
  "ee_on_store e reg con1 con2 v eeadr eedata wren =
     (if reg = con2 then (e\<lparr>ee_seq := ee_unlock (ee_seq e) v\<rparr>, eedata, Some v)
      else if reg \<noteq> con1 then (e, eedata, None)
      else if v AND 0xC0 \<noteq> 0 then (e\<lparr>ee_seq := 0\<rparr>, eedata, Some v)
      else
        let eedata1 = (if v AND 1 \<noteq> 0 then ee_cells e eeadr else eedata);
            out1 = (if v AND 1 \<noteq> 0 then v AND NOT 1 else v);
            e1 = (if v AND 2 \<noteq> 0 then
                    (if wren \<and> ee_seq e = 2
                     then e\<lparr>ee_cells := (ee_cells e)(eeadr := eedata1), ee_seq := 0\<rparr>
                     else e\<lparr>ee_seq := 0\<rparr>)
                  else e);
            out2 = (if v AND 2 \<noteq> 0 then out1 AND NOT 2 else out1)
        in (e1, eedata1, Some out2))"

section \<open>What a store can do to the cells\<close>

lemma ee_on_store_cells:
  "ee_cells (fst (ee_on_store e reg con1 con2 v a d wren)) =
     (if reg \<noteq> con2 \<and> reg = con1 \<and> v AND 0xC0 = 0 \<and> v AND 2 \<noteq> 0 \<and> wren \<and> ee_seq e = 2
      then (ee_cells e)(a := (if v AND 1 \<noteq> 0 then ee_cells e a else d))
      else ee_cells e)"
  by (auto simp: ee_on_store_def Let_def)

lemma ee_on_store_seq:
  "ee_seq (fst (ee_on_store e reg con1 con2 v a d wren)) =
     (if reg = con2 then ee_unlock (ee_seq e) v
      else if reg = con1 \<and> (v AND 0xC0 \<noteq> 0 \<or> v AND 2 \<noteq> 0) then 0
      else ee_seq e)"
  by (auto simp: ee_on_store_def Let_def)

lemma ee_on_store_None:
  "snd (snd (ee_on_store e reg con1 con2 v a d wren)) = None \<longleftrightarrow> reg \<noteq> con1 \<and> reg \<noteq> con2"
  by (auto simp: ee_on_store_def Let_def)

lemma ee_unlock_armed: "ee_unlock q v = 2 \<longleftrightarrow> q = 1 \<and> v = 0xAA"
  by (auto simp: ee_unlock_def)

lemma ee_unlock_started: "ee_unlock q v = 1 \<longleftrightarrow> q = 0 \<and> v = 0x55"
  by (auto simp: ee_unlock_def)

section \<open>The cell array over a history of stores\<close>

text \<open>
  A store as the register file sees it: the register (EECON1, EECON2), the value, and the values
  EEADR, EEDATA and WREN have when it happens.
\<close>

datatype ee_event = Con1 u8 u8 u8 bool | Con2 u8

fun ee_step :: "eeprom \<Rightarrow> ee_event \<Rightarrow> eeprom" where
  "ee_step e (Con1 v a d wren) = fst (ee_on_store e 1 1 2 v a d wren)"
| "ee_step e (Con2 v) = fst (ee_on_store e 2 1 2 v 0 0 False)"

fun ee_run :: "eeprom \<Rightarrow> ee_event list \<Rightarrow> eeprom" where
  "ee_run e [] = e"
| "ee_run e (x # xs) = ee_run (ee_step e x) xs"

lemma ee_run_append: "ee_run e (xs @ ys) = ee_run (ee_run e xs) ys"
  by (induction xs arbitrary: e) auto

text \<open>A write command that does not divert to flash: EEPGD and CFGS clear, WR set.\<close>

definition is_commit :: "ee_event \<Rightarrow> bool" where
  "is_commit x = (case x of Con1 v _ _ wren \<Rightarrow> v AND 0xC0 = 0 \<and> v AND 2 \<noteq> 0 \<and> wren | _ \<Rightarrow> False)"

text \<open>A read-only use of EECON1, which leaves the unlock sequence alone.\<close>

definition is_quiet :: "ee_event \<Rightarrow> bool" where
  "is_quiet x = (case x of Con1 v _ _ _ \<Rightarrow> v AND 0xC0 = 0 \<and> v AND 2 = 0 | _ \<Rightarrow> False)"

lemma ee_step_cells: "ee_cells (ee_step e x) \<noteq> ee_cells e \<Longrightarrow> is_commit x \<and> ee_seq e = 2"
  by (cases x) (auto simp: ee_on_store_cells is_commit_def split: if_splits)

lemma ee_step_seq:
  "ee_seq (ee_step e x) =
     (case x of Con2 v \<Rightarrow> ee_unlock (ee_seq e) v | Con1 _ _ _ _ \<Rightarrow> if is_quiet x then ee_seq e else 0)"
  by (cases x) (auto simp: ee_on_store_seq is_quiet_def)

text \<open>
  The states the unlock automaton passes through: \<open>ee_seq = 2\<close> only after an EECON2 store of 0x55,
  quiet EECON1 stores, an EECON2 store of 0xAA and again quiet stores.
\<close>

definition started :: "ee_event list \<Rightarrow> bool" where
  "started h = (\<exists>h1 q1. h = h1 @ Con2 0x55 # q1 \<and> list_all is_quiet q1)"

definition armed :: "ee_event list \<Rightarrow> bool" where
  "armed h = (\<exists>h1 q1 q2. h = h1 @ Con2 0x55 # q1 @ Con2 0xAA # q2 \<and>
                list_all is_quiet q1 \<and> list_all is_quiet q2)"

lemma started_snoc_quiet:
  assumes "started h" and "is_quiet x"
  shows "started (h @ [x])"
proof -
  from assms(1) obtain h1 q1 where "h = h1 @ Con2 0x55 # q1" and "list_all is_quiet q1"
    by (auto simp: started_def)
  with assms(2) have "h @ [x] = h1 @ Con2 0x55 # (q1 @ [x]) \<and> list_all is_quiet (q1 @ [x])" by simp
  then show ?thesis unfolding started_def by blast
qed

lemma armed_snoc_quiet:
  assumes "armed h" and "is_quiet x"
  shows "armed (h @ [x])"
proof -
  from assms(1) obtain h1 q1 q2 where "h = h1 @ Con2 0x55 # q1 @ Con2 0xAA # q2"
    and "list_all is_quiet q1" and "list_all is_quiet q2"
    by (auto simp: armed_def)
  with assms(2) have "h @ [x] = h1 @ Con2 0x55 # q1 @ Con2 0xAA # (q2 @ [x]) \<and>
      list_all is_quiet q1 \<and> list_all is_quiet (q2 @ [x])" by simp
  then show ?thesis unfolding armed_def by blast
qed

lemma armed_snoc_AA:
  assumes "started h"
  shows "armed (h @ [Con2 0xAA])"
proof -
  from assms obtain h1 q1 where "h = h1 @ Con2 0x55 # q1" and "list_all is_quiet q1"
    by (auto simp: started_def)
  then have "h @ [Con2 0xAA] = h1 @ Con2 0x55 # q1 @ Con2 0xAA # [] \<and>
      list_all is_quiet q1 \<and> list_all is_quiet []" by simp
  then show ?thesis unfolding armed_def by blast
qed

lemma started_snoc_55: "started (h @ [Con2 0x55])"
proof -
  have "h @ [Con2 0x55] = h @ Con2 0x55 # [] \<and> list_all is_quiet []" by simp
  then show ?thesis unfolding started_def by blast
qed

lemma ee_seq_history:
  assumes "ee_seq e = 0"
  shows "(ee_seq (ee_run e h) = 1 \<longrightarrow> started h) \<and> (ee_seq (ee_run e h) = 2 \<longrightarrow> armed h)"
proof (induction h rule: rev_induct)
  case Nil
  show ?case using assms by simp
next
  case (snoc x h)
  let ?q = "ee_seq (ee_run e h)"
  have eq: "ee_seq (ee_run e (h @ [x])) =
     (case x of Con2 v \<Rightarrow> ee_unlock ?q v | Con1 _ _ _ _ \<Rightarrow> if is_quiet x then ?q else 0)"
    by (simp add: ee_run_append ee_step_seq)
  show ?case
  proof (cases x)
    case (Con2 v)
    with eq have "ee_seq (ee_run e (h @ [x])) = ee_unlock ?q v" by simp
    with snoc Con2 show ?thesis
      by (auto simp: ee_unlock_armed ee_unlock_started armed_snoc_AA started_snoc_55)
  next
    case (Con1 v a d wr)
    with eq have "ee_seq (ee_run e (h @ [x])) = (if is_quiet x then ?q else 0)" by simp
    with snoc show ?thesis
      by (auto simp: started_snoc_quiet armed_snoc_quiet)
  qed
qed

end
