(* ===== verification/Timing.thy ===== *)
theory Timing
  imports Prelude
begin

text \<open>
  The parts of \<^verbatim>\<open>crates/sim/src/lib.rs\<close> the four cores share: the cycle cost of a step, the
  prescaler loop of the timers, the reason \<open>run_until\<close> stops, and the two bounded run loops. The
  locale \<open>sim_core\<close> states what a core promises of its step function, and derives once what
  \<open>run\<close> and \<open>run_until\<close> then guarantee; each core's theory interprets it on its own step.
\<close>

section \<open>Cycle costs\<close>

definition cost14_masked :: "u16 \<Rightarrow> u16 \<Rightarrow> u16 \<Rightarrow> u16 \<Rightarrow> u16 \<Rightarrow> nat" where
  "cost14_masked word pc next msk cls =
     (if word AND msk = cls then 2 else if next = pc + 1 then 1 else 2)"

definition cost14 :: "u16 \<Rightarrow> u16 \<Rightarrow> u16 \<Rightarrow> nat" where
  "cost14 word pc next = cost14_masked word pc next 0x3000 0x2000"

definition cost18 :: "u16 \<Rightarrow> u32 \<Rightarrow> u32 \<Rightarrow> bool \<Rightarrow> nat" where
  "cost18 word pc next jumped =
     (if jumped then 2
      else if word = 0x0003 \<or> word = 0x00FF then 1
      else if word = 0x0005 \<or> word = 0x0006 then 2
      else if 0x0008 \<le> word \<and> word \<le> 0x000F then 2
      else if 0xEC00 \<le> word \<and> word \<le> 0xEFFF then 2
      else if next = pc + 2 then 1
      else if next = pc + 4 then 2
      else if next = pc + 6 then 3
      else 2)"

lemma cost14_masked_bounds: "1 \<le> cost14_masked w p n m c \<and> cost14_masked w p n m c \<le> 2"
  by (simp add: cost14_masked_def)

lemma cost14_bounds: "1 \<le> cost14 w p n \<and> cost14 w p n \<le> 2"
  by (simp add: cost14_def cost14_masked_def)

lemma cost18_bounds: "1 \<le> cost18 w p n j \<and> cost18 w p n j \<le> 3"
  by (simp add: cost18_def)

section \<open>The prescaler loop\<close>

text \<open>
  \<open>while acc >= rate { acc -= rate; body }\<close>, the loop of every timer tick. The rate the code
  computes is never 0 (it is 1 or a power of two, or a product of positive factors); the guard
  \<open>0 < rate\<close> only makes the recursion total.
\<close>

function tick_loop :: "nat \<Rightarrow> ('s \<Rightarrow> 's) \<Rightarrow> nat \<Rightarrow> 's \<Rightarrow> nat \<times> 's" where
  "tick_loop rate body acc s =
     (if 0 < rate \<and> rate \<le> acc then tick_loop rate body (acc - rate) (body s) else (acc, s))"
  by pat_completeness auto
termination
  by (relation "measure (\<lambda>(rate, body, acc, s). acc)") auto

declare tick_loop.simps [simp del]

lemma tick_loop_eq:
  "0 < rate \<Longrightarrow> tick_loop rate body acc s = (acc mod rate, (body ^^ (acc div rate)) s)"
proof (induction rate body acc s rule: tick_loop.induct)
  case (1 rate body acc s)
  show ?case
  proof (cases "rate \<le> acc")
    case True
    with "1.IH" "1.prems" have "tick_loop rate body (acc - rate) (body s) =
        ((acc - rate) mod rate, (body ^^ ((acc - rate) div rate)) (body s))" by simp
    with True "1.prems" show ?thesis
      by (simp add: tick_loop.simps [of rate body acc] le_mod_geq le_div_geq
          funpow_swap1 [symmetric])
  next
    case False
    then show ?thesis by (simp add: tick_loop.simps [of rate body acc])
  qed
qed

lemma funpow_invariant: "(\<And>s. g (f s) = g s) \<Longrightarrow> g ((f ^^ n) s) = g s"
  by (induction n) auto

lemma tick_loop_invariant:
  "(\<And>s. g (body s) = g s) \<Longrightarrow> 0 < rate \<Longrightarrow> g (snd (tick_loop rate body acc s)) = g s"
  by (simp add: tick_loop_eq funpow_invariant)

section \<open>Running a core\<close>

datatype stop_reason = Reached | Halted | Capped

text \<open>\<open>run\<close>: the number of steps taken and the final state, \<^const>\<open>None\<close> when a step panics.\<close>

fun run_loop :: "('s \<Rightarrow> 's option) \<Rightarrow> ('s \<Rightarrow> bool) \<Rightarrow> nat \<Rightarrow> 's \<Rightarrow> (nat \<times> 's) option" where
  "run_loop step halted 0 s = Some (0, s)"
| "run_loop step halted (Suc n) s =
     (if halted s then Some (0, s)
      else do {
        s' \<leftarrow> step s;
        (k, t) \<leftarrow> run_loop step halted n s';
        Some (Suc k, t)
      })"

text \<open>\<open>run_until\<close>: the checks in the code's order, target first.\<close>

fun run_until_loop ::
  "('s \<Rightarrow> 's option) \<Rightarrow> ('s \<Rightarrow> bool) \<Rightarrow> ('s \<Rightarrow> 'a) \<Rightarrow> 'a \<Rightarrow> nat \<Rightarrow> 's \<Rightarrow> (stop_reason \<times> 's) option" where
  "run_until_loop step halted pc target 0 s =
     Some (if pc s = target then Reached else if halted s then Halted else Capped, s)"
| "run_until_loop step halted pc target (Suc n) s =
     (if pc s = target then Some (Reached, s)
      else if halted s then Some (Halted, s)
      else do { s' \<leftarrow> step s; run_until_loop step halted pc target n s' })"

section \<open>What a core promises, and what the run loops then guarantee\<close>

locale sim_core =
  fixes step :: "'s \<Rightarrow> 's option"
    and halted :: "'s \<Rightarrow> bool"
    and pc :: "'s \<Rightarrow> 'a"
    and prog :: "'s \<Rightarrow> u16 list"
    and cycles :: "'s \<Rightarrow> nat"
    and inv :: "'s \<Rightarrow> bool"
    and max_cost :: nat
  assumes step_prog: "step s = Some s' \<Longrightarrow> prog s' = prog s"
    and step_cycles: "step s = Some s' \<Longrightarrow> cycles s < cycles s' \<and> cycles s' \<le> cycles s + max_cost"
    and step_inv: "inv s \<Longrightarrow> step s = Some s' \<Longrightarrow> inv s'"
begin

lemma run_facts:
  "run_loop step halted n s = Some (k, t) \<Longrightarrow>
     k \<le> n \<and> prog t = prog s \<and> cycles s + k \<le> cycles t \<and> cycles t \<le> cycles s + max_cost * k \<and>
     (inv s \<longrightarrow> inv t) \<and> (k < n \<longrightarrow> halted t)"
proof (induction n arbitrary: s k)
  case 0
  then show ?case by auto
next
  case (Suc n)
  show ?case
  proof (cases "halted s")
    case True
    with Suc.prems show ?thesis by auto
  next
    case False
    with Suc.prems obtain s' j where s': "step s = Some s'"
      and r: "run_loop step halted n s' = Some (j, t)" and k: "k = Suc j"
      by (auto split: Option.bind_splits prod.splits)
    show ?thesis
      using Suc.IH [OF r] step_prog [OF s'] step_cycles [OF s'] step_inv [OF _ s'] k by auto
  qed
qed

lemma run_until_facts:
  "run_until_loop step halted pc target n s = Some (r, t) \<Longrightarrow>
     prog t = prog s \<and> cycles s \<le> cycles t \<and> cycles t \<le> cycles s + max_cost * n \<and> (inv s \<longrightarrow> inv t) \<and>
     (r = Reached \<longrightarrow> pc t = target) \<and>
     (r = Halted \<longrightarrow> halted t \<and> pc t \<noteq> target) \<and>
     (r = Capped \<longrightarrow> \<not> halted t \<and> pc t \<noteq> target \<and> cycles s + n \<le> cycles t)"
proof (induction n arbitrary: s)
  case 0
  then show ?case by (auto split: if_splits)
next
  case (Suc n)
  show ?case
  proof (cases "pc s = target \<or> halted s")
    case True
    with Suc.prems show ?thesis by (auto split: if_splits)
  next
    case False
    with Suc.prems obtain s' where s': "step s = Some s'"
      and r: "run_until_loop step halted pc target n s' = Some (r, t)"
      by (auto split: Option.bind_splits)
    show ?thesis
      using Suc.IH [OF r] step_prog [OF s'] step_cycles [OF s'] step_inv [OF _ s'] by auto
  qed
qed

text \<open>A run of \<open>m + n\<close> steps is a run of \<open>m\<close> followed by a run of \<open>n\<close>.\<close>

lemma run_split:
  "run_loop step halted (m + n) s =
     do { (j, s') \<leftarrow> run_loop step halted m s;
          (k, t) \<leftarrow> run_loop step halted n s';
          Some (j + k, t) }"
proof (induction m arbitrary: s)
  case 0
  show ?case by (auto split: Option.bind_splits prod.splits)
next
  case (Suc m)
  show ?case
  proof (cases "halted s")
    case True
    then show ?thesis by (cases n) simp_all
  next
    case False
    then show ?thesis
      by (cases "step s") (auto simp: Suc.IH split: Option.bind_splits prod.splits)
  qed
qed

end

text \<open>A core whose step never panics from a state of its invariant.\<close>

locale total_core = sim_core +
  assumes progress: "inv s \<Longrightarrow> \<not> halted s \<Longrightarrow> \<exists>s'. step s = Some s'"
begin

lemma run_total: "inv s \<Longrightarrow> \<exists>k t. run_loop step halted n s = Some (k, t)"
proof (induction n arbitrary: s)
  case 0
  show ?case by simp
next
  case (Suc n)
  show ?case
  proof (cases "halted s")
    case True
    then show ?thesis by simp
  next
    case False
    with Suc.prems obtain s' where s': "step s = Some s'" using progress by blast
    with Suc.prems have "inv s'" using step_inv by blast
    then obtain k t where "run_loop step halted n s' = Some (k, t)" using Suc.IH by blast
    with False s' show ?thesis by auto
  qed
qed

lemma run_until_total: "inv s \<Longrightarrow> \<exists>r t. run_until_loop step halted pc target n s = Some (r, t)"
proof (induction n arbitrary: s)
  case 0
  show ?case by simp
next
  case (Suc n)
  show ?case
  proof (cases "pc s = target \<or> halted s")
    case True
    then show ?thesis by auto
  next
    case False
    with Suc.prems obtain s' where s': "step s = Some s'" using progress by blast
    with Suc.prems have "inv s'" using step_inv by blast
    then obtain r t where "run_until_loop step halted pc target n s' = Some (r, t)"
      using Suc.IH by blast
    with False s' show ?thesis by auto
  qed
qed

end

end
