(* ===== verification/Sim14.thy ===== *)
theory Sim14
  imports Device Eeprom Timing
begin

text \<open>
  \<open>Pic14\<close>, the classic 14-bit core of \<^verbatim>\<open>crates/sim/src/lib.rs\<close>. The register file
  \<open>ram: [u8; 512]\<close> is a function on addresses; every address the core forms is below 512
  (\<open>p14_indirect_addr_bound\<close>, \<open>p14_banked_addr_bound\<close> in Sim14Facts). The hardware stack is a list with
  its top first. A step is \<^const>\<open>None\<close> where the code panics: the fetch past the end of the program
  and the words 0x3B00 to 0x3BFF, the arm of \<open>exec_literal\<close> the code calls unreachable.
\<close>

record pic14 =
  p14_device :: device
  p14_prog :: "u16 list"
  p14_ram :: "nat \<Rightarrow> u8"
  p14_w :: u8
  p14_pc :: u16
  p14_stack :: "u16 list"
  p14_halted :: bool
  p14_cycles :: nat
  p14_pending :: bool
  p14_timer0_acc :: nat
  p14_timer0_enabled :: bool
  p14_timer0_pending :: bool
  p14_eeprom :: eeprom
  p14_adc_left :: nat

section \<open>Register addresses and reset values\<close>

abbreviation (input) INTCON :: nat where "INTCON \<equiv> 0x0B"
abbreviation (input) GIE :: u8 where "GIE \<equiv> 0x80"
abbreviation (input) INTE :: u8 where "INTE \<equiv> 0x10"
abbreviation (input) INTF :: u8 where "INTF \<equiv> 0x02"
abbreviation (input) VECTOR :: u16 where "VECTOR \<equiv> 4"
abbreviation (input) PIC14_TMR0 :: nat where "PIC14_TMR0 \<equiv> 0x01"
abbreviation (input) PIC14_OPTION_REG :: nat where "PIC14_OPTION_REG \<equiv> 0x81"
abbreviation (input) PIC14_T0IE :: u8 where "PIC14_T0IE \<equiv> 0x20"
abbreviation (input) PIC14_T0IF :: u8 where "PIC14_T0IF \<equiv> 0x04"
abbreviation (input) PIC14_ADCON0 :: nat where "PIC14_ADCON0 \<equiv> 0x1F"
abbreviation (input) PIC14_ADCON0_GO :: u8 where "PIC14_ADCON0_GO \<equiv> 0x04"
abbreviation (input) PIC14_ADRESH :: nat where "PIC14_ADRESH \<equiv> 0x1E"
abbreviation (input) PIC14_ADRESL :: nat where "PIC14_ADRESL \<equiv> 0x9E"
abbreviation (input) PIC14_ADCON1 :: nat where "PIC14_ADCON1 \<equiv> 0x9F"
abbreviation (input) PIC14_CMCON :: nat where "PIC14_CMCON \<equiv> 0x9C"
abbreviation (input) ADC_CONVERSION_CYCLES :: nat where "ADC_CONVERSION_CYCLES \<equiv> 16"
abbreviation (input) ADC_RESULT_HI :: u8 where "ADC_RESULT_HI \<equiv> 0x80"
abbreviation (input) ADC_RESULT_LO :: u8 where "ADC_RESULT_LO \<equiv> 0x00"
abbreviation (input) PIC14_EEDATA :: nat where "PIC14_EEDATA \<equiv> 0x10C"
abbreviation (input) PIC14_EEADR :: nat where "PIC14_EEADR \<equiv> 0x10D"
abbreviation (input) PIC14_EECON1 :: nat where "PIC14_EECON1 \<equiv> 0x18C"
abbreviation (input) PIC14_EECON2 :: nat where "PIC14_EECON2 \<equiv> 0x18D"

definition pic14_por :: "(nat \<times> u8) list" where
  "pic14_por =
    [(0x03, 0x18), (PIC14_OPTION_REG, 0xFF), (0x85, 0x3F), (0x86, 0xFF), (0x87, 0xFF),
     (0x88, 0xFF), (0x89, 0x07), (0x92, 0xFF), (0x98, 0x02),
     (PIC14_ADCON0, 0x00), (PIC14_ADCON1, 0x00), (PIC14_CMCON, 0x07)]"

text \<open>The reset loops \<open>for &(addr, v) in POR { ram[addr] = v }\<close> of the three cores.\<close>

definition apply_por :: "(nat \<times> u8) list \<Rightarrow> (nat \<Rightarrow> u8) \<Rightarrow> (nat \<Rightarrow> u8)" where
  "apply_por por ram = foldl (\<lambda>r (a, v). r(a := v)) ram por"

definition p14_with_device :: "device \<Rightarrow> u16 list \<Rightarrow> pic14" where
  "p14_with_device d prog =
     \<lparr>p14_device = d, p14_prog = prog, p14_ram = apply_por pic14_por (\<lambda>_. 0),
      p14_w = 0, p14_pc = 0, p14_stack = [], p14_halted = False, p14_cycles = 0,
      p14_pending = False, p14_timer0_acc = 0, p14_timer0_enabled = False,
      p14_timer0_pending = False, p14_eeprom = ee_new, p14_adc_left = 0\<rparr>"

definition p14_set_timer0_enabled :: "pic14 \<Rightarrow> bool \<Rightarrow> pic14" where
  "p14_set_timer0_enabled s e = s\<lparr>p14_timer0_enabled := e\<rparr>"

text \<open>\<open>self.ram[a] = v\<close>.\<close>

definition p14_poke :: "pic14 \<Rightarrow> nat \<Rightarrow> u8 \<Rightarrow> pic14" where
  "p14_poke s a v = s\<lparr>p14_ram := (p14_ram s)(a := v)\<rparr>"

section \<open>Interrupts\<close>

definition p14_request_interrupt :: "pic14 \<Rightarrow> pic14" where
  "p14_request_interrupt s = (p14_poke s INTCON (p14_ram s INTCON OR INTF))\<lparr>p14_pending := True\<rparr>"

definition p14_interrupt_pending :: "pic14 \<Rightarrow> bool" where
  "p14_interrupt_pending s \<longleftrightarrow> p14_pending s \<or> p14_timer0_pending s"

definition p14_enter_isr :: "pic14 \<Rightarrow> pic14" where
  "p14_enter_isr s =
     (p14_poke (s\<lparr>p14_stack := p14_pc s # p14_stack s\<rparr>) INTCON (p14_ram s INTCON AND NOT GIE))
       \<lparr>p14_pc := VECTOR\<rparr>"

definition p14_fire_interrupt :: "pic14 \<Rightarrow> pic14" where
  "p14_fire_interrupt s = p14_enter_isr s"

definition p14_interrupt_ready :: "pic14 \<Rightarrow> bool" where
  "p14_interrupt_ready s \<longleftrightarrow>
     (let intcon = p14_ram s INTCON in
      intcon AND GIE \<noteq> 0 \<and>
      ((p14_pending s \<and> intcon AND INTE \<noteq> 0) \<or> (p14_timer0_pending s \<and> intcon AND PIC14_T0IE \<noteq> 0)))"

section \<open>Timer0 and the ADC stub\<close>

definition timer0_rate :: "u8 \<Rightarrow> nat" where
  "timer0_rate option_reg =
     (if option_reg AND 0x08 \<noteq> 0 then 1 else 2 ^ (unat (option_reg AND 0x07) + 1))"

definition p14_timer0_tick :: "pic14 \<Rightarrow> pic14" where
  "p14_timer0_tick s =
     (let v = p14_ram s PIC14_TMR0 + 1;
          s1 = p14_poke s PIC14_TMR0 v
      in if p14_ram s PIC14_TMR0 = 0xFF
         then (p14_poke s1 INTCON (p14_ram s1 INTCON OR PIC14_T0IF))\<lparr>p14_timer0_pending := True\<rparr>
         else s1)"

definition p14_tick_timer0 :: "pic14 \<Rightarrow> nat \<Rightarrow> pic14" where
  "p14_tick_timer0 s delta =
     (if \<not> p14_timer0_enabled s then s\<lparr>p14_timer0_acc := 0\<rparr>
      else let option_reg = p14_ram s PIC14_OPTION_REG in
        if option_reg AND 0x20 \<noteq> 0 then s\<lparr>p14_timer0_acc := 0\<rparr>
        else let (acc, s1) =
            tick_loop (timer0_rate option_reg) p14_timer0_tick (p14_timer0_acc s + delta) s
          in s1\<lparr>p14_timer0_acc := acc\<rparr>)"

definition p14_tick_adc :: "pic14 \<Rightarrow> nat \<Rightarrow> pic14" where
  "p14_tick_adc s delta =
     (if p14_adc_left s = 0 then s
      else let s1 = s\<lparr>p14_adc_left := p14_adc_left s - delta\<rparr> in
        if p14_adc_left s1 = 0 then
          p14_poke (p14_poke (p14_poke s1 PIC14_ADCON0 (p14_ram s1 PIC14_ADCON0 AND NOT PIC14_ADCON0_GO))
             PIC14_ADRESH ADC_RESULT_HI) PIC14_ADRESL ADC_RESULT_LO
        else s1)"

definition p14_adc_store :: "pic14 \<Rightarrow> nat \<Rightarrow> u8 \<Rightarrow> pic14" where
  "p14_adc_store s phys v =
     (if phys = PIC14_ADCON0 \<and> v AND PIC14_ADCON0_GO \<noteq> 0
      then s\<lparr>p14_adc_left := ADC_CONVERSION_CYCLES\<rparr> else s)"

section \<open>STATUS flags\<close>

definition p14_set_z :: "pic14 \<Rightarrow> u8 \<Rightarrow> pic14" where
  "p14_set_z s v =
     (if v = 0 then p14_poke s 3 (p14_ram s 3 OR 4) else p14_poke s 3 (p14_ram s 3 AND NOT 4))"

definition p14_set_c :: "pic14 \<Rightarrow> bool \<Rightarrow> pic14" where
  "p14_set_c s c =
     (if c then p14_poke s 3 (p14_ram s 3 OR 1) else p14_poke s 3 (p14_ram s 3 AND NOT 1))"

definition p14_set_dc :: "pic14 \<Rightarrow> bool \<Rightarrow> pic14" where
  "p14_set_dc s c =
     (if c then p14_poke s 3 (p14_ram s 3 OR 2) else p14_poke s 3 (p14_ram s 3 AND NOT 2))"

definition p14_add_flags :: "pic14 \<Rightarrow> u8 \<Rightarrow> u8 \<Rightarrow> u8 \<Rightarrow> pic14" where
  "p14_add_flags s a b r =
     p14_set_dc (p14_set_c (p14_set_z s r) (unat a + unat b > 0xFF))
       (unat (a AND 0x0F) + unat (b AND 0x0F) > 0x0F)"

section \<open>The register file\<close>

definition p14_indirect_addr :: "pic14 \<Rightarrow> nat" where
  "p14_indirect_addr s =
     (let fsr = unat (p14_ram s 4) in
      if 0x70 \<le> fsr \<and> fsr \<le> 0x7F then fsr
      else (if p14_ram s 3 AND 0x80 \<noteq> 0 then 0x100 else 0) + fsr)"

definition p14_bank_base :: "pic14 \<Rightarrow> nat" where
  "p14_bank_base s = unat (drop_bit 5 (p14_ram s 3) AND 3) * 0x80"

definition in_window_nat :: "(u16 \<times> u16) option \<Rightarrow> nat \<Rightarrow> bool" where
  "in_window_nat w f = (case w of None \<Rightarrow> False | Some (lo, hi) \<Rightarrow> unat lo \<le> f \<and> f \<le> unat hi)"

definition p14_banked_addr :: "pic14 \<Rightarrow> nat \<Rightarrow> nat option" where
  "p14_banked_addr s f =
     (if in_window_nat (common_ram (p14_device s)) f then None
      else if in_window_nat (fixed_retval (p14_device s)) f then None
      else if f = 0x00 \<or> f = 0x02 \<or> f = 0x03 \<or> f = 0x04 \<or> f = 0x0A \<or> f = 0x0B then None
      else Some (f + p14_bank_base s))"

definition p14_read_f :: "pic14 \<Rightarrow> nat \<Rightarrow> u8" where
  "p14_read_f s f =
     (if f = 0x00 then p14_ram s (p14_indirect_addr s)
      else if f = 0x02 then ucast (p14_pc s AND 0xFF)
      else case p14_banked_addr s f of Some phys \<Rightarrow> p14_ram s phys | None \<Rightarrow> p14_ram s f)"

text \<open>
  \<open>ee_store\<close>: the new state (EEPROM cells and the latched EEDATA) and the value to store, if the
  address is one of the EEPROM control registers.
\<close>

definition p14_ee_store :: "pic14 \<Rightarrow> nat \<Rightarrow> u8 \<Rightarrow> pic14 \<times> u8 option" where
  "p14_ee_store s phys v =
     (if phys \<noteq> PIC14_EECON1 \<and> phys \<noteq> PIC14_EECON2 then (s, None)
      else let (e, d, r) = ee_on_store (p14_eeprom s) phys PIC14_EECON1 PIC14_EECON2 v
                (p14_ram s PIC14_EEADR) (p14_ram s PIC14_EEDATA) (p14_ram s PIC14_EECON1 AND 4 \<noteq> 0)
           in ((p14_poke s PIC14_EEDATA d)\<lparr>p14_eeprom := e\<rparr>, r))"

text \<open>The body the two data-memory arms of \<open>write_f\<close> share, at a resolved physical address.\<close>

definition p14_store :: "pic14 \<Rightarrow> nat \<Rightarrow> u8 \<Rightarrow> pic14" where
  "p14_store s phys v =
     (let (s1, r) = p14_ee_store s phys v;
          v1 = (case r of Some x \<Rightarrow> x | None \<Rightarrow> v);
          s2 = p14_poke s1 phys v1;
          s3 = (if phys = PIC14_TMR0 then s2\<lparr>p14_timer0_acc := 0\<rparr> else s2)
      in p14_adc_store s3 phys v1)"

definition p14_write_f :: "pic14 \<Rightarrow> nat \<Rightarrow> u8 \<Rightarrow> pic14" where
  "p14_write_f s f v =
     (if f = 0x00 then p14_store s (p14_indirect_addr s) v
      else if f = 0x03 then p14_poke s 3 ((p14_ram s 3 AND 0x18) OR (v AND 0xE7))
      else case p14_banked_addr s f of
        Some phys \<Rightarrow> p14_store s phys v
      | None \<Rightarrow> p14_poke s f v)"

definition p14_write_d :: "pic14 \<Rightarrow> u16 \<Rightarrow> nat \<Rightarrow> u8 \<Rightarrow> pic14" where
  "p14_write_d s d f r = (if d = 1 then p14_write_f s f r else s\<lparr>p14_w := r\<rparr>)"

definition p14_rlf :: "pic14 \<Rightarrow> u8 \<Rightarrow> pic14 \<times> u8" where
  "p14_rlf s v =
     (let cin = (if p14_ram s 3 AND 1 \<noteq> 0 then 1 else 0);
          cout = drop_bit 7 v;
          r = push_bit 1 v OR cin
      in (p14_set_c s (cout \<noteq> 0), r))"

definition p14_rrf :: "pic14 \<Rightarrow> u8 \<Rightarrow> pic14 \<times> u8" where
  "p14_rrf s v =
     (let cin = (if p14_ram s 3 AND 1 \<noteq> 0 then 0x80 else 0);
          cout = v AND 1;
          r = drop_bit 1 v OR cin
      in (p14_set_c s (cout \<noteq> 0), r))"

text \<open>\<open>self.stack.pop().unwrap_or(0)\<close>.\<close>

definition p14_pop_return :: "pic14 \<Rightarrow> pic14 \<times> u16" where
  "p14_pop_return s = (case p14_stack s of [] \<Rightarrow> (s, 0) | a # st \<Rightarrow> (s\<lparr>p14_stack := st\<rparr>, a))"

section \<open>Instructions\<close>

text \<open>
  The \<open>match op6\<close> of \<open>exec_byte\<close>, after the operand fields are cut out: the new state and the next
  program counter. The \<open>u16\<close> additions wrap, as in a release build; a program counter below the
  program's length never reaches the wrap.
\<close>

definition p14_byte_op :: "pic14 \<Rightarrow> u16 \<Rightarrow> u16 \<Rightarrow> nat \<Rightarrow> u16 \<Rightarrow> (pic14 \<times> u16) option" where
  "p14_byte_op s pc d f op6 =
     (let w = p14_w s;
          v = p14_read_f s f
      in
    if op6 = 0x07 then
      let r = w + v in Some (p14_write_d (p14_add_flags s w v r) d f r, pc + 1)
    else if op6 = 0x05 then
      let r = w AND v in Some (p14_write_d (p14_set_z s r) d f r, pc + 1)
    else if op6 = 0x01 then
      Some (p14_set_z (if d = 1 then p14_write_f s f 0 else s\<lparr>p14_w := 0\<rparr>) 0, pc + 1)
    else if op6 = 0x08 then Some (p14_write_d (p14_set_z s v) d f v, pc + 1)
    else if op6 = 0x00 then
      (if d = 1 then
         (if f = 0x02 then
            Some (s, push_bit 8 (ucast (p14_ram s 0x0A) AND 0x1F) OR ucast w)
          else Some (p14_write_f s f w, pc + 1))
       else Some (s, pc + 1))
    else if op6 = 0x02 then
      let r = v - w;
          s1 = p14_set_dc (p14_set_c (p14_set_z s r) (v \<ge> w)) (v AND 0x0F \<ge> w AND 0x0F)
      in Some (p14_write_d s1 d f r, pc + 1)
    else if op6 = 0x09 then
      let r = NOT v in Some (p14_write_d (p14_set_z s r) d f r, pc + 1)
    else if op6 = 0x03 then
      let r = v - 1 in Some (p14_write_d (p14_set_z s r) d f r, pc + 1)
    else if op6 = 0x0B then
      let r = v - 1 in Some (p14_write_d s d f r, if r = 0 then pc + 2 else pc + 1)
    else if op6 = 0x0A then
      let r = v + 1 in Some (p14_write_d (p14_set_z s r) d f r, pc + 1)
    else if op6 = 0x0F then
      let r = v + 1 in Some (p14_write_d s d f r, if r = 0 then pc + 2 else pc + 1)
    else if op6 = 0x04 then
      let r = w OR v in Some (p14_write_d (p14_set_z s r) d f r, pc + 1)
    else if op6 = 0x0D then
      let (s1, r) = p14_rlf s v in Some (p14_write_d s1 d f r, pc + 1)
    else if op6 = 0x0C then
      let (s1, r) = p14_rrf s v in Some (p14_write_d s1 d f r, pc + 1)
    else if op6 = 0x06 then
      let r = w XOR v in Some (p14_write_d (p14_set_z s r) d f r, pc + 1)
    else if op6 = 0x0E then
      let r = push_bit 4 v OR drop_bit 4 v in Some (p14_write_d s d f r, pc + 1)
    else None)"

definition p14_exec_byte :: "pic14 \<Rightarrow> u16 \<Rightarrow> u16 \<Rightarrow> (pic14 \<times> u16) option" where
  "p14_exec_byte s pc word =
     (if word = 0x0000 then Some (s, pc + 1)
      else if word = 0x0008 then Some (p14_pop_return s)
      else if word = 0x0009 then
        Some (p14_pop_return (p14_poke s INTCON (p14_ram s INTCON OR GIE)))
      else if word = 0x0062 then Some (p14_poke s PIC14_OPTION_REG (p14_w s), pc + 1)
      else if word = 0x0064 then Some (p14_poke s 3 (p14_ram s 3 OR 0x18), pc + 1)
      else if word = 0x0063 then
        Some ((p14_poke s 3 ((p14_ram s 3 AND NOT 0x08) OR 0x10))\<lparr>p14_halted := True\<rparr>, pc)
      else p14_byte_op s pc (drop_bit 7 word AND 1) (unat (word AND 0x7F))
             (drop_bit 8 word AND 0x3F))"

definition p14_exec_bit :: "pic14 \<Rightarrow> u16 \<Rightarrow> u16 \<Rightarrow> pic14 \<times> u16" where
  "p14_exec_bit s pc word =
     (let b = unat (drop_bit 7 word AND 7);
          f = unat (word AND 0x7F);
          op = drop_bit 10 word AND 3;
          v = p14_read_f s f
      in if op = 0 then (p14_write_f s f (v AND NOT (push_bit b 1)), pc + 1)
         else if op = 1 then (p14_write_f s f (v OR push_bit b 1), pc + 1)
         else if op = 2 then (s, if v AND push_bit b 1 = 0 then pc + 2 else pc + 1)
         else (s, if v AND push_bit b 1 \<noteq> 0 then pc + 2 else pc + 1))"

definition p14_exec_call_goto :: "pic14 \<Rightarrow> u16 \<Rightarrow> u16 \<Rightarrow> pic14 \<times> u16" where
  "p14_exec_call_goto s pc word =
     (let k = word AND 0x7FF;
          target = push_bit 8 (ucast (p14_ram s 0x0A) AND 0x18) OR k
      in if word AND 0x0800 \<noteq> 0 then (s, target)
         else (s\<lparr>p14_stack := (pc + 1) # p14_stack s\<rparr>, target))"

definition p14_exec_literal :: "pic14 \<Rightarrow> u16 \<Rightarrow> u16 \<Rightarrow> (pic14 \<times> u16) option" where
  "p14_exec_literal s pc word =
     (let k = ucast (word AND 0xFF) :: u8;
          op = drop_bit 8 word AND 0xF;
          w = p14_w s
      in if op = 0xE \<or> op = 0xF then
           Some ((p14_add_flags s w k (w + k))\<lparr>p14_w := w + k\<rparr>, pc + 1)
         else if op = 0x9 then Some (p14_set_z (s\<lparr>p14_w := w AND k\<rparr>) (w AND k), pc + 1)
         else if op = 0x8 then Some (p14_set_z (s\<lparr>p14_w := w OR k\<rparr>) (w OR k), pc + 1)
         else if op = 0xA then Some (p14_set_z (s\<lparr>p14_w := w XOR k\<rparr>) (w XOR k), pc + 1)
         else if op = 0xC \<or> op = 0xD then
           Some ((p14_set_dc (p14_set_c (p14_set_z s (k - w)) (k \<ge> w)) (k AND 0x0F \<ge> w AND 0x0F))
              \<lparr>p14_w := k - w\<rparr>, pc + 1)
         else if op \<le> 0x3 then Some (s\<lparr>p14_w := k\<rparr>, pc + 1)
         else if 0x4 \<le> op \<and> op \<le> 0x7 then Some (p14_pop_return (s\<lparr>p14_w := k\<rparr>))
         else None)"

section \<open>The step function\<close>

definition p14_dispatch :: "pic14 \<Rightarrow> u16 \<Rightarrow> u16 \<Rightarrow> (pic14 \<times> u16) option" where
  "p14_dispatch s pc word =
     (let cls = drop_bit 12 word AND 3 in
      if cls = 0 then p14_exec_byte s pc word
      else if cls = 1 then Some (p14_exec_bit s pc word)
      else if cls = 2 then Some (p14_exec_call_goto s pc word)
      else p14_exec_literal s pc word)"

text \<open>\<open>self.prog[self.pc as usize]\<close>: an index past the end is a panic.\<close>

definition p14_fetch :: "pic14 \<Rightarrow> u16 option" where
  "p14_fetch s = (if unat (p14_pc s) < length (p14_prog s)
                  then Some (p14_prog s ! unat (p14_pc s)) else None)"

definition p14_add_cycles :: "pic14 \<Rightarrow> nat \<Rightarrow> pic14" where
  "p14_add_cycles s delta =
     p14_tick_adc (p14_tick_timer0 (s\<lparr>p14_cycles := p14_cycles s + delta\<rparr>) delta) delta"

definition p14_take_interrupt :: "pic14 \<Rightarrow> pic14" where
  "p14_take_interrupt s =
     (let intcon = p14_ram s INTCON;
          s1 = (if p14_pending s \<and> intcon AND INTE \<noteq> 0 then s\<lparr>p14_pending := False\<rparr> else s);
          s2 = (if p14_timer0_pending s1 \<and> intcon AND PIC14_T0IE \<noteq> 0
                then s1\<lparr>p14_timer0_pending := False\<rparr> else s1)
      in p14_add_cycles (p14_enter_isr s2) 2)"

definition p14_finish :: "pic14 \<Rightarrow> u16 \<Rightarrow> pic14" where
  "p14_finish s next =
     (let s1 = s\<lparr>p14_pc := next\<rparr> in
      if unat next \<ge> length (p14_prog s1) then s1\<lparr>p14_halted := True\<rparr> else s1)"

definition p14_step :: "pic14 \<Rightarrow> pic14 option" where
  "p14_step s =
     (if p14_interrupt_ready s then Some (p14_take_interrupt s)
      else do {
        word \<leftarrow> p14_fetch s;
        (s1, next) \<leftarrow> p14_dispatch s (p14_pc s) word;
        Some (p14_finish (p14_add_cycles s1 (cost14 word (p14_pc s) next)) next)
      })"

definition p14_run :: "nat \<Rightarrow> pic14 \<Rightarrow> (nat \<times> pic14) option" where
  "p14_run = run_loop p14_step p14_halted"

definition p14_run_until :: "u16 \<Rightarrow> nat \<Rightarrow> pic14 \<Rightarrow> (stop_reason \<times> pic14) option" where
  "p14_run_until = run_until_loop p14_step p14_halted p14_pc"

section \<open>The debugger's view\<close>

definition p14_status :: "pic14 \<Rightarrow> u8" where "p14_status s = p14_ram s 3"

definition p14_bank :: "pic14 \<Rightarrow> u8" where "p14_bank s = drop_bit 5 (p14_ram s 3) AND 3"

definition p14_set_bank :: "pic14 \<Rightarrow> u8 \<Rightarrow> pic14" where
  "p14_set_bank s b = p14_poke s 3 ((p14_ram s 3 AND NOT (push_bit 5 3)) OR push_bit 5 (b AND 3))"

definition p14_set_w :: "pic14 \<Rightarrow> u8 \<Rightarrow> pic14" where "p14_set_w s v = s\<lparr>p14_w := v\<rparr>"

definition p14_set_pc :: "pic14 \<Rightarrow> u16 \<Rightarrow> pic14" where
  "p14_set_pc s a = s\<lparr>p14_pc := a, p14_halted := (unat a \<ge> length (p14_prog s))\<rparr>"

definition p14_operand :: "u8 \<Rightarrow> nat \<Rightarrow> nat" where
  "p14_operand a i = unat ((a + of_nat i) AND 0x7F)"

definition p14_read_mem :: "pic14 \<Rightarrow> u8 \<Rightarrow> nat \<Rightarrow> u8 list option" where
  "p14_read_mem s a len =
     (if a \<le> 0x7F then Some (map (\<lambda>i. p14_read_f s (p14_operand a i)) [0..<len]) else None)"

definition p14_write_mem :: "pic14 \<Rightarrow> u8 \<Rightarrow> u8 list \<Rightarrow> pic14 option" where
  "p14_write_mem s a bytes =
     (if a \<le> 0x7F then
        Some (foldl (\<lambda>t (i, b). p14_write_f t (p14_operand a i) b) s (enumerate 0 bytes))
      else None)"

definition p14_read_prog_word :: "pic14 \<Rightarrow> u16 \<Rightarrow> u16 option" where
  "p14_read_prog_word s a =
     (if unat a < length (p14_prog s) then Some (p14_prog s ! unat a) else None)"

end
