(* ===== verification/Sim14Facts.thy ===== *)
theory Sim14Facts
  imports Sim14
begin

text \<open>
  The lemmas of the classic 14-bit core: which fields each operation leaves alone, the bounds of the
  addresses it forms, the instruction dispatch by opcode field, and the interpretation of the run
  interface \<open>total_core\<close>: a program that starts inside its words, and holds none of the words the code
  calls unreachable, never panics.
\<close>

named_theorems p14_frame "fields an operation of the classic core leaves alone"

section \<open>Frames\<close>

lemma p14_poke_frame [simp, p14_frame]:
  "p14_device (p14_poke s a v) = p14_device s" "p14_prog (p14_poke s a v) = p14_prog s"
  "p14_w (p14_poke s a v) = p14_w s" "p14_pc (p14_poke s a v) = p14_pc s"
  "p14_stack (p14_poke s a v) = p14_stack s" "p14_halted (p14_poke s a v) = p14_halted s"
  "p14_cycles (p14_poke s a v) = p14_cycles s" "p14_pending (p14_poke s a v) = p14_pending s"
  "p14_timer0_acc (p14_poke s a v) = p14_timer0_acc s"
  "p14_timer0_enabled (p14_poke s a v) = p14_timer0_enabled s"
  "p14_timer0_pending (p14_poke s a v) = p14_timer0_pending s"
  "p14_eeprom (p14_poke s a v) = p14_eeprom s" "p14_adc_left (p14_poke s a v) = p14_adc_left s"
  by (simp_all add: p14_poke_def)

lemma p14_poke_ram [simp]: "p14_ram (p14_poke s a v) = (p14_ram s)(a := v)"
  by (simp add: p14_poke_def)

lemma p14_flags_frame [simp, p14_frame]:
  "p14_device (p14_set_z s v) = p14_device s" "p14_device (p14_set_c s c) = p14_device s"
  "p14_device (p14_set_dc s c) = p14_device s" "p14_device (p14_add_flags s x y r) = p14_device s"
  "p14_prog (p14_set_z s v) = p14_prog s" "p14_prog (p14_set_c s c) = p14_prog s"
  "p14_prog (p14_set_dc s c) = p14_prog s" "p14_prog (p14_add_flags s x y r) = p14_prog s"
  "p14_w (p14_set_z s v) = p14_w s" "p14_w (p14_set_c s c) = p14_w s"
  "p14_w (p14_set_dc s c) = p14_w s" "p14_w (p14_add_flags s x y r) = p14_w s"
  "p14_pc (p14_set_z s v) = p14_pc s" "p14_pc (p14_set_c s c) = p14_pc s"
  "p14_pc (p14_set_dc s c) = p14_pc s" "p14_pc (p14_add_flags s x y r) = p14_pc s"
  "p14_stack (p14_set_z s v) = p14_stack s" "p14_stack (p14_set_c s c) = p14_stack s"
  "p14_stack (p14_set_dc s c) = p14_stack s" "p14_stack (p14_add_flags s x y r) = p14_stack s"
  "p14_halted (p14_set_z s v) = p14_halted s" "p14_halted (p14_set_c s c) = p14_halted s"
  "p14_halted (p14_set_dc s c) = p14_halted s" "p14_halted (p14_add_flags s x y r) = p14_halted s"
  "p14_cycles (p14_set_z s v) = p14_cycles s" "p14_cycles (p14_set_c s c) = p14_cycles s"
  "p14_cycles (p14_set_dc s c) = p14_cycles s" "p14_cycles (p14_add_flags s x y r) = p14_cycles s"
  by (simp_all add: p14_set_z_def p14_set_c_def p14_set_dc_def p14_add_flags_def)

lemma p14_flags_ram [simp]:
  "a \<noteq> 3 \<Longrightarrow> p14_ram (p14_set_z s v) a = p14_ram s a"
  "a \<noteq> 3 \<Longrightarrow> p14_ram (p14_set_c s c) a = p14_ram s a"
  "a \<noteq> 3 \<Longrightarrow> p14_ram (p14_set_dc s c) a = p14_ram s a"
  "a \<noteq> 3 \<Longrightarrow> p14_ram (p14_add_flags s x y r) a = p14_ram s a"
  by (simp_all add: p14_set_z_def p14_set_c_def p14_set_dc_def p14_add_flags_def)

lemma p14_ee_store_frame [p14_frame]:
  assumes "p14_ee_store s a v = (s', r)"
  shows "p14_device s' = p14_device s" "p14_prog s' = p14_prog s" "p14_w s' = p14_w s"
    "p14_pc s' = p14_pc s" "p14_stack s' = p14_stack s" "p14_halted s' = p14_halted s"
    "p14_cycles s' = p14_cycles s"
    "b \<noteq> PIC14_EEDATA \<Longrightarrow> p14_ram s' b = p14_ram s b"
  using assms by (auto simp: p14_ee_store_def Let_def split: if_splits prod.splits)

lemma p14_adc_store_frame [simp, p14_frame]:
  "p14_device (p14_adc_store s a v) = p14_device s" "p14_prog (p14_adc_store s a v) = p14_prog s"
  "p14_w (p14_adc_store s a v) = p14_w s" "p14_pc (p14_adc_store s a v) = p14_pc s"
  "p14_stack (p14_adc_store s a v) = p14_stack s" "p14_halted (p14_adc_store s a v) = p14_halted s"
  "p14_cycles (p14_adc_store s a v) = p14_cycles s" "p14_ram (p14_adc_store s a v) = p14_ram s"
  by (simp_all add: p14_adc_store_def)

lemma p14_store_frame [simp, p14_frame]:
  "p14_device (p14_store s a v) = p14_device s" "p14_prog (p14_store s a v) = p14_prog s"
  "p14_w (p14_store s a v) = p14_w s" "p14_pc (p14_store s a v) = p14_pc s"
  "p14_stack (p14_store s a v) = p14_stack s" "p14_halted (p14_store s a v) = p14_halted s"
  "p14_cycles (p14_store s a v) = p14_cycles s"
  "b \<noteq> a \<Longrightarrow> b \<noteq> PIC14_EEDATA \<Longrightarrow> p14_ram (p14_store s a v) b = p14_ram s b"
  by (simp_all add: p14_store_def Let_def p14_ee_store_frame split: prod.splits)

lemma p14_write_f_frame [simp, p14_frame]:
  "p14_device (p14_write_f s f v) = p14_device s" "p14_prog (p14_write_f s f v) = p14_prog s"
  "p14_w (p14_write_f s f v) = p14_w s" "p14_pc (p14_write_f s f v) = p14_pc s"
  "p14_stack (p14_write_f s f v) = p14_stack s" "p14_halted (p14_write_f s f v) = p14_halted s"
  "p14_cycles (p14_write_f s f v) = p14_cycles s"
  by (simp_all add: p14_write_f_def split: option.splits)

lemma p14_write_d_frame [simp, p14_frame]:
  "p14_device (p14_write_d s d f v) = p14_device s" "p14_prog (p14_write_d s d f v) = p14_prog s"
  "p14_pc (p14_write_d s d f v) = p14_pc s"
  "p14_stack (p14_write_d s d f v) = p14_stack s" "p14_halted (p14_write_d s d f v) = p14_halted s"
  "p14_cycles (p14_write_d s d f v) = p14_cycles s"
  by (simp_all add: p14_write_d_def)

section \<open>Addresses\<close>

lemma p14_indirect_addr_bound [bound_intros]: "p14_indirect_addr s < 512"
proof -
  have "unat (p14_ram s 4) < 256" by (rule u8_less_256)
  then show ?thesis by (auto simp: p14_indirect_addr_def Let_def)
qed

lemma p14_bank_base_bound: "p14_bank_base s \<le> 0x180"
  by (simp add: p14_bank_base_def field_nat)

lemma p14_banked_addr_bound [bound_intros]:
  "p14_banked_addr s f = Some a \<Longrightarrow> f < 128 \<Longrightarrow> a < 512"
  using p14_bank_base_bound [of s] by (auto simp: p14_banked_addr_def split: if_splits)

lemma p14_store_ram_outside: "a < 512 \<Longrightarrow> 512 \<le> b \<Longrightarrow> p14_ram (p14_store s a v) b = p14_ram s b"
  by simp

lemma p14_write_f_outside:
  "f < 128 \<Longrightarrow> 512 \<le> b \<Longrightarrow> p14_ram (p14_write_f s f v) b = p14_ram s b"
  using p14_indirect_addr_bound [of s]
  by (auto simp: p14_write_f_def p14_store_ram_outside dest: p14_banked_addr_bound split: option.splits)

lemma p14_write_d_outside:
  "f < 128 \<Longrightarrow> 512 \<le> b \<Longrightarrow> p14_ram (p14_write_d s d f v) b = p14_ram s b"
  by (simp add: p14_write_d_def p14_write_f_outside)

section \<open>Every opcode is implemented\<close>

lemma p14_byte_op_total:
  assumes "unat op6 < 16"
  shows "\<exists>s' n. p14_byte_op s pc d f op6 = Some (s', n)"
  using assms
  by (cases rule: u16_low4_cases) (simp_all add: p14_byte_op_def Let_def case_prod_unfold)

lemma p14_exec_byte_total:
  assumes "drop_bit 12 word AND 3 = 0"
  shows "\<exists>s' n. p14_exec_byte s pc word = Some (s', n)"
  using p14_byte_op_total [OF byte_class_op6 [OF assms]] by (simp add: p14_exec_byte_def)

text \<open>The words whose arm of \<open>exec_literal\<close> is \<open>unreachable!()\<close>: 11 1011 in the top six bits.\<close>

definition p14_bad_word :: "u16 \<Rightarrow> bool" where
  "p14_bad_word word \<longleftrightarrow> drop_bit 12 word AND 3 = 3 \<and> drop_bit 8 word AND 0xF = 0xB"

lemma p14_exec_literal_total:
  "(\<exists>s' n. p14_exec_literal s pc word = Some (s', n)) \<longleftrightarrow> drop_bit 8 word AND 0xF \<noteq> 0xB"
proof -
  have "unat (drop_bit 8 word AND 0xF) < 16" by (simp add: field_nat)
  then show ?thesis
    by (cases rule: u16_low4_cases) (simp_all add: p14_exec_literal_def Let_def)
qed

lemma p14_dispatch_total: "(\<exists>s' n. p14_dispatch s pc word = Some (s', n)) \<longleftrightarrow> \<not> p14_bad_word word"
  using p14_exec_literal_total [of s pc word]
  by (cases rule: u16_class_cases [of 12 word])
    (simp_all add: p14_dispatch_def p14_bad_word_def Let_def p14_exec_byte_total)

section \<open>Frames of the instructions\<close>

lemma p14_pop_return_frame [simp, p14_frame]:
  "p14_device (fst (p14_pop_return s)) = p14_device s"
  "p14_prog (fst (p14_pop_return s)) = p14_prog s"
  "p14_ram (fst (p14_pop_return s)) = p14_ram s" "p14_w (fst (p14_pop_return s)) = p14_w s"
  "p14_pc (fst (p14_pop_return s)) = p14_pc s"
  "p14_halted (fst (p14_pop_return s)) = p14_halted s"
  "p14_cycles (fst (p14_pop_return s)) = p14_cycles s"
  by (simp_all add: p14_pop_return_def split: list.splits)

lemma p14_rotate_frame [simp, p14_frame]:
  "p14_device (fst (p14_rlf s v)) = p14_device s" "p14_device (fst (p14_rrf s v)) = p14_device s"
  "p14_prog (fst (p14_rlf s v)) = p14_prog s" "p14_prog (fst (p14_rrf s v)) = p14_prog s"
  "p14_halted (fst (p14_rlf s v)) = p14_halted s" "p14_halted (fst (p14_rrf s v)) = p14_halted s"
  "p14_pc (fst (p14_rlf s v)) = p14_pc s" "p14_pc (fst (p14_rrf s v)) = p14_pc s"
  "p14_cycles (fst (p14_rlf s v)) = p14_cycles s" "p14_cycles (fst (p14_rrf s v)) = p14_cycles s"
  "p14_w (fst (p14_rlf s v)) = p14_w s" "p14_w (fst (p14_rrf s v)) = p14_w s"
  by (simp_all add: p14_rlf_def p14_rrf_def Let_def)

lemma p14_byte_op_frame:
  assumes "p14_byte_op s pc d f op6 = Some (s', n)"
  shows "p14_device s' = p14_device s \<and> p14_prog s' = p14_prog s \<and> p14_pc s' = p14_pc s \<and>
    p14_cycles s' = p14_cycles s"
  using assms by (auto simp: p14_byte_op_def Let_def case_prod_unfold split: if_splits)

lemma p14_exec_byte_frame:
  assumes "p14_exec_byte s pc word = Some (s', n)"
  shows "p14_device s' = p14_device s \<and> p14_prog s' = p14_prog s \<and> p14_pc s' = p14_pc s \<and>
    p14_cycles s' = p14_cycles s"
  using assms p14_byte_op_frame
  by (auto simp: p14_exec_byte_def prod_eq_iff split: if_splits)

lemma p14_exec_bit_frame:
  "p14_device (fst (p14_exec_bit s pc word)) = p14_device s"
  "p14_prog (fst (p14_exec_bit s pc word)) = p14_prog s"
  "p14_pc (fst (p14_exec_bit s pc word)) = p14_pc s"
  "p14_cycles (fst (p14_exec_bit s pc word)) = p14_cycles s"
  by (simp_all add: p14_exec_bit_def Let_def)

lemma p14_exec_call_goto_frame:
  "p14_device (fst (p14_exec_call_goto s pc word)) = p14_device s"
  "p14_prog (fst (p14_exec_call_goto s pc word)) = p14_prog s"
  "p14_pc (fst (p14_exec_call_goto s pc word)) = p14_pc s"
  "p14_cycles (fst (p14_exec_call_goto s pc word)) = p14_cycles s"
  by (simp_all add: p14_exec_call_goto_def Let_def)

lemma p14_exec_literal_frame:
  assumes "p14_exec_literal s pc word = Some (s', n)"
  shows "p14_device s' = p14_device s \<and> p14_prog s' = p14_prog s \<and> p14_pc s' = p14_pc s \<and>
    p14_cycles s' = p14_cycles s"
  using assms by (auto simp: p14_exec_literal_def Let_def prod_eq_iff split: if_splits)

lemma p14_dispatch_frame:
  assumes "p14_dispatch s pc word = Some (s', n)"
  shows "p14_device s' = p14_device s" "p14_prog s' = p14_prog s" "p14_pc s' = p14_pc s"
    "p14_cycles s' = p14_cycles s"
  using assms p14_exec_byte_frame [of s pc word s' n] p14_exec_bit_frame [of s pc word]
    p14_exec_call_goto_frame [of s pc word] p14_exec_literal_frame [of s pc word s' n]
  by (auto simp: p14_dispatch_def Let_def split: if_splits)

section \<open>Time\<close>

lemma timer0_rate_pos [simp]: "0 < timer0_rate r"
  by (simp add: timer0_rate_def)

lemma p14_timer0_tick_frame [simp, p14_frame]:
  "p14_device (p14_timer0_tick s) = p14_device s" "p14_prog (p14_timer0_tick s) = p14_prog s"
  "p14_w (p14_timer0_tick s) = p14_w s" "p14_pc (p14_timer0_tick s) = p14_pc s"
  "p14_stack (p14_timer0_tick s) = p14_stack s" "p14_halted (p14_timer0_tick s) = p14_halted s"
  "p14_cycles (p14_timer0_tick s) = p14_cycles s" "p14_adc_left (p14_timer0_tick s) = p14_adc_left s"
  "p14_pending (p14_timer0_tick s) = p14_pending s"
  by (simp_all add: p14_timer0_tick_def Let_def)

lemma p14_timer0_tick_ram [simp]:
  "a \<noteq> PIC14_TMR0 \<Longrightarrow> a \<noteq> INTCON \<Longrightarrow> p14_ram (p14_timer0_tick s) a = p14_ram s a"
  by (simp add: p14_timer0_tick_def Let_def)

lemma p14_tick_timer0_frame [simp, p14_frame]:
  "p14_device (p14_tick_timer0 s n) = p14_device s" "p14_prog (p14_tick_timer0 s n) = p14_prog s"
  "p14_w (p14_tick_timer0 s n) = p14_w s" "p14_pc (p14_tick_timer0 s n) = p14_pc s"
  "p14_stack (p14_tick_timer0 s n) = p14_stack s" "p14_halted (p14_tick_timer0 s n) = p14_halted s"
  "p14_cycles (p14_tick_timer0 s n) = p14_cycles s"
  "p14_adc_left (p14_tick_timer0 s n) = p14_adc_left s"
  "p14_pending (p14_tick_timer0 s n) = p14_pending s"
  by (simp_all add: p14_tick_timer0_def Let_def case_prod_unfold tick_loop_invariant)

lemma p14_tick_timer0_ram [simp]:
  "a \<noteq> PIC14_TMR0 \<Longrightarrow> a \<noteq> INTCON \<Longrightarrow> p14_ram (p14_tick_timer0 s n) a = p14_ram s a"
  using tick_loop_invariant [of "\<lambda>t. p14_ram t a" p14_timer0_tick]
  by (simp add: p14_tick_timer0_def Let_def case_prod_unfold)

lemma p14_tick_adc_frame [simp, p14_frame]:
  "p14_device (p14_tick_adc s n) = p14_device s" "p14_prog (p14_tick_adc s n) = p14_prog s"
  "p14_w (p14_tick_adc s n) = p14_w s" "p14_pc (p14_tick_adc s n) = p14_pc s"
  "p14_stack (p14_tick_adc s n) = p14_stack s" "p14_halted (p14_tick_adc s n) = p14_halted s"
  "p14_cycles (p14_tick_adc s n) = p14_cycles s" "p14_pending (p14_tick_adc s n) = p14_pending s"
  "p14_timer0_pending (p14_tick_adc s n) = p14_timer0_pending s"
  by (simp_all add: p14_tick_adc_def Let_def)

lemma p14_tick_adc_ram [simp]:
  "a \<noteq> PIC14_ADCON0 \<Longrightarrow> a \<noteq> PIC14_ADRESH \<Longrightarrow> a \<noteq> PIC14_ADRESL \<Longrightarrow>
     p14_ram (p14_tick_adc s n) a = p14_ram s a"
  by (simp add: p14_tick_adc_def Let_def)

lemma p14_add_cycles_frame [simp, p14_frame]:
  "p14_device (p14_add_cycles s n) = p14_device s" "p14_prog (p14_add_cycles s n) = p14_prog s"
  "p14_w (p14_add_cycles s n) = p14_w s" "p14_pc (p14_add_cycles s n) = p14_pc s"
  "p14_stack (p14_add_cycles s n) = p14_stack s" "p14_halted (p14_add_cycles s n) = p14_halted s"
  "p14_cycles (p14_add_cycles s n) = p14_cycles s + n"
  "p14_pending (p14_add_cycles s n) = p14_pending s"
  by (simp_all add: p14_add_cycles_def)

section \<open>The step\<close>

lemma p14_enter_isr_frame [simp, p14_frame]:
  "p14_device (p14_enter_isr s) = p14_device s" "p14_prog (p14_enter_isr s) = p14_prog s"
  "p14_w (p14_enter_isr s) = p14_w s" "p14_pc (p14_enter_isr s) = VECTOR"
  "p14_stack (p14_enter_isr s) = p14_pc s # p14_stack s"
  "p14_halted (p14_enter_isr s) = p14_halted s" "p14_cycles (p14_enter_isr s) = p14_cycles s"
  by (simp_all add: p14_enter_isr_def)

lemma p14_take_interrupt_frame [simp, p14_frame]:
  "p14_device (p14_take_interrupt s) = p14_device s" "p14_prog (p14_take_interrupt s) = p14_prog s"
  "p14_w (p14_take_interrupt s) = p14_w s" "p14_pc (p14_take_interrupt s) = VECTOR"
  "p14_stack (p14_take_interrupt s) = p14_pc s # p14_stack s"
  "p14_halted (p14_take_interrupt s) = p14_halted s"
  "p14_cycles (p14_take_interrupt s) = p14_cycles s + 2"
  by (simp_all add: p14_take_interrupt_def Let_def)

lemma p14_finish_frame [simp, p14_frame]:
  "p14_device (p14_finish s n) = p14_device s" "p14_prog (p14_finish s n) = p14_prog s"
  "p14_ram (p14_finish s n) = p14_ram s" "p14_w (p14_finish s n) = p14_w s"
  "p14_pc (p14_finish s n) = n" "p14_stack (p14_finish s n) = p14_stack s"
  "p14_cycles (p14_finish s n) = p14_cycles s"
  "p14_halted (p14_finish s n) \<longleftrightarrow> p14_halted s \<or> length (p14_prog s) \<le> unat n"
  by (simp_all add: p14_finish_def Let_def)

text \<open>A step is an interrupt entry or one instruction; the case rule every step proof uses.\<close>

lemma p14_step_cases [consumes 1, case_names interrupt instruction]:
  assumes "p14_step s = Some s'"
  obtains "p14_interrupt_ready s" and "s' = p14_take_interrupt s"
  | word t n where "\<not> p14_interrupt_ready s" and "p14_fetch s = Some word"
      and "p14_dispatch s (p14_pc s) word = Some (t, n)"
      and "s' = p14_finish (p14_add_cycles t (cost14 word (p14_pc s) n)) n"
  using assms by (auto simp: p14_step_def split: if_splits Option.bind_splits prod.splits)

text \<open>
  What running needs: the program reaches past the interrupt vector, it has no unreachable word, and
  unless the core is halted the program counter is inside it.
\<close>

definition p14_inv :: "pic14 \<Rightarrow> bool" where
  "p14_inv s \<longleftrightarrow> 4 < length (p14_prog s) \<and> (\<forall>w \<in> set (p14_prog s). \<not> p14_bad_word w) \<and>
     (\<not> p14_halted s \<longrightarrow> unat (p14_pc s) < length (p14_prog s))"

lemma p14_step_prog: "p14_step s = Some s' \<Longrightarrow> p14_prog s' = p14_prog s"
  by (erule p14_step_cases) (auto dest: p14_dispatch_frame)

lemma p14_step_device: "p14_step s = Some s' \<Longrightarrow> p14_device s' = p14_device s"
  by (erule p14_step_cases) (auto dest: p14_dispatch_frame)

lemma p14_step_cycles:
  "p14_step s = Some s' \<Longrightarrow> p14_cycles s < p14_cycles s' \<and> p14_cycles s' \<le> p14_cycles s + 2"
proof (erule p14_step_cases)
  fix word t n
  assume "p14_dispatch s (p14_pc s) word = Some (t, n)"
    and "s' = p14_finish (p14_add_cycles t (cost14 word (p14_pc s) n)) n"
  then show ?thesis
    using cost14_bounds [of word "p14_pc s" n] p14_dispatch_frame(4) [of s "p14_pc s" word t n] by auto
qed simp

lemma p14_step_inv: "p14_inv s \<Longrightarrow> p14_step s = Some s' \<Longrightarrow> p14_inv s'"
  by (erule p14_step_cases) (auto simp: p14_inv_def dest: p14_dispatch_frame)

lemma p14_step_iff:
  "(\<exists>s'. p14_step s = Some s') \<longleftrightarrow>
     p14_interrupt_ready s \<or> (\<exists>word. p14_fetch s = Some word \<and> \<not> p14_bad_word word)"
  using p14_dispatch_total [of s "p14_pc s" "p14_prog s ! unat (p14_pc s)"]
  by (auto simp: p14_step_def p14_fetch_def split: Option.bind_splits)

lemma p14_inv_fetch: "p14_inv s \<Longrightarrow> \<not> p14_halted s \<Longrightarrow> \<exists>word. p14_fetch s = Some word \<and> \<not> p14_bad_word word"
  by (simp add: p14_inv_def p14_fetch_def)

lemma p14_step_progress: "p14_inv s \<Longrightarrow> \<not> p14_halted s \<Longrightarrow> \<exists>s'. p14_step s = Some s'"
  unfolding p14_step_iff by (blast dest: p14_inv_fetch)

interpretation p14: total_core p14_step p14_halted p14_pc p14_prog p14_cycles p14_inv 2
proof unfold_locales
  fix s s' assume "p14_step s = Some s'"
  then show "p14_prog s' = p14_prog s" by (rule p14_step_prog)
next
  fix s s' assume "p14_step s = Some s'"
  then show "p14_cycles s < p14_cycles s' \<and> p14_cycles s' \<le> p14_cycles s + 2"
    by (rule p14_step_cycles)
next
  fix s s' assume "p14_inv s" "p14_step s = Some s'"
  then show "p14_inv s'" by (rule p14_step_inv)
next
  fix s assume "p14_inv s" "\<not> p14_halted s"
  then show "\<exists>s'. p14_step s = Some s'" by (rule p14_step_progress)
qed

section \<open>Memory stays in the register file\<close>

lemma p14_tick_adc_outside: "512 \<le> b \<Longrightarrow> p14_ram (p14_tick_adc s n) b = p14_ram s b"
  by simp

lemma p14_exec_bit_outside:
  "512 \<le> b \<Longrightarrow> p14_ram (fst (p14_exec_bit s pc word)) b = p14_ram s b"
  by (simp add: p14_exec_bit_def Let_def p14_write_f_outside field_nat)

lemma p14_exec_literal_outside:
  assumes "p14_exec_literal s pc word = Some (s', n)" and "512 \<le> b"
  shows "p14_ram s' b = p14_ram s b"
  using assms by (auto simp: p14_exec_literal_def Let_def prod_eq_iff split: if_splits)

lemma p14_rotate_outside:
  "a \<noteq> 3 \<Longrightarrow> p14_ram (fst (p14_rlf s v)) a = p14_ram s a"
  "a \<noteq> 3 \<Longrightarrow> p14_ram (fst (p14_rrf s v)) a = p14_ram s a"
  by (simp_all add: p14_rlf_def p14_rrf_def Let_def)

lemma p14_byte_op_outside:
  assumes "p14_byte_op s pc d f op6 = Some (s', n)" and "f < 128" and "512 \<le> b"
  shows "p14_ram s' b = p14_ram s b"
  using assms
  by (auto simp: p14_byte_op_def Let_def case_prod_unfold p14_write_d_outside p14_write_f_outside
      p14_rotate_outside split: if_splits)

lemma p14_dispatch_outside:
  assumes "p14_dispatch s pc word = Some (s', n)" and "512 \<le> b"
  shows "p14_ram s' b = p14_ram s b"
proof (cases rule: u16_class_cases [of 12 word])
  case 1
  have "unat (word AND 0x7F) < 128" by (simp add: field_nat)
  with 1 assms p14_byte_op_outside [of s pc _ _ _ s' n b] show ?thesis
    by (auto simp: p14_dispatch_def p14_exec_byte_def prod_eq_iff split: if_splits)
next
  case 2
  with assms p14_exec_bit_outside [of b s pc word] show ?thesis by (simp add: p14_dispatch_def)
next
  case 3
  with assms show ?thesis
    by (auto simp: p14_dispatch_def p14_exec_call_goto_def Let_def split: if_splits)
next
  case 4
  with assms p14_exec_literal_outside [of s pc word s' n b] show ?thesis by (simp add: p14_dispatch_def)
qed

section \<open>The TO and PD bits\<close>

text \<open>An operation that keeps the two read-only STATUS bits.\<close>

definition same_tpd :: "pic14 \<Rightarrow> pic14 \<Rightarrow> bool" where
  "same_tpd s t \<longleftrightarrow> bit (p14_ram t 3) 3 = bit (p14_ram s 3) 3 \<and> bit (p14_ram t 3) 4 = bit (p14_ram s 3) 4"

named_theorems tpd "operations that keep TO and PD"

lemma same_tpd_refl [tpd]: "same_tpd s s"
  by (simp add: same_tpd_def)

lemma same_tpd_trans: "same_tpd s t \<Longrightarrow> same_tpd t u \<Longrightarrow> same_tpd s u"
  by (simp add: same_tpd_def)

lemma same_tpd_ram: "p14_ram t 3 = p14_ram s 3 \<Longrightarrow> same_tpd s t"
  by (simp add: same_tpd_def)

lemma same_tpd_flags [tpd]:
  "same_tpd s (p14_set_z s v)" "same_tpd s (p14_set_c s c)" "same_tpd s (p14_set_dc s c)"
  "same_tpd s (p14_add_flags s a b r)"
  by (simp_all add: same_tpd_def p14_add_flags_def p14_set_z_def p14_set_c_def p14_set_dc_def
      mask_simps)

lemma same_tpd_flags_iff [simp]:
  "same_tpd s (p14_set_z t v) = same_tpd s t" "same_tpd s (p14_set_c t c) = same_tpd s t"
  "same_tpd s (p14_set_dc t c) = same_tpd s t" "same_tpd s (p14_add_flags t a b r) = same_tpd s t"
  using same_tpd_flags [of t] by (simp_all add: same_tpd_def)

text \<open>The flag setters leave IRP and FSR alone, so the address INDF names does not move.\<close>

lemma p14_indirect_addr_flags [simp]:
  "p14_indirect_addr (p14_set_z s v) = p14_indirect_addr s"
  "p14_indirect_addr (p14_set_c s c) = p14_indirect_addr s"
  "p14_indirect_addr (p14_set_dc s c) = p14_indirect_addr s"
  "p14_indirect_addr (p14_add_flags s a b r) = p14_indirect_addr s"
  by (simp_all add: p14_indirect_addr_def p14_add_flags_def p14_set_z_def p14_set_c_def
      p14_set_dc_def mask_simps)

lemma p14_banked_addr_not_status: "p14_banked_addr s f = Some a \<Longrightarrow> f < 128 \<Longrightarrow> a \<noteq> 3"
proof
  assume b: "p14_banked_addr s f = Some a" "f < 128" and a: "a = 3"
  from b have "a = f + p14_bank_base s" and f: "f \<noteq> 3"
    by (auto simp: p14_banked_addr_def split: if_splits)
  with a have "f + unat (drop_bit 5 (p14_ram s 3) AND 3) * 128 = 3" by (simp add: p14_bank_base_def)
  with f show False by (cases "unat (drop_bit 5 (p14_ram s 3) AND 3)") auto
qed

lemma same_tpd_write_f:
  assumes "f < 128" and "p14_indirect_addr s \<noteq> 3"
  shows "same_tpd s (p14_write_f s f v)"
proof (cases "f = 3")
  case True
  then show ?thesis by (simp add: same_tpd_def p14_write_f_def bit_or_iff bit_and_iff)
next
  case False
  with assms have "p14_ram (p14_write_f s f v) 3 = p14_ram s 3"
    using p14_banked_addr_not_status [of s f]
    by (auto simp: p14_write_f_def split: option.splits)
  then show ?thesis by (rule same_tpd_ram)
qed

lemma same_tpd_write_d:
  assumes "f < 128" and "p14_indirect_addr t \<noteq> 3" and "same_tpd s t"
  shows "same_tpd s (p14_write_d t d f v)"
  using same_tpd_trans [OF assms(3) same_tpd_write_f [OF assms(1,2)]] assms(3)
  by (auto simp: p14_write_d_def same_tpd_def)

lemma p14_rotate_status:
  "same_tpd s (fst (p14_rlf s v))" "same_tpd s (fst (p14_rrf s v))"
  "p14_indirect_addr (fst (p14_rlf s v)) = p14_indirect_addr s"
  "p14_indirect_addr (fst (p14_rrf s v)) = p14_indirect_addr s"
  by (simp_all add: p14_rlf_def p14_rrf_def Let_def tpd)

lemma same_tpd_set_w [simp]: "same_tpd s (t\<lparr>p14_w := v\<rparr>) = same_tpd s t"
  by (simp add: same_tpd_def)

lemma p14_indirect_addr_set_w [simp]: "p14_indirect_addr (t\<lparr>p14_w := v\<rparr>) = p14_indirect_addr t"
  by (simp add: p14_indirect_addr_def)

lemma p14_byte_op_tpd:
  assumes "unat op6 < 16" and "f < 128" and "p14_indirect_addr s \<noteq> 3"
  shows "case p14_byte_op s pc d f op6 of None \<Rightarrow> True | Some (s', n) \<Rightarrow> same_tpd s s'"
  using assms(1)
  by (cases rule: u16_low4_cases)
    (simp_all add: p14_byte_op_def Let_def case_prod_unfold tpd p14_rotate_status same_tpd_write_f
      same_tpd_write_d assms(2,3))

lemma p14_exec_byte_tpd:
  assumes "drop_bit 12 word AND 3 = 0" and "word \<noteq> 0x0063" and "word \<noteq> 0x0064"
    and "p14_indirect_addr s \<noteq> 3" and "p14_exec_byte s pc word = Some (s', n)"
  shows "same_tpd s s'"
proof -
  have "unat (word AND 0x7F) < 128" by (simp add: field_nat)
  from p14_byte_op_tpd [OF byte_class_op6 [OF assms(1)] this assms(4), of pc "drop_bit 7 word AND 1"]
  show ?thesis using assms(2,3,5)
    by (auto simp: p14_exec_byte_def same_tpd_def prod_eq_iff split: if_splits)
qed

lemma p14_exec_literal_tpd:
  assumes "p14_exec_literal s pc word = Some (s', n)"
  shows "same_tpd s s'"
  using assms
  by (auto simp: p14_exec_literal_def Let_def prod_eq_iff same_tpd_ram tpd split: if_splits)

lemma p14_dispatch_tpd:
  assumes "word \<noteq> 0x0063" and "word \<noteq> 0x0064"
    and "p14_indirect_addr s \<noteq> 3" and "p14_dispatch s pc word = Some (s', n)"
  shows "same_tpd s s'"
proof (cases rule: u16_class_cases [of 12 word])
  case 1
  with assms p14_exec_byte_tpd [OF 1 assms(1-3)] show ?thesis by (simp add: p14_dispatch_def)
next
  case 2
  have "unat (word AND 0x7F) < 128" by (simp add: field_nat)
  with 2 assms same_tpd_write_f [of _ s] show ?thesis
    by (auto simp: p14_dispatch_def p14_exec_bit_def Let_def tpd split: if_splits)
next
  case 3
  with assms show ?thesis
    by (auto simp: p14_dispatch_def p14_exec_call_goto_def Let_def same_tpd_def split: if_splits)
next
  case 4
  with assms p14_exec_literal_tpd [of s pc word s' n] show ?thesis by (simp add: p14_dispatch_def)
qed

section \<open>Counting Timer0\<close>

text \<open>\<open>n\<close> ticks add \<open>n\<close> to TMR0 modulo 256 and raise T0IF exactly when they pass 0xFF.\<close>

lemma p14_ticks:
  "p14_ram ((p14_timer0_tick ^^ n) s) PIC14_TMR0 = p14_ram s PIC14_TMR0 + of_nat n \<and>
   (p14_timer0_pending ((p14_timer0_tick ^^ n) s) \<longleftrightarrow>
      p14_timer0_pending s \<or> 256 \<le> unat (p14_ram s PIC14_TMR0) + n)"
proof (induction n)
  case 0
  show ?case using u8_less_256 [of "p14_ram s 1"] by auto
next
  case (Suc n)
  let ?t = "(p14_timer0_tick ^^ n) s" and ?v = "p14_ram s 1"
  have v: "p14_ram ?t 1 = ?v + of_nat n" using Suc.IH by simp
  have "?v + of_nat n = 0xFF \<longleftrightarrow> (unat ?v + n) mod 256 = 255"
  proof -
    have "unat (?v + of_nat n) = (unat ?v + n) mod 256"
      by (simp add: unat_word_ariths unat_of_nat mod_add_right_eq)
    moreover have "?v + of_nat n = 0xFF \<longleftrightarrow> unat (?v + of_nat n) = 255"
      by (simp add: word_eq_iff_unsigned [where ?'a = nat])
    ultimately show ?thesis by simp
  qed
  moreover have "(unat ?v + n) mod 256 = 255 \<Longrightarrow> 256 \<le> unat ?v + Suc n"
    using mod_less_eq_dividend [of "unat ?v + n" 256] by simp
  moreover have "256 \<le> unat ?v + Suc n \<Longrightarrow> \<not> 256 \<le> unat ?v + n \<Longrightarrow> (unat ?v + n) mod 256 = 255"
    by simp
  ultimately show ?case using Suc.IH v
    by (auto simp: p14_timer0_tick_def Let_def)
qed

section \<open>GIE\<close>

lemma p14_timer0_tick_gie: "bit (p14_ram (p14_timer0_tick s) INTCON) 7 = bit (p14_ram s INTCON) 7"
  by (simp add: p14_timer0_tick_def Let_def mask_simps)

lemma p14_add_cycles_gie [simp]:
  "bit (p14_ram (p14_add_cycles s n) INTCON) 7 = bit (p14_ram s INTCON) 7"
  using tick_loop_invariant [of "\<lambda>t. bit (p14_ram t INTCON) 7" p14_timer0_tick,
      OF p14_timer0_tick_gie]
  by (simp add: p14_add_cycles_def p14_tick_timer0_def Let_def case_prod_unfold)

lemma p14_ready_gie: "p14_interrupt_ready s \<Longrightarrow> bit (p14_ram s INTCON) 7"
  by (auto simp: p14_interrupt_ready_def Let_def mask_simps)

lemma p14_take_interrupt_gie [simp]: "\<not> bit (p14_ram (p14_take_interrupt s) INTCON) 7"
  by (simp add: p14_take_interrupt_def p14_enter_isr_def Let_def mask_simps)

lemma p14_retfie: "p14_dispatch s pc 0x0009 =
   Some (p14_pop_return (p14_poke s INTCON (p14_ram s INTCON OR GIE)))"
  by (simp add: p14_dispatch_def p14_exec_byte_def)

section \<open>The conversion in progress\<close>

lemma p14_tick_adc_idle: "p14_adc_left s = 0 \<Longrightarrow> foldl p14_tick_adc s ds = s"
  by (induction ds) (simp_all add: p14_tick_adc_def)

lemma p14_tick_adc_busy:
  "d < p14_adc_left s \<Longrightarrow> p14_adc_left (p14_tick_adc s d) = p14_adc_left s - d \<and>
     p14_ram (p14_tick_adc s d) = p14_ram s"
  by (simp add: p14_tick_adc_def Let_def)

lemma p14_tick_adc_done:
  "0 < p14_adc_left s \<Longrightarrow> p14_adc_left s \<le> d \<Longrightarrow> p14_adc_left (p14_tick_adc s d) = 0 \<and>
     \<not> bit (p14_ram (p14_tick_adc s d) PIC14_ADCON0) 2 \<and>
     p14_ram (p14_tick_adc s d) PIC14_ADRESH = 0x80 \<and> p14_ram (p14_tick_adc s d) PIC14_ADRESL = 0"
  by (simp add: p14_tick_adc_def Let_def mask_simps)

text \<open>However the cycles are split over calls, the conversion ends when they reach the total.\<close>

lemma p14_adc_ticks:
  "0 < p14_adc_left s \<Longrightarrow> p14_adc_left s = n \<Longrightarrow>
     (sum_list ds < n \<longrightarrow> p14_ram (foldl p14_tick_adc s ds) = p14_ram s) \<and>
     (n \<le> sum_list ds \<longrightarrow> \<not> bit (p14_ram (foldl p14_tick_adc s ds) PIC14_ADCON0) 2 \<and>
        p14_ram (foldl p14_tick_adc s ds) PIC14_ADRESH = 0x80 \<and>
        p14_ram (foldl p14_tick_adc s ds) PIC14_ADRESL = 0)"
proof (induction ds arbitrary: s n)
  case (Cons d ds)
  show ?case
  proof (cases "n \<le> d")
    case True
    with Cons.prems p14_tick_adc_done [of s d] show ?thesis by (simp add: p14_tick_adc_idle)
  next
    case False
    with Cons.prems p14_tick_adc_busy [of d s] Cons.IH [of "p14_tick_adc s d" "n - d"]
    show ?thesis by auto
  qed
qed simp

end
