(* ===== verification/Sim14Props.thy ===== *)
theory Sim14Props
  imports Sim14Facts
begin

text \<open>
  What the classic 14-bit core guarantees: running is total and time-bounded, memory accesses stay
  in the register file, the read-only STATUS bits, interrupt entry and return, the Timer0 and ADC
  models, and the debugger's memory view.
\<close>

section \<open>Running\<close>

text \<open>C1: a step panics in exactly two cases, both at an instruction fetch (no interrupt is taken): the
  program counter is past the end of the program, or the word is one of 0x3B00 to 0x3BFF (top six of
  its fourteen bits 11 1011), which the code calls unreachable; additions wrap, as in a release build. So \<open>run\<close> never panics from a state satisfying
  \<open>p14_inv\<close>: the program is longer than the interrupt vector, holds no such word, and the program
  counter of a running core is inside it. Then \<open>run\<close> takes at most \<open>n\<close> steps, each costing one or two
  cycles, leaves the program alone, keeps \<open>p14_inv\<close>, and stops early only when the core is halted.\<close>

theorem p14_run_total:
  assumes "p14_inv s"
  shows "(\<exists>k t. p14_run n s = Some (k, t) \<and> k \<le> n \<and> p14_prog t = p14_prog s \<and> p14_inv t \<and>
    p14_cycles s + k \<le> p14_cycles t \<and> p14_cycles t \<le> p14_cycles s + 2 * k \<and>
    (k < n \<longrightarrow> p14_halted t)) \<and>
    (\<forall>u. p14_step u = None \<longleftrightarrow> \<not> p14_interrupt_ready u \<and>
       (length (p14_prog u) \<le> unat (p14_pc u) \<or>
        drop_bit 12 (p14_prog u ! unat (p14_pc u)) AND 3 = 3 \<and>
        drop_bit 8 (p14_prog u ! unat (p14_pc u)) AND 0xF = 0xB))"
proof (intro conjI allI)
  from p14.run_total [OF assms] obtain k t
    where r: "run_loop p14_step p14_halted n s = Some (k, t)" by blast
  show "\<exists>k t. p14_run n s = Some (k, t) \<and> k \<le> n \<and> p14_prog t = p14_prog s \<and> p14_inv t \<and>
    p14_cycles s + k \<le> p14_cycles t \<and> p14_cycles t \<le> p14_cycles s + 2 * k \<and>
    (k < n \<longrightarrow> p14_halted t)"
    using p14.run_facts [OF r] r assms by (auto simp: p14_run_def)
next
  fix u
  show "p14_step u = None \<longleftrightarrow> \<not> p14_interrupt_ready u \<and>
       (length (p14_prog u) \<le> unat (p14_pc u) \<or>
        drop_bit 12 (p14_prog u ! unat (p14_pc u)) AND 3 = 3 \<and>
        drop_bit 8 (p14_prog u ! unat (p14_pc u)) AND 0xF = 0xB)"
    using p14_step_iff [of u] by (auto simp: p14_fetch_def p14_bad_word_def split: if_splits)
qed

lemma p14_run_total_witness:
  "\<exists>k t. p14_run 10 (p14_with_device p16f877a [0x3005, 0x0084, 0x2800, 0, 0]) = Some (k, t) \<and>
     p14_prog t = [0x3005, 0x0084, 0x2800, 0, 0]"
  using p14_run_total [of "p14_with_device p16f877a [0x3005, 0x0084, 0x2800, 0, 0]" 10]
  by (auto simp: p14_inv_def p14_bad_word_def p14_with_device_def)

text \<open>C2: from a state satisfying \<open>p14_inv\<close> (the program is longer than the interrupt vector, holds no
  unreachable word, and the program counter of a running core is inside it) \<open>run_until\<close> answers, and its
  answer is true of the state it leaves: \<open>Reached\<close> means the target, \<open>Halted\<close> a halted core elsewhere,
  and \<open>Capped\<close> a running core elsewhere after at least \<open>n\<close> cycles. It never runs past twice \<open>n\<close>.\<close>

theorem p14_run_until_contract:
  assumes "p14_inv s"
  shows "\<exists>r t. p14_run_until target n s = Some (r, t) \<and>
    (r = Reached \<longrightarrow> p14_pc t = target) \<and>
    (r = Halted \<longrightarrow> p14_halted t \<and> p14_pc t \<noteq> target) \<and>
    (r = Capped \<longrightarrow> \<not> p14_halted t \<and> p14_pc t \<noteq> target \<and> p14_cycles s + n \<le> p14_cycles t) \<and>
    p14_cycles t \<le> p14_cycles s + 2 * n"
proof -
  from p14.run_until_total [OF assms] obtain r t
    where r: "run_until_loop p14_step p14_halted p14_pc target n s = Some (r, t)" by blast
  show ?thesis using p14.run_until_facts [OF r] r by (auto simp: p14_run_until_def)
qed

lemma p14_run_until_contract_witness:
  "\<exists>r t. p14_run_until 3 7 (p14_with_device p16f877a [0x3005, 0x0084, 0x2800, 0, 0]) = Some (r, t) \<and>
     p14_cycles t \<le> 14"
  using p14_run_until_contract [of "p14_with_device p16f877a [0x3005, 0x0084, 0x2800, 0, 0]" 3 7]
  by (auto simp: p14_inv_def p14_bad_word_def p14_with_device_def)

section \<open>Memory\<close>

lemma p14_step_outside:
  assumes "p14_step s = Some s'" and "512 \<le> b"
  shows "p14_ram s' b = p14_ram s b"
  using assms(1)
proof (cases rule: p14_step_cases)
  case interrupt
  with assms(2) show ?thesis
    by (simp add: p14_take_interrupt_def p14_add_cycles_def p14_enter_isr_def Let_def)
next
  case (instruction word t n)
  with assms(2) p14_dispatch_outside [of s "p14_pc s" word t n b] show ?thesis
    by (simp add: p14_add_cycles_def)
qed

lemma p14_read_f_inside:
  assumes "f < 128" and "\<And>a. a < 512 \<Longrightarrow> r a = p14_ram s a"
  shows "p14_read_f (s\<lparr>p14_ram := r\<rparr>) f = p14_read_f s f"
proof -
  have eq: "p14_indirect_addr (s\<lparr>p14_ram := r\<rparr>) = p14_indirect_addr s"
    "p14_banked_addr (s\<lparr>p14_ram := r\<rparr>) f = p14_banked_addr s f"
    using assms by (simp_all add: p14_indirect_addr_def p14_banked_addr_def p14_bank_base_def)
  show ?thesis
    using assms p14_indirect_addr_bound [of s] p14_banked_addr_bound [of s f]
    by (auto simp: p14_read_f_def eq split: option.splits)
qed

text \<open>C3: indices stay in range. The address INDF names and the banked address of a seven-bit operand are
  below 512; a step changes no cell outside the 512-byte register file and an operand read depends on
  none; and in a running core that satisfies \<open>p14_inv\<close> the fetch index is inside the program. So neither
  an index into the register file nor the fetch can panic there; the words 0x3B00 to 0x3BFF, which
  \<open>p14_inv\<close> excludes, panic for another reason.\<close>

theorem p14_memory_safe:
  shows "p14_indirect_addr s < 512 \<and>
    (f < 128 \<and> p14_banked_addr s f = Some a \<longrightarrow> a < 512) \<and>
    (p14_step s = Some s' \<longrightarrow> (\<forall>b. 512 \<le> b \<longrightarrow> p14_ram s' b = p14_ram s b)) \<and>
    (f < 128 \<and> (\<forall>a < 512. r a = p14_ram s a) \<longrightarrow>
       p14_read_f (s\<lparr>p14_ram := r\<rparr>) f = p14_read_f s f) \<and>
    (p14_inv s \<and> \<not> p14_halted s \<longrightarrow> p14_fetch s = Some (p14_prog s ! unat (p14_pc s)))"
  using p14_indirect_addr_bound [of s] p14_banked_addr_bound [of s f a] p14_step_outside [of s s']
    p14_read_f_inside [of f r s]
  by (auto simp: p14_inv_def p14_fetch_def)

lemma p14_memory_safe_witness:
  "p14_read_f ((p14_with_device p16f877a [])\<lparr>p14_ram :=
     (\<lambda>a. if a < 512 then p14_ram (p14_with_device p16f877a []) a else 7)\<rparr>) 0x20 = 0 \<and>
   (\<exists>s'. p14_step (p14_with_device p16f877a [0x00A0, 0, 0, 0, 0]) = Some s' \<and> p14_ram s' 512 = 0) \<and>
   p14_fetch (p14_with_device p16f877a [0x00A0, 0, 0, 0, 0]) = Some 0x00A0"
proof -
  let ?s = "p14_with_device p16f877a []" and ?t = "p14_with_device p16f877a [0x00A0, 0, 0, 0, 0]"
  have r: "p14_read_f ?s 0x20 = 0"
    by (simp add: p14_with_device_def p14_read_f_def p14_banked_addr_def in_window_nat_def
        p16f877a_def p14_bank_base_def apply_por_def pic14_por_def)
  have i: "p14_inv ?t" "\<not> p14_halted ?t"
    by (simp_all add: p14_inv_def p14_bad_word_def p14_with_device_def)
  then obtain s' where s': "p14_step ?t = Some s'" using p14_step_progress by blast
  moreover have "p14_ram ?t 512 = 0" "p14_prog ?t ! unat (p14_pc ?t) = 0x00A0"
    by (simp_all add: p14_with_device_def apply_por_def pic14_por_def)
  ultimately show ?thesis
    using p14_memory_safe [of ?t 32 0 s' "p14_ram ?t"] r i
      p14_memory_safe [of ?s 32 0 undefined "\<lambda>a. if a < 512 then p14_ram ?s a else 7"]
    by auto
qed

text \<open>C4: the TO and PD bits of STATUS are read-only to a program: a step that is not CLRWDT or SLEEP,
  and whose INDF operand does not name address 3, leaves both as they were.\<close>

theorem p14_to_pd_latched:
  assumes "p14_step s = Some s'" and "p14_indirect_addr s \<noteq> 3"
    and "p14_fetch s \<noteq> Some 0x0063" and "p14_fetch s \<noteq> Some 0x0064"
  shows "bit (p14_ram s' 3) 3 = bit (p14_ram s 3) 3 \<and> bit (p14_ram s' 3) 4 = bit (p14_ram s 3) 4"
  using assms(1)
proof (cases rule: p14_step_cases)
  case interrupt
  then show ?thesis
    by (simp add: p14_take_interrupt_def p14_add_cycles_def p14_enter_isr_def Let_def)
next
  case (instruction word t n)
  with assms p14_dispatch_tpd [of word s "p14_pc s" t n] show ?thesis
    by (auto simp: same_tpd_def p14_add_cycles_def)
qed

lemma p14_to_pd_latched_witness:
  "\<exists>s'. p14_step (p14_with_device p16f877a [0x0183, 0, 0, 0, 0]) = Some s' \<and> bit (p14_ram s' 3) 4"
proof -
  let ?t = "p14_with_device p16f877a [0x0183, 0, 0, 0, 0]"
  obtain s' where s': "p14_step ?t = Some s'"
    using p14_step_progress [of ?t]
    by (auto simp: p14_inv_def p14_bad_word_def p14_with_device_def)
  have "p14_indirect_addr ?t \<noteq> 3" "bit (p14_ram ?t 3) 4" "p14_fetch ?t = Some 0x0183"
    by (simp_all add: p14_indirect_addr_def p14_fetch_def p14_with_device_def apply_por_def
        pic14_por_def)
  with s' p14_to_pd_latched [of ?t s'] show ?thesis by auto
qed

text \<open>An instruction that is executed rather than an interrupt taken, and leaves STATUS at \<open>v\<close>.\<close>

lemma p14_step_status:
  assumes "\<not> p14_interrupt_ready s" and "p14_fetch s = Some word"
    and "p14_dispatch s (p14_pc s) word = Some (t, n)" and "p14_ram t 3 = v"
  shows "\<exists>s'. p14_step s = Some s' \<and> p14_ram s' 3 = v"
  using assms by (simp add: p14_step_def p14_add_cycles_def)

lemma p14_store_status: "p14_ram (p14_store s 3 v) 3 = v"
  by (simp add: p14_store_def p14_ee_store_def p14_adc_store_def Let_def)

text \<open>C5: the same bits are not protected on the indirect path. With FSR 3 and IRP clear, so that INDF
  names STATUS, an executed (not interrupted) MOVWF INDF makes STATUS all of W, TO and PD included,
  and CLRF INDF leaves only Z set; MOVWF STATUS and CLRF STATUS keep TO and PD and write the rest.\<close>

theorem p14_indirect_write_clears_tpd:
  assumes "\<not> p14_interrupt_ready s"
  shows "(p14_ram s 4 = 3 \<and> p14_ram s 3 AND 0x80 = 0 \<longrightarrow>
       (p14_fetch s = Some 0x0080 \<longrightarrow> (\<exists>s'. p14_step s = Some s' \<and> p14_ram s' 3 = p14_w s)) \<and>
       (p14_fetch s = Some 0x0180 \<longrightarrow> (\<exists>s'. p14_step s = Some s' \<and> p14_ram s' 3 = 0x04))) \<and>
    (p14_fetch s = Some 0x0083 \<longrightarrow> (\<exists>s'. p14_step s = Some s' \<and>
       p14_ram s' 3 = (p14_ram s 3 AND 0x18) OR (p14_w s AND 0xE7))) \<and>
    (p14_fetch s = Some 0x0183 \<longrightarrow> (\<exists>s'. p14_step s = Some s' \<and>
       p14_ram s' 3 = (p14_ram s 3 AND 0x18) OR 0x04))"
proof -
  note op = p14_dispatch_def p14_exec_byte_def p14_byte_op_def p14_write_f_def p14_set_z_def Let_def
  have ind: "p14_indirect_addr s = 3" if "p14_ram s 4 = 3" "p14_ram s 3 AND 0x80 = 0"
    using that by (simp add: p14_indirect_addr_def)
  have movwf: "p14_fetch s = Some 0x0080 \<longrightarrow> (\<exists>s'. p14_step s = Some s' \<and> p14_ram s' 3 = p14_w s)"
    if "p14_indirect_addr s = 3"
    by (rule impI, rule p14_step_status [OF assms], assumption)
      (simp add: op that, simp add: p14_store_status)
  have clrf: "p14_fetch s = Some 0x0180 \<longrightarrow> (\<exists>s'. p14_step s = Some s' \<and> p14_ram s' 3 = 0x04)"
    if "p14_indirect_addr s = 3"
    by (rule impI, rule p14_step_status [OF assms], assumption)
      (simp add: op that, simp add: p14_store_status)
  have "p14_fetch s = Some 0x0083 \<longrightarrow> (\<exists>s'. p14_step s = Some s' \<and>
       p14_ram s' 3 = (p14_ram s 3 AND 0x18) OR (p14_w s AND 0xE7))"
    by (rule impI, rule p14_step_status [OF assms], assumption) (simp add: op, simp)
  moreover have "p14_fetch s = Some 0x0183 \<longrightarrow> (\<exists>s'. p14_step s = Some s' \<and>
       p14_ram s' 3 = (p14_ram s 3 AND 0x18) OR 0x04)"
    by (rule impI, rule p14_step_status [OF assms], assumption) (simp add: op, simp)
  ultimately show ?thesis using movwf clrf ind by blast
qed

definition tpd_indirect :: "u16 \<Rightarrow> pic14" where
  "tpd_indirect word = p14_poke (p14_with_device p16f877a [word]) 4 3"

lemma p14_indirect_write_clears_tpd_witness:
  "(\<exists>s'. p14_step (tpd_indirect 0x0180) = Some s' \<and> p14_ram s' 3 = 0x04) \<and>
   (\<exists>s'. p14_step (tpd_indirect 0x0183) = Some s' \<and> p14_ram s' 3 = 0x1C)"
  using p14_indirect_write_clears_tpd [of "tpd_indirect 0x0180"]
    p14_indirect_write_clears_tpd [of "tpd_indirect 0x0183"]
  by (simp add: tpd_indirect_def p14_interrupt_ready_def p14_fetch_def p14_with_device_def
      apply_por_def pic14_por_def Let_def)

section \<open>Interrupts\<close>

text \<open>C6: an interrupt that is ready is taken before the next fetch: it pushes the program counter, clears
  GIE so the handler is not itself interrupted, acknowledges the external request, and a RETFIE at
  the vector then resumes the interrupted program with W and the stack as they were and GIE set.\<close>

theorem p14_interrupt_round_trip:
  assumes "p14_interrupt_ready s" and "4 < length (p14_prog s)" and "p14_prog s ! 4 = 0x0009"
  shows "\<exists>s1 s2. p14_step s = Some s1 \<and> p14_pc s1 = 4 \<and> p14_stack s1 = p14_pc s # p14_stack s \<and>
    \<not> p14_interrupt_ready s1 \<and> (p14_pending s \<and> bit (p14_ram s INTCON) 4 \<longrightarrow> \<not> p14_pending s1) \<and>
    p14_step s1 = Some s2 \<and> p14_pc s2 = p14_pc s \<and> p14_stack s2 = p14_stack s \<and>
    p14_w s2 = p14_w s \<and> bit (p14_ram s2 INTCON) 7"
proof -
  let ?s1 = "p14_take_interrupt s"
  have s1: "p14_step s = Some ?s1" using assms(1) by (simp add: p14_step_def)
  have nr: "\<not> p14_interrupt_ready ?s1" using p14_ready_gie p14_take_interrupt_gie by blast
  have ack: "p14_pending s \<and> bit (p14_ram s INTCON) 4 \<longrightarrow> \<not> p14_pending ?s1"
    by (simp add: p14_take_interrupt_def p14_enter_isr_def Let_def mask_simps)
  have "p14_fetch ?s1 = Some 0x0009" using assms(2,3) by (simp add: p14_fetch_def)
  then obtain s2 where "p14_step ?s1 = Some s2 \<and> p14_pc s2 = p14_pc s \<and> p14_stack s2 = p14_stack s \<and>
      p14_w s2 = p14_w s \<and> bit (p14_ram s2 INTCON) 7"
    using nr by (simp add: p14_step_def p14_retfie p14_pop_return_def mask_simps)
  with s1 nr ack show ?thesis by auto
qed

definition irq_demo :: pic14 where
  "irq_demo = p14_request_interrupt
     (p14_poke ((p14_with_device p16f877a [0, 0, 0, 0, 9, 0, 0])\<lparr>p14_pc := 2\<rparr>) INTCON 0x90)"

lemma p14_interrupt_round_trip_witness:
  "\<exists>s1 s2. p14_step irq_demo = Some s1 \<and> p14_pc s1 = 4 \<and> p14_step s1 = Some s2 \<and> p14_pc s2 = 2"
  using p14_interrupt_round_trip [of irq_demo]
  by (auto simp: irq_demo_def p14_interrupt_ready_def p14_request_interrupt_def p14_with_device_def
      Let_def)

section \<open>Timer0 and the ADC\<close>

text \<open>C7: Timer0 loses no time: with the internal clock selected, advancing \<open>delta\<close> cycles adds to TMR0
  exactly the number of whole prescaler periods in the accumulated cycles, keeps the remainder for
  the next call, and raises the overflow request exactly when TMR0 passes 0xFF.\<close>

theorem p14_timer0_conserves:
  assumes "p14_timer0_enabled s" and "\<not> bit (p14_ram s PIC14_OPTION_REG) 5"
  shows "let t = p14_tick_timer0 s delta; rate = timer0_rate (p14_ram s PIC14_OPTION_REG);
      ticks = (p14_timer0_acc s + delta) div rate in
    p14_timer0_acc t + rate * ticks = p14_timer0_acc s + delta \<and> p14_timer0_acc t < rate \<and>
    p14_ram t PIC14_TMR0 = p14_ram s PIC14_TMR0 + of_nat ticks \<and>
    (p14_timer0_pending t \<longleftrightarrow> p14_timer0_pending s \<or> 256 \<le> unat (p14_ram s PIC14_TMR0) + ticks)"
  using assms p14_ticks [of _ s]
  by (simp add: p14_tick_timer0_def tick_loop_eq Let_def mask_simps)

lemma p14_timer0_conserves_witness:
  "p14_ram (p14_tick_timer0 (p14_poke (p14_poke ((p14_with_device p16f877a [])
     \<lparr>p14_timer0_enabled := True, p14_timer0_acc := 3\<rparr>) 0x81 1) 1 0xFF) 6) 1 = 1"
  using p14_timer0_conserves [of "p14_poke (p14_poke ((p14_with_device p16f877a [])
     \<lparr>p14_timer0_enabled := True, p14_timer0_acc := 3\<rparr>) 0x81 1) 1 0xFF" 6]
  by (simp add: p14_with_device_def timer0_rate_def Let_def)

text \<open>C8: a program that polls GO/DONE always sees the conversion end: however the elapsed cycles are
  split into steps, ADCON0 keeps its value until 16 cycles have passed since GO was set, and after
  that GO is clear and the result registers hold the converted value.\<close>

theorem p14_adc_poll_ends:
  assumes "p14_adc_left s = 16"
  shows "(sum_list ds < 16 \<longrightarrow>
      p14_ram (foldl p14_tick_adc s ds) PIC14_ADCON0 = p14_ram s PIC14_ADCON0) \<and>
    (16 \<le> sum_list ds \<longrightarrow> \<not> bit (p14_ram (foldl p14_tick_adc s ds) PIC14_ADCON0) 2 \<and>
      p14_ram (foldl p14_tick_adc s ds) PIC14_ADRESH = ADC_RESULT_HI \<and>
      p14_ram (foldl p14_tick_adc s ds) PIC14_ADRESL = ADC_RESULT_LO)"
  using p14_adc_ticks [of s 16 ds] assms by simp

lemma p14_adc_poll_ends_witness:
  "\<not> bit (p14_ram (foldl p14_tick_adc (p14_store (p14_with_device p16f877a []) 0x1F 0x05)
     [2, 1, 9, 2, 1, 2]) 0x1F) 2"
  using p14_adc_poll_ends [of "p14_store (p14_with_device p16f877a []) 0x1F 0x05" "[2, 1, 9, 2, 1, 2]"]
  by (simp add: p14_store_def p14_ee_store_def p14_adc_store_def Let_def mask_simps)

end
