(* ===== verification/SimBaseline.thy ===== *)
theory SimBaseline
  imports Device Timing
begin

text \<open>
  \<open>PicBaseline\<close>, the 12-bit core of \<^verbatim>\<open>crates/sim/src/lib.rs\<close>. The 256-byte register file is a
  function on addresses; \<open>pbl_direct_addr_bound\<close> and \<open>pbl_indirect_addr_bound\<close> in the facts theory
  show no access leaves it. The two-level hardware stack is the pair of its levels. \<^const>\<open>None\<close> is
  a panic: a fetch past the program, an opcode arm that is not implemented, a failed assertion. The
  device's FSR bank width is below 8 on every part, so the shifts that build the bank masks do not
  overflow.
\<close>

record pic_baseline =
  pbl_device :: device
  pbl_prog :: "u16 list"
  pbl_ram :: "nat \<Rightarrow> u8"
  pbl_w :: u8
  pbl_pc :: u16
  pbl_stack :: "u16 \<times> u16"
  pbl_halted :: bool
  pbl_cycles :: nat
  pbl_tris :: u8
  pbl_option :: u8

definition pbl_with_device :: "device \<Rightarrow> u16 list \<Rightarrow> pic_baseline option" where
  "pbl_with_device d prog =
     (if dev_core d = PicBaseline then
        Some \<lparr>pbl_device = d, pbl_prog = prog, pbl_ram = (\<lambda>_. 0), pbl_w = 0, pbl_pc = 0,
          pbl_stack = (0, 0), pbl_halted = False, pbl_cycles = 0, pbl_tris = 0, pbl_option = 0\<rparr>
      else None)"

definition pbl_poke :: "pic_baseline \<Rightarrow> nat \<Rightarrow> u8 \<Rightarrow> pic_baseline" where
  "pbl_poke s a v = s\<lparr>pbl_ram := (pbl_ram s)(a := v)\<rparr>"

section \<open>Addresses and the register file\<close>

definition pbl_fsr_bank :: "pic_baseline \<Rightarrow> nat" where
  "pbl_fsr_bank s =
     unat (drop_bit 5 (pbl_ram s 4) AND (push_bit (fsr_bank_bits (pbl_device s)) 1 - 1))"

definition pbl_direct_addr :: "pic_baseline \<Rightarrow> nat \<Rightarrow> nat" where
  "pbl_direct_addr s f = (if f \<le> 0x0F then f else push_bit 5 (pbl_fsr_bank s) OR f)"

definition pbl_indirect_addr :: "pic_baseline \<Rightarrow> nat" where
  "pbl_indirect_addr s =
     unat ((ucast (pbl_ram s 4) :: u16) AND (push_bit (5 + fsr_bank_bits (pbl_device s)) 1 - 1))"

definition pbl_read_f :: "pic_baseline \<Rightarrow> nat \<Rightarrow> u8" where
  "pbl_read_f s f =
     (if f = 0x00 then pbl_ram s (pbl_indirect_addr s)
      else if f = 0x02 then ucast (pbl_pc s AND 0xFF)
      else pbl_ram s (pbl_direct_addr s f))"

definition pbl_write_f :: "pic_baseline \<Rightarrow> nat \<Rightarrow> u8 \<Rightarrow> pic_baseline" where
  "pbl_write_f s f v =
     (if f = 0x00 then pbl_poke s (pbl_indirect_addr s) v
      else if f = 0x02 then s\<lparr>pbl_pc := push_bit 4 (ucast (pbl_ram s 3 AND 0x20)) OR ucast v\<rparr>
      else if f = 0x03 then pbl_poke s 3 ((pbl_ram s 3 AND 0x18) OR (v AND 0xE7))
      else pbl_poke s (pbl_direct_addr s f) v)"

definition pbl_write_d :: "pic_baseline \<Rightarrow> u16 \<Rightarrow> nat \<Rightarrow> u8 \<Rightarrow> pic_baseline" where
  "pbl_write_d s d f r = (if d = 1 then pbl_write_f s f r else s\<lparr>pbl_w := r\<rparr>)"

section \<open>Flags, rotates and the stack\<close>

definition pbl_set_z :: "pic_baseline \<Rightarrow> u8 \<Rightarrow> pic_baseline" where
  "pbl_set_z s v =
     (if v = 0 then pbl_poke s 3 (pbl_ram s 3 OR 4) else pbl_poke s 3 (pbl_ram s 3 AND NOT 4))"

definition pbl_set_c :: "pic_baseline \<Rightarrow> bool \<Rightarrow> pic_baseline" where
  "pbl_set_c s c =
     (if c then pbl_poke s 3 (pbl_ram s 3 OR 1) else pbl_poke s 3 (pbl_ram s 3 AND NOT 1))"

definition pbl_set_dc :: "pic_baseline \<Rightarrow> bool \<Rightarrow> pic_baseline" where
  "pbl_set_dc s c =
     (if c then pbl_poke s 3 (pbl_ram s 3 OR 2) else pbl_poke s 3 (pbl_ram s 3 AND NOT 2))"

definition pbl_add_flags :: "pic_baseline \<Rightarrow> u8 \<Rightarrow> u8 \<Rightarrow> u8 \<Rightarrow> pic_baseline" where
  "pbl_add_flags s a b r =
     pbl_set_dc (pbl_set_c (pbl_set_z s r) (unat a + unat b > 0xFF))
       (unat (a AND 0x0F) + unat (b AND 0x0F) > 0x0F)"

definition pbl_rlf :: "pic_baseline \<Rightarrow> u8 \<Rightarrow> pic_baseline \<times> u8" where
  "pbl_rlf s v =
     (let cin = (if pbl_ram s 3 AND 1 \<noteq> 0 then 1 else 0);
          cout = drop_bit 7 v;
          r = push_bit 1 v OR cin
      in (pbl_set_c s (cout \<noteq> 0), r))"

definition pbl_rrf :: "pic_baseline \<Rightarrow> u8 \<Rightarrow> pic_baseline \<times> u8" where
  "pbl_rrf s v =
     (let cin = (if pbl_ram s 3 AND 1 \<noteq> 0 then 0x80 else 0);
          cout = v AND 1;
          r = drop_bit 1 v OR cin
      in (pbl_set_c s (cout \<noteq> 0), r))"

definition pbl_stack_push :: "pic_baseline \<Rightarrow> u16 \<Rightarrow> pic_baseline" where
  "pbl_stack_push s v = s\<lparr>pbl_stack := (v, fst (pbl_stack s))\<rparr>"

definition pbl_stack_pop :: "pic_baseline \<Rightarrow> pic_baseline \<times> u16" where
  "pbl_stack_pop s =
     (let (l1, l2) = pbl_stack s in (s\<lparr>pbl_stack := (l2, l2)\<rparr>, l1))"

section \<open>Instructions\<close>

text \<open>The \<open>match op6\<close> of \<open>exec_byte\<close>; \<open>word\<close> is needed where bit 5 tells MOVWF from TRIS.\<close>

definition pbl_byte_op ::
  "pic_baseline \<Rightarrow> u16 \<Rightarrow> u16 \<Rightarrow> u16 \<Rightarrow> nat \<Rightarrow> u16 \<Rightarrow> (pic_baseline \<times> u16) option" where
  "pbl_byte_op s pc word d f op6 =
     (let w = pbl_w s;
          v = pbl_read_f s f
      in
      if op6 = 0x00 then
        (if word AND 0x020 \<noteq> 0 then
           (if f = 0x02 then let s1 = pbl_write_f s f w in Some (s1, pbl_pc s1)
            else Some (pbl_write_f s f w, pc + 1))
         else Some (s\<lparr>pbl_tris := w\<rparr>, pc + 1))
      else if op6 = 0x01 then Some (pbl_set_z (pbl_write_f s f 0) 0, pc + 1)
      else if op6 = 0x02 then
        let r = v - w;
            s1 = pbl_set_dc (pbl_set_c (pbl_set_z s r) (v \<ge> w)) (v AND 0x0F \<ge> w AND 0x0F)
        in Some (pbl_write_d s1 d f r, pc + 1)
      else if op6 = 0x03 then
        let r = v - 1 in Some (pbl_write_d (pbl_set_z s r) d f r, pc + 1)
      else if op6 = 0x04 then
        let r = w OR v in Some (pbl_write_d (pbl_set_z s r) d f r, pc + 1)
      else if op6 = 0x05 then
        let r = w AND v in Some (pbl_write_d (pbl_set_z s r) d f r, pc + 1)
      else if op6 = 0x06 then
        let r = w XOR v in Some (pbl_write_d (pbl_set_z s r) d f r, pc + 1)
      else if op6 = 0x07 then
        let r = w + v in Some (pbl_write_d (pbl_add_flags s w v r) d f r, pc + 1)
      else if op6 = 0x08 then Some (pbl_write_d (pbl_set_z s v) d f v, pc + 1)
      else if op6 = 0x09 then
        let r = NOT v in Some (pbl_write_d (pbl_set_z s r) d f r, pc + 1)
      else if op6 = 0x0A then
        let r = v + 1 in Some (pbl_write_d (pbl_set_z s r) d f r, pc + 1)
      else if op6 = 0x0B then
        let r = v - 1 in Some (pbl_write_d s d f r, if r = 0 then pc + 2 else pc + 1)
      else if op6 = 0x0C then
        let (s1, r) = pbl_rrf s v in Some (pbl_write_d s1 d f r, pc + 1)
      else if op6 = 0x0D then
        let (s1, r) = pbl_rlf s v in Some (pbl_write_d s1 d f r, pc + 1)
      else if op6 = 0x0E then
        let r = push_bit 4 v OR drop_bit 4 v in Some (pbl_write_d s d f r, pc + 1)
      else if op6 = 0x0F then
        let r = v + 1 in Some (pbl_write_d s d f r, if r = 0 then pc + 2 else pc + 1)
      else None)"

definition pbl_exec_byte :: "pic_baseline \<Rightarrow> u16 \<Rightarrow> u16 \<Rightarrow> (pic_baseline \<times> u16) option" where
  "pbl_exec_byte s pc word =
     (if word = 0x0000 then Some (s, pc + 1)
      else if word = 0x0002 then Some (s\<lparr>pbl_option := pbl_w s\<rparr>, pc + 1)
      else if word = 0x0003 then
        Some ((pbl_poke s 3 ((pbl_ram s 3 AND NOT 0x08) OR 0x10))\<lparr>pbl_halted := True\<rparr>, pc)
      else if word = 0x0004 then Some (pbl_poke s 3 (pbl_ram s 3 OR 0x18), pc + 1)
      else if word = 0x0040 then Some (pbl_set_z (s\<lparr>pbl_w := 0\<rparr>) 0, pc + 1)
      else pbl_byte_op s pc word (drop_bit 5 word AND 1) (unat (word AND 0x1F))
             (drop_bit 6 word AND 0x3F))"

definition pbl_exec_bit :: "pic_baseline \<Rightarrow> u16 \<Rightarrow> u16 \<Rightarrow> pic_baseline \<times> u16" where
  "pbl_exec_bit s pc word =
     (let b = unat (drop_bit 5 word AND 7);
          f = unat (word AND 0x1F);
          op = drop_bit 8 word AND 3;
          v = pbl_read_f s f
      in if op = 0 then (pbl_write_f s f (v AND NOT (push_bit b 1)), pc + 1)
         else if op = 1 then (pbl_write_f s f (v OR push_bit b 1), pc + 1)
         else if op = 2 then (s, if v AND push_bit b 1 = 0 then pc + 2 else pc + 1)
         else (s, if v AND push_bit b 1 \<noteq> 0 then pc + 2 else pc + 1))"

definition pbl_exec_call_goto :: "pic_baseline \<Rightarrow> u16 \<Rightarrow> u16 \<Rightarrow> pic_baseline \<times> u16" where
  "pbl_exec_call_goto s pc word =
     (let k = word AND 0x1FF;
          pa0 = ucast (pbl_ram s 3 AND 0x20) :: u16
      in if word AND 0x0200 \<noteq> 0 then (s, push_bit 4 pa0 OR k)
         else if word AND 0x0100 \<noteq> 0 then
           (pbl_stack_push s (pc + 1), push_bit 4 pa0 OR (k AND 0xFF))
         else pbl_stack_pop (s\<lparr>pbl_w := ucast (word AND 0xFF)\<rparr>))"

text \<open>The last arm of \<open>exec_literal\<close> is \<open>unreachable!()\<close>.\<close>

definition pbl_exec_literal :: "pic_baseline \<Rightarrow> u16 \<Rightarrow> u16 \<Rightarrow> (pic_baseline \<times> u16) option" where
  "pbl_exec_literal s pc word =
     (let k = ucast (word AND 0xFF) :: u8;
          op = drop_bit 8 word AND 0xF;
          w = pbl_w s
      in if op = 0xC then Some (s\<lparr>pbl_w := k\<rparr>, pc + 1)
         else if op = 0xD then Some (pbl_set_z (s\<lparr>pbl_w := w OR k\<rparr>) (w OR k), pc + 1)
         else if op = 0xE then Some (pbl_set_z (s\<lparr>pbl_w := w AND k\<rparr>) (w AND k), pc + 1)
         else if op = 0xF then Some (pbl_set_z (s\<lparr>pbl_w := w XOR k\<rparr>) (w XOR k), pc + 1)
         else None)"

section \<open>The step function\<close>

definition pbl_dispatch :: "pic_baseline \<Rightarrow> u16 \<Rightarrow> u16 \<Rightarrow> (pic_baseline \<times> u16) option" where
  "pbl_dispatch s pc word =
     (let cls = drop_bit 10 word AND 3 in
      if cls = 0 then pbl_exec_byte s pc word
      else if cls = 1 then Some (pbl_exec_bit s pc word)
      else if cls = 2 then Some (pbl_exec_call_goto s pc word)
      else pbl_exec_literal s pc word)"

definition pbl_fetch :: "pic_baseline \<Rightarrow> u16 option" where
  "pbl_fetch s = (if unat (pbl_pc s) < length (pbl_prog s)
                  then Some (pbl_prog s ! unat (pbl_pc s)) else None)"

definition pbl_finish :: "pic_baseline \<Rightarrow> u16 \<Rightarrow> nat \<Rightarrow> pic_baseline" where
  "pbl_finish s next cost =
     (let s1 = s\<lparr>pbl_cycles := pbl_cycles s + cost, pbl_pc := next\<rparr> in
      if unat next \<ge> length (pbl_prog s1) then s1\<lparr>pbl_halted := True\<rparr> else s1)"

definition pbl_step :: "pic_baseline \<Rightarrow> pic_baseline option" where
  "pbl_step s =
     do {
       word \<leftarrow> pbl_fetch s;
       (s1, next) \<leftarrow> pbl_dispatch s (pbl_pc s) word;
       Some (pbl_finish s1 next (cost14_masked word (pbl_pc s) next 0xC00 0x800))
     }"

definition pbl_run :: "nat \<Rightarrow> pic_baseline \<Rightarrow> (nat \<times> pic_baseline) option" where
  "pbl_run = run_loop pbl_step pbl_halted"

definition pbl_run_until :: "u16 \<Rightarrow> nat \<Rightarrow> pic_baseline \<Rightarrow> (stop_reason \<times> pic_baseline) option" where
  "pbl_run_until = run_until_loop pbl_step pbl_halted pbl_pc"

section \<open>The debugger's view\<close>

definition pbl_bank :: "pic_baseline \<Rightarrow> u8" where "pbl_bank s = of_nat (pbl_fsr_bank s)"

definition pbl_pcl :: "pic_baseline \<Rightarrow> u8" where "pbl_pcl s = ucast (pbl_pc s AND 0xFF)"

definition pbl_set_pcl :: "pic_baseline \<Rightarrow> u8 \<Rightarrow> pic_baseline" where
  "pbl_set_pcl s v =
     (let s1 = pbl_write_f s 0x02 v
      in s1\<lparr>pbl_halted := (unat (pbl_pc s1) \<ge> length (pbl_prog s1))\<rparr>)"

definition pbl_set_w :: "pic_baseline \<Rightarrow> u8 \<Rightarrow> pic_baseline" where "pbl_set_w s v = s\<lparr>pbl_w := v\<rparr>"

definition pbl_set_pc :: "pic_baseline \<Rightarrow> u16 \<Rightarrow> pic_baseline" where
  "pbl_set_pc s a = s\<lparr>pbl_pc := a, pbl_halted := (unat a \<ge> length (pbl_prog s))\<rparr>"

definition pbl_check_phys_range :: "u8 \<Rightarrow> nat \<Rightarrow> bool" where
  "pbl_check_phys_range a len \<longleftrightarrow> unat a + len \<le> 0x100"

definition pbl_read_mem :: "pic_baseline \<Rightarrow> u8 \<Rightarrow> nat \<Rightarrow> u8 list option" where
  "pbl_read_mem s a len =
     (if pbl_check_phys_range a len then Some (map (\<lambda>i. pbl_ram s (unat a + i)) [0..<len]) else None)"

definition pbl_write_mem :: "pic_baseline \<Rightarrow> u8 \<Rightarrow> u8 list \<Rightarrow> pic_baseline option" where
  "pbl_write_mem s a bytes =
     (if pbl_check_phys_range a (length bytes) then
        Some (foldl (\<lambda>t (i, b). pbl_poke t (unat a + i) b) s (enumerate 0 bytes))
      else None)"

definition pbl_read_prog_word :: "pic_baseline \<Rightarrow> u16 \<Rightarrow> u16 option" where
  "pbl_read_prog_word s a =
     (if unat a < length (pbl_prog s) then Some (pbl_prog s ! unat a) else None)"

end
