(* ===== verification/SimBaselineProps.thy ===== *)
theory SimBaselineProps
  imports SimBaseline
begin

text \<open>
  Lemmas and properties of the 12-bit baseline core: every access stays in the 256-byte file, every
  opcode of the class fields is implemented, the interpretation of the run interface, and what the
  two-level stack and the PCL path do.
\<close>

section \<open>Frames\<close>

lemma pbl_poke_frame [simp]:
  "pbl_device (pbl_poke s a v) = pbl_device s" "pbl_prog (pbl_poke s a v) = pbl_prog s"
  "pbl_w (pbl_poke s a v) = pbl_w s" "pbl_pc (pbl_poke s a v) = pbl_pc s"
  "pbl_stack (pbl_poke s a v) = pbl_stack s" "pbl_halted (pbl_poke s a v) = pbl_halted s"
  "pbl_cycles (pbl_poke s a v) = pbl_cycles s" "pbl_ram (pbl_poke s a v) = (pbl_ram s)(a := v)"
  by (simp_all add: pbl_poke_def)

lemma pbl_flags_frame [simp]:
  "pbl_device (pbl_set_z s v) = pbl_device s" "pbl_device (pbl_set_c s c) = pbl_device s"
  "pbl_device (pbl_set_dc s c) = pbl_device s" "pbl_device (pbl_add_flags s x y r) = pbl_device s"
  "pbl_prog (pbl_set_z s v) = pbl_prog s" "pbl_prog (pbl_set_c s c) = pbl_prog s"
  "pbl_prog (pbl_set_dc s c) = pbl_prog s" "pbl_prog (pbl_add_flags s x y r) = pbl_prog s"
  "pbl_stack (pbl_set_z s v) = pbl_stack s" "pbl_stack (pbl_set_c s c) = pbl_stack s"
  "pbl_stack (pbl_set_dc s c) = pbl_stack s" "pbl_stack (pbl_add_flags s x y r) = pbl_stack s"
  "pbl_cycles (pbl_set_z s v) = pbl_cycles s" "pbl_cycles (pbl_set_c s c) = pbl_cycles s"
  "pbl_cycles (pbl_set_dc s c) = pbl_cycles s" "pbl_cycles (pbl_add_flags s x y r) = pbl_cycles s"
  by (simp_all add: pbl_set_z_def pbl_set_c_def pbl_set_dc_def pbl_add_flags_def)

lemma pbl_flags_ram [simp]:
  "a \<noteq> 3 \<Longrightarrow> pbl_ram (pbl_set_z s v) a = pbl_ram s a"
  "a \<noteq> 3 \<Longrightarrow> pbl_ram (pbl_set_c s c) a = pbl_ram s a"
  "a \<noteq> 3 \<Longrightarrow> pbl_ram (pbl_set_dc s c) a = pbl_ram s a"
  "a \<noteq> 3 \<Longrightarrow> pbl_ram (pbl_add_flags s x y r) a = pbl_ram s a"
  by (simp_all add: pbl_set_z_def pbl_set_c_def pbl_set_dc_def pbl_add_flags_def)

lemma pbl_write_frame [simp]:
  "pbl_device (pbl_write_f s f v) = pbl_device s" "pbl_prog (pbl_write_f s f v) = pbl_prog s"
  "pbl_stack (pbl_write_f s f v) = pbl_stack s" "pbl_cycles (pbl_write_f s f v) = pbl_cycles s"
  "pbl_device (pbl_write_d s d f v) = pbl_device s" "pbl_prog (pbl_write_d s d f v) = pbl_prog s"
  "pbl_stack (pbl_write_d s d f v) = pbl_stack s" "pbl_cycles (pbl_write_d s d f v) = pbl_cycles s"
  by (simp_all add: pbl_write_f_def pbl_write_d_def)

lemma pbl_rotate_frame [simp]:
  "pbl_prog (fst (pbl_rlf s v)) = pbl_prog s" "pbl_prog (fst (pbl_rrf s v)) = pbl_prog s"
  "pbl_cycles (fst (pbl_rlf s v)) = pbl_cycles s" "pbl_cycles (fst (pbl_rrf s v)) = pbl_cycles s"
  by (simp_all add: pbl_rlf_def pbl_rrf_def Let_def)

lemma pbl_rotate_ram [simp]:
  "a \<noteq> 3 \<Longrightarrow> pbl_ram (fst (pbl_rlf s v)) a = pbl_ram s a"
  "a \<noteq> 3 \<Longrightarrow> pbl_ram (fst (pbl_rrf s v)) a = pbl_ram s a"
  by (simp_all add: pbl_rlf_def pbl_rrf_def Let_def)

lemma pbl_stack_frame [simp]:
  "pbl_prog (pbl_stack_push s v) = pbl_prog s" "pbl_cycles (pbl_stack_push s v) = pbl_cycles s"
  "pbl_ram (pbl_stack_push s v) = pbl_ram s"
  "pbl_prog (fst (pbl_stack_pop s)) = pbl_prog s" "pbl_cycles (fst (pbl_stack_pop s)) = pbl_cycles s"
  "pbl_ram (fst (pbl_stack_pop s)) = pbl_ram s"
  by (simp_all add: pbl_stack_push_def pbl_stack_pop_def case_prod_unfold Let_def)

section \<open>Addresses\<close>

lemma and_le_nat: "unat (x AND (y :: 'a::len word)) \<le> unat x"
  by (simp add: word_le_nat_alt [symmetric] word_and_le2)

lemma pbl_fsr_bank_bound: "pbl_fsr_bank s < 8"
proof -
  have "pbl_fsr_bank s \<le> unat (drop_bit 5 (pbl_ram s 4))"
    by (simp add: pbl_fsr_bank_def and_le_nat)
  also have "\<dots> < 8" using u8_less_256 [of "pbl_ram s 4"] by (simp add: field_nat)
  finally show ?thesis .
qed

lemma or_less_pow2_nat:
  fixes a b :: nat
  assumes "a < 2 ^ n" "b < 2 ^ n"
  shows "a OR b < 2 ^ n"
proof -
  have "take_bit n (a OR b) = a OR b" using assms by (simp add: take_bit_nat_eq_self)
  then show ?thesis by (metis take_bit_nat_less_exp)
qed

lemma pbl_direct_addr_bound [bound_intros]: "f < 32 \<Longrightarrow> pbl_direct_addr s f < 256"
  using or_less_pow2_nat [of "push_bit 5 (pbl_fsr_bank s)" 8 f] pbl_fsr_bank_bound [of s]
  by (simp add: pbl_direct_addr_def push_bit_eq_mult)

lemma pbl_indirect_addr_bound [bound_intros]: "pbl_indirect_addr s < 256"
proof -
  have "pbl_indirect_addr s \<le> unat (ucast (pbl_ram s 4) :: u16)"
    unfolding pbl_indirect_addr_def by (rule and_le_nat)
  also have "\<dots> < 256" using u8_less_256 [of "pbl_ram s 4"] by simp
  finally show ?thesis .
qed

lemma pbl_write_f_outside:
  "f < 32 \<Longrightarrow> 256 \<le> b \<Longrightarrow> pbl_ram (pbl_write_f s f v) b = pbl_ram s b"
  using pbl_direct_addr_bound [of f s] pbl_indirect_addr_bound [of s]
  by (auto simp: pbl_write_f_def)

lemma pbl_write_d_outside:
  "f < 32 \<Longrightarrow> 256 \<le> b \<Longrightarrow> pbl_ram (pbl_write_d s d f v) b = pbl_ram s b"
  by (simp add: pbl_write_d_def pbl_write_f_outside)

section \<open>Every opcode is implemented\<close>

lemma pbl_byte_op_facts:
  assumes "unat op6 < 16" and "f < 32"
  obtains s' n where "pbl_byte_op s pc word d f op6 = Some (s', n)" and "pbl_prog s' = pbl_prog s"
    and "pbl_cycles s' = pbl_cycles s" and "\<And>b. 256 \<le> b \<Longrightarrow> pbl_ram s' b = pbl_ram s b"
proof -
  have "\<exists>s' n. pbl_byte_op s pc word d f op6 = Some (s', n) \<and> pbl_prog s' = pbl_prog s \<and>
      pbl_cycles s' = pbl_cycles s \<and> (\<forall>b\<ge>256. pbl_ram s' b = pbl_ram s b)"
    using assms(1)
    by (cases rule: u16_low4_cases)
      (simp_all add: pbl_byte_op_def Let_def case_prod_unfold pbl_write_f_outside [OF assms(2)]
        pbl_write_d_outside [OF assms(2)] pbl_write_f_outside [of 2])
  then show thesis using that by blast
qed

lemma pbl_dispatch_facts:
  obtains s' n where "pbl_dispatch s pc word = Some (s', n)" and "pbl_prog s' = pbl_prog s"
    and "pbl_cycles s' = pbl_cycles s" and "\<And>b. 256 \<le> b \<Longrightarrow> pbl_ram s' b = pbl_ram s b"
proof (cases rule: u16_class_cases [of 10 word])
  case 1
  have f: "unat (word AND 0x1F) < 32" by (simp add: field_nat)
  obtain t n where t: "pbl_byte_op s pc word (drop_bit 5 word AND 1) (unat (word AND 0x1F))
        (drop_bit 6 word AND 0x3F) = Some (t, n)" "pbl_prog t = pbl_prog s"
      "pbl_cycles t = pbl_cycles s" "\<And>b. 256 \<le> b \<Longrightarrow> pbl_ram t b = pbl_ram s b"
    by (rule pbl_byte_op_facts [OF baseline_class_op6 [OF 1] f, of s pc word "drop_bit 5 word AND 1"])
      blast
  from 1 have d: "pbl_dispatch s pc word = pbl_exec_byte s pc word" by (simp add: pbl_dispatch_def)
  show thesis
  proof (cases "word = 0 \<or> word = 2 \<or> word = 3 \<or> word = 4 \<or> word = 0x40")
    case True
    then show thesis using d that by (elim disjE) (simp_all add: pbl_exec_byte_def)
  next
    case False
    with d t(1) have "pbl_dispatch s pc word = Some (t, n)" by (simp add: pbl_exec_byte_def)
    with t that show thesis by blast
  qed
next
  case 2
  have "unat (word AND 0x1F) < 32" by (simp add: field_nat)
  then show thesis
    using 2 that [of "fst (pbl_exec_bit s pc word)" "snd (pbl_exec_bit s pc word)"]
    by (simp add: pbl_dispatch_def pbl_exec_bit_def Let_def pbl_write_f_outside)
next
  case 3
  then have d: "pbl_dispatch s pc word =
      Some (fst (pbl_exec_call_goto s pc word), snd (pbl_exec_call_goto s pc word))"
    by (simp add: pbl_dispatch_def)
  show thesis by (rule that [OF d]) (simp_all add: pbl_exec_call_goto_def Let_def)
next
  case 4
  let ?op = "drop_bit 8 word AND 0xF"
  have lo: "12 \<le> unat ?op" and hi: "unat ?op < 16"
    using baseline_literal_op [OF 4] by (simp_all add: field_nat)
  from hi have "?op = 0xC \<or> ?op = 0xD \<or> ?op = 0xE \<or> ?op = 0xF"
    by (cases rule: u16_low4_cases) (use lo in simp_all)
  with 4 that show thesis by (auto simp: pbl_dispatch_def pbl_exec_literal_def Let_def)
qed

section \<open>Running\<close>

definition pbl_inv :: "pic_baseline \<Rightarrow> bool" where
  "pbl_inv s \<longleftrightarrow> (\<not> pbl_halted s \<longrightarrow> unat (pbl_pc s) < length (pbl_prog s))"

lemma pbl_step_facts:
  assumes "unat (pbl_pc s) < length (pbl_prog s)"
  obtains s' where "pbl_step s = Some s'" and "pbl_prog s' = pbl_prog s" and "pbl_inv s'"
    and "pbl_cycles s < pbl_cycles s'" and "pbl_cycles s' \<le> pbl_cycles s + 2"
    and "\<And>b. 256 \<le> b \<Longrightarrow> pbl_ram s' b = pbl_ram s b"
proof -
  let ?word = "pbl_prog s ! unat (pbl_pc s)"
  obtain t n where t: "pbl_dispatch s (pbl_pc s) ?word = Some (t, n)" "pbl_prog t = pbl_prog s"
      "pbl_cycles t = pbl_cycles s" "\<And>b. 256 \<le> b \<Longrightarrow> pbl_ram t b = pbl_ram s b"
    using pbl_dispatch_facts [of s "pbl_pc s" ?word] by metis
  with assms have s': "pbl_step s =
      Some (pbl_finish t n (cost14_masked ?word (pbl_pc s) n 0xC00 0x800))"
    by (simp add: pbl_step_def pbl_fetch_def)
  show thesis
    by (rule that [OF s'])
      (use t cost14_masked_bounds [of ?word "pbl_pc s" n "0xC00" "0x800"] in
        \<open>simp_all add: pbl_finish_def pbl_inv_def Let_def\<close>)
qed

lemma pbl_step_fetches: "pbl_step s = Some s' \<Longrightarrow> unat (pbl_pc s) < length (pbl_prog s)"
  by (auto simp: pbl_step_def pbl_fetch_def split: if_splits)

interpretation pbl: total_core pbl_step pbl_halted pbl_pc pbl_prog pbl_cycles pbl_inv 2
proof unfold_locales
  fix s s' assume s: "pbl_step s = Some s'"
  show "pbl_prog s' = pbl_prog s" using s pbl_step_facts [OF pbl_step_fetches [OF s]] by auto
  show "pbl_cycles s < pbl_cycles s' \<and> pbl_cycles s' \<le> pbl_cycles s + 2"
    using s pbl_step_facts [OF pbl_step_fetches [OF s]] by auto
next
  fix s s' assume "pbl_inv s" and s: "pbl_step s = Some s'"
  show "pbl_inv s'" using s pbl_step_facts [OF pbl_step_fetches [OF s]] by auto
next
  fix s assume "pbl_inv s" "\<not> pbl_halted s"
  then show "\<exists>s'. pbl_step s = Some s'" using pbl_step_facts [of s] by (auto simp: pbl_inv_def)
qed

section \<open>Properties\<close>

text \<open>C9: the baseline core never panics and never leaves its 256-byte file: from a state whose program
  counter is inside the program a step succeeds, costs one or two cycles, and writes only below
  address 256; \<open>run\<close> therefore always returns.\<close>

theorem pbl_run_total:
  assumes "pbl_inv s"
  shows "(\<not> pbl_halted s \<longrightarrow> (\<exists>s'. pbl_step s = Some s' \<and> (\<forall>b\<ge>256. pbl_ram s' b = pbl_ram s b))) \<and>
    (\<exists>k t. pbl_run n s = Some (k, t) \<and> k \<le> n \<and> pbl_cycles s + k \<le> pbl_cycles t \<and>
       pbl_cycles t \<le> pbl_cycles s + 2 * k \<and> (k < n \<longrightarrow> pbl_halted t))"
proof -
  from pbl.run_total [OF assms] obtain k t
    where r: "run_loop pbl_step pbl_halted n s = Some (k, t)" by blast
  have "\<not> pbl_halted s \<Longrightarrow> \<exists>s'. pbl_step s = Some s' \<and> (\<forall>b\<ge>256. pbl_ram s' b = pbl_ram s b)"
    using assms pbl_step_facts [of s] by (metis pbl_inv_def)
  then show ?thesis using pbl.run_facts [OF r] r by (auto simp: pbl_run_def)
qed

definition pbl_demo :: "u16 list \<Rightarrow> pic_baseline" where
  "pbl_demo prog = the (pbl_with_device p12f509 prog)"

lemma pbl_demo_eq:
  "pbl_demo prog = \<lparr>pbl_device = p12f509, pbl_prog = prog, pbl_ram = (\<lambda>_. 0), pbl_w = 0, pbl_pc = 0,
     pbl_stack = (0, 0), pbl_halted = False, pbl_cycles = 0, pbl_tris = 0, pbl_option = 0\<rparr>"
  by (simp add: pbl_demo_def pbl_with_device_def p12f509_def)

lemma pbl_run_total_witness: "\<exists>k t. pbl_run 5 (pbl_demo [0xC07, 0x030]) = Some (k, t) \<and> k \<le> 5"
  using pbl_run_total [of "pbl_demo [0xC07, 0x030]" 5] by (auto simp: pbl_inv_def pbl_demo_eq)

primrec pbl_pops :: "nat \<Rightarrow> pic_baseline \<Rightarrow> u16 list" where
  "pbl_pops 0 s = []"
| "pbl_pops (Suc n) s = (let (s1, a) = pbl_stack_pop s in a # pbl_pops n s1)"

lemma pbl_pops_bottom:
  "pbl_stack s = (a, b) \<Longrightarrow> pbl_pops (Suc n) s = a # replicate n b"
  by (induction n arbitrary: s a) (simp_all add: pbl_stack_pop_def)

lemma pbl_stack_pushes:
  "pbl_stack (foldl pbl_stack_push s (as @ [b, c])) = (c, b)"
  by (simp add: pbl_stack_push_def)

text \<open>the hardware stack is a two-level shift register: however many calls are nested, returns go to the
  innermost caller and then to the one before it, every return address pushed earlier is lost, and
  further returns keep repeating the second address instead of giving 0.\<close>

theorem pbl_stack_two_levels:
  "pbl_pops (Suc n) (foldl pbl_stack_push s (as @ [b, c])) = c # replicate n b"
  using pbl_pops_bottom [OF pbl_stack_pushes] .

text \<open>C11: a byte operation whose destination is PCL does not jump: a step of any byte-oriented instruction
  other than MOVWF goes on with the next instruction (or the one after, for the two skips) whatever it
  wrote, since the core overwrites the program counter that \<open>write_f\<close> computed. Only MOVWF PCL
  transfers control.\<close>

theorem pbl_addwf_pcl_falls_through:
  assumes "pbl_fetch s = Some word" and "pbl_step s = Some s'" and "drop_bit 10 word AND 3 = 0"
  shows "(drop_bit 6 word AND 0x3F \<noteq> 0 \<longrightarrow>
      pbl_pc s' = pbl_pc s + 1 \<or>
      drop_bit 6 word AND 0x3F \<in> {0x0B, 0x0F} \<and> pbl_pc s' = pbl_pc s + 2) \<and>
    (word = 0x022 \<longrightarrow> pbl_pc s' = pbl_pc (pbl_write_f s 0x02 (pbl_w s)))"
proof -
  obtain t n where d: "pbl_exec_byte s (pbl_pc s) word = Some (t, n)" and pc: "pbl_pc s' = n"
    using assms by (auto simp: pbl_step_def pbl_dispatch_def pbl_finish_def Let_def
        split: Option.bind_splits if_splits)
  have "n = pbl_pc s + 1 \<or> drop_bit 6 word AND 0x3F \<in> {0x0B, 0x0F} \<and> n = pbl_pc s + 2"
    if "drop_bit 6 word AND 0x3F \<noteq> 0"
    using d that
    by (simp add: pbl_exec_byte_def pbl_byte_op_def Let_def split: if_splits prod.splits)
  moreover have "n = pbl_pc (pbl_write_f s 0x02 (pbl_w s))" if "word = 0x022"
    using d that by (auto simp: pbl_exec_byte_def pbl_byte_op_def Let_def)
  ultimately show ?thesis by (simp add: pc)
qed

lemma pbl_addwf_pcl_falls_through_witness:
  "\<exists>s'. pbl_step ((pbl_demo [0x1E2, 0, 0, 0])\<lparr>pbl_w := 2\<rparr>) = Some s' \<and> pbl_pc s' = 1"
proof -
  let ?s = "(pbl_demo [0x1E2, 0, 0, 0])\<lparr>pbl_w := 2\<rparr>"
  have f: "pbl_fetch ?s = Some 0x1E2" by (simp add: pbl_fetch_def pbl_demo_eq)
  moreover obtain s' where s': "pbl_step ?s = Some s'"
    using pbl_step_facts [of ?s] by (auto simp: pbl_demo_eq)
  ultimately show ?thesis
    using pbl_addwf_pcl_falls_through [OF f s'] by (auto simp: pbl_demo_eq)
qed

end
