(* ===== verification/Sim14e.thy ===== *)
theory Sim14e
  imports Device Eeprom Timing
begin

text \<open>
  \<open>Pic14e\<close>, the enhanced mid-range core of \<^verbatim>\<open>crates/sim/src/lib.rs\<close>: 4096 bytes of data memory, two
  16-bit FSRs over three address regions, the hardware shadow registers, and the extra cycle a flash
  access through INDF owes. An FSR can name an address outside the data memory or past the program,
  so reads and writes through INDF can panic: both are option-valued, and a read returns the state
  too, because it can record the owed cycle.
\<close>

record pic14e =
  p14e_prog :: "u16 list"
  p14e_ram :: "nat \<Rightarrow> u8"
  p14e_w :: u8
  p14e_pc :: u16
  p14e_stack :: "u16 list"
  p14e_halted :: bool
  p14e_cycles :: nat
  p14e_pending :: bool
  p14e_timer0_acc :: nat
  p14e_timer0_enabled :: bool
  p14e_timer0_pending :: bool
  p14e_shadow :: "u8 list"
  p14e_cycle_debt :: nat
  p14e_eeprom :: eeprom
  p14e_adc_left :: nat

abbreviation (input) E_INTCON :: nat where "E_INTCON \<equiv> 0x0B"
abbreviation (input) PIC14E_TMR0 :: nat where "PIC14E_TMR0 \<equiv> 0x15"
abbreviation (input) PIC14E_OPTION_REG :: nat where "PIC14E_OPTION_REG \<equiv> 0x95"
abbreviation (input) PIC14E_ADCON0 :: nat where "PIC14E_ADCON0 \<equiv> 0x9D"
abbreviation (input) PIC14E_ADRESL :: nat where "PIC14E_ADRESL \<equiv> 0x9B"
abbreviation (input) PIC14E_ADRESH :: nat where "PIC14E_ADRESH \<equiv> 0x9C"
abbreviation (input) PIC14E_EEADR :: nat where "PIC14E_EEADR \<equiv> 0x191"
abbreviation (input) PIC14E_EEDATA :: nat where "PIC14E_EEDATA \<equiv> 0x193"
abbreviation (input) PIC14E_EECON1 :: nat where "PIC14E_EECON1 \<equiv> 0x195"
abbreviation (input) PIC14E_EECON2 :: nat where "PIC14E_EECON2 \<equiv> 0x196"

definition pic14e_por :: "(nat \<times> u8) list" where
  "pic14e_por =
    [(0x03, 0x18), (PIC14E_OPTION_REG, 0xFF), (0x8C, 0xFF), (0x8D, 0xFF), (0x8E, 0xFF),
     (0x1B, 0xFF), (0x19E, 0x02), (PIC14E_ADCON0, 0x00), (0x9E, 0x00), (0x111, 0x00), (0x113, 0x00)]"

definition p14e_apply_por :: "(nat \<Rightarrow> u8) \<Rightarrow> (nat \<Rightarrow> u8)" where
  "p14e_apply_por ram = foldl (\<lambda>r (a, v). r(a := v)) ram pic14e_por"

definition p14e_with_device :: "device \<Rightarrow> u16 list \<Rightarrow> pic14e option" where
  "p14e_with_device d prog =
     (if dev_core d = Pic14e then
        Some \<lparr>p14e_prog = prog, p14e_ram = p14e_apply_por (\<lambda>_. 0), p14e_w = 0, p14e_pc = 0,
          p14e_stack = [], p14e_halted = False, p14e_cycles = 0, p14e_pending = False,
          p14e_timer0_acc = 0, p14e_timer0_enabled = False, p14e_timer0_pending = False,
          p14e_shadow = replicate 8 0, p14e_cycle_debt = 0, p14e_eeprom = ee_new,
          p14e_adc_left = 0\<rparr>
      else None)"

definition p14e_poke :: "pic14e \<Rightarrow> nat \<Rightarrow> u8 \<Rightarrow> pic14e" where
  "p14e_poke s a v = s\<lparr>p14e_ram := (p14e_ram s)(a := v)\<rparr>"

definition p14e_set_timer0_enabled :: "pic14e \<Rightarrow> bool \<Rightarrow> pic14e" where
  "p14e_set_timer0_enabled s e = s\<lparr>p14e_timer0_enabled := e\<rparr>"

section \<open>Interrupts and the shadow registers\<close>

definition p14e_request_interrupt :: "pic14e \<Rightarrow> pic14e" where
  "p14e_request_interrupt s =
     (p14e_poke s E_INTCON (p14e_ram s E_INTCON OR 0x02))\<lparr>p14e_pending := True\<rparr>"

definition p14e_interrupt_pending :: "pic14e \<Rightarrow> bool" where
  "p14e_interrupt_pending s \<longleftrightarrow> p14e_pending s \<or> p14e_timer0_pending s"

definition p14e_save_shadow :: "pic14e \<Rightarrow> u8 list" where
  "p14e_save_shadow s =
     [p14e_w s, p14e_ram s 3 AND NOT 0x18, p14e_ram s 8] @ map (p14e_ram s) [4, 5, 6, 7, 10]"

definition p14e_enter_isr :: "pic14e \<Rightarrow> pic14e" where
  "p14e_enter_isr s =
     (p14e_poke (s\<lparr>p14e_shadow := p14e_save_shadow s, p14e_stack := p14e_pc s # p14e_stack s\<rparr>)
        E_INTCON (p14e_ram s E_INTCON AND NOT 0x80))\<lparr>p14e_pc := 4\<rparr>"

definition p14e_fire_interrupt :: "pic14e \<Rightarrow> pic14e" where
  "p14e_fire_interrupt s = p14e_enter_isr s"

definition p14e_interrupt_ready :: "pic14e \<Rightarrow> bool" where
  "p14e_interrupt_ready s \<longleftrightarrow>
     (let intcon = p14e_ram s E_INTCON in
      intcon AND 0x80 \<noteq> 0 \<and>
      ((p14e_pending s \<and> intcon AND 0x10 \<noteq> 0) \<or> (p14e_timer0_pending s \<and> intcon AND 0x20 \<noteq> 0)))"

text \<open>The RETFIE restore: W, STATUS without TO/PD, BSR, then FSR0, FSR1 and PCLATH.\<close>

definition p14e_restore_shadow :: "pic14e \<Rightarrow> pic14e" where
  "p14e_restore_shadow s =
     (let sh = p14e_shadow s;
          s1 = p14e_poke (s\<lparr>p14e_w := sh ! 0\<rparr>) 3 ((p14e_ram s 3 AND 0x18) OR (sh ! 1 AND 0x07));
          s2 = p14e_poke s1 8 (sh ! 2)
      in foldl (\<lambda>t (v, r). p14e_poke t r v) s2 (zip (drop 3 sh) [4, 5, 6, 7, 10]))"

section \<open>Timer0 and the ADC stub\<close>

definition p14e_timer0_rate :: "u8 \<Rightarrow> nat" where
  "p14e_timer0_rate option_reg =
     (if option_reg AND 0x08 \<noteq> 0 then 1 else 2 ^ (unat (option_reg AND 0x07) + 1))"

definition p14e_timer0_tick :: "pic14e \<Rightarrow> pic14e" where
  "p14e_timer0_tick s =
     (let v = p14e_ram s PIC14E_TMR0 + 1;
          s1 = p14e_poke s PIC14E_TMR0 v
      in if p14e_ram s PIC14E_TMR0 = 0xFF
         then (p14e_poke s1 E_INTCON (p14e_ram s1 E_INTCON OR 0x04))\<lparr>p14e_timer0_pending := True\<rparr>
         else s1)"

definition p14e_tick_timer0 :: "pic14e \<Rightarrow> nat \<Rightarrow> pic14e" where
  "p14e_tick_timer0 s delta =
     (if \<not> p14e_timer0_enabled s then s\<lparr>p14e_timer0_acc := 0\<rparr>
      else let option_reg = p14e_ram s PIC14E_OPTION_REG in
        if option_reg AND 0x20 \<noteq> 0 then s\<lparr>p14e_timer0_acc := 0\<rparr>
        else let (acc, s1) =
            tick_loop (p14e_timer0_rate option_reg) p14e_timer0_tick (p14e_timer0_acc s + delta) s
          in s1\<lparr>p14e_timer0_acc := acc\<rparr>)"

definition p14e_tick_adc :: "pic14e \<Rightarrow> nat \<Rightarrow> pic14e" where
  "p14e_tick_adc s delta =
     (if p14e_adc_left s = 0 then s
      else let s1 = s\<lparr>p14e_adc_left := p14e_adc_left s - delta\<rparr> in
        if p14e_adc_left s1 = 0 then
          p14e_poke (p14e_poke (p14e_poke s1 PIC14E_ADCON0
             (p14e_ram s1 PIC14E_ADCON0 AND NOT 0x02)) PIC14E_ADRESH 0x80) PIC14E_ADRESL 0x00
        else s1)"

definition p14e_adc_store :: "pic14e \<Rightarrow> nat \<Rightarrow> u8 \<Rightarrow> pic14e" where
  "p14e_adc_store s a v =
     (if a = PIC14E_ADCON0 \<and> v AND 0x02 \<noteq> 0 then s\<lparr>p14e_adc_left := 16\<rparr> else s)"

section \<open>STATUS flags\<close>

definition p14e_set_z :: "pic14e \<Rightarrow> u8 \<Rightarrow> pic14e" where
  "p14e_set_z s v =
     (if v = 0 then p14e_poke s 3 (p14e_ram s 3 OR 4) else p14e_poke s 3 (p14e_ram s 3 AND NOT 4))"

definition p14e_set_c :: "pic14e \<Rightarrow> bool \<Rightarrow> pic14e" where
  "p14e_set_c s c =
     (if c then p14e_poke s 3 (p14e_ram s 3 OR 1) else p14e_poke s 3 (p14e_ram s 3 AND NOT 1))"

definition p14e_set_dc :: "pic14e \<Rightarrow> bool \<Rightarrow> pic14e" where
  "p14e_set_dc s c =
     (if c then p14e_poke s 3 (p14e_ram s 3 OR 2) else p14e_poke s 3 (p14e_ram s 3 AND NOT 2))"

definition p14e_add_flags :: "pic14e \<Rightarrow> u8 \<Rightarrow> u8 \<Rightarrow> u8 \<Rightarrow> pic14e" where
  "p14e_add_flags s a b r =
     p14e_set_dc (p14e_set_c (p14e_set_z s r) (unat a + unat b > 0xFF))
       (unat (a AND 0x0F) + unat (b AND 0x0F) > 0x0F)"

section \<open>The three address regions\<close>

definition p14e_indirect_addr :: "u16 \<Rightarrow> nat" where
  "p14e_indirect_addr fsr =
     (if fsr AND 0x8000 \<noteq> 0 then unat (fsr AND 0x7FFF)
      else if 0x2000 \<le> fsr \<and> fsr \<le> 0x29AF then
        let off = unat (fsr - 0x2000); bank = off div 80 in bank * 0x80 + 0x20 + off mod 80
      else unat fsr)"

definition p14e_read_ram :: "pic14e \<Rightarrow> u16 \<Rightarrow> (pic14e \<times> u8) option" where
  "p14e_read_ram s fsr =
     (let a = p14e_indirect_addr fsr in
      if fsr AND 0x8000 \<noteq> 0 then
        (if a < length (p14e_prog s)
         then Some (s\<lparr>p14e_cycle_debt := 1\<rparr>, ucast (p14e_prog s ! a AND 0xFF)) else None)
      else if a < 4096 then Some (s, p14e_ram s a) else None)"

definition p14e_direct_addr :: "pic14e \<Rightarrow> nat \<Rightarrow> nat" where
  "p14e_direct_addr s f =
     (if f \<le> 0x0B \<or> (0x70 \<le> f \<and> f \<le> 0x7F) then f
      else push_bit 7 (unat (p14e_ram s 8) AND 0x1F) OR f)"

definition p14e_fsr :: "pic14e \<Rightarrow> nat \<Rightarrow> u16" where
  "p14e_fsr s n = ucast (p14e_ram s (4 + 2 * n)) OR push_bit 8 (ucast (p14e_ram s (5 + 2 * n)))"

definition p14e_set_fsr :: "pic14e \<Rightarrow> nat \<Rightarrow> u16 \<Rightarrow> pic14e" where
  "p14e_set_fsr s n v =
     p14e_poke (p14e_poke s (4 + 2 * n) (ucast (v AND 0xFF))) (5 + 2 * n) (ucast (drop_bit 8 v))"

definition p14e_read_f :: "pic14e \<Rightarrow> nat \<Rightarrow> (pic14e \<times> u8) option" where
  "p14e_read_f s f =
     (if f = 0x00 then p14e_read_ram s (p14e_fsr s 0)
      else if f = 0x01 then p14e_read_ram s (p14e_fsr s 1)
      else if f = 0x02 then Some (s, ucast (p14e_pc s AND 0xFF))
      else if f = 0x09 then Some (s, p14e_w s)
      else Some (s, p14e_ram s (p14e_direct_addr s f)))"

definition p14e_ee_store :: "pic14e \<Rightarrow> nat \<Rightarrow> u8 \<Rightarrow> pic14e \<times> u8 option" where
  "p14e_ee_store s a v =
     (if a \<noteq> PIC14E_EECON1 \<and> a \<noteq> PIC14E_EECON2 then (s, None)
      else let (e, d, r) = ee_on_store (p14e_eeprom s) a PIC14E_EECON1 PIC14E_EECON2 v
                (p14e_ram s PIC14E_EEADR) (p14e_ram s PIC14E_EEDATA)
                (p14e_ram s PIC14E_EECON1 AND 4 \<noteq> 0)
           in ((p14e_poke s PIC14E_EEDATA d)\<lparr>p14e_eeprom := e\<rparr>, r))"

text \<open>The store body \<open>write_ram\<close> and \<open>write_f\<close> share, at a resolved address.\<close>

definition p14e_store :: "pic14e \<Rightarrow> nat \<Rightarrow> u8 \<Rightarrow> pic14e" where
  "p14e_store s a v =
     (let (s1, r) = p14e_ee_store s a v;
          v1 = (case r of Some x \<Rightarrow> x | None \<Rightarrow> v);
          s2 = p14e_poke s1 a v1;
          s3 = (if a = PIC14E_TMR0 then s2\<lparr>p14e_timer0_acc := 0\<rparr> else s2)
      in p14e_adc_store s3 a v1)"

definition p14e_write_ram :: "pic14e \<Rightarrow> u16 \<Rightarrow> u8 \<Rightarrow> pic14e option" where
  "p14e_write_ram s fsr v =
     (if fsr AND 0x8000 \<noteq> 0 then None
      else let a = p14e_indirect_addr fsr in
        if a < 4096 then Some (p14e_store s a v) else None)"

definition p14e_write_f :: "pic14e \<Rightarrow> nat \<Rightarrow> u8 \<Rightarrow> pic14e option" where
  "p14e_write_f s f v =
     (if f = 0x00 then p14e_write_ram s (p14e_fsr s 0) v
      else if f = 0x01 then p14e_write_ram s (p14e_fsr s 1) v
      else if f = 0x02 then
        Some (s\<lparr>p14e_pc := push_bit 8 (ucast (p14e_ram s 0x0A) AND 0x7F) OR ucast v\<rparr>)
      else if f = 0x03 then Some (p14e_poke s 3 ((p14e_ram s 3 AND 0x18) OR (v AND 0x07)))
      else if f = 0x09 then Some (s\<lparr>p14e_w := v\<rparr>)
      else Some (p14e_store s (p14e_direct_addr s f) v))"

definition p14e_write_d :: "pic14e \<Rightarrow> u16 \<Rightarrow> nat \<Rightarrow> u8 \<Rightarrow> pic14e option" where
  "p14e_write_d s d f r = (if d = 1 then p14e_write_f s f r else Some (s\<lparr>p14e_w := r\<rparr>))"

definition p14e_pop_return :: "pic14e \<Rightarrow> pic14e \<times> u16" where
  "p14e_pop_return s =
     (case p14e_stack s of [] \<Rightarrow> (s, 0) | a # st \<Rightarrow> (s\<lparr>p14e_stack := st\<rparr>, a))"

section \<open>Byte-oriented instructions\<close>

text \<open>MOVIW and MOVWI with a pre- or post-increment, words 0x0010 to 0x001F.\<close>

definition p14e_moviw :: "pic14e \<Rightarrow> u16 \<Rightarrow> u16 \<Rightarrow> (pic14e \<times> u16) option" where
  "p14e_moviw s pc word =
     (let n = unat (drop_bit 2 word AND 1);
          mm = word AND 3;
          to_w = (word AND 0x08 = 0);
          fsr = p14e_fsr s n;
          (eff, after) =
            (if mm = 0 then (fsr + 1, fsr + 1)
             else if mm = 1 then (fsr - 1, fsr - 1)
             else if mm = 2 then (fsr, fsr + 1)
             else (fsr, fsr - 1))
      in do {
        (s1, v) \<leftarrow> p14e_read_ram s eff;
        let s2 = p14e_set_fsr s1 n after;
        (if to_w then Some ((p14e_set_z s2 v)\<lparr>p14e_w := v\<rparr>, pc + 1)
         else do { s3 \<leftarrow> p14e_write_ram s2 eff (p14e_w s2); Some (s3, pc + 1) })
      })"

definition p14e_reset :: "pic14e \<Rightarrow> pic14e" where
  "p14e_reset s =
     (let flags = p14e_ram s 3 AND 0x07;
          s1 = s\<lparr>p14e_w := 0, p14e_stack := [], p14e_ram := p14e_apply_por (p14e_ram s)\<rparr>
      in p14e_poke s1 3 (p14e_ram s1 3 OR flags))"

text \<open>The \<open>match op6\<close> of \<open>exec_byte\<close>. Only the arms that read the operand can record a flash access.\<close>

definition p14e_alu :: "pic14e \<Rightarrow> u16 \<Rightarrow> u16 \<Rightarrow> nat \<Rightarrow> u16 \<Rightarrow> u8 \<Rightarrow> (pic14e \<times> u16) option" where
  "p14e_alu s pc d f op6 v =
     (let w = p14e_w s;
          store = (\<lambda>t r n. do { t' \<leftarrow> p14e_write_d t d f r; Some (t', n) });
          cin = (p14e_ram s 3 AND 1 \<noteq> 0)
      in
      if op6 = 0x07 then store (p14e_add_flags s w v (w + v)) (w + v) (pc + 1)
      else if op6 = 0x05 then store (p14e_set_z s (w AND v)) (w AND v) (pc + 1)
      else if op6 = 0x08 then store (p14e_set_z s v) v (pc + 1)
      else if op6 = 0x02 then
        store (p14e_set_dc (p14e_set_c (p14e_set_z s (v - w)) (v \<ge> w)) (v AND 0x0F \<ge> w AND 0x0F))
          (v - w) (pc + 1)
      else if op6 = 0x09 then store (p14e_set_z s (NOT v)) (NOT v) (pc + 1)
      else if op6 = 0x03 then store (p14e_set_z s (v - 1)) (v - 1) (pc + 1)
      else if op6 = 0x0B then store s (v - 1) (if v - 1 = 0 then pc + 2 else pc + 1)
      else if op6 = 0x0A then store (p14e_set_z s (v + 1)) (v + 1) (pc + 1)
      else if op6 = 0x0F then store s (v + 1) (if v + 1 = 0 then pc + 2 else pc + 1)
      else if op6 = 0x04 then store (p14e_set_z s (w OR v)) (w OR v) (pc + 1)
      else if op6 = 0x0D then
        store (p14e_set_c s (v AND 0x80 \<noteq> 0)) (push_bit 1 v OR (if cin then 1 else 0)) (pc + 1)
      else if op6 = 0x0C then
        store (p14e_set_c s (v AND 0x01 \<noteq> 0)) (drop_bit 1 v OR (if cin then 0x80 else 0)) (pc + 1)
      else if op6 = 0x06 then store (p14e_set_z s (w XOR v)) (w XOR v) (pc + 1)
      else if op6 = 0x0E then store s (push_bit 4 v OR drop_bit 4 v) (pc + 1)
      else None)"

definition p14e_byte_op :: "pic14e \<Rightarrow> u16 \<Rightarrow> u16 \<Rightarrow> nat \<Rightarrow> u16 \<Rightarrow> (pic14e \<times> u16) option" where
  "p14e_byte_op s pc d f op6 =
     (if op6 = 0x01 then
        do {
          s1 \<leftarrow> (if d = 1 then p14e_write_f s f 0 else Some (s\<lparr>p14e_w := 0\<rparr>));
          Some (p14e_set_z s1 0, pc + 1)
        }
      else if op6 = 0x00 then
        (if d = 1 then
           (if f = 0x02 then
              Some (s, push_bit 8 (ucast (p14e_ram s 0x0A) AND 0x7F) OR ucast (p14e_w s))
            else do { s1 \<leftarrow> p14e_write_f s f (p14e_w s); Some (s1, pc + 1) })
         else Some (s, pc + 1))
      else do { (s1, v) \<leftarrow> p14e_read_f s f; p14e_alu s1 pc d f op6 v })"

definition p14e_exec_byte :: "pic14e \<Rightarrow> u16 \<Rightarrow> u16 \<Rightarrow> (pic14e \<times> u16) option" where
  "p14e_exec_byte s pc word =
     (if word = 0x0000 then Some (s, pc + 1)
      else if word = 0x0001 then Some (p14e_reset s, 0)
      else if word = 0x0008 then Some (p14e_pop_return s)
      else if word = 0x0009 then
        let s1 = p14e_restore_shadow s
        in Some (p14e_pop_return (p14e_poke s1 E_INTCON (p14e_ram s1 E_INTCON OR 0x80)))
      else if word = 0x000A then
        Some (s\<lparr>p14e_stack := (pc + 1) # p14e_stack s\<rparr>,
              push_bit 8 (ucast (p14e_ram s 0x0A) AND 0x7F) OR ucast (p14e_w s))
      else if word = 0x000B then Some (s, pc + 1 + ucast (p14e_w s))
      else if word = 0x0062 then Some (p14e_poke s PIC14E_OPTION_REG (p14e_w s), pc + 1)
      else if word = 0x0063 then
        Some ((p14e_poke s 3 ((p14e_ram s 3 AND NOT 0x08) OR 0x10))\<lparr>p14e_halted := True\<rparr>, pc)
      else if word = 0x0064 then Some (p14e_poke s 3 (p14e_ram s 3 OR 0x18), pc + 1)
      else if 0x0010 \<le> word \<and> word \<le> 0x001F then p14e_moviw s pc word
      else if 0x0020 \<le> word \<and> word \<le> 0x003F then
        Some (p14e_poke s 8 (ucast (word AND 0x1F)), pc + 1)
      else if 0x0060 \<le> word \<and> word \<le> 0x0067 then
        (let f = word AND 7 in
         if 5 \<le> f \<and> f \<le> 7 then Some (p14e_poke s (0x8C + unat (f - 5)) (p14e_w s), pc + 1) else None)
      else p14e_byte_op s pc (drop_bit 7 word AND 1) (unat (word AND 0x7F))
             (drop_bit 8 word AND 0x3F))"

section \<open>Bit, control and literal instructions\<close>

definition p14e_exec_bit :: "pic14e \<Rightarrow> u16 \<Rightarrow> u16 \<Rightarrow> (pic14e \<times> u16) option" where
  "p14e_exec_bit s pc word =
     (let b = unat (drop_bit 7 word AND 7);
          f = unat (word AND 0x7F);
          op = drop_bit 10 word AND 3
      in do {
        (s1, v) \<leftarrow> p14e_read_f s f;
        (if op = 0 then do { s2 \<leftarrow> p14e_write_f s1 f (v AND NOT (push_bit b 1)); Some (s2, pc + 1) }
         else if op = 1 then do { s2 \<leftarrow> p14e_write_f s1 f (v OR push_bit b 1); Some (s2, pc + 1) }
         else if op = 2 then Some (s1, if v AND push_bit b 1 = 0 then pc + 2 else pc + 1)
         else Some (s1, if v AND push_bit b 1 \<noteq> 0 then pc + 2 else pc + 1))
      })"

definition p14e_exec_call_goto :: "pic14e \<Rightarrow> u16 \<Rightarrow> u16 \<Rightarrow> pic14e \<times> u16" where
  "p14e_exec_call_goto s pc word =
     (let k = word AND 0x7FF;
          target = push_bit 8 (ucast (p14e_ram s 0x0A) AND 0x78) OR k
      in if word AND 0x0800 \<noteq> 0 then (s, target)
         else (s\<lparr>p14e_stack := (pc + 1) # p14e_stack s\<rparr>, target))"

text \<open>A signed six-bit literal, as the two's complement \<open>u16\<close> the \<open>i16\<close> arithmetic of the code adds.\<close>

definition p14e_sext6 :: "u16 \<Rightarrow> u16" where
  "p14e_sext6 word = (if word AND 0x20 \<noteq> 0 then (word AND 0x3F) - 64 else word AND 0x3F)"

definition p14e_carry_op :: "pic14e \<Rightarrow> u16 \<Rightarrow> u16 \<Rightarrow> u16 \<Rightarrow> (pic14e \<times> u16) option" where
  "p14e_carry_op s pc word op6 =
     (let d = drop_bit 7 word AND 1;
          f = unat (word AND 0x7F)
      in do {
        (s1, v) \<leftarrow> p14e_read_f s f;
        let w = p14e_w s1;
        let cin = (if p14e_ram s1 3 AND 1 \<noteq> 0 then 1 else (0 :: u8));
        let store = (\<lambda>t r. do { t' \<leftarrow> p14e_write_d t d f r; Some (t', pc + 1) });
        (if op6 = 0x3D then
           let r = w + v + cin;
               s2 = p14e_set_dc (p14e_set_c (p14e_set_z s1 r) (unat w + unat v + unat cin > 0xFF))
                      (unat (w AND 0x0F) + unat (v AND 0x0F) + unat cin > 0x0F)
           in store s2 r
         else if op6 = 0x3B then
           let bor = 1 - cin;
               r = v - w - bor;
               s2 = p14e_set_dc (p14e_set_c (p14e_set_z s1 r) (v \<ge> w + bor))
                      (v AND 0x0F \<ge> (w AND 0x0F) + bor)
           in store s2 r
         else if op6 = 0x37 then
           let r = drop_bit 1 v OR (v AND 0x80)
           in store (p14e_set_z (p14e_set_c s1 (v AND 0x01 \<noteq> 0)) r) r
         else if op6 = 0x35 then
           let r = push_bit 1 v
           in store (p14e_set_z (p14e_set_c s1 (v AND 0x80 \<noteq> 0)) r) r
         else
           let r = drop_bit 1 v
           in store (p14e_set_z (p14e_set_c s1 (v AND 0x01 \<noteq> 0)) r) r)
      })"

definition p14e_exec_literal :: "pic14e \<Rightarrow> u16 \<Rightarrow> u16 \<Rightarrow> (pic14e \<times> u16) option" where
  "p14e_exec_literal s pc word =
     (let op6 = drop_bit 8 word AND 0x3F;
          k = ucast (word AND 0xFF) :: u8;
          op = drop_bit 8 word AND 0xF;
          n = unat (drop_bit 6 word AND 1);
          w = p14e_w s
      in if op6 \<in> {0x35, 0x36, 0x37, 0x3B, 0x3D} then p14e_carry_op s pc word op6
         else if op6 = 0x31 then
           (if word AND 0x80 \<noteq> 0 then Some (p14e_poke s 0x0A (ucast (word AND 0x7F)), pc + 1)
            else Some (p14e_set_fsr s n (p14e_fsr s n + p14e_sext6 word), pc + 1))
         else if op6 = 0x32 \<or> op6 = 0x33 then
           (let k9 = word AND 0x1FF;
                off = (if k9 AND 0x100 \<noteq> 0 then k9 OR 0xFE00 else k9)
            in Some (s, pc + 1 + off))
         else if op6 = 0x3F then
           (let eff = p14e_fsr s n + p14e_sext6 word in
            if word AND 0x80 \<noteq> 0 then do { s1 \<leftarrow> p14e_write_ram s eff w; Some (s1, pc + 1) }
            else do { (s1, v) \<leftarrow> p14e_read_ram s eff;
                      Some ((p14e_set_z s1 v)\<lparr>p14e_w := v\<rparr>, pc + 1) })
         else if op = 0xE \<or> op = 0xF then
           Some ((p14e_add_flags s w k (w + k))\<lparr>p14e_w := w + k\<rparr>, pc + 1)
         else if op = 0x9 then Some (p14e_set_z (s\<lparr>p14e_w := w AND k\<rparr>) (w AND k), pc + 1)
         else if op = 0x8 then Some (p14e_set_z (s\<lparr>p14e_w := w OR k\<rparr>) (w OR k), pc + 1)
         else if op = 0xA then Some (p14e_set_z (s\<lparr>p14e_w := w XOR k\<rparr>) (w XOR k), pc + 1)
         else if op = 0xC \<or> op = 0xD then
           Some ((p14e_set_dc (p14e_set_c (p14e_set_z s (k - w)) (k \<ge> w)) (k AND 0x0F \<ge> w AND 0x0F))
             \<lparr>p14e_w := k - w\<rparr>, pc + 1)
         else if op \<le> 0x3 then Some (s\<lparr>p14e_w := k\<rparr>, pc + 1)
         else if 0x4 \<le> op \<and> op \<le> 0x7 then Some (p14e_pop_return (s\<lparr>p14e_w := k\<rparr>))
         else None)"

section \<open>The step function\<close>

definition p14e_dispatch :: "pic14e \<Rightarrow> u16 \<Rightarrow> u16 \<Rightarrow> (pic14e \<times> u16) option" where
  "p14e_dispatch s pc word =
     (let cls = drop_bit 12 word AND 3 in
      if cls = 0 then p14e_exec_byte s pc word
      else if cls = 1 then p14e_exec_bit s pc word
      else if cls = 2 then Some (p14e_exec_call_goto s pc word)
      else p14e_exec_literal s pc word)"

definition p14e_fetch :: "pic14e \<Rightarrow> u16 option" where
  "p14e_fetch s = (if unat (p14e_pc s) < length (p14e_prog s)
                   then Some (p14e_prog s ! unat (p14e_pc s)) else None)"

definition p14e_add_cycles :: "pic14e \<Rightarrow> nat \<Rightarrow> pic14e" where
  "p14e_add_cycles s delta =
     p14e_tick_adc (p14e_tick_timer0 (s\<lparr>p14e_cycles := p14e_cycles s + delta\<rparr>) delta) delta"

definition p14e_take_interrupt :: "pic14e \<Rightarrow> pic14e" where
  "p14e_take_interrupt s =
     (let intcon = p14e_ram s E_INTCON;
          s1 = (if p14e_pending s \<and> intcon AND 0x10 \<noteq> 0 then s\<lparr>p14e_pending := False\<rparr> else s);
          s2 = (if p14e_timer0_pending s1 \<and> intcon AND 0x20 \<noteq> 0
                then s1\<lparr>p14e_timer0_pending := False\<rparr> else s1)
      in p14e_add_cycles (p14e_enter_isr s2) 2)"

definition p14e_finish :: "pic14e \<Rightarrow> u16 \<Rightarrow> pic14e" where
  "p14e_finish s next =
     (let s1 = s\<lparr>p14e_pc := next\<rparr> in
      if unat next \<ge> length (p14e_prog s1) then s1\<lparr>p14e_halted := True\<rparr> else s1)"

definition p14e_step :: "pic14e \<Rightarrow> pic14e option" where
  "p14e_step s =
     (if p14e_cycle_debt s > 0 then
        Some (p14e_add_cycles (s\<lparr>p14e_cycle_debt := p14e_cycle_debt s - 1\<rparr>) 1)
      else if p14e_interrupt_ready s then Some (p14e_take_interrupt s)
      else do {
        word \<leftarrow> p14e_fetch s;
        (s1, next) \<leftarrow> p14e_dispatch s (p14e_pc s) word;
        Some (p14e_finish (p14e_add_cycles s1 (cost14 word (p14e_pc s) next)) next)
      })"

definition p14e_run :: "nat \<Rightarrow> pic14e \<Rightarrow> (nat \<times> pic14e) option" where
  "p14e_run = run_loop p14e_step p14e_halted"

definition p14e_run_until :: "u16 \<Rightarrow> nat \<Rightarrow> pic14e \<Rightarrow> (stop_reason \<times> pic14e) option" where
  "p14e_run_until = run_until_loop p14e_step p14e_halted p14e_pc"

section \<open>The debugger's view\<close>

definition p14e_set_bank :: "pic14e \<Rightarrow> u8 \<Rightarrow> pic14e" where
  "p14e_set_bank s b = p14e_poke s 8 (b AND 0x1F)"

definition p14e_fsr0 :: "pic14e \<Rightarrow> u16" where
  "p14e_fsr0 s = push_bit 8 (ucast (p14e_ram s 5)) OR ucast (p14e_ram s 4)"

definition p14e_set_w :: "pic14e \<Rightarrow> u8 \<Rightarrow> pic14e" where "p14e_set_w s v = s\<lparr>p14e_w := v\<rparr>"

definition p14e_set_pc :: "pic14e \<Rightarrow> u16 \<Rightarrow> pic14e" where
  "p14e_set_pc s a = s\<lparr>p14e_pc := a, p14e_halted := (unat a \<ge> length (p14e_prog s))\<rparr>"

definition p14e_check_phys_range :: "u16 \<Rightarrow> nat \<Rightarrow> bool" where
  "p14e_check_phys_range a len \<longleftrightarrow> unat a + len \<le> 0x1000"

definition p14e_read_mem :: "pic14e \<Rightarrow> u16 \<Rightarrow> nat \<Rightarrow> u8 list option" where
  "p14e_read_mem s a len =
     (if p14e_check_phys_range a len
      then Some (map (\<lambda>i. p14e_ram s (unat a + i)) [0..<len]) else None)"

definition p14e_write_mem :: "pic14e \<Rightarrow> u16 \<Rightarrow> u8 list \<Rightarrow> pic14e option" where
  "p14e_write_mem s a bytes =
     (if p14e_check_phys_range a (length bytes) then
        Some (foldl (\<lambda>t (i, b). p14e_poke t (unat a + i) b) s (enumerate 0 bytes))
      else None)"

definition p14e_read_prog_word :: "pic14e \<Rightarrow> u16 \<Rightarrow> u16 option" where
  "p14e_read_prog_word s a =
     (if unat a < length (p14e_prog s) then Some (p14e_prog s ! unat a) else None)"

end
