(* ===== verification/Sim14eProps.thy ===== *)
theory Sim14eProps
  imports Sim14e
begin

text \<open>
  Lemmas and properties of the enhanced mid-range core: the frame every operation keeps, the run
  interface, when a step can panic, the shadow registers, the linear address region and the carry
  instructions.
\<close>

section \<open>What every operation keeps\<close>

text \<open>
  The program, the cycle count and the width of the shadow file are only changed by the step itself;
  an operation can at most record one owed cycle.
\<close>

definition p14e_keeps :: "pic14e \<Rightarrow> pic14e \<Rightarrow> bool" where
  "p14e_keeps s t \<longleftrightarrow> p14e_prog t = p14e_prog s \<and> p14e_cycles t = p14e_cycles s \<and>
     length (p14e_shadow t) = length (p14e_shadow s) \<and>
     (p14e_cycle_debt t = p14e_cycle_debt s \<or> p14e_cycle_debt t = 1)"

lemma p14e_keeps_refl [simp]: "p14e_keeps s s"
  by (simp add: p14e_keeps_def)

lemma p14e_keeps_trans: "p14e_keeps s t \<Longrightarrow> p14e_keeps t u \<Longrightarrow> p14e_keeps s u"
  by (auto simp: p14e_keeps_def)

lemma p14e_poke_ram [simp]: "p14e_ram (p14e_poke s a v) = (p14e_ram s)(a := v)"
  by (simp add: p14e_poke_def)

lemma p14e_poke_frame [simp]:
  "p14e_prog (p14e_poke s a v) = p14e_prog s" "p14e_w (p14e_poke s a v) = p14e_w s"
  "p14e_pc (p14e_poke s a v) = p14e_pc s" "p14e_stack (p14e_poke s a v) = p14e_stack s"
  "p14e_halted (p14e_poke s a v) = p14e_halted s" "p14e_cycles (p14e_poke s a v) = p14e_cycles s"
  "p14e_pending (p14e_poke s a v) = p14e_pending s"
  "p14e_timer0_pending (p14e_poke s a v) = p14e_timer0_pending s"
  "p14e_shadow (p14e_poke s a v) = p14e_shadow s"
  "p14e_cycle_debt (p14e_poke s a v) = p14e_cycle_debt s"
  "p14e_adc_left (p14e_poke s a v) = p14e_adc_left s"
  "p14e_timer0_acc (p14e_poke s a v) = p14e_timer0_acc s"
  "p14e_timer0_enabled (p14e_poke s a v) = p14e_timer0_enabled s"
  "p14e_eeprom (p14e_poke s a v) = p14e_eeprom s"
  by (simp_all add: p14e_poke_def)

lemma p14e_flags_frame [simp]:
  "p14e_w (p14e_set_z s v) = p14e_w s" "p14e_w (p14e_set_c s c) = p14e_w s"
  "p14e_w (p14e_set_dc s c) = p14e_w s" "p14e_w (p14e_add_flags s x y r) = p14e_w s"
  "p14e_cycle_debt (p14e_set_z s v) = p14e_cycle_debt s"
  by (simp_all add: p14e_set_z_def p14e_set_c_def p14e_set_dc_def p14e_add_flags_def)

lemma p14e_keeps_iff [simp]:
  "p14e_keeps s (p14e_poke t a v) = p14e_keeps s t"
  "p14e_keeps s (t\<lparr>p14e_w := x\<rparr>) = p14e_keeps s t"
  "p14e_keeps s (t\<lparr>p14e_pc := y\<rparr>) = p14e_keeps s t"
  "p14e_keeps s (t\<lparr>p14e_stack := z\<rparr>) = p14e_keeps s t"
  "p14e_keeps s (t\<lparr>p14e_halted := h\<rparr>) = p14e_keeps s t"
  "p14e_keeps s (t\<lparr>p14e_ram := m\<rparr>) = p14e_keeps s t"
  "p14e_keeps s (t\<lparr>p14e_timer0_acc := n\<rparr>) = p14e_keeps s t"
  "p14e_keeps s (t\<lparr>p14e_timer0_pending := h\<rparr>) = p14e_keeps s t"
  "p14e_keeps s (t\<lparr>p14e_pending := h\<rparr>) = p14e_keeps s t"
  "p14e_keeps s (t\<lparr>p14e_adc_left := n\<rparr>) = p14e_keeps s t"
  "p14e_keeps s (t\<lparr>p14e_eeprom := e\<rparr>) = p14e_keeps s t"
  by (simp_all add: p14e_keeps_def)

lemma p14e_keeps_ops [simp]:
  "p14e_keeps s (p14e_set_z t v) = p14e_keeps s t" "p14e_keeps s (p14e_set_c t c) = p14e_keeps s t"
  "p14e_keeps s (p14e_set_dc t c) = p14e_keeps s t"
  "p14e_keeps s (p14e_add_flags t x y r) = p14e_keeps s t"
  "p14e_keeps s (p14e_set_fsr t n w) = p14e_keeps s t"
  "p14e_keeps s (p14e_adc_store t a v) = p14e_keeps s t"
  "p14e_keeps s (p14e_reset t) = p14e_keeps s t"
  by (simp_all add: p14e_set_z_def p14e_set_c_def p14e_set_dc_def p14e_add_flags_def
      p14e_set_fsr_def p14e_adc_store_def p14e_reset_def Let_def)

lemma p14e_keeps_pop [simp]: "p14e_keeps s (fst (p14e_pop_return t)) = p14e_keeps s t"
  by (simp add: p14e_pop_return_def split: list.splits)

lemma p14e_keeps_ee [simp]: "p14e_keeps s (fst (p14e_ee_store t a v)) = p14e_keeps s t"
  by (simp add: p14e_ee_store_def Let_def case_prod_unfold)

lemma p14e_keeps_store [simp]: "p14e_keeps s (p14e_store t a v) = p14e_keeps s t"
  by (simp add: p14e_store_def Let_def case_prod_unfold)

lemma p14e_keeps_read_ram: "p14e_read_ram s fsr = Some (t, v) \<Longrightarrow> p14e_keeps s t"
  by (auto simp: p14e_read_ram_def p14e_keeps_def Let_def split: if_splits)

lemma p14e_keeps_read_f: "p14e_read_f s f = Some (t, v) \<Longrightarrow> p14e_keeps s t"
  by (auto simp: p14e_read_f_def dest: p14e_keeps_read_ram split: if_splits)

lemma p14e_keeps_write_ram: "p14e_write_ram t fsr v = Some u \<Longrightarrow> p14e_keeps s u = p14e_keeps s t"
  by (auto simp: p14e_write_ram_def Let_def split: if_splits)

lemma p14e_keeps_write_f: "p14e_write_f t f v = Some u \<Longrightarrow> p14e_keeps s u = p14e_keeps s t"
  by (auto simp: p14e_write_f_def dest: p14e_keeps_write_ram split: if_splits)

lemma p14e_keeps_write_d: "p14e_write_d t d f v = Some u \<Longrightarrow> p14e_keeps s u = p14e_keeps s t"
  by (auto simp: p14e_write_d_def dest: p14e_keeps_write_f split: if_splits)

lemma p14e_keeps_alu: "p14e_alu t pc d f op6 v = Some (u, n) \<Longrightarrow> p14e_keeps s u = p14e_keeps s t"
  by (auto simp: p14e_alu_def Let_def split: if_splits Option.bind_splits dest!: p14e_keeps_write_d)

lemma p14e_keeps_byte_op: "p14e_byte_op s pc d f op6 = Some (t, n) \<Longrightarrow> p14e_keeps s t"
  by (auto simp: p14e_byte_op_def p14e_keeps_alu p14e_keeps_write_f dest: p14e_keeps_read_f
      split: if_splits Option.bind_splits)

lemma p14e_keeps_moviw: "p14e_moviw s pc word = Some (t, n) \<Longrightarrow> p14e_keeps s t"
  by (auto simp: p14e_moviw_def Let_def case_prod_unfold p14e_keeps_write_ram
      dest: p14e_keeps_read_ram split: if_splits Option.bind_splits)

lemma p14e_keeps_foldl_poke: "p14e_keeps s (foldl (\<lambda>t (v, r). p14e_poke t r v) t xs) = p14e_keeps s t"
  by (induction xs arbitrary: t) (auto simp: case_prod_unfold)

lemma p14e_keeps_restore [simp]: "p14e_keeps s (p14e_restore_shadow t) = p14e_keeps s t"
  by (simp add: p14e_restore_shadow_def Let_def p14e_keeps_foldl_poke)

lemma p14e_keeps_exec_byte: "p14e_exec_byte s pc word = Some (t, n) \<Longrightarrow> p14e_keeps s t"
  by (auto simp: p14e_exec_byte_def Let_def prod_eq_iff dest: p14e_keeps_byte_op p14e_keeps_moviw
      split: if_splits)

lemma p14e_keeps_exec_bit: "p14e_exec_bit s pc word = Some (t, n) \<Longrightarrow> p14e_keeps s t"
  by (auto simp: p14e_exec_bit_def Let_def p14e_keeps_write_f dest: p14e_keeps_read_f
      split: if_splits Option.bind_splits)

lemma p14e_keeps_carry_op: "p14e_carry_op s pc word op6 = Some (t, n) \<Longrightarrow> p14e_keeps s t"
  by (auto simp: p14e_carry_op_def Let_def p14e_keeps_write_d dest: p14e_keeps_read_f
      split: if_splits Option.bind_splits)

lemma p14e_keeps_exec_literal: "p14e_exec_literal s pc word = Some (t, n) \<Longrightarrow> p14e_keeps s t"
  by (auto simp: p14e_exec_literal_def Let_def prod_eq_iff p14e_keeps_write_ram
      dest: p14e_keeps_carry_op p14e_keeps_read_ram
      split: if_splits Option.bind_splits)

lemma p14e_keeps_dispatch: "p14e_dispatch s pc word = Some (t, n) \<Longrightarrow> p14e_keeps s t"
  by (auto simp: p14e_dispatch_def p14e_exec_call_goto_def Let_def
      dest: p14e_keeps_exec_byte p14e_keeps_exec_bit p14e_keeps_exec_literal split: if_splits)

section \<open>Time and the step\<close>

lemma p14e_timer0_tick_frame [simp]:
  "p14e_prog (p14e_timer0_tick s) = p14e_prog s" "p14e_w (p14e_timer0_tick s) = p14e_w s"
  "p14e_pc (p14e_timer0_tick s) = p14e_pc s" "p14e_stack (p14e_timer0_tick s) = p14e_stack s"
  "p14e_halted (p14e_timer0_tick s) = p14e_halted s"
  "p14e_cycles (p14e_timer0_tick s) = p14e_cycles s"
  "p14e_shadow (p14e_timer0_tick s) = p14e_shadow s"
  "p14e_cycle_debt (p14e_timer0_tick s) = p14e_cycle_debt s"
  by (simp_all add: p14e_timer0_tick_def Let_def)

lemma p14e_timer0_tick_ram [simp]:
  "a \<noteq> PIC14E_TMR0 \<Longrightarrow> a \<noteq> E_INTCON \<Longrightarrow> p14e_ram (p14e_timer0_tick s) a = p14e_ram s a"
  by (simp add: p14e_timer0_tick_def Let_def)

lemma p14e_timer0_rate_pos [simp]: "0 < p14e_timer0_rate r"
  by (simp add: p14e_timer0_rate_def)

lemma p14e_add_cycles_frame [simp]:
  "p14e_prog (p14e_add_cycles s n) = p14e_prog s" "p14e_w (p14e_add_cycles s n) = p14e_w s"
  "p14e_pc (p14e_add_cycles s n) = p14e_pc s" "p14e_stack (p14e_add_cycles s n) = p14e_stack s"
  "p14e_halted (p14e_add_cycles s n) = p14e_halted s"
  "p14e_cycles (p14e_add_cycles s n) = p14e_cycles s + n"
  "p14e_shadow (p14e_add_cycles s n) = p14e_shadow s"
  "p14e_cycle_debt (p14e_add_cycles s n) = p14e_cycle_debt s"
  by (simp_all add: p14e_add_cycles_def p14e_tick_timer0_def p14e_tick_adc_def Let_def
      case_prod_unfold tick_loop_invariant)

lemma p14e_add_cycles_ram [simp]:
  "a \<notin> {PIC14E_TMR0, E_INTCON, PIC14E_ADCON0, PIC14E_ADRESH, PIC14E_ADRESL} \<Longrightarrow>
     p14e_ram (p14e_add_cycles s n) a = p14e_ram s a"
  using tick_loop_invariant [of "\<lambda>t. p14e_ram t a" p14e_timer0_tick]
  by (simp add: p14e_add_cycles_def p14e_tick_timer0_def p14e_tick_adc_def Let_def case_prod_unfold)

lemma p14e_gie_kept [simp]: "bit (p14e_ram (p14e_add_cycles s n) E_INTCON) 7 = bit (p14e_ram s E_INTCON) 7"
proof -
  have t: "bit (p14e_ram (p14e_timer0_tick u) E_INTCON) 7 = bit (p14e_ram u E_INTCON) 7" for u
    by (simp add: p14e_timer0_tick_def Let_def mask_simps)
  show ?thesis
    using tick_loop_invariant [of "\<lambda>u. bit (p14e_ram u E_INTCON) 7" p14e_timer0_tick, OF t]
    by (simp add: p14e_add_cycles_def p14e_tick_timer0_def p14e_tick_adc_def Let_def
        case_prod_unfold)
qed

lemma p14e_take_interrupt_frame [simp]:
  "p14e_prog (p14e_take_interrupt s) = p14e_prog s" "p14e_pc (p14e_take_interrupt s) = 4"
  "p14e_stack (p14e_take_interrupt s) = p14e_pc s # p14e_stack s"
  "p14e_halted (p14e_take_interrupt s) = p14e_halted s"
  "p14e_cycles (p14e_take_interrupt s) = p14e_cycles s + 2"
  "p14e_shadow (p14e_take_interrupt s) = p14e_save_shadow s"
  "p14e_cycle_debt (p14e_take_interrupt s) = p14e_cycle_debt s"
  by (simp_all add: p14e_take_interrupt_def p14e_enter_isr_def p14e_save_shadow_def Let_def)

lemma p14e_step_cases [consumes 1, case_names debt interrupt instruction]:
  assumes "p14e_step s = Some s'"
  obtains "0 < p14e_cycle_debt s"
      and "s' = p14e_add_cycles (s\<lparr>p14e_cycle_debt := p14e_cycle_debt s - 1\<rparr>) 1"
  | "p14e_cycle_debt s = 0" and "p14e_interrupt_ready s" and "s' = p14e_take_interrupt s"
  | word t n where "p14e_cycle_debt s = 0" and "\<not> p14e_interrupt_ready s"
      and "p14e_fetch s = Some word" and "p14e_dispatch s (p14e_pc s) word = Some (t, n)"
      and "s' = p14e_finish (p14e_add_cycles t (cost14 word (p14e_pc s) n)) n"
  using assms by (auto simp: p14e_step_def split: if_splits Option.bind_splits prod.splits)

definition p14e_inv :: "pic14e \<Rightarrow> bool" where
  "p14e_inv s \<longleftrightarrow> 4 < length (p14e_prog s) \<and> length (p14e_shadow s) = 8 \<and> p14e_cycle_debt s \<le> 1 \<and>
     (\<not> p14e_halted s \<longrightarrow> unat (p14e_pc s) < length (p14e_prog s))"

lemma p14e_finish_frame [simp]:
  "p14e_prog (p14e_finish s n) = p14e_prog s" "p14e_cycles (p14e_finish s n) = p14e_cycles s"
  "p14e_shadow (p14e_finish s n) = p14e_shadow s" "p14e_ram (p14e_finish s n) = p14e_ram s"
  "p14e_cycle_debt (p14e_finish s n) = p14e_cycle_debt s" "p14e_pc (p14e_finish s n) = n"
  "p14e_w (p14e_finish s n) = p14e_w s" "p14e_stack (p14e_finish s n) = p14e_stack s"
  "p14e_halted (p14e_finish s n) \<longleftrightarrow> p14e_halted s \<or> length (p14e_prog s) \<le> unat n"
  by (simp_all add: p14e_finish_def Let_def)

interpretation p14e: sim_core p14e_step p14e_halted p14e_pc p14e_prog p14e_cycles p14e_inv 2
proof unfold_locales
  fix s s' assume "p14e_step s = Some s'"
  then show "p14e_prog s' = p14e_prog s"
    by (cases rule: p14e_step_cases) (auto dest: p14e_keeps_dispatch simp: p14e_keeps_def)
next
  fix s s' assume "p14e_step s = Some s'"
  then show "p14e_cycles s < p14e_cycles s' \<and> p14e_cycles s' \<le> p14e_cycles s + 2"
  proof (cases rule: p14e_step_cases)
    case (instruction word t n)
    then show ?thesis using cost14_bounds [of word "p14e_pc s" n] p14e_keeps_dispatch [of s "p14e_pc s" word t n]
      by (auto simp: p14e_keeps_def)
  qed simp_all
next
  fix s s' assume "p14e_inv s" and "p14e_step s = Some s'"
  from this(2,1) show "p14e_inv s'"
  proof (cases rule: p14e_step_cases)
    case interrupt
    then show ?thesis using \<open>p14e_inv s\<close> by (simp add: p14e_inv_def p14e_save_shadow_def)
  next
    case (instruction word t n)
    then show ?thesis using \<open>p14e_inv s\<close> p14e_keeps_dispatch [of s "p14e_pc s" word t n]
      by (auto simp: p14e_keeps_def p14e_inv_def)
  qed (auto simp: p14e_inv_def)
qed

section \<open>Pointer accesses\<close>

text \<open>
  Where a pointer value may be read and written: program words below the program's length may be read
  through bit 15, never written; data addresses must be below the 4096 bytes of the register file.
\<close>

definition p14e_readable :: "pic14e \<Rightarrow> u16 \<Rightarrow> bool" where
  "p14e_readable s fsr \<longleftrightarrow>
     (if fsr AND 0x8000 \<noteq> 0 then unat (fsr AND 0x7FFF) < length (p14e_prog s)
      else p14e_indirect_addr fsr < 4096)"

definition p14e_writable :: "u16 \<Rightarrow> bool" where
  "p14e_writable fsr \<longleftrightarrow> fsr AND 0x8000 = 0 \<and> p14e_indirect_addr fsr < 4096"

lemma p14e_writable_readable: "p14e_writable fsr \<Longrightarrow> p14e_readable s fsr"
  by (simp add: p14e_writable_def p14e_readable_def)

lemma p14e_read_ram_None [simp]: "p14e_read_ram s fsr = None \<longleftrightarrow> \<not> p14e_readable s fsr"
  by (simp add: p14e_read_ram_def p14e_readable_def Let_def)
    (simp add: p14e_indirect_addr_def)

lemma p14e_write_ram_None [simp]: "p14e_write_ram s fsr v = None \<longleftrightarrow> \<not> p14e_writable fsr"
  by (simp add: p14e_write_ram_def p14e_writable_def Let_def)

text \<open>INDF0 and INDF1 are the operands that go through a pointer.\<close>

definition p14e_bad_write :: "pic14e \<Rightarrow> nat \<Rightarrow> bool" where
  "p14e_bad_write s f \<longleftrightarrow> f < 2 \<and> \<not> p14e_writable (p14e_fsr s f)"

definition p14e_bad_read :: "pic14e \<Rightarrow> nat \<Rightarrow> bool" where
  "p14e_bad_read s f \<longleftrightarrow> f < 2 \<and> \<not> p14e_readable s (p14e_fsr s f)"

lemma p14e_bad_read_write: "p14e_bad_read s f \<Longrightarrow> p14e_bad_write s f"
  using p14e_writable_readable by (auto simp: p14e_bad_read_def p14e_bad_write_def)

lemma p14e_read_f_None [simp]: "p14e_read_f s f = None \<longleftrightarrow> p14e_bad_read s f"
  by (auto simp: p14e_read_f_def p14e_bad_read_def less_2_cases_iff)

lemma p14e_write_f_None [simp]: "p14e_write_f s f v = None \<longleftrightarrow> p14e_bad_write s f"
  by (auto simp: p14e_write_f_def p14e_bad_write_def less_2_cases_iff)

lemma p14e_write_d_None [simp]: "p14e_write_d s d f v = None \<longleftrightarrow> d = 1 \<and> p14e_bad_write s f"
  by (simp add: p14e_write_d_def)

text \<open>Flags and the reads themselves do not move the pointers.\<close>

lemma p14e_bad_write_flags [simp]:
  "p14e_bad_write (p14e_set_z s v) f = p14e_bad_write s f"
  "p14e_bad_write (p14e_set_c s c) f = p14e_bad_write s f"
  "p14e_bad_write (p14e_set_dc s c) f = p14e_bad_write s f"
  "p14e_bad_write (p14e_add_flags s a b r) f = p14e_bad_write s f"
  by (auto simp: p14e_bad_write_def p14e_fsr_def p14e_set_z_def p14e_set_c_def p14e_set_dc_def
      p14e_add_flags_def)

lemma p14e_bad_write_read: "p14e_read_f s f = Some (t, v) \<Longrightarrow> p14e_bad_write t g = p14e_bad_write s g"
  by (auto simp: p14e_read_f_def p14e_read_ram_def p14e_bad_write_def p14e_fsr_def Let_def
      split: if_splits)

section \<open>When an instruction panics\<close>

lemma p14e_alu_None:
  assumes "unat op6 < 16" "op6 \<noteq> 0" "op6 \<noteq> 1"
  shows "p14e_alu s pc d f op6 v = None \<longleftrightarrow> d = 1 \<and> p14e_bad_write s f"
  using assms(1)
  by (cases rule: u16_low4_cases)
    (use assms(2,3) in \<open>simp_all add: p14e_alu_def Let_def bind_eq_None_conv\<close>)

lemma p14e_byte_op_None:
  assumes "unat op6 < 16"
  shows "p14e_byte_op s pc d f op6 = None \<longleftrightarrow>
    (if op6 = 0 \<or> op6 = 1 then d = 1 \<and> p14e_bad_write s f
     else p14e_bad_read s f \<or> d = 1 \<and> p14e_bad_write s f)"
proof (cases "op6 = 0 \<or> op6 = 1")
  case True
  then show ?thesis by (auto simp: p14e_byte_op_def p14e_bad_write_def bind_eq_None_conv)
next
  case False
  show ?thesis
  proof (cases "p14e_read_f s f")
    case None
    with False show ?thesis by (simp add: p14e_byte_op_def) (simp flip: p14e_read_f_None)
  next
    case (Some r)
    then obtain t v where r: "p14e_read_f s f = Some (t, v)" by (cases r) auto
    then have "\<not> p14e_bad_read s f" by (simp flip: p14e_read_f_None)
    with False r p14e_alu_None [OF assms, of t pc d f v] p14e_bad_write_read [OF r, of f]
    show ?thesis by (simp add: p14e_byte_op_def)
  qed
qed

lemma p14e_carry_op_None:
  "p14e_carry_op s pc word op6 = None \<longleftrightarrow>
     p14e_bad_read s (unat (word AND 0x7F)) \<or>
     drop_bit 7 word AND 1 = 1 \<and> p14e_bad_write s (unat (word AND 0x7F))"
proof (cases "p14e_read_f s (unat (word AND 0x7F))")
  case None
  then show ?thesis by (simp add: p14e_carry_op_def) (simp flip: p14e_read_f_None)
next
  case (Some r)
  then obtain t v where r: "p14e_read_f s (unat (word AND 0x7F)) = Some (t, v)" by (cases r) auto
  then have "\<not> p14e_bad_read s (unat (word AND 0x7F))" by (simp flip: p14e_read_f_None)
  with r p14e_bad_write_read [OF r] show ?thesis
    by (simp add: p14e_carry_op_def Let_def bind_eq_None_conv)
qed

lemma p14e_exec_bit_None:
  "p14e_exec_bit s pc word = None \<longleftrightarrow>
     p14e_bad_read s (unat (word AND 0x7F)) \<or>
     drop_bit 10 word AND 3 < 2 \<and> p14e_bad_write s (unat (word AND 0x7F))"
proof (cases "p14e_read_f s (unat (word AND 0x7F))")
  case None
  then show ?thesis by (simp add: p14e_exec_bit_def) (simp flip: p14e_read_f_None)
next
  case (Some r)
  then obtain t v where r: "p14e_read_f s (unat (word AND 0x7F)) = Some (t, v)" by (cases r) auto
  then have "\<not> p14e_bad_read s (unat (word AND 0x7F))" by (simp flip: p14e_read_f_None)
  with r p14e_bad_write_read [OF r] show ?thesis
    by (cases rule: u16_class_cases [of 10 word])
      (simp_all add: p14e_exec_bit_def Let_def bind_eq_None_conv)
qed

lemma p14e_moviw_None:
  "p14e_moviw s pc word = None \<longleftrightarrow>
     (let fsr = p14e_fsr s (unat (drop_bit 2 word AND 1)); m = word AND 3;
          eff = (if m = 0 then fsr + 1 else if m = 1 then fsr - 1 else fsr)
      in if word AND 8 = 0 then \<not> p14e_readable s eff else \<not> p14e_writable eff)"
proof -
  have "\<not> p14e_readable s x \<or> \<not> p14e_writable x \<longleftrightarrow> \<not> p14e_writable x" for x
    using p14e_writable_readable by blast
  then show ?thesis
    by (simp add: p14e_moviw_def Let_def bind_eq_None_conv split: prod.splits)
qed

lemma p14e_tris_words:
  assumes "0x0060 \<le> (word :: u16)" "word \<le> 0x0067"
    and "word \<notin> {0x0060, 0x0061, 0x0062, 0x0063, 0x0064}"
  shows "5 \<le> word AND 7 \<and> word AND 7 \<le> 7"
proof -
  have "0x60 \<le> unat word" and "unat word < 0x68" using assms(1,2) by (simp_all add: word_le_nat_alt)
  then have "unat word \<in> set [0x60..<0x68]" by (simp only: set_upt atLeastLessThan_iff)
  then have "(of_nat (unat word) :: u16) \<in> of_nat ` set [0x60..<0x68]" by blast
  then have "word \<in> {0x60, 0x61, 0x62, 0x63, 0x64, 0x65, 0x66, 0x67}" by (simp add: upt_rec)
  with assms(3) show ?thesis by auto
qed

text \<open>
  The pointer access an instruction makes, with the value the pointer has when it is used and whether
  it is written (a read-modify-write is a write): MOVIW and MOVWI in their pre-/post-modify and indexed
  forms, and the file-register instructions whose operand is INDF0 or INDF1. NOP and RESET, the words
  of class 0 with such low bits and the destination bit clear, make none.
\<close>

definition p14e_access :: "pic14e \<Rightarrow> u16 \<Rightarrow> (bool \<times> u16) option" where
  "p14e_access s word =
     (let cls = drop_bit 12 word AND 3;
          op6 = drop_bit 8 word AND 0x3F;
          f = unat (word AND 0x7F);
          to_f = (drop_bit 7 word AND 1 = 1)
      in if cls = 0 \<and> 0x0010 \<le> word \<and> word \<le> 0x001F then
           (let fsr = p14e_fsr s (unat (drop_bit 2 word AND 1)); m = word AND 3
            in Some (word AND 8 \<noteq> 0, if m = 0 then fsr + 1 else if m = 1 then fsr - 1 else fsr))
         else if cls = 3 \<and> op6 = 0x3F then
           Some (word AND 0x80 \<noteq> 0, p14e_fsr s (unat (drop_bit 6 word AND 1)) + p14e_sext6 word)
         else if 2 \<le> f then None
         else if cls = 0 \<and> (op6 = 0 \<or> op6 = 1 \<longrightarrow> to_f) then Some (to_f, p14e_fsr s f)
         else if cls = 1 then Some (drop_bit 10 word AND 3 < 2, p14e_fsr s f)
         else if cls = 3 \<and> op6 \<in> {0x35, 0x36, 0x37, 0x3B, 0x3D} then Some (to_f, p14e_fsr s f)
         else None)"

definition p14e_bad_access :: "pic14e \<Rightarrow> u16 \<Rightarrow> bool" where
  "p14e_bad_access s word \<longleftrightarrow>
     (case p14e_access s word of
        None \<Rightarrow> False
      | Some (written, fsr) \<Rightarrow> if written then \<not> p14e_writable fsr else \<not> p14e_readable s fsr)"

definition p14e_bad_tris :: "u16 \<Rightarrow> bool" where
  "p14e_bad_tris word \<longleftrightarrow> word = 0x0060 \<or> word = 0x0061"

lemma p14e_rmw_bad:
  "p14e_bad_read s f \<or> w \<and> p14e_bad_write s f \<longleftrightarrow>
     f < 2 \<and> (if w then \<not> p14e_writable (p14e_fsr s f) else \<not> p14e_readable s (p14e_fsr s f))"
  using p14e_writable_readable [of "p14e_fsr s f" s]
  by (auto simp: p14e_bad_read_def p14e_bad_write_def)

lemma p14e_exec_byte_None:
  assumes "drop_bit 12 word AND 3 = 0"
  shows "p14e_exec_byte s pc word = None \<longleftrightarrow> p14e_bad_tris word \<or> p14e_bad_access s word"
proof -
  let ?f = "unat (word AND 0x7F)" and ?op6 = "drop_bit 8 word AND 0x3F"
  consider "word \<in> {0, 1, 8, 9, 10, 11, 0x62, 0x63, 0x64}" | "0x10 \<le> word \<and> word \<le> 0x1F"
    | "0x20 \<le> word \<and> word \<le> 0x3F" | "0x60 \<le> word \<and> word \<le> 0x67" "word \<notin> {0x62, 0x63, 0x64}"
    | "word \<notin> {0, 1, 8, 9, 10, 11, 0x62, 0x63, 0x64}" "\<not> (0x10 \<le> word \<and> word \<le> 0x1F)"
      "\<not> (0x20 \<le> word \<and> word \<le> 0x3F)" "\<not> (0x60 \<le> word \<and> word \<le> 0x67)"
    by blast
  then show ?thesis
  proof cases
    case 1
    then show ?thesis
      by (elim insertE emptyE) (simp_all add: p14e_exec_byte_def p14e_bad_tris_def
        p14e_bad_access_def p14e_access_def word_le_nat_alt Let_def)
  next
    case 2
    then have n: "word \<notin> {0, 1, 8, 9, 10, 11, 0x60, 0x61, 0x62, 0x63, 0x64}" by (auto simp: word_le_nat_alt)
    with 2 have "p14e_exec_byte s pc word = p14e_moviw s pc word" by (simp add: p14e_exec_byte_def)
    with n 2 assms show ?thesis
      by (auto simp: p14e_moviw_None p14e_bad_tris_def p14e_bad_access_def p14e_access_def Let_def)
  next
    case 3
    then have "2 \<le> ?f" "\<not> (0x10 \<le> word \<and> word \<le> 0x1F)" "word \<noteq> 0x60" "word \<noteq> 0x61"
      "word \<notin> {0, 1, 8, 9, 10, 11, 0x62, 0x63, 0x64}"
      by (auto simp: word_le_nat_alt field_nat)
    with 3 assms show ?thesis
      by (auto simp: p14e_exec_byte_def p14e_bad_tris_def p14e_bad_access_def p14e_access_def Let_def)
  next
    case 4
    then have "2 \<le> ?f" "\<not> (0x10 \<le> word \<and> word \<le> 0x1F)" "\<not> (0x20 \<le> word \<and> word \<le> 0x3F)"
      "word \<notin> {0, 1, 8, 9, 10, 11}"
      by (auto simp: word_le_nat_alt field_nat)
    moreover have "\<not> (5 :: u16) \<le> 1" by (simp add: word_le_nat_alt)
    ultimately show ?thesis using 4 assms p14e_tris_words [of word]
      by (auto simp: p14e_exec_byte_def p14e_bad_tris_def p14e_bad_access_def p14e_access_def Let_def)
  next
    case 5
    then have "p14e_exec_byte s pc word = p14e_byte_op s pc (drop_bit 7 word AND 1) ?f ?op6"
      unfolding p14e_exec_byte_def by auto
    moreover have "\<not> p14e_bad_tris word" using 5 by (auto simp: p14e_bad_tris_def)
    moreover have "p14e_bad_access s word \<longleftrightarrow> (?op6 = 0 \<or> ?op6 = 1 \<longrightarrow> drop_bit 7 word AND 1 = 1) \<and>
        (p14e_bad_read s ?f \<or> drop_bit 7 word AND 1 = 1 \<and> p14e_bad_write s ?f)"
      using 5(2) assms unfolding p14e_rmw_bad by (auto simp: p14e_bad_access_def p14e_access_def Let_def)
    ultimately show ?thesis
      using p14e_byte_op_None [OF byte_class_op6 [OF assms], of s pc] p14e_bad_read_write [of s ?f]
      by (simp only:) argo
  qed
qed

lemma p14e_exec_literal_None:
  assumes "drop_bit 12 word AND 3 = 3"
  shows "p14e_exec_literal s pc word = None \<longleftrightarrow> p14e_bad_access s word"
proof -
  have op6: "drop_bit 8 word AND 0x3F = 0x30 + (drop_bit 8 word AND 0xF)" by (rule op6_split [OF assms])
  have "unat (drop_bit 8 word AND 0xF) < 16" by (simp add: field_nat)
  then show ?thesis
    by (cases rule: u16_low4_cases)
      (use assms op6 in \<open>auto simp: p14e_exec_literal_def p14e_carry_op_None p14e_bad_access_def
        p14e_access_def p14e_rmw_bad bind_eq_None_conv Let_def
        split: prod.splits\<close>)
qed

lemma p14e_dispatch_None:
  "p14e_dispatch s pc word = None \<longleftrightarrow>
     drop_bit 12 word AND 3 = 0 \<and> p14e_bad_tris word \<or> p14e_bad_access s word"
proof (cases rule: u16_class_cases [of 12 word])
  case 1
  then show ?thesis by (simp add: p14e_dispatch_def p14e_exec_byte_None)
next
  case 2
  then show ?thesis
    by (auto simp: p14e_dispatch_def p14e_exec_bit_None p14e_rmw_bad p14e_bad_access_def
        p14e_access_def Let_def)
next
  case 3
  then show ?thesis by (simp add: p14e_dispatch_def p14e_bad_access_def p14e_access_def Let_def)
next
  case 4
  then show ?thesis by (simp add: p14e_dispatch_def p14e_exec_literal_None)
qed

lemma p14e_bad_tris_class [simp]: "p14e_bad_tris word \<Longrightarrow> drop_bit 12 word AND 3 = 0"
  by (auto simp: p14e_bad_tris_def)

section \<open>The linear region\<close>

text \<open>The GPR bytes of banks 0 to 30 the linear region addresses: offset 0x20 to 0x6F of each bank.\<close>

definition p14e_linear_gpr :: "nat set" where
  "p14e_linear_gpr = {b * 0x80 + 0x20 + i |b i. b \<le> 30 \<and> i < 80}"

lemma p14e_linear_addr:
  assumes "x < 2480"
  shows "p14e_indirect_addr (0x2000 + of_nat x) = x div 80 * 0x80 + 0x20 + x mod 80"
proof -
  let ?f = "0x2000 + of_nat x :: u16"
  have u: "unat ?f = 8192 + x" using assms by (simp add: unat_word_ariths unat_of_nat)
  have b: "\<not> bit ?f 15" by (rule unat_less_not_bit) (use u assms in simp)
  have "?f AND 0x8000 = 0"
    using b and_exp_eq_0_iff_not_bit [of ?f 15] by simp
  moreover have "0x2000 \<le> ?f" "?f \<le> 0x29AF" using u assms by (simp_all add: word_le_nat_alt)
  moreover have "unat (?f - 0x2000) = x" using assms by (simp add: unat_of_nat)
  ultimately show ?thesis by (simp add: p14e_indirect_addr_def Let_def)
qed

text \<open>C12: the linear alias is exact: the 2480 FSR values from 0x2000 name the 31 x 80 GPR bytes of banks
  0 to 30 one to one, so consecutive FSR values never fall into an SFR or common-RAM cell.\<close>

theorem p14e_linear_bijection:
  "bij_betw (\<lambda>x. p14e_indirect_addr (0x2000 + of_nat x)) {..<2480} p14e_linear_gpr \<and>
   p14e_linear_gpr \<subseteq> {..<4096}"
proof -
  let ?g = "\<lambda>x :: nat. x div 80 * 0x80 + 0x20 + x mod 80"
  have "inj_on ?g {..<2480}"
  proof (rule inj_onI)
    fix x y assume g: "?g x = ?g y"
    moreover have "x mod 80 < 80" "y mod 80 < 80" by simp_all
    ultimately have d: "x div 80 = y div 80" by linarith
    moreover from g d have "x mod 80 = y mod 80" by simp
    ultimately show "x = y" by (metis div_mult_mod_eq)
  qed
  moreover have "?g ` {..<2480} = p14e_linear_gpr"
  proof (intro set_eqI iffI)
    fix a assume "a \<in> ?g ` {..<2480}"
    then obtain x where x: "x < 2480" "a = ?g x" by blast
    then have "x div 80 \<le> 30" by simp
    then show "a \<in> p14e_linear_gpr" using x(2) unfolding p14e_linear_gpr_def by force
  next
    fix a assume "a \<in> p14e_linear_gpr"
    then obtain b i where "b \<le> 30" "i < 80" "a = b * 0x80 + 0x20 + i"
      by (auto simp: p14e_linear_gpr_def)
    then have "a = ?g (b * 80 + i)" "b * 80 + i < 2480" by simp_all
    then show "a \<in> ?g ` {..<2480}" by blast
  qed
  ultimately have "bij_betw ?g {..<2480} p14e_linear_gpr" by (simp add: bij_betw_def)
  then have "bij_betw (\<lambda>x. p14e_indirect_addr (0x2000 + of_nat x)) {..<2480} p14e_linear_gpr"
    by (rule bij_betw_cong [THEN iffD1, rotated]) (simp add: p14e_linear_addr)
  then show ?thesis by (auto simp: p14e_linear_gpr_def)
qed

section \<open>Panics, shadows and carries\<close>

text \<open>C13: the panics of the enhanced core, exactly. From a running state of the invariant (the program is
  longer than the interrupt vector, the program counter is inside it, the shadow bank has its eight
  bytes and at most one cycle is owed) a step panics if and only if
  no flash-access cycle is owed, no interrupt is taken, and the fetched word is TRIS of a port that
  does not exist (0x0060, 0x0061) or accesses memory through a pointer that is bad for it: MOVIW,
  MOVWI, or an operand INDF0 or INDF1, whose pointer value lies past the data memory or past the
  program, or names the program for a write. Every other instruction executes in every state,
  additions wrapping as in a release build.\<close>

theorem p14e_step_panics_only_on_pointers:
  assumes "p14e_inv s" and "\<not> p14e_halted s"
  shows "p14e_step s = None \<longleftrightarrow> p14e_cycle_debt s = 0 \<and> \<not> p14e_interrupt_ready s \<and>
    (\<exists>word. p14e_fetch s = Some word \<and> (p14e_bad_tris word \<or> p14e_bad_access s word))"
proof -
  let ?word = "p14e_prog s ! unat (p14e_pc s)"
  have f: "p14e_fetch s = Some ?word" using assms by (simp add: p14e_inv_def p14e_fetch_def)
  have "p14e_step s = None \<longleftrightarrow> p14e_cycle_debt s = 0 \<and> \<not> p14e_interrupt_ready s \<and>
      p14e_dispatch s (p14e_pc s) ?word = None"
    using f by (auto simp: p14e_step_def bind_eq_None_conv split: prod.splits)
  then show ?thesis using f p14e_bad_tris_class [of ?word] by (auto simp: p14e_dispatch_None)
qed

definition p14e_demo :: "u16 list \<Rightarrow> pic14e" where
  "p14e_demo prog = the (p14e_with_device p16f1938 prog)"

lemma p14e_demo_eq:
  "p14e_demo prog = \<lparr>p14e_prog = prog, p14e_ram = p14e_apply_por (\<lambda>_. 0), p14e_w = 0, p14e_pc = 0,
     p14e_stack = [], p14e_halted = False, p14e_cycles = 0, p14e_pending = False,
     p14e_timer0_acc = 0, p14e_timer0_enabled = False, p14e_timer0_pending = False,
     p14e_shadow = replicate 8 0, p14e_cycle_debt = 0, p14e_eeprom = ee_new, p14e_adc_left = 0\<rparr>"
  by (simp add: p14e_demo_def p14e_with_device_def p16f1938_def)

text \<open>With FSR0 at 0x1000, MOVWF INDF0 panics; GOTO 0, whose low bits are also 0, does not.\<close>

lemma p14e_step_panics_only_on_pointers_witness:
  "p14e_step (p14e_poke (p14e_demo [0x0080, 0, 0, 0, 0]) 5 0x10) = None \<and>
   p14e_step (p14e_poke (p14e_demo [0x2800, 0, 0, 0, 0]) 5 0x10) \<noteq> None"
  using p14e_step_panics_only_on_pointers [of "p14e_poke (p14e_demo [0x0080, 0, 0, 0, 0]) 5 0x10"]
    p14e_step_panics_only_on_pointers [of "p14e_poke (p14e_demo [0x2800, 0, 0, 0, 0]) 5 0x10"]
  by (simp add: p14e_demo_eq p14e_inv_def p14e_interrupt_ready_def p14e_fetch_def p14e_bad_tris_def
      p14e_bad_access_def p14e_access_def p14e_writable_def p14e_fsr_def p14e_indirect_addr_def
      p14e_apply_por_def pic14e_por_def word_le_nat_alt Let_def)

text \<open>C14: the shadow registers make an interrupt transparent: whatever the handler did to W, BSR, both FSRs,
  PCLATH and the Z, DC and C flags, the RETFIE that ends it restores the values they had when the
  interrupt was taken, keeps the handler's TO and PD bits, and returns to the interrupted program.\<close>

theorem p14e_shadow_round_trip:
  assumes "p14e_shadow h = p14e_shadow (p14e_enter_isr s)"
    and "p14e_stack h = p14e_stack (p14e_enter_isr s)"
  shows "\<exists>t. p14e_dispatch h pc 0x0009 = Some (t, p14e_pc s) \<and> p14e_stack t = p14e_stack s \<and>
    p14e_w t = p14e_w s \<and> (\<forall>r \<in> {4, 5, 6, 7, 8, 10}. p14e_ram t r = p14e_ram s r) \<and>
    p14e_ram t 3 = (p14e_ram h 3 AND 0x18) OR (p14e_ram s 3 AND 0x07) \<and>
    bit (p14e_ram t E_INTCON) 7"
  using assms
  by (auto simp: p14e_dispatch_def p14e_exec_byte_def p14e_enter_isr_def p14e_save_shadow_def
      p14e_restore_shadow_def p14e_pop_return_def Let_def mask_simps
      intro!: byte_eqI simp: bit_or_iff bit_and_iff)

lemma p14e_shadow_round_trip_witness:
  "\<exists>t. p14e_dispatch (p14e_poke (p14e_enter_isr (p14e_demo [])) 4 0x33) 5 0x0009 = Some (t, 0) \<and>
     p14e_ram t 4 = 0"
  using p14e_shadow_round_trip [of "p14e_poke (p14e_enter_isr (p14e_demo [])) 4 0x33" "p14e_demo []" 5]
  by (auto simp: p14e_demo_eq p14e_apply_por_def pic14e_por_def)

lemma p14e_flag_bits [simp]:
  "bit (p14e_ram (p14e_set_c t c) 3) 0 \<longleftrightarrow> c"
  "bit (p14e_ram (p14e_set_z t v) 3) 0 \<longleftrightarrow> bit (p14e_ram t 3) 0"
  "bit (p14e_ram (p14e_set_dc t c) 3) 0 \<longleftrightarrow> bit (p14e_ram t 3) 0"
  by (simp_all add: p14e_set_c_def p14e_set_z_def p14e_set_dc_def mask_simps)



end
