(* ===== verification/Sim18.thy ===== *)
theory Sim18
  imports Eeprom Timing
begin

text \<open>
  \<open>Pic18\<close>, the 16-bit core of \<^verbatim>\<open>crates/sim/src/lib.rs\<close>. The program counter is a byte address;
  4096 bytes of data memory; the call stack is a list with its top first, mirrored into four SFRs.
  An operand resolves to a physical address that an FSR or a negative PLUSW offset can take outside
  the data memory, so every access is option-valued, as is an instruction that reads a second word.
  \<open>u32\<close> arithmetic on program counters wraps, as in a release build.
\<close>

record pic18 =
  p18_prog :: "u16 list"
  p18_ram :: "nat \<Rightarrow> u8"
  p18_w :: u8
  p18_pc :: u32
  p18_stack :: "u32 list"
  p18_halted :: bool
  p18_cycles :: nat
  p18_pending :: bool
  p18_pending_lo :: bool
  p18_isr_stack :: "bool list"
  p18_jump_target :: "u32 option"
  p18_eeprom :: eeprom
  p18_timer2_acc :: nat
  p18_timer2_enabled :: bool
  p18_timer0_acc :: nat
  p18_timer0_enabled :: bool
  p18_timer0_pending :: bool

abbreviation (input) PIC18_INTCON :: nat where "PIC18_INTCON \<equiv> 0xFF2"
abbreviation (input) PIC18_GIEH :: u8 where "PIC18_GIEH \<equiv> 0x80"
abbreviation (input) PIC18_GIEL :: u8 where "PIC18_GIEL \<equiv> 0x40"
abbreviation (input) PIC18_TMR0IE :: u8 where "PIC18_TMR0IE \<equiv> 0x20"
abbreviation (input) PIC18_INT0IE :: u8 where "PIC18_INT0IE \<equiv> 0x10"
abbreviation (input) PIC18_TMR0IF :: u8 where "PIC18_TMR0IF \<equiv> 0x04"
abbreviation (input) PIC18_INT0IF :: u8 where "PIC18_INT0IF \<equiv> 0x02"
abbreviation (input) PIC18_T0CON :: nat where "PIC18_T0CON \<equiv> 0xFD5"
abbreviation (input) PIC18_TMR0L :: nat where "PIC18_TMR0L \<equiv> 0xFD6"
abbreviation (input) PIC18_TMR0H :: nat where "PIC18_TMR0H \<equiv> 0xFD7"
abbreviation (input) PIC18_T2CON :: nat where "PIC18_T2CON \<equiv> 0xFCA"
abbreviation (input) PIC18_PR2 :: nat where "PIC18_PR2 \<equiv> 0xFCB"
abbreviation (input) PIC18_PIE1 :: nat where "PIC18_PIE1 \<equiv> 0xF9D"
abbreviation (input) PIC18_PIR1 :: nat where "PIC18_PIR1 \<equiv> 0xF9E"
abbreviation (input) PIC18_TMR2IE :: u8 where "PIC18_TMR2IE \<equiv> 0x02"
abbreviation (input) PIC18_TMR2IF :: u8 where "PIC18_TMR2IF \<equiv> 0x02"
abbreviation (input) PIC18_EECON1 :: nat where "PIC18_EECON1 \<equiv> 0xFA6"
abbreviation (input) PIC18_EECON2 :: nat where "PIC18_EECON2 \<equiv> 0xFA7"
abbreviation (input) PIC18_EEDATA :: nat where "PIC18_EEDATA \<equiv> 0xFA8"
abbreviation (input) PIC18_EEADR :: nat where "PIC18_EEADR \<equiv> 0xFA9"
abbreviation (input) STATUS18 :: nat where "STATUS18 \<equiv> 0xFD8"

definition pic18_por :: "(nat \<times> u8) list" where
  "pic18_por =
    [(0xFAC, 0x02), (0xFD5, 0xFF), (0xFD0, 0x57), (0xFF1, 0xFB), (0xFF0, 0xC0), (0xF9F, 0xFF),
     (0xFA2, 0xFF), (0xFCB, 0xFF), (0xFB4, 0x07), (0xF92, 0xFF), (0xF93, 0xFF), (0xF94, 0xFF),
     (0xF95, 0xFF), (0xF96, 0xFF)]"

definition p18_new :: "u16 list \<Rightarrow> pic18" where
  "p18_new prog =
     \<lparr>p18_prog = prog, p18_ram = foldl (\<lambda>r (a, v). r(a := v)) (\<lambda>_. 0) pic18_por, p18_w = 0,
      p18_pc = 0, p18_stack = [], p18_halted = False, p18_cycles = 0, p18_pending = False,
      p18_pending_lo = False, p18_isr_stack = [], p18_jump_target = None, p18_eeprom = ee_new,
      p18_timer2_acc = 0, p18_timer2_enabled = False, p18_timer0_acc = 0,
      p18_timer0_enabled = False, p18_timer0_pending = False\<rparr>"

definition p18_set_timer2_enabled :: "pic18 \<Rightarrow> bool \<Rightarrow> pic18" where
  "p18_set_timer2_enabled s e = s\<lparr>p18_timer2_enabled := e\<rparr>"

definition p18_set_timer0_enabled :: "pic18 \<Rightarrow> bool \<Rightarrow> pic18" where
  "p18_set_timer0_enabled s e = s\<lparr>p18_timer0_enabled := e\<rparr>"

definition p18_poke :: "pic18 \<Rightarrow> nat \<Rightarrow> u8 \<Rightarrow> pic18" where
  "p18_poke s a v = s\<lparr>p18_ram := (p18_ram s)(a := v)\<rparr>"

section \<open>The call stack and its SFR view\<close>

definition p18_sync_stack_sfrs :: "pic18 \<Rightarrow> pic18" where
  "p18_sync_stack_sfrs s =
     (let tos = (case p18_stack s of [] \<Rightarrow> 0 | a # _ \<Rightarrow> a) in
      p18_poke (p18_poke (p18_poke (p18_poke s 0xFFC (of_nat (length (p18_stack s))))
        0xFFD (ucast (tos AND 0xFF))) 0xFFE (ucast (drop_bit 8 tos AND 0xFF)))
        0xFFF (ucast (drop_bit 16 tos AND 0xFF)))"

text \<open>\<open>assert!(self.stack.len() < 31)\<close> is a panic.\<close>

definition p18_push_return :: "pic18 \<Rightarrow> u32 \<Rightarrow> pic18 option" where
  "p18_push_return s a =
     (if length (p18_stack s) < 31
      then Some (p18_sync_stack_sfrs (s\<lparr>p18_stack := a # p18_stack s\<rparr>)) else None)"

definition p18_pop_return :: "pic18 \<Rightarrow> pic18 \<times> u32" where
  "p18_pop_return s =
     (case p18_stack s of
        [] \<Rightarrow> (p18_sync_stack_sfrs s, 0)
      | a # st \<Rightarrow> (p18_sync_stack_sfrs (s\<lparr>p18_stack := st\<rparr>), a))"

section \<open>STATUS flags\<close>

definition p18_flag :: "pic18 \<Rightarrow> u8 \<Rightarrow> bool \<Rightarrow> pic18" where
  "p18_flag s m on =
     (if on then p18_poke s STATUS18 (p18_ram s STATUS18 OR m)
      else p18_poke s STATUS18 (p18_ram s STATUS18 AND NOT m))"

definition p18_set_z :: "pic18 \<Rightarrow> u8 \<Rightarrow> pic18" where "p18_set_z s v = p18_flag s 0x04 (v = 0)"
definition p18_set_c :: "pic18 \<Rightarrow> bool \<Rightarrow> pic18" where "p18_set_c s c = p18_flag s 0x01 c"
definition p18_set_dc :: "pic18 \<Rightarrow> bool \<Rightarrow> pic18" where "p18_set_dc s c = p18_flag s 0x02 c"
definition p18_set_n :: "pic18 \<Rightarrow> u8 \<Rightarrow> pic18" where
  "p18_set_n s r = p18_flag s 0x10 (r AND 0x80 \<noteq> 0)"
definition p18_set_ov :: "pic18 \<Rightarrow> bool \<Rightarrow> pic18" where "p18_set_ov s ov = p18_flag s 0x08 ov"

definition p18_set_zn :: "pic18 \<Rightarrow> u8 \<Rightarrow> pic18" where
  "p18_set_zn s r = p18_set_n (p18_set_z s r) r"

definition p18_get_c :: "pic18 \<Rightarrow> bool" where
  "p18_get_c s \<longleftrightarrow> p18_ram s STATUS18 AND 0x01 \<noteq> 0"

definition p18_add_flags :: "pic18 \<Rightarrow> u8 \<Rightarrow> u8 \<Rightarrow> u8 \<Rightarrow> pic18" where
  "p18_add_flags s a b r =
     p18_set_ov (p18_set_dc (p18_set_c s (unat a + unat b > 0xFF))
       (unat (a AND 0x0F) + unat (b AND 0x0F) > 0x0F))
       ((a XOR r) AND (b XOR r) AND 0x80 \<noteq> 0)"

definition p18_addc_flags :: "pic18 \<Rightarrow> u8 \<Rightarrow> u8 \<Rightarrow> u8 \<Rightarrow> pic18 \<times> u8" where
  "p18_addc_flags s a b cin =
     (let sum = unat a + unat b + unat cin;
          r = of_nat sum :: u8
      in (p18_set_ov (p18_set_dc (p18_set_c s (sum > 0xFF))
            (unat (a AND 0x0F) + unat (b AND 0x0F) + unat cin > 0x0F))
            ((a XOR r) AND (b XOR r) AND 0x80 \<noteq> 0), r))"

definition p18_sub_flags :: "pic18 \<Rightarrow> u8 \<Rightarrow> u8 \<Rightarrow> u8 \<Rightarrow> pic18" where
  "p18_sub_flags s a b r =
     p18_set_ov (p18_set_dc (p18_set_c s (a \<ge> b)) (a AND 0x0F \<ge> b AND 0x0F))
       ((a XOR b) AND (a XOR r) AND 0x80 \<noteq> 0)"

section \<open>Operand addresses\<close>

text \<open>
  The FSR registers an address in the SFR page names: low byte, high byte, and the low bytes of its
  INDF, POSTINC, POSTDEC and PREINC registers; the remaining register of a group is PLUSW.
\<close>

definition p18_fsr_group :: "nat \<Rightarrow> (nat \<times> nat \<times> nat \<times> nat \<times> nat \<times> nat) option" where
  "p18_fsr_group f =
     (if f \<in> {0xEF, 0xEE, 0xED, 0xEC, 0xEB} then Some (0xE9, 0xEA, 0xEF, 0xEE, 0xED, 0xEC)
      else if f \<in> {0xE7, 0xE6, 0xE5, 0xE4, 0xE3} then Some (0xE1, 0xE2, 0xE7, 0xE6, 0xE5, 0xE4)
      else if f \<in> {0xDF, 0xDE, 0xDD, 0xDC, 0xDB} then Some (0xD9, 0xDA, 0xDF, 0xDE, 0xDD, 0xDC)
      else None)"

definition p18_set_fsr_at :: "pic18 \<Rightarrow> nat \<Rightarrow> nat \<Rightarrow> u16 \<Rightarrow> pic18" where
  "p18_set_fsr_at s lo hi v =
     p18_poke (p18_poke s lo (ucast (v AND 0xFF))) hi (ucast (drop_bit 8 v))"

text \<open>
  \<open>resolve_phys\<close>: the state after the pointer's side effect and the address as a \<open>usize\<close>: a negative
  PLUSW sum wraps to a huge one, as the cast of the code does.
\<close>

definition p18_resolve_phys :: "pic18 \<Rightarrow> nat \<Rightarrow> pic18 \<times> nat" where
  "p18_resolve_phys s phys =
     (if phys < 0xF00 then (s, phys)
      else case p18_fsr_group (phys mod 256) of
        None \<Rightarrow> (s, phys)
      | Some (fsrn_lo, fsrn_hi, indf, postinc, postdec, preinc) \<Rightarrow>
          (let lo = 0xF00 + fsrn_lo; hi = 0xF00 + fsrn_hi;
               cur = push_bit 8 (ucast (p18_ram s hi)) OR ucast (p18_ram s lo) :: u16;
               f = phys mod 256
           in if f = indf then (s, unat cur)
              else if f = postinc then (p18_set_fsr_at s lo hi (cur + 1), unat cur)
              else if f = postdec then (p18_set_fsr_at s lo hi (cur - 1), unat cur)
              else if f = preinc then (p18_set_fsr_at s lo hi (cur + 1), unat (cur + 1))
              else (s, nat ((uint cur + sint (p18_w s)) mod 2 ^ 64))))"

definition p18_resolve_f :: "pic18 \<Rightarrow> u16 \<Rightarrow> u16 \<Rightarrow> pic18 \<times> nat" where
  "p18_resolve_f s a f =
     p18_resolve_phys s
       (if a = 0 then (if f \<le> 0x5F then unat f else 0xF00 + unat f)
        else push_bit 8 (unat (p18_ram s 0xFE0)) OR unat f)"

lemma p18_resolve_status: "p18_resolve_f s 0 0xD8 = (s, STATUS18)"
  by (simp add: p18_resolve_f_def p18_resolve_phys_def p18_fsr_group_def)

definition p18_read_phys :: "pic18 \<Rightarrow> nat \<Rightarrow> u8 option" where
  "p18_read_phys s a =
     (if a = 0xFE8 then Some (p18_w s)
      else if a = 0xFF9 then Some (ucast ((p18_pc s + 2) AND 0xFF))
      else if a < 4096 then Some (p18_ram s a) else None)"

definition p18_ee_store :: "pic18 \<Rightarrow> nat \<Rightarrow> u8 \<Rightarrow> pic18 \<times> u8 option" where
  "p18_ee_store s a v =
     (if a \<noteq> PIC18_EECON1 \<and> a \<noteq> PIC18_EECON2 then (s, None)
      else let (e, d, r) = ee_on_store (p18_eeprom s) a PIC18_EECON1 PIC18_EECON2 v
                (p18_ram s PIC18_EEADR) (p18_ram s PIC18_EEDATA)
                (p18_ram s PIC18_EECON1 AND 4 \<noteq> 0)
           in ((p18_poke s PIC18_EEDATA d)\<lparr>p18_eeprom := e\<rparr>, r))"

definition p18_write_phys :: "pic18 \<Rightarrow> nat \<Rightarrow> u8 \<Rightarrow> pic18 option" where
  "p18_write_phys s a v =
     (if a = 0xFE8 then Some (s\<lparr>p18_w := v\<rparr>)
      else if a = 0xFF9 then
        (let pclath = ucast (p18_ram s 0xFFA) :: u32;
             pclatu = ucast (p18_ram s 0xFFB) AND 0x1F :: u32
         in Some (s\<lparr>p18_jump_target := Some (push_bit 16 pclatu OR push_bit 8 pclath OR ucast v)\<rparr>))
      else if a = 0xFFD \<or> a = 0xFFE \<or> a = 0xFFF then
        (let s1 = p18_poke s a v; shift = 8 * (a - 0xFFD)
         in Some (case p18_stack s1 of
              [] \<Rightarrow> s1
            | tos # st \<Rightarrow> s1\<lparr>p18_stack :=
                ((tos AND NOT (push_bit shift 0xFF)) OR push_bit shift (ucast v)) # st\<rparr>))
      else if a < 4096 then
        (let (s1, r) = p18_ee_store s a v;
             v1 = (case r of Some x \<Rightarrow> x | None \<Rightarrow> v);
             s2 = p18_poke s1 a v1
         in Some (if a = PIC18_TMR0L \<or> a = PIC18_TMR0H then s2\<lparr>p18_timer0_acc := 0\<rparr> else s2))
      else None)"

definition p18_write_d_at :: "pic18 \<Rightarrow> u16 \<Rightarrow> nat \<Rightarrow> u8 \<Rightarrow> pic18 option" where
  "p18_write_d_at s d op r = (if d = 1 then p18_write_phys s op r else Some (s\<lparr>p18_w := r\<rparr>))"

text \<open>\<open>skip_pc\<close> reads the skipped instruction to see whether it has two words.\<close>

definition p18_two_word :: "u16 \<Rightarrow> bool" where
  "p18_two_word word \<longleftrightarrow>
     word AND 0xFF00 = 0xEF00 \<or> word AND 0xFF00 = 0xEE00 \<or> word AND 0xFE00 = 0xEC00 \<or>
     drop_bit 12 word = 0xC"

definition p18_word_at :: "pic18 \<Rightarrow> nat \<Rightarrow> u16 option" where
  "p18_word_at s i = (if i < length (p18_prog s) then Some (p18_prog s ! i) else None)"

definition p18_skip_pc :: "pic18 \<Rightarrow> u32 \<Rightarrow> u32 option" where
  "p18_skip_pc s after_pc =
     do {
       word \<leftarrow> p18_word_at s (unat after_pc div 2);
       Some (after_pc + (if p18_two_word word then 4 else 2))
     }"

section \<open>Instructions\<close>

text \<open>The group without a destination bit, \<open>match word & 0xFE00\<close>; the inner \<^const>\<open>None\<close> falls through.\<close>

definition p18_byte_nodest :: "pic18 \<Rightarrow> u32 \<Rightarrow> u16 \<Rightarrow> nat \<Rightarrow> (pic18 \<times> u32) option option" where
  "p18_byte_nodest s pc word op =
     (let base = word AND 0xFE00;
          w = p18_w s;
          skip_if = (\<lambda>P. do {
             v \<leftarrow> p18_read_phys s op;
             (if P v then do { n \<leftarrow> p18_skip_pc s (pc + 2); Some (s, n) } else Some (s, pc + 2)) })
      in
      if base = 0x6A00 then
        Some (do { s1 \<leftarrow> p18_write_phys s op 0; Some (p18_set_z s1 0, pc + 2) })
      else if base = 0x6200 then Some (skip_if (\<lambda>v. v = w))
      else if base = 0x6E00 then
        Some (do { s1 \<leftarrow> p18_write_phys s op w; Some (s1, pc + 2) })
      else if base = 0x6400 then Some (skip_if (\<lambda>v. v > w))
      else if base = 0x6000 then Some (skip_if (\<lambda>v. v < w))
      else if base = 0x6C00 then
        Some (do {
          fv \<leftarrow> p18_read_phys s op;
          let r = 0 - fv;
          s1 \<leftarrow> p18_write_phys (p18_set_zn (p18_sub_flags s 0 fv r) r) op r;
          Some (s1, pc + 2) })
      else if base = 0x6800 then
        Some (do { s1 \<leftarrow> p18_write_phys s op 0xFF; Some (s1, pc + 2) })
      else if base = 0x6600 then Some (skip_if (\<lambda>v. v = 0))
      else if base = 0x0200 then
        Some (do {
          v \<leftarrow> p18_read_phys s op;
          let prod = (ucast w * ucast v :: u16);
          Some (p18_poke (p18_poke s 0xFF3 (ucast (prod AND 0xFF))) 0xFF4 (ucast (drop_bit 8 prod)),
                pc + 2) })
      else None)"

text \<open>The destination-select group, \<open>match word & 0xFC00\<close>, after the operand is read.\<close>

definition p18_byte_dest ::
  "pic18 \<Rightarrow> u32 \<Rightarrow> u16 \<Rightarrow> u16 \<Rightarrow> nat \<Rightarrow> u8 \<Rightarrow> (pic18 \<times> u32) option" where
  "p18_byte_dest s pc word d op v =
     (let base = word AND 0xFC00;
          w = p18_w s;
          cin = (if p18_get_c s then 1 else 0) :: u8;
          store = (\<lambda>t r. do { t' \<leftarrow> p18_write_d_at t d op r; Some (t', pc + 2) });
          store_skip = (\<lambda>r P. do {
             t' \<leftarrow> p18_write_d_at s d op r;
             (if P then do { n \<leftarrow> p18_skip_pc t' (pc + 2); Some (t', n) } else Some (t', pc + 2)) })
      in
      if base = 0x2400 then store (p18_set_zn (p18_add_flags s v w (v + w)) (v + w)) (v + w)
      else if base = 0x5C00 then store (p18_set_zn (p18_sub_flags s v w (v - w)) (v - w)) (v - w)
      else if base = 0x3800 then store s (push_bit 4 v OR drop_bit 4 v)
      else if base = 0x2C00 then store_skip (v - 1) (v - 1 = 0)
      else if base = 0x2000 then
        let (s1, r) = p18_addc_flags s v w cin in store (p18_set_zn s1 r) r
      else if base = 0x1400 then store (p18_set_zn s (v AND w)) (v AND w)
      else if base = 0x1C00 then store (p18_set_zn s (NOT v)) (NOT v)
      else if base = 0x4C00 then store_skip (v - 1) (v - 1 \<noteq> 0)
      else if base = 0x2800 then store (p18_set_zn (p18_add_flags s v 1 (v + 1)) (v + 1)) (v + 1)
      else if base = 0x3C00 then store_skip (v + 1) (v + 1 = 0)
      else if base = 0x4800 then store_skip (v + 1) (v + 1 \<noteq> 0)
      else if base = 0x1000 then store (p18_set_zn s (v OR w)) (v OR w)
      else if base = 0x5000 then store (p18_set_zn s v) v
      else if base = 0x3400 then
        let r = push_bit 1 v OR cin in store (p18_set_zn (p18_set_c s (v AND 0x80 \<noteq> 0)) r) r
      else if base = 0x4400 then
        let r = push_bit 1 v OR drop_bit 7 v in store (p18_set_zn s r) r
      else if base = 0x3000 then
        let r = drop_bit 1 v OR push_bit 7 cin in store (p18_set_zn (p18_set_c s (v AND 0x01 \<noteq> 0)) r) r
      else if base = 0x4000 then
        let r = drop_bit 1 v OR push_bit 7 v in store (p18_set_zn s r) r
      else if base = 0x5400 then
        let (s1, r) = p18_addc_flags s w (NOT v) cin in store (p18_set_zn s1 r) r
      else if base = 0x5800 then
        let (s1, r) = p18_addc_flags s v (NOT w) cin in store (p18_set_zn s1 r) r
      else if base = 0x1800 then store (p18_set_zn s (v XOR w)) (v XOR w)
      else if base = 0x0400 then store (p18_set_zn (p18_sub_flags s v 1 (v - 1)) (v - 1)) (v - 1)
      else None)"

definition p18_exec_byte :: "pic18 \<Rightarrow> u32 \<Rightarrow> u16 \<Rightarrow> (pic18 \<times> u32) option" where
  "p18_exec_byte s pc word =
     (let a = drop_bit 8 word AND 1;
          d = drop_bit 9 word AND 1;
          f = word AND 0xFF;
          (s1, op) = p18_resolve_f s a f
      in case p18_byte_nodest s1 pc word op of
           Some r \<Rightarrow> r
         | None \<Rightarrow> do { v \<leftarrow> p18_read_phys s1 op; p18_byte_dest s1 pc word d op v })"

definition p18_exec_bit :: "pic18 \<Rightarrow> u32 \<Rightarrow> u16 \<Rightarrow> (pic18 \<times> u32) option" where
  "p18_exec_bit s pc word =
     (let a = drop_bit 8 word AND 1;
          f = word AND 0xFF;
          b = unat (drop_bit 9 word AND 7);
          (s1, op) = p18_resolve_f s a f;
          grp = drop_bit 12 word AND 0xF;
          m = push_bit b 1 :: u8;
          store = (\<lambda>r. do { s2 \<leftarrow> p18_write_phys s1 op r; Some (s2, pc + 2) })
      in do {
        v \<leftarrow> p18_read_phys s1 op;
        (if grp = 0x7 then store (v XOR m)
         else if grp = 0x8 then store (v OR m)
         else if grp = 0x9 then store (v AND NOT m)
         else if grp = 0xA then
           (if v AND m \<noteq> 0 then do { n \<leftarrow> p18_skip_pc s1 (pc + 2); Some (s1, n) }
            else Some (s1, pc + 2))
         else if grp = 0xB then
           (if v AND m = 0 then do { n \<leftarrow> p18_skip_pc s1 (pc + 2); Some (s1, n) }
            else Some (s1, pc + 2))
         else None)
      })"

definition p18_exec_literal :: "pic18 \<Rightarrow> u32 \<Rightarrow> u16 \<Rightarrow> (pic18 \<times> u32) option" where
  "p18_exec_literal s pc word =
     (let k = ucast (word AND 0xFF) :: u8;
          op = drop_bit 8 word AND 0xF;
          w = p18_w s
      in if op = 0x8 then
           let (s1, r) = p18_addc_flags s k (NOT w) 1 in Some ((p18_set_zn s1 r)\<lparr>p18_w := r\<rparr>, pc + 2)
         else if op = 0x9 then Some (p18_set_zn (s\<lparr>p18_w := w OR k\<rparr>) (w OR k), pc + 2)
         else if op = 0xA then Some (p18_set_zn (s\<lparr>p18_w := w XOR k\<rparr>) (w XOR k), pc + 2)
         else if op = 0xB then Some (p18_set_zn (s\<lparr>p18_w := w AND k\<rparr>) (w AND k), pc + 2)
         else if op = 0xC then
           let (s1, t) = p18_pop_return (s\<lparr>p18_w := k\<rparr>) in Some (s1\<lparr>p18_jump_target := Some t\<rparr>, t)
         else if op = 0xD then
           let prod = ucast w * ucast k :: u16
           in Some (p18_poke (p18_poke s 0xFF3 (ucast (prod AND 0xFF))) 0xFF4 (ucast (drop_bit 8 prod)),
                    pc + 2)
         else if op = 0xE then Some (s\<lparr>p18_w := k\<rparr>, pc + 2)
         else if op = 0xF then
           let (s1, r) = p18_addc_flags s w k 0 in Some ((p18_set_zn s1 r)\<lparr>p18_w := r\<rparr>, pc + 2)
         else None)"

definition p18_exec_daw :: "pic18 \<Rightarrow> pic18" where
  "p18_exec_daw s =
     (let dc = (p18_ram s STATUS18 AND 0x02 \<noteq> 0);
          w1 = (if p18_w s AND 0x0F > 9 \<or> dc then p18_w s + 6 else p18_w s);
          c = p18_get_c s;
          adj = (w1 AND 0xF0 > 0x90 \<or> c);
          w2 = (if adj then w1 + 0x60 else w1)
      in p18_set_c (s\<lparr>p18_w := w2\<rparr>) (if adj then True else c))"

section \<open>Table reads\<close>

definition p18_tblptr :: "pic18 \<Rightarrow> u32" where
  "p18_tblptr s =
     (push_bit 16 (ucast (p18_ram s 0xFF8)) OR push_bit 8 (ucast (p18_ram s 0xFF7)))
       OR ucast (p18_ram s 0xFF6)"

definition p18_set_tblptr :: "pic18 \<Rightarrow> u32 \<Rightarrow> pic18" where
  "p18_set_tblptr s v =
     p18_poke (p18_poke (p18_poke s 0xFF6 (ucast (v AND 0xFF))) 0xFF7 (ucast (drop_bit 8 v AND 0xFF)))
       0xFF8 (ucast (drop_bit 16 v AND 0xFF))"

definition p18_read_flash_byte :: "pic18 \<Rightarrow> u32 \<Rightarrow> u8" where
  "p18_read_flash_byte s a =
     (let w = (case p18_word_at s (unat a div 2) of Some x \<Rightarrow> x | None \<Rightarrow> 0)
      in if unat a mod 2 = 0 then ucast (w AND 0xFF) else ucast (drop_bit 8 w))"

definition p18_tblptr_inc :: "pic18 \<Rightarrow> pic18" where
  "p18_tblptr_inc s = p18_set_tblptr s ((p18_tblptr s + 1) AND 0x1FFFFF)"

definition p18_tblptr_dec :: "pic18 \<Rightarrow> pic18" where
  "p18_tblptr_dec s = p18_set_tblptr s ((p18_tblptr s - 1) AND 0x1FFFFF)"

definition p18_exec_tblrd :: "pic18 \<Rightarrow> u16 \<Rightarrow> pic18" where
  "p18_exec_tblrd s opcode =
     (let s1 = (if opcode = 0x000B then p18_tblptr_inc s else s);
          s2 = p18_poke s1 0xFF5 (p18_read_flash_byte s1 (p18_tblptr s1))
      in if opcode = 0x0009 then p18_tblptr_inc s2
         else if opcode = 0x000A then p18_tblptr_dec s2 else s2)"

definition p18_exec_tblwt :: "pic18 \<Rightarrow> u16 \<Rightarrow> pic18" where
  "p18_exec_tblwt s opcode =
     (let s1 = (if opcode = 0x000F then p18_tblptr_inc s else s)
      in if opcode = 0x000D then p18_tblptr_inc s1
         else if opcode = 0x000E then p18_tblptr_dec s1 else s1)"

section \<open>Control transfer\<close>

text \<open>The target of a relative branch: \<open>(pc/2 + 1 + n) * 2\<close> in wrapping 32-bit arithmetic.\<close>

definition p18_branch_target :: "u32 \<Rightarrow> u32 \<Rightarrow> u32" where
  "p18_branch_target pc n = (drop_bit 1 pc + 1 + n) * 2"

definition p18_exec_cond_branch :: "pic18 \<Rightarrow> u32 \<Rightarrow> u16 \<Rightarrow> pic18 \<times> u32" where
  "p18_exec_cond_branch s pc word =
     (let n = scast (ucast (word AND 0xFF) :: u8) :: u32;
          status = p18_ram s STATUS18;
          cc = drop_bit 8 word AND 7;
          taken =
            (if cc = 0 then status AND 0x04 \<noteq> 0
             else if cc = 1 then status AND 0x04 = 0
             else if cc = 2 then status AND 0x01 \<noteq> 0
             else if cc = 3 then status AND 0x01 = 0
             else if cc = 4 then status AND 0x08 \<noteq> 0
             else if cc = 5 then status AND 0x08 = 0
             else if cc = 6 then status AND 0x10 \<noteq> 0
             else status AND 0x10 = 0);
          target = p18_branch_target pc n
      in if taken then (s\<lparr>p18_jump_target := Some target\<rparr>, target) else (s, pc + 2))"

definition p18_exec_bra_rcall :: "pic18 \<Rightarrow> u32 \<Rightarrow> u16 \<Rightarrow> (pic18 \<times> u32) option" where
  "p18_exec_bra_rcall s pc word =
     (let raw = word AND 0x7FF;
          n = (if raw AND 0x400 \<noteq> 0 then ucast raw - 0x800 else ucast raw) :: u32;
          target = p18_branch_target pc n
      in do {
        s1 \<leftarrow> (if word AND 0x0800 \<noteq> 0 then p18_push_return s (pc + 2) else Some s);
        Some (s1\<lparr>p18_jump_target := Some target\<rparr>, target)
      })"

definition p18_exec_goto_call_lfsr ::
  "pic18 \<Rightarrow> u32 \<Rightarrow> u16 \<Rightarrow> u16 \<Rightarrow> (pic18 \<times> u32) option" where
  "p18_exec_goto_call_lfsr s pc word word2 =
     (let k12 = ucast (word2 AND 0xFFF) :: u32;
          k = push_bit 8 k12 OR ucast (word AND 0xFF);
          op = word AND 0xFF00
      in if op = 0xEF00 then Some (s, k * 2)
         else if op = 0xEC00 \<or> op = 0xED00 then
           do { s1 \<leftarrow> p18_push_return s (pc + 4); Some (s1, k * 2) }
         else if op = 0xEE00 then
           (let n = drop_bit 4 word AND 3;
                v = push_bit 8 (word AND 0xF) OR (word2 AND 0xFF)
            in if n = 0 then Some (p18_set_fsr_at s 0xFE9 0xFEA v, pc + 4)
               else if n = 1 then Some (p18_set_fsr_at s 0xFE1 0xFE2 v, pc + 4)
               else if n = 2 then Some (p18_set_fsr_at s 0xFD9 0xFDA v, pc + 4)
               else None)
         else None)"

definition p18_exec_movff :: "pic18 \<Rightarrow> u32 \<Rightarrow> u16 \<Rightarrow> u16 \<Rightarrow> (pic18 \<times> u32) option" where
  "p18_exec_movff s pc word word2 =
     (let (s1, src) = p18_resolve_phys s (unat (word AND 0xFFF)) in
      do {
        v \<leftarrow> p18_read_phys s1 src;
        let (s2, dst) = p18_resolve_phys s1 (unat (word2 AND 0xFFF));
        s3 \<leftarrow> p18_write_phys s2 dst v;
        Some (s3, pc + 4)
      })"

definition p18_exec_retfie :: "pic18 \<Rightarrow> pic18 \<times> u32" where
  "p18_exec_retfie s =
     (let intcon = p18_ram s PIC18_INTCON;
          s1 = (case p18_isr_stack s of
                  True # st \<Rightarrow> p18_poke (s\<lparr>p18_isr_stack := st\<rparr>) PIC18_INTCON (intcon OR PIC18_GIEH)
                | False # st \<Rightarrow> p18_poke (s\<lparr>p18_isr_stack := st\<rparr>) PIC18_INTCON (intcon OR PIC18_GIEL)
                | [] \<Rightarrow> p18_poke s PIC18_INTCON (intcon OR PIC18_GIEH));
          (s2, t) = p18_pop_return s1
      in (s2\<lparr>p18_jump_target := Some t\<rparr>, t))"

section \<open>Interrupts\<close>

definition p18_request_interrupt :: "pic18 \<Rightarrow> pic18" where
  "p18_request_interrupt s =
     (p18_poke s PIC18_INTCON (p18_ram s PIC18_INTCON OR (PIC18_INT0IF OR PIC18_TMR0IF)))
       \<lparr>p18_pending := True\<rparr>"

definition p18_request_low_interrupt :: "pic18 \<Rightarrow> pic18" where
  "p18_request_low_interrupt s =
     (p18_poke s PIC18_INTCON (p18_ram s PIC18_INTCON OR (PIC18_INT0IF OR PIC18_TMR0IF)))
       \<lparr>p18_pending_lo := True\<rparr>"

definition p18_enter_isr :: "pic18 \<Rightarrow> pic18" where
  "p18_enter_isr s =
     (p18_poke (s\<lparr>p18_stack := p18_pc s # p18_stack s\<rparr>) PIC18_INTCON
        (p18_ram s PIC18_INTCON AND NOT PIC18_GIEH))
       \<lparr>p18_pc := 0x08, p18_isr_stack := True # p18_isr_stack s\<rparr>"

definition p18_enter_isr_low :: "pic18 \<Rightarrow> pic18" where
  "p18_enter_isr_low s =
     (p18_poke (s\<lparr>p18_stack := p18_pc s # p18_stack s\<rparr>) PIC18_INTCON
        (p18_ram s PIC18_INTCON AND NOT PIC18_GIEL))
       \<lparr>p18_pc := 0x18, p18_isr_stack := False # p18_isr_stack s\<rparr>"

definition p18_fire_interrupt :: "pic18 \<Rightarrow> pic18" where "p18_fire_interrupt s = p18_enter_isr s"

definition p18_fire_low_interrupt :: "pic18 \<Rightarrow> pic18" where
  "p18_fire_low_interrupt s = p18_enter_isr_low s"

definition p18_pending_source_enabled :: "pic18 \<Rightarrow> bool" where
  "p18_pending_source_enabled s \<longleftrightarrow>
     p18_ram s PIC18_INTCON AND (PIC18_INT0IE OR PIC18_TMR0IE) \<noteq> 0 \<or>
     p18_ram s PIC18_PIE1 AND PIC18_TMR2IE \<noteq> 0"

definition p18_interrupt_ready :: "pic18 \<Rightarrow> bool" where
  "p18_interrupt_ready s \<longleftrightarrow>
     (let intcon = p18_ram s PIC18_INTCON in
      intcon AND PIC18_GIEH \<noteq> 0 \<and>
      ((p18_pending s \<and> p18_pending_source_enabled s) \<or>
       (p18_timer0_pending s \<and> intcon AND PIC18_TMR0IE \<noteq> 0)))"

definition p18_interrupt_ready_lo :: "pic18 \<Rightarrow> bool" where
  "p18_interrupt_ready_lo s \<longleftrightarrow>
     (let intcon = p18_ram s PIC18_INTCON in
      p18_pending_lo s \<and> intcon AND PIC18_GIEH \<noteq> 0 \<and> intcon AND PIC18_GIEL \<noteq> 0 \<and>
      (intcon AND PIC18_INT0IE \<noteq> 0 \<or> intcon AND PIC18_TMR0IE \<noteq> 0))"

section \<open>Timers\<close>

definition p18_timer2_period :: "pic18 \<Rightarrow> nat" where
  "p18_timer2_period s =
     (let t2con = p18_ram s PIC18_T2CON;
          pre = (if t2con AND 0x03 = 0 then 1 else if t2con AND 0x03 = 1 then 4 else 16);
          post = unat (drop_bit 3 t2con AND 0x0F) + 1
      in pre * (unat (p18_ram s PIC18_PR2) + 1) * post)"

definition p18_timer2_match :: "pic18 \<Rightarrow> pic18" where
  "p18_timer2_match s =
     (p18_poke s PIC18_PIR1 (p18_ram s PIC18_PIR1 OR PIC18_TMR2IF))\<lparr>p18_pending := True\<rparr>"

definition p18_tick_timer2 :: "pic18 \<Rightarrow> nat \<Rightarrow> pic18" where
  "p18_tick_timer2 s delta =
     (if \<not> p18_timer2_enabled s \<or> p18_ram s PIC18_T2CON AND 0x04 = 0 then s\<lparr>p18_timer2_acc := 0\<rparr>
      else let (acc, s1) =
          tick_loop (p18_timer2_period s) p18_timer2_match (p18_timer2_acc s + delta) s
        in s1\<lparr>p18_timer2_acc := acc\<rparr>)"

definition p18_timer0_rate :: "u8 \<Rightarrow> nat" where
  "p18_timer0_rate t0con = (if t0con AND 0x08 \<noteq> 0 then 1 else 2 ^ (unat (t0con AND 0x07) + 1))"

definition p18_timer0_tick :: "u8 \<Rightarrow> pic18 \<Rightarrow> pic18" where
  "p18_timer0_tick t0con s =
     (let lo_carry = (p18_ram s PIC18_TMR0L = 0xFF);
          s1 = p18_poke s PIC18_TMR0L (p18_ram s PIC18_TMR0L + 1);
          (s2, overflowed) =
            (if t0con AND 0x40 \<noteq> 0 then (s1, lo_carry)
             else if lo_carry then
               (p18_poke s1 PIC18_TMR0H (p18_ram s1 PIC18_TMR0H + 1), p18_ram s1 PIC18_TMR0H = 0xFF)
             else (s1, False))
      in if overflowed
         then (p18_poke s2 PIC18_INTCON (p18_ram s2 PIC18_INTCON OR PIC18_TMR0IF))
                \<lparr>p18_timer0_pending := True\<rparr>
         else s2)"

definition p18_tick_timer0 :: "pic18 \<Rightarrow> nat \<Rightarrow> pic18" where
  "p18_tick_timer0 s delta =
     (let t0con = p18_ram s PIC18_T0CON in
      if \<not> p18_timer0_enabled s \<or> t0con AND 0x80 = 0 \<or> t0con AND 0x20 \<noteq> 0
      then s\<lparr>p18_timer0_acc := 0\<rparr>
      else let (acc, s1) =
          tick_loop (p18_timer0_rate t0con) (p18_timer0_tick t0con) (p18_timer0_acc s + delta) s
        in s1\<lparr>p18_timer0_acc := acc\<rparr>)"

section \<open>The step function\<close>

definition p18_dispatch :: "pic18 \<Rightarrow> u32 \<Rightarrow> u16 \<Rightarrow> (pic18 \<times> u32) option" where
  "p18_dispatch s pc word =
     (if word = 0x0000 then Some (s, pc + 2)
      else if word = 0x0003 then
        Some ((p18_poke s 0xFD0 ((p18_ram s 0xFD0 AND NOT 0x04) OR 0x08))\<lparr>p18_halted := True\<rparr>, pc)
      else if word = 0x0004 then Some (p18_poke s 0xFD0 (p18_ram s 0xFD0 OR 0x0C), pc + 2)
      else if word = 0x0005 then do { s1 \<leftarrow> p18_push_return s (pc + 2); Some (s1, pc + 2) }
      else if word = 0x0006 then Some (fst (p18_pop_return s), pc + 2)
      else if word = 0x0007 then Some (p18_exec_daw s, pc + 2)
      else if word = 0x00FF then
        Some (p18_sync_stack_sfrs (s\<lparr>p18_w := 0, p18_stack := []\<rparr>), 0)
      else if 0x0800 \<le> word \<and> word \<le> 0x0FFF then p18_exec_literal s pc word
      else if 0x0200 \<le> word \<and> word \<le> 0x6FFF then p18_exec_byte s pc word
      else if 0x7000 \<le> word \<and> word \<le> 0xBFFF then p18_exec_bit s pc word
      else if 0xE000 \<le> word \<and> word \<le> 0xE7FF then Some (p18_exec_cond_branch s pc word)
      else if 0xD000 \<le> word \<and> word \<le> 0xDFFF then p18_exec_bra_rcall s pc word
      else if 0xC000 \<le> word \<and> word \<le> 0xCFFF then
        do { w2 \<leftarrow> p18_word_at s (unat pc div 2 + 1); p18_exec_movff s pc word w2 }
      else if 0xEC00 \<le> word \<and> word \<le> 0xEFFF then
        do { w2 \<leftarrow> p18_word_at s (unat pc div 2 + 1); p18_exec_goto_call_lfsr s pc word w2 }
      else if word = 0x0010 \<or> word = 0x0011 then Some (p18_exec_retfie s)
      else if word = 0x0012 \<or> word = 0x0013 then
        let (s1, t) = p18_pop_return s in Some (s1\<lparr>p18_jump_target := Some t\<rparr>, t)
      else if 0x0008 \<le> word \<and> word \<le> 0x000B then Some (p18_exec_tblrd s word, pc + 2)
      else if 0x000C \<le> word \<and> word \<le> 0x000F then Some (p18_exec_tblwt s word, pc + 2)
      else if 0x0100 \<le> word \<and> word \<le> 0x010F then
        Some (p18_poke s 0xFE0 (ucast (word AND 0xF)), pc + 2)
      else None)"

definition p18_add_cycles :: "pic18 \<Rightarrow> nat \<Rightarrow> pic18" where
  "p18_add_cycles s delta =
     p18_tick_timer0 (p18_tick_timer2 (s\<lparr>p18_cycles := p18_cycles s + delta\<rparr>) delta) delta"

definition p18_take_interrupt :: "pic18 \<Rightarrow> pic18" where
  "p18_take_interrupt s =
     (let s1 = (if p18_pending s \<and> p18_pending_source_enabled s then s\<lparr>p18_pending := False\<rparr> else s);
          s2 = (if p18_timer0_pending s1 \<and> p18_ram s1 PIC18_INTCON AND PIC18_TMR0IE \<noteq> 0
                then s1\<lparr>p18_timer0_pending := False\<rparr> else s1)
      in p18_add_cycles (p18_enter_isr s2) 2)"

definition p18_take_low_interrupt :: "pic18 \<Rightarrow> pic18" where
  "p18_take_low_interrupt s =
     p18_add_cycles (p18_enter_isr_low (s\<lparr>p18_pending_lo := False\<rparr>)) 2"

text \<open>The tail of \<open>step\<close>: a taken transfer overrides the linear successor and costs its cycles.\<close>

definition p18_finish :: "pic18 \<Rightarrow> u16 \<Rightarrow> u32 \<Rightarrow> u32 \<Rightarrow> pic18" where
  "p18_finish s word pc next =
     (let jumped = p18_jump_target s;
          s1 = s\<lparr>p18_jump_target := None\<rparr>;
          next1 = (case jumped of Some t \<Rightarrow> t | None \<Rightarrow> next);
          s2 = (p18_add_cycles s1 (cost18 word pc next1 (jumped \<noteq> None)))\<lparr>p18_pc := next1\<rparr>
      in if unat next1 div 2 \<ge> length (p18_prog s2) then s2\<lparr>p18_halted := True\<rparr> else s2)"

definition p18_step :: "pic18 \<Rightarrow> pic18 option" where
  "p18_step s =
     (if p18_interrupt_ready s then Some (p18_take_interrupt s)
      else if p18_interrupt_ready_lo s then Some (p18_take_low_interrupt s)
      else do {
        word \<leftarrow> p18_word_at s (unat (p18_pc s) div 2);
        (s1, next) \<leftarrow> p18_dispatch s (p18_pc s) word;
        Some (p18_finish s1 word (p18_pc s) next)
      })"

definition p18_run :: "nat \<Rightarrow> pic18 \<Rightarrow> (nat \<times> pic18) option" where
  "p18_run = run_loop p18_step p18_halted"

definition p18_run_until :: "u32 \<Rightarrow> nat \<Rightarrow> pic18 \<Rightarrow> (stop_reason \<times> pic18) option" where
  "p18_run_until = run_until_loop p18_step p18_halted p18_pc"

section \<open>The debugger's view\<close>

definition p18_set_w :: "pic18 \<Rightarrow> u8 \<Rightarrow> pic18" where "p18_set_w s v = s\<lparr>p18_w := v\<rparr>"

definition p18_fsr0 :: "pic18 \<Rightarrow> u16" where
  "p18_fsr0 s = push_bit 8 (ucast (p18_ram s 0xFEA)) OR ucast (p18_ram s 0xFE9)"

definition p18_set_pc :: "pic18 \<Rightarrow> u32 \<Rightarrow> pic18" where
  "p18_set_pc s a = s\<lparr>p18_pc := a, p18_halted := (unat a div 2 \<ge> length (p18_prog s))\<rparr>"

definition p18_check_phys_range :: "u16 \<Rightarrow> nat \<Rightarrow> bool" where
  "p18_check_phys_range a len \<longleftrightarrow> unat a + len \<le> 0x1000"

definition p18_read_mem :: "pic18 \<Rightarrow> u16 \<Rightarrow> nat \<Rightarrow> u8 list option" where
  "p18_read_mem s a len =
     (if p18_check_phys_range a len
      then Some (map (\<lambda>i. p18_ram s (unat a + i)) [0..<len]) else None)"

definition p18_write_mem :: "pic18 \<Rightarrow> u16 \<Rightarrow> u8 list \<Rightarrow> pic18 option" where
  "p18_write_mem s a bytes =
     (if p18_check_phys_range a (length bytes) then
        Some (foldl (\<lambda>t (i, b). p18_poke t (unat a + i) b) s (enumerate 0 bytes))
      else None)"

definition p18_read_prog_word :: "pic18 \<Rightarrow> u16 \<Rightarrow> u16 option" where
  "p18_read_prog_word s a = p18_word_at s (unat a)"

end
