(* ===== verification/Sim18Facts.thy ===== *)
theory Sim18Facts
  imports Sim18
begin

text \<open>
  Lemmas of the 16-bit core: the frame every instruction keeps, the flag bits, the run interface
  \<open>sim_core\<close> and the case rule for steps.
\<close>

section \<open>Pokes and flags\<close>

lemma p18_poke_ram [simp]: "p18_ram (p18_poke s a v) = (p18_ram s)(a := v)"
  by (simp add: p18_poke_def)

lemma p18_poke_frame [simp]:
  "p18_prog (p18_poke s a v) = p18_prog s" "p18_w (p18_poke s a v) = p18_w s"
  "p18_pc (p18_poke s a v) = p18_pc s" "p18_stack (p18_poke s a v) = p18_stack s"
  "p18_halted (p18_poke s a v) = p18_halted s" "p18_cycles (p18_poke s a v) = p18_cycles s"
  "p18_pending (p18_poke s a v) = p18_pending s"
  "p18_pending_lo (p18_poke s a v) = p18_pending_lo s"
  "p18_isr_stack (p18_poke s a v) = p18_isr_stack s"
  "p18_jump_target (p18_poke s a v) = p18_jump_target s"
  "p18_eeprom (p18_poke s a v) = p18_eeprom s"
  "p18_timer2_acc (p18_poke s a v) = p18_timer2_acc s"
  "p18_timer2_enabled (p18_poke s a v) = p18_timer2_enabled s"
  "p18_timer0_acc (p18_poke s a v) = p18_timer0_acc s"
  "p18_timer0_enabled (p18_poke s a v) = p18_timer0_enabled s"
  "p18_timer0_pending (p18_poke s a v) = p18_timer0_pending s"
  by (simp_all add: p18_poke_def)

lemmas p18_flag_defs = p18_set_z_def p18_set_c_def p18_set_dc_def p18_set_n_def p18_set_ov_def
  p18_set_zn_def p18_add_flags_def p18_addc_flags_def p18_sub_flags_def

lemma p18_flag_frame [simp]:
  "p18_prog (p18_flag s m c) = p18_prog s" "p18_w (p18_flag s m c) = p18_w s"
  "p18_pc (p18_flag s m c) = p18_pc s" "p18_stack (p18_flag s m c) = p18_stack s"
  "p18_cycles (p18_flag s m c) = p18_cycles s" "p18_halted (p18_flag s m c) = p18_halted s"
  "p18_jump_target (p18_flag s m c) = p18_jump_target s"
  "a \<noteq> STATUS18 \<Longrightarrow> p18_ram (p18_flag s m c) a = p18_ram s a"
  by (simp_all add: p18_flag_def)

lemma p18_get_c_poke [simp]: "a \<noteq> STATUS18 \<Longrightarrow> p18_get_c (p18_poke s a v) = p18_get_c s"
  by (simp add: p18_get_c_def)

lemma p18_get_c_flags [simp]:
  "p18_get_c (p18_set_c s c) = c" "p18_get_c (p18_set_z s v) = p18_get_c s"
  "p18_get_c (p18_set_dc s c) = p18_get_c s" "p18_get_c (p18_set_n s v) = p18_get_c s"
  "p18_get_c (p18_set_ov s c) = p18_get_c s" "p18_get_c (p18_set_zn s v) = p18_get_c s"
  by (simp_all add: p18_get_c_def p18_flag_defs p18_flag_def mask_simps)

section \<open>What every instruction keeps\<close>

definition p18_keeps :: "pic18 \<Rightarrow> pic18 \<Rightarrow> bool" where
  "p18_keeps s t \<longleftrightarrow> p18_prog t = p18_prog s \<and> p18_cycles t = p18_cycles s"

lemma p18_keeps_refl [simp]: "p18_keeps s s"
  by (simp add: p18_keeps_def)

lemma p18_keeps_iff [simp]:
  "p18_keeps s (p18_poke t a v) = p18_keeps s t" "p18_keeps s (p18_flag t m c) = p18_keeps s t"
  "p18_keeps s (t\<lparr>p18_w := x\<rparr>) = p18_keeps s t"
  "p18_keeps s (t\<lparr>p18_pc := y\<rparr>) = p18_keeps s t"
  "p18_keeps s (t\<lparr>p18_stack := z\<rparr>) = p18_keeps s t"
  "p18_keeps s (t\<lparr>p18_halted := h\<rparr>) = p18_keeps s t"
  "p18_keeps s (t\<lparr>p18_jump_target := j\<rparr>) = p18_keeps s t"
  "p18_keeps s (t\<lparr>p18_isr_stack := i\<rparr>) = p18_keeps s t"
  "p18_keeps s (t\<lparr>p18_eeprom := e\<rparr>) = p18_keeps s t"
  "p18_keeps s (t\<lparr>p18_timer0_acc := n\<rparr>) = p18_keeps s t"
  by (simp_all add: p18_keeps_def)

lemma p18_keeps_flags [simp]:
  "p18_keeps s (p18_set_z t v) = p18_keeps s t" "p18_keeps s (p18_set_c t c) = p18_keeps s t"
  "p18_keeps s (p18_set_zn t v) = p18_keeps s t"
  "p18_keeps s (p18_add_flags t x y r) = p18_keeps s t"
  "p18_keeps s (p18_sub_flags t x y r) = p18_keeps s t"
  "p18_keeps s (fst (p18_addc_flags t x y cin)) = p18_keeps s t"
  by (simp_all add: p18_flag_defs Let_def)

lemma p18_keeps_sync [simp]: "p18_keeps s (p18_sync_stack_sfrs t) = p18_keeps s t"
  by (simp add: p18_sync_stack_sfrs_def Let_def)

lemma p18_keeps_pop [simp]: "p18_keeps s (fst (p18_pop_return t)) = p18_keeps s t"
  by (simp add: p18_pop_return_def split: list.splits)

lemma p18_keeps_push: "p18_push_return t a = Some u \<Longrightarrow> p18_keeps s u = p18_keeps s t"
  by (auto simp: p18_push_return_def split: if_splits)

lemma p18_keeps_set_fsr [simp]: "p18_keeps s (p18_set_fsr_at t lo hi v) = p18_keeps s t"
  by (simp add: p18_set_fsr_at_def)

lemma p18_resolve_phys_state:
  "fst (p18_resolve_phys s a) = s \<or> (\<exists>lo hi v. fst (p18_resolve_phys s a) = p18_set_fsr_at s lo hi v)"
  unfolding p18_resolve_phys_def Let_def
  by (simp only: fst_conv split: if_splits option.splits prod.splits) blast

lemma p18_keeps_resolve_phys [simp]: "p18_keeps s (fst (p18_resolve_phys t a)) = p18_keeps s t"
  using p18_resolve_phys_state [of t a] by auto

lemma p18_keeps_resolve [simp]: "p18_keeps s (fst (p18_resolve_f t b f)) = p18_keeps s t"
  by (simp only: p18_resolve_f_def p18_keeps_resolve_phys)

lemma p18_keeps_ee [simp]: "p18_keeps s (fst (p18_ee_store t a v)) = p18_keeps s t"
  by (simp add: p18_ee_store_def Let_def case_prod_unfold)

lemma p18_keeps_write_phys: "p18_write_phys t a v = Some u \<Longrightarrow> p18_keeps s u = p18_keeps s t"
  by (auto simp: p18_write_phys_def Let_def case_prod_unfold split: if_splits list.splits)

lemma p18_keeps_write_d: "p18_write_d_at t d a v = Some u \<Longrightarrow> p18_keeps s u = p18_keeps s t"
  by (auto simp: p18_write_d_at_def dest: p18_keeps_write_phys split: if_splits)

lemma p18_keeps_nodest:
  "p18_byte_nodest t pc word op = Some (Some (u, n)) \<Longrightarrow> p18_keeps s u = p18_keeps s t"
  by (auto simp: p18_byte_nodest_def Let_def dest!: p18_keeps_write_phys
      split: if_splits Option.bind_splits)

lemma p18_keeps_dest:
  "p18_byte_dest t pc word d op v = Some (u, n) \<Longrightarrow> p18_keeps s u = p18_keeps s t"
  by (auto simp: p18_byte_dest_def Let_def case_prod_unfold dest!: p18_keeps_write_d
      split: if_splits Option.bind_splits)

lemma p18_keeps_exec_byte: "p18_exec_byte s pc word = Some (t, n) \<Longrightarrow> p18_keeps s t"
  by (auto simp: p18_exec_byte_def Let_def case_prod_unfold p18_keeps_nodest p18_keeps_dest
      split: option.splits Option.bind_splits)

lemma p18_keeps_exec_bit: "p18_exec_bit s pc word = Some (t, n) \<Longrightarrow> p18_keeps s t"
  by (auto simp: p18_exec_bit_def Let_def case_prod_unfold p18_keeps_write_phys
      split: if_splits Option.bind_splits)

lemma p18_keeps_exec_literal: "p18_exec_literal s pc word = Some (t, n) \<Longrightarrow> p18_keeps s t"
  by (auto simp: p18_exec_literal_def Let_def case_prod_unfold split: if_splits)

lemma p18_keeps_tbl [simp]:
  "p18_keeps s (p18_exec_tblrd t op) = p18_keeps s t"
  "p18_keeps s (p18_exec_tblwt t op) = p18_keeps s t"
  "p18_keeps s (p18_exec_daw t) = p18_keeps s t"
  by (simp_all add: p18_exec_tblrd_def p18_exec_tblwt_def p18_tblptr_inc_def p18_tblptr_dec_def
      p18_set_tblptr_def p18_exec_daw_def Let_def)

lemma p18_keeps_control [simp]:
  "p18_keeps s (fst (p18_exec_cond_branch t pc word)) = p18_keeps s t"
  "p18_keeps s (fst (p18_exec_retfie t)) = p18_keeps s t"
  by (simp_all add: p18_exec_cond_branch_def p18_exec_retfie_def Let_def case_prod_unfold
      split: list.splits bool.splits)

lemma p18_keeps_bra: "p18_exec_bra_rcall s pc word = Some (t, n) \<Longrightarrow> p18_keeps s t"
  by (auto simp: p18_exec_bra_rcall_def Let_def p18_keeps_push split: if_splits Option.bind_splits)

lemma p18_keeps_goto: "p18_exec_goto_call_lfsr s pc word w2 = Some (t, n) \<Longrightarrow> p18_keeps s t"
  by (auto simp: p18_exec_goto_call_lfsr_def Let_def p18_keeps_push split: if_splits Option.bind_splits)

lemma p18_keeps_movff: "p18_exec_movff s pc word w2 = Some (t, n) \<Longrightarrow> p18_keeps s t"
  by (auto simp: p18_exec_movff_def Let_def case_prod_unfold p18_keeps_write_phys
      split: Option.bind_splits)

lemma p18_keeps_pair:
  "p18_exec_cond_branch s pc word = (t, n) \<Longrightarrow> p18_keeps s t"
  "p18_exec_retfie s = (t, n) \<Longrightarrow> p18_keeps s t"
  using p18_keeps_control(1) [of s s pc word] p18_keeps_control(2) [of s s] by simp_all

lemma p18_keeps_dispatch: "p18_dispatch s pc word = Some (t, n) \<Longrightarrow> p18_keeps s t"
  unfolding p18_dispatch_def Let_def case_prod_unfold
  by (elim if_SomeE)
    (auto simp: p18_keeps_push
      dest: p18_keeps_exec_literal p18_keeps_exec_byte p18_keeps_exec_bit p18_keeps_pair
        p18_keeps_bra p18_keeps_goto p18_keeps_movff
      split: Option.bind_split_asm)

section \<open>Time and the step\<close>

lemma p18_timer2_period_pos [simp]: "0 < p18_timer2_period s"
  by (simp add: p18_timer2_period_def Let_def)

lemma p18_timer0_rate_pos [simp]: "0 < p18_timer0_rate r"
  by (simp add: p18_timer0_rate_def)

lemma p18_tick_frame [simp]:
  "p18_prog (p18_timer2_match s) = p18_prog s" "p18_prog (p18_timer0_tick r s) = p18_prog s"
  "p18_w (p18_timer2_match s) = p18_w s" "p18_w (p18_timer0_tick r s) = p18_w s"
  "p18_pc (p18_timer2_match s) = p18_pc s" "p18_pc (p18_timer0_tick r s) = p18_pc s"
  "p18_stack (p18_timer2_match s) = p18_stack s" "p18_stack (p18_timer0_tick r s) = p18_stack s"
  "p18_halted (p18_timer2_match s) = p18_halted s" "p18_halted (p18_timer0_tick r s) = p18_halted s"
  "p18_cycles (p18_timer2_match s) = p18_cycles s" "p18_cycles (p18_timer0_tick r s) = p18_cycles s"
  by (simp_all add: p18_timer2_match_def p18_timer0_tick_def Let_def case_prod_unfold)

lemma p18_tick_ram [simp]:
  "a \<noteq> PIC18_PIR1 \<Longrightarrow> p18_ram (p18_timer2_match s) a = p18_ram s a"
  "a \<notin> {PIC18_TMR0L, PIC18_TMR0H, PIC18_INTCON} \<Longrightarrow> p18_ram (p18_timer0_tick r s) a = p18_ram s a"
  by (simp_all add: p18_timer2_match_def p18_timer0_tick_def Let_def case_prod_unfold)

lemma p18_tick_timers_frame [simp]:
  "p18_prog (p18_tick_timer2 s n) = p18_prog s" "p18_prog (p18_tick_timer0 s n) = p18_prog s"
  "p18_w (p18_tick_timer2 s n) = p18_w s" "p18_w (p18_tick_timer0 s n) = p18_w s"
  "p18_pc (p18_tick_timer2 s n) = p18_pc s" "p18_pc (p18_tick_timer0 s n) = p18_pc s"
  "p18_stack (p18_tick_timer2 s n) = p18_stack s" "p18_stack (p18_tick_timer0 s n) = p18_stack s"
  "p18_halted (p18_tick_timer2 s n) = p18_halted s" "p18_halted (p18_tick_timer0 s n) = p18_halted s"
  "p18_cycles (p18_tick_timer2 s n) = p18_cycles s" "p18_cycles (p18_tick_timer0 s n) = p18_cycles s"
  by (simp_all add: p18_tick_timer2_def p18_tick_timer0_def Let_def case_prod_unfold
      tick_loop_invariant)

lemma p18_tick_timers_ram [simp]:
  "a \<noteq> PIC18_PIR1 \<Longrightarrow> p18_ram (p18_tick_timer2 s n) a = p18_ram s a"
  "a \<notin> {PIC18_TMR0L, PIC18_TMR0H, PIC18_INTCON} \<Longrightarrow> p18_ram (p18_tick_timer0 s n) a = p18_ram s a"
  using tick_loop_invariant [of "\<lambda>t. p18_ram t a" p18_timer2_match]
    tick_loop_invariant [of "\<lambda>t. p18_ram t a" "p18_timer0_tick (p18_ram s PIC18_T0CON)"]
  by (simp_all add: p18_tick_timer2_def p18_tick_timer0_def Let_def case_prod_unfold)

lemma p18_add_cycles_frame [simp]:
  "p18_prog (p18_add_cycles s n) = p18_prog s" "p18_w (p18_add_cycles s n) = p18_w s"
  "p18_pc (p18_add_cycles s n) = p18_pc s" "p18_stack (p18_add_cycles s n) = p18_stack s"
  "p18_halted (p18_add_cycles s n) = p18_halted s"
  "p18_cycles (p18_add_cycles s n) = p18_cycles s + n"
  "a \<notin> {PIC18_PIR1, PIC18_TMR0L, PIC18_TMR0H, PIC18_INTCON} \<Longrightarrow>
     p18_ram (p18_add_cycles s n) a = p18_ram s a"
  by (simp_all add: p18_add_cycles_def)

lemma p18_enter_isr_frame [simp]:
  "p18_prog (p18_enter_isr s) = p18_prog s" "p18_pc (p18_enter_isr s) = 0x08"
  "p18_stack (p18_enter_isr s) = p18_pc s # p18_stack s"
  "p18_halted (p18_enter_isr s) = p18_halted s" "p18_cycles (p18_enter_isr s) = p18_cycles s"
  "p18_prog (p18_enter_isr_low s) = p18_prog s" "p18_pc (p18_enter_isr_low s) = 0x18"
  "p18_stack (p18_enter_isr_low s) = p18_pc s # p18_stack s"
  "p18_halted (p18_enter_isr_low s) = p18_halted s"
  "p18_cycles (p18_enter_isr_low s) = p18_cycles s"
  "a \<noteq> PIC18_INTCON \<Longrightarrow> p18_ram (p18_enter_isr s) a = p18_ram s a"
  "a \<noteq> PIC18_INTCON \<Longrightarrow> p18_ram (p18_enter_isr_low s) a = p18_ram s a"
  by (simp_all add: p18_enter_isr_def p18_enter_isr_low_def)

lemma p18_take_interrupt_frame [simp]:
  "p18_prog (p18_take_interrupt s) = p18_prog s" "p18_pc (p18_take_interrupt s) = 0x08"
  "p18_stack (p18_take_interrupt s) = p18_pc s # p18_stack s"
  "p18_halted (p18_take_interrupt s) = p18_halted s"
  "p18_cycles (p18_take_interrupt s) = p18_cycles s + 2"
  "p18_prog (p18_take_low_interrupt s) = p18_prog s" "p18_pc (p18_take_low_interrupt s) = 0x18"
  "p18_stack (p18_take_low_interrupt s) = p18_pc s # p18_stack s"
  "p18_halted (p18_take_low_interrupt s) = p18_halted s"
  "p18_cycles (p18_take_low_interrupt s) = p18_cycles s + 2"
  by (simp_all add: p18_take_interrupt_def p18_take_low_interrupt_def Let_def)

lemma p18_finish_frame [simp]:
  "p18_prog (p18_finish s word pc next) = p18_prog s"
  "p18_stack (p18_finish s word pc next) = p18_stack s"
  "p18_w (p18_finish s word pc next) = p18_w s"
  "p18_jump_target s = None \<Longrightarrow> p18_pc (p18_finish s word pc next) = next"
  "p18_jump_target s = Some t \<Longrightarrow> p18_pc (p18_finish s word pc next) = t"
  "p18_cycles s < p18_cycles (p18_finish s word pc next)"
  "p18_cycles (p18_finish s word pc next) \<le> p18_cycles s + 3"
  "p18_halted (p18_finish s word pc next) \<longleftrightarrow> p18_halted s \<or>
     length (p18_prog s) \<le> unat (p18_pc (p18_finish s word pc next)) div 2"
  using cost18_bounds [of word pc "case p18_jump_target s of Some t \<Rightarrow> t | None \<Rightarrow> next"
      "p18_jump_target s \<noteq> None"]
  by (auto simp: p18_finish_def Let_def)

lemma p18_step_cases [consumes 1, case_names high low instruction]:
  assumes "p18_step s = Some s'"
  obtains "p18_interrupt_ready s" and "s' = p18_take_interrupt s"
  | "\<not> p18_interrupt_ready s" and "p18_interrupt_ready_lo s" and "s' = p18_take_low_interrupt s"
  | word t n where "\<not> p18_interrupt_ready s" and "\<not> p18_interrupt_ready_lo s"
      and "p18_word_at s (unat (p18_pc s) div 2) = Some word"
      and "p18_dispatch s (p18_pc s) word = Some (t, n)" and "s' = p18_finish t word (p18_pc s) n"
  using assms by (auto simp: p18_step_def split: if_splits Option.bind_splits prod.splits)

text \<open>The program covers both interrupt vectors, and a running core fetches inside it.\<close>

definition p18_inv :: "pic18 \<Rightarrow> bool" where
  "p18_inv s \<longleftrightarrow> 12 < length (p18_prog s) \<and>
     (\<not> p18_halted s \<longrightarrow> unat (p18_pc s) div 2 < length (p18_prog s))"

interpretation p18: sim_core p18_step p18_halted p18_pc p18_prog p18_cycles p18_inv 3
proof unfold_locales
  fix s s' assume "p18_step s = Some s'"
  then show "p18_prog s' = p18_prog s"
    by (cases rule: p18_step_cases) (auto dest: p18_keeps_dispatch simp: p18_keeps_def)
next
  fix s s' assume "p18_step s = Some s'"
  then show "p18_cycles s < p18_cycles s' \<and> p18_cycles s' \<le> p18_cycles s + 3"
  proof (cases rule: p18_step_cases)
    case (instruction word t n)
    then have "p18_cycles t = p18_cycles s" by (auto dest: p18_keeps_dispatch simp: p18_keeps_def)
    then show ?thesis
      using instruction(5) p18_finish_frame(6,7) [of t word "p18_pc s" n] by simp
  qed simp_all
next
  fix s s' assume "p18_inv s" and "p18_step s = Some s'"
  from this(2,1) show "p18_inv s'"
  proof (cases rule: p18_step_cases)
    case (instruction word t n)
    then have "p18_prog t = p18_prog s" by (auto dest: p18_keeps_dispatch simp: p18_keeps_def)
    then show ?thesis using instruction(5) \<open>p18_inv s\<close> by (auto simp: p18_inv_def)
  qed (auto simp: p18_inv_def)
qed

end
