(* ===== verification/Sim18Props.thy ===== *)
theory Sim18Props
  imports Sim18Facts
begin

text \<open>
  What the 16-bit core guarantees: its time bounds, multi-byte arithmetic through the carry, decimal
  adjustment, the stack registers and computed returns, and the table pointer.
\<close>

section \<open>Running\<close>

text \<open>C16: a run of the 16-bit core that does not panic is bounded in time and faithful: it takes at most
  \<open>n\<close> steps of one to three cycles each, leaves the program alone, keeps the fetch inside the
  program, and stops early only on a halted core; two runs in a row are one longer run.\<close>

theorem p18_run_bounds:
  assumes "p18_inv s" and "p18_run n s = Some (k, t)"
  shows "k \<le> n \<and> p18_prog t = p18_prog s \<and> p18_inv t \<and> p18_cycles s + k \<le> p18_cycles t \<and>
    p18_cycles t \<le> p18_cycles s + 3 * k \<and> (k < n \<longrightarrow> p18_halted t) \<and>
    (p18_run m t = Some (j, u) \<longrightarrow> p18_run (n + m) s = Some (k + j, u))"
  using assms p18.run_facts [of n s k t] p18.run_split [of n m s] by (auto simp: p18_run_def)

definition p18_nops :: pic18 where "p18_nops = p18_new (replicate 13 0)"

lemma p18_run_bounds_witness: "\<exists>t. p18_run 1 p18_nops = Some (1, t) \<and> p18_cycles t \<le> 3"
proof -
  have "p18_inv p18_nops" by (simp add: p18_inv_def p18_nops_def p18_new_def)
  moreover obtain t where t: "p18_run 1 p18_nops = Some (1, t)"
    by (simp add: p18_run_def p18_step_def p18_nops_def p18_new_def p18_interrupt_ready_def
        p18_interrupt_ready_lo_def p18_word_at_def p18_dispatch_def pic18_por_def Let_def)
  moreover have "p18_cycles p18_nops = 0" by (simp add: p18_nops_def p18_new_def)
  ultimately show ?thesis using p18_run_bounds [of p18_nops 1 1 t] by auto
qed

section \<open>Multi-byte arithmetic\<close>

text \<open>The value of a little-endian byte string.\<close>

fun le_value :: "u8 list \<Rightarrow> nat" where
  "le_value [] = 0"
| "le_value (x # xs) = unat x + 256 * le_value xs"

lemma le_value_bound: "le_value xs < 256 ^ length xs"
proof (induction xs)
  case (Cons x xs)
  then show ?case using u8_less_256 [of x] by simp
qed simp

lemma le_value_not: "le_value (map (NOT) xs) + le_value xs = 256 ^ length xs - 1"
proof (induction xs)
  case (Cons x xs)
  have "unat (NOT x) + unat x = 255"
    using u8_less_256 [of x] by (simp add: unat_not_u8)
  moreover obtain k :: nat where "256 ^ length xs = Suc k" by (metis not0_implies_Suc power_not_zero zero_neq_numeral)
  ultimately show ?case using Cons.IH by simp
qed simp

text \<open>The adder of ADDWFC, SUBWFB and SUBFWB, applied to each byte from the low end with the carry STATUS holds.\<close>

fun p18_adc_chain :: "pic18 \<Rightarrow> (u8 \<times> u8) list \<Rightarrow> pic18 \<times> u8 list" where
  "p18_adc_chain s [] = (s, [])"
| "p18_adc_chain s ((a, b) # xs) =
     (let (s1, r) = p18_addc_flags s a b (if p18_get_c s then 1 else 0);
          (s2, rs) = p18_adc_chain (p18_set_zn s1 r) xs
      in (s2, r # rs))"

lemma p18_addc_flags_value:
  assumes "p18_addc_flags s a b cin = (t, r)"
  shows "unat r + 256 * (if p18_get_c t then 1 else 0) = unat a + unat b + unat cin \<or> unat cin > 1"
proof (cases "unat cin \<le> 1")
  case True
  have "unat a + unat b + unat cin < 512"
    using True u8_less_256 [of a] u8_less_256 [of b] by simp
  moreover have "p18_get_c t \<longleftrightarrow> unat a + unat b + unat cin > 255"
    using assms by (auto simp: p18_addc_flags_def Let_def)
  moreover have "unat r = (unat a + unat b + unat cin) mod 256"
    using assms by (auto simp: p18_addc_flags_def Let_def unat_word_ariths mod_simps)
  ultimately show ?thesis by (auto simp: mod_if)
qed simp

lemma p18_adc_chain_value:
  "p18_adc_chain s xs = (t, rs) \<Longrightarrow> length rs = length xs \<and>
     le_value rs + 256 ^ length xs * (if p18_get_c t then 1 else 0) =
       le_value (map fst xs) + le_value (map snd xs) + (if p18_get_c s then 1 else 0)"
proof (induction xs arbitrary: s t rs)
  case (Cons x xs)
  obtain a b where x: "x = (a, b)" by (cases x)
  obtain s1 r where a: "p18_addc_flags s a b (if p18_get_c s then 1 else 0) = (s1, r)" by fastforce
  obtain s2 rs' where c: "p18_adc_chain (p18_set_zn s1 r) xs = (s2, rs')" by fastforce
  from Cons.prems x a c have [simp]: "t = s2" "rs = r # rs'" by auto
  have "unat r + 256 * (if p18_get_c s1 then 1 else 0) = unat a + unat b + (if p18_get_c s then 1 else 0)"
    using p18_addc_flags_value [OF a] by (simp split: if_splits)
  moreover note Cons.IH [OF c]
  ultimately show ?case using x by (simp split: if_splits)
qed simp

text \<open>C17: the carry chain of the core is exact multi-byte arithmetic. Starting from C clear, the ADDWFC
  adder applied to the bytes of two numbers gives the bytes of their sum with C the carry out; with C
  set and one operand complemented (SUBWFB) it gives the difference, with C set exactly when nothing
  was borrowed.\<close>

theorem p18_multibyte_arithmetic:
  assumes "length xs = length ys"
  shows "(\<not> p18_get_c s \<and> p18_adc_chain s (zip xs ys) = (t, rs) \<longrightarrow>
      le_value rs = (le_value xs + le_value ys) mod 256 ^ length xs \<and>
      (p18_get_c t \<longleftrightarrow> 256 ^ length xs \<le> le_value xs + le_value ys)) \<and>
    (p18_get_c s \<and> p18_adc_chain s (zip xs (map (NOT) ys)) = (t, rs) \<longrightarrow>
      int (le_value rs) = (int (le_value xs) - int (le_value ys)) mod 256 ^ length xs \<and>
      (p18_get_c t \<longleftrightarrow> le_value ys \<le> le_value xs))"
proof (intro conjI impI)
  let ?M = "256 ^ length xs :: nat"
  assume a: "\<not> p18_get_c s \<and> p18_adc_chain s (zip xs ys) = (t, rs)"
  then have v: "length rs = length xs"
      "le_value rs + ?M * (if p18_get_c t then 1 else 0) = le_value xs + le_value ys"
    using p18_adc_chain_value [of s "zip xs ys" t rs] assms by simp_all
  have b: "le_value rs < ?M" using le_value_bound [of rs] v(1) by simp
  show c: "p18_get_c t \<longleftrightarrow> ?M \<le> le_value xs + le_value ys"
    using v(2) b by (auto split: if_splits)
  show "le_value rs = (le_value xs + le_value ys) mod ?M"
    using v(2) b by (metis mod_less mod_mult_self2)
next
  define M :: nat where "M = 256 ^ length xs"
  define nys where "nys = le_value (map (NOT) ys)"
  assume a: "p18_get_c s \<and> p18_adc_chain s (zip xs (map (NOT) ys)) = (t, rs)"
  then have l: "length rs = length xs"
    and v: "le_value rs + M * (if p18_get_c t then 1 else 0) = le_value xs + nys + 1"
    using p18_adc_chain_value [of s "zip xs (map (NOT) ys)" t rs] assms
    by (simp_all add: M_def nys_def)
  have n: "nys + 1 + le_value ys = M"
    using le_value_not [of ys] assms by (simp add: M_def nys_def)
  have b: "le_value rs < M" using le_value_bound [of rs] l by (simp add: M_def)
  show "p18_get_c t \<longleftrightarrow> le_value ys \<le> le_value xs"
    using v n b by (auto split: if_splits)
  have "int (le_value xs) - int (le_value ys) =
      int (le_value rs) + int M * (if p18_get_c t then 0 else - 1)"
    using v n by (auto split: if_splits)
  then have "(int (le_value xs) - int (le_value ys)) mod int M = int (le_value rs)"
    using b by simp
  then show "int (le_value rs) = (int (le_value xs) - int (le_value ys)) mod 256 ^ length xs"
    by (simp add: M_def)
qed

lemma p18_multibyte_arithmetic_witness:
  "le_value (snd (p18_adc_chain p18_nops (zip [0xFF, 0x01] [0x01, 0x02]))) = 0x400"
  using p18_multibyte_arithmetic [of "[0xFF, 0x01]" "[0x01, 0x02]" p18_nops
      "fst (p18_adc_chain p18_nops (zip [0xFF, 0x01] [0x01, 0x02]))"
      "snd (p18_adc_chain p18_nops (zip [0xFF, 0x01] [0x01, 0x02]))"]
  by (simp add: p18_get_c_def p18_nops_def p18_new_def pic18_por_def)

section \<open>Decimal adjustment\<close>

text \<open>The byte two decimal digits pack into, and the state ADDWF leaves with destination W.\<close>

definition bcd_byte :: "nat \<Rightarrow> nat \<Rightarrow> u8" where
  "bcd_byte hi lo = of_nat (16 * hi + lo)"

definition p18_addwf_w :: "pic18 \<Rightarrow> u8 \<Rightarrow> pic18" where
  "p18_addwf_w s v = (p18_set_zn (p18_add_flags s v (p18_w s) (v + p18_w s)) (v + p18_w s))
                       \<lparr>p18_w := v + p18_w s\<rparr>"

lemma p18_addwf_w_flags:
  "p18_get_c (p18_addwf_w s v) \<longleftrightarrow> unat v + unat (p18_w s) > 255"
  "p18_ram (p18_addwf_w s v) STATUS18 AND 0x02 \<noteq> 0 \<longleftrightarrow>
     unat (v AND 0x0F) + unat (p18_w s AND 0x0F) > 15"
  "p18_w (p18_addwf_w s v) = v + p18_w s"
  by (simp_all add: p18_addwf_w_def p18_get_c_def p18_flag_defs p18_flag_def mask_simps)

lemma p18_exec_daw_value:
  "p18_w (p18_exec_daw s) =
     (let w1 = (if p18_w s AND 0x0F > 9 \<or> p18_ram s STATUS18 AND 0x02 \<noteq> 0 then p18_w s + 6 else p18_w s)
      in if w1 AND 0xF0 > 0x90 \<or> p18_get_c s then w1 + 0x60 else w1)"
  "p18_get_c (p18_exec_daw s) \<longleftrightarrow>
     (let w1 = (if p18_w s AND 0x0F > 9 \<or> p18_ram s STATUS18 AND 0x02 \<noteq> 0 then p18_w s + 6 else p18_w s)
      in w1 AND 0xF0 > 0x90 \<or> p18_get_c s)"
  by (simp_all add: p18_exec_daw_def Let_def) (simp_all add: p18_flag_defs p18_flag_def)

text \<open>The same computation on natural numbers, for a raw sum of high digits \<open>h\<close> and low digits \<open>l\<close>.\<close>

lemma p18_daw_nat:
  assumes "unat v + unat (p18_w s) = 16 * h + l"
    and "unat (v AND 0x0F) + unat (p18_w s AND 0x0F) = l" and "l \<le> 18" and "h \<le> 18"
  shows "unat (p18_w (p18_exec_daw (p18_addwf_w s v))) =
      (let w1 = (16 * h + l + (if 10 \<le> l then 6 else 0)) mod 256
       in if 160 \<le> w1 \<or> 255 < 16 * h + l then (w1 + 96) mod 256 else w1)"
    and "p18_get_c (p18_exec_daw (p18_addwf_w s v)) \<longleftrightarrow>
      160 \<le> (16 * h + l + (if 10 \<le> l then 6 else 0)) mod 256 \<or> 255 < 16 * h + l"
proof -
  let ?t = "p18_addwf_w s v"
  have w: "unat (p18_w ?t) = (16 * h + l) mod 256"
    using assms(1) by (simp add: p18_addwf_w_flags unat_word_ariths)
  have "unat (p18_w ?t AND 0x0F) = l mod 16"
  proof -
    have "unat (p18_w ?t AND 0x0F) = (16 * h + l) mod 256 mod 16" by (simp add: field_nat w)
    also have "\<dots> = (16 * h + l) mod 16" by (rule mod_mod_cancel) simp
    finally show ?thesis by simp
  qed
  then have lo: "p18_w ?t AND 0x0F > 9 \<longleftrightarrow> l mod 16 > 9" by (simp add: word_less_nat_alt)
  have dc: "p18_ram ?t STATUS18 AND 0x02 \<noteq> 0 \<longleftrightarrow> l > 15" using assms(2) by (simp add: p18_addwf_w_flags)
  have c: "p18_get_c ?t \<longleftrightarrow> 255 < 16 * h + l" using assms(1) by (simp add: p18_addwf_w_flags)
  have adj: "l mod 16 > 9 \<or> l > 15 \<longleftrightarrow> 10 \<le> l" using assms(3) by (auto simp: mod_if)
  define w1 where
    "w1 = (if p18_w ?t AND 0x0F > 9 \<or> p18_ram ?t STATUS18 AND 0x02 \<noteq> 0 then p18_w ?t + 6 else p18_w ?t)"
  have u1: "unat w1 = (16 * h + l + (if 10 \<le> l then 6 else 0)) mod 256"
    using w by (simp add: w1_def lo dc adj unat_word_ariths mod_add_left_eq)
  have hi: "w1 AND 0xF0 > 0x90 \<longleftrightarrow> 160 \<le> unat w1"
    by (simp add: word_less_nat_alt u8_high_nibble) linarith
  have eqs: "p18_w (p18_exec_daw ?t) = (if w1 AND 0xF0 > 0x90 \<or> p18_get_c ?t then w1 + 0x60 else w1)"
    "p18_get_c (p18_exec_daw ?t) \<longleftrightarrow> w1 AND 0xF0 > 0x90 \<or> p18_get_c ?t"
    by (simp_all only: p18_exec_daw_value Let_def w1_def)
  show "p18_get_c (p18_exec_daw ?t) \<longleftrightarrow>
      160 \<le> (16 * h + l + (if 10 \<le> l then 6 else 0)) mod 256 \<or> 255 < 16 * h + l"
    by (simp only: eqs hi u1 c)
  show "unat (p18_w (p18_exec_daw ?t)) =
      (let w1 = (16 * h + l + (if 10 \<le> l then 6 else 0)) mod 256
       in if 160 \<le> w1 \<or> 255 < 16 * h + l then (w1 + 96) mod 256 else w1)"
    unfolding Let_def eqs hi c u1 [symmetric] by (simp add: unat_word_ariths)
qed

text \<open>Two packed digits, and what their bytes say of the high and low digits.\<close>

lemma bcd_byte_nibbles:
  assumes "hi \<le> 9" "lo \<le> 9"
  shows "unat (bcd_byte hi lo) = 16 * hi + lo" "unat (bcd_byte hi lo AND 0x0F) = lo"
proof -
  show v: "unat (bcd_byte hi lo) = 16 * hi + lo"
    using assms unfolding bcd_byte_def by (simp only: unat_of_nat) simp
  show "unat (bcd_byte hi lo AND 0x0F) = lo"
    using assms by (simp add: field_nat v)
qed

lemma daw_digits:
  fixes t m :: nat
  assumes "t \<le> 19" "m \<le> 9" and "16 \<le> t \<longleftrightarrow> c"
  shows "(if 160 \<le> (16 * t + m) mod 256 \<or> c then ((16 * t + m) mod 256 + 96) mod 256
      else (16 * t + m) mod 256) = 16 * (t mod 10) + m"
    and "160 \<le> (16 * t + m) mod 256 \<or> c \<longleftrightarrow> 10 \<le> t"
proof -
  consider "t < 10" | "10 \<le> t" "t \<le> 15" | "16 \<le> t" by linarith
  then have r: "(if 160 \<le> (16 * t + m) mod 256 \<or> c then ((16 * t + m) mod 256 + 96) mod 256
      else (16 * t + m) mod 256) = 16 * (t mod 10) + m \<and>
      (160 \<le> (16 * t + m) mod 256 \<or> c \<longleftrightarrow> 10 \<le> t)"
  proof cases
    case 1
    then show ?thesis using assms by simp
  next
    case 2
    then have "t mod 10 = t - 10" by (simp add: mod_if)
    moreover have "(16 * t + m + 96) mod 256 = 16 * t + m + 96 - 256" using 2 assms by (simp add: mod_if)
    ultimately show ?thesis using 2 assms by simp
  next
    case 3
    then have "t mod 10 = t - 10" using assms by (simp add: mod_if)
    moreover have "(16 * t + m) mod 256 = 16 * t + m - 256" using 3 assms by (simp add: mod_if)
    ultimately show ?thesis using 3 assms by simp
  qed
  show "(if 160 \<le> (16 * t + m) mod 256 \<or> c then ((16 * t + m) mod 256 + 96) mod 256
      else (16 * t + m) mod 256) = 16 * (t mod 10) + m" using r by (rule conjunct1)
  show "160 \<le> (16 * t + m) mod 256 \<or> c \<longleftrightarrow> 10 \<le> t" using r by (rule conjunct2)
qed

text \<open>C18: DAW after an ADDWF of two packed-decimal bytes gives the packed-decimal sum with C the decimal
  carry, unless the binary sum lies in 0xFA to 0xFF; there the low-digit correction wraps the byte
  before the high digit is tested, and the carry and the high digit are lost.\<close>

theorem p18_daw_adjusts:
  assumes "a1 \<le> 9" "a0 \<le> 9" "b1 \<le> 9" "b0 \<le> 9" and "p18_w s = bcd_byte b1 b0"
  defines "n \<equiv> 10 * (a1 + b1) + (a0 + b0)" and "raw \<equiv> 16 * (a1 + b1) + (a0 + b0)"
  shows "let t = p18_exec_daw (p18_addwf_w s (bcd_byte a1 a0)) in
    if 250 \<le> raw \<and> raw \<le> 255
    then unat (p18_w t) = raw - 250 \<and> \<not> p18_get_c t
    else unat (p18_w t) = 16 * (n div 10 mod 10) + n mod 10 \<and> (p18_get_c t \<longleftrightarrow> 100 \<le> n)"
proof -
  define h l where "h = a1 + b1" and "l = a0 + b0"
  have hl: "h \<le> 18" "l \<le> 18" using assms(1-4) by (simp_all add: h_def l_def)
  note nib = bcd_byte_nibbles [OF assms(1,2)] bcd_byte_nibbles [OF assms(3,4)]
  have sum: "unat (bcd_byte a1 a0) + unat (p18_w s) = 16 * h + l"
    and low: "unat (bcd_byte a1 a0 AND 0x0F) + unat (p18_w s AND 0x0F) = l"
    using assms(5) nib by (simp_all add: h_def l_def)
  let ?t = "p18_exec_daw (p18_addwf_w s (bcd_byte a1 a0))"
  note v = p18_daw_nat [OF sum low hl(2,1)]
  have raw: "raw = 16 * h + l" and n: "n = 10 * h + l" by (simp_all add: raw_def n_def h_def l_def)
  show ?thesis
  proof (cases "250 \<le> raw \<and> raw \<le> 255")
    case True
    then have "h = 15" using raw hl by presburger
    moreover from this obtain m where "l = 10 + m" "m < 6"
      using True raw that [of "l - 10"] by auto
    ultimately show ?thesis using True v by (simp add: raw Let_def)
  next
    case False
    show ?thesis
    proof (cases "10 \<le> l")
      case True
      then obtain m where m: "l = 10 + m" using le_Suc_ex by blast
      have "16 \<le> Suc h \<longleftrightarrow> 255 < 16 * h + l" using False hl raw m by linarith
      note d = daw_digits [of "Suc h" m, OF _ _ this]
      have ms: "m \<le> 9" "Suc h \<le> 19" using hl m by simp_all
      have e: "16 * h + l + (if 10 \<le> l then 6 else 0) = 16 * Suc h + m" using m by simp
      have "n div 10 = Suc h" "n mod 10 = m" "10 \<le> Suc h \<longleftrightarrow> 100 \<le> n" using n m ms by auto
      with v d [OF ms(2,1)] have "unat (p18_w ?t) = 16 * (n div 10 mod 10) + n mod 10"
        and "p18_get_c ?t \<longleftrightarrow> 100 \<le> n" unfolding Let_def e by simp_all
      then show ?thesis using False by (simp only: Let_def if_False)
    next
      case nl: False
      have "16 \<le> h \<longleftrightarrow> 255 < 16 * h + l" using nl by linarith
      note d = daw_digits [of h l, OF _ _ this]
      have ls: "l \<le> 9" "h \<le> 19" using hl nl by simp_all
      have e: "16 * h + l + (if 10 \<le> l then 6 else 0) = 16 * h + l" using nl by simp
      have "n div 10 = h" "n mod 10 = l" "10 \<le> h \<longleftrightarrow> 100 \<le> n" using n ls by auto
      with v d [OF ls(2,1)] have "unat (p18_w ?t) = 16 * (n div 10 mod 10) + n mod 10"
        and "p18_get_c ?t \<longleftrightarrow> 100 \<le> n" unfolding Let_def e by simp_all
      then show ?thesis using False by (simp only: Let_def if_False)
    qed
  qed
qed

lemma p18_daw_adjusts_witness:
  "unat (p18_w (p18_exec_daw (p18_addwf_w (p18_nops\<lparr>p18_w := 0x66\<rparr>) 0x99))) = 5"
  using p18_daw_adjusts [of 9 9 6 6 "p18_nops\<lparr>p18_w := 0x66\<rparr>"] by (simp add: bcd_byte_def Let_def)

section \<open>The stack registers\<close>

text \<open>STKPTR and TOSU:TOSH:TOSL show the depth and the top of the call stack.\<close>

definition p18_synced :: "pic18 \<Rightarrow> bool" where
  "p18_synced s \<longleftrightarrow>
     (let tos = (case p18_stack s of [] \<Rightarrow> 0 | a # _ \<Rightarrow> a) in
      p18_ram s 0xFFC = of_nat (length (p18_stack s)) \<and> p18_ram s 0xFFD = ucast (tos AND 0xFF) \<and>
      p18_ram s 0xFFE = ucast (drop_bit 8 tos AND 0xFF) \<and>
      p18_ram s 0xFFF = ucast (drop_bit 16 tos AND 0xFF))"

lemma p18_sync_synced: "p18_synced (p18_sync_stack_sfrs s)"
  by (simp add: p18_synced_def p18_sync_stack_sfrs_def Let_def)

lemma p18_stack_sync: "p18_stack (p18_sync_stack_sfrs s) = p18_stack s"
  by (simp add: p18_sync_stack_sfrs_def Let_def)

lemma p18_write_tos:
  assumes "p18_stack s = tos # st" and "i < 3"
  shows "p18_write_phys s (0xFFD + i) v = Some ((p18_poke s (0xFFD + i) v)
     \<lparr>p18_stack := ((tos AND NOT (push_bit (8 * i) 0xFF)) OR push_bit (8 * i) (ucast v)) # st\<rparr>)"
proof -
  from assms(2) consider "i = 0" | "i = 1" | "i = 2" by linarith
  then show ?thesis using assms(1) by cases (simp_all add: p18_write_phys_def Let_def)
qed

text \<open>Storing the three bytes of a 24-bit address replaces the address, whatever it was.\<close>

lemma tos_bytes:
  fixes tos :: u32 and l h u :: u8
  assumes "drop_bit 24 tos = 0"
  shows "((((((tos AND NOT 0xFF) OR ucast l) AND NOT (push_bit 8 0xFF)) OR push_bit 8 (ucast h))
      AND NOT (push_bit 16 0xFF)) OR push_bit 16 (ucast u)) =
    ((push_bit 16 (ucast u) OR push_bit 8 (ucast h)) OR ucast l)"
proof (rule bit_word_eqI)
  fix n assume n: "n < LENGTH(32)"
  have b: "bit x k \<Longrightarrow> k < 8" for x :: u8 and k by (rule bit_u8_less)
  show "bit ((((((tos AND NOT 0xFF) OR ucast l) AND NOT (push_bit 8 0xFF)) OR push_bit 8 (ucast h))
      AND NOT (push_bit 16 0xFF)) OR push_bit 16 (ucast u)) n =
    bit ((push_bit 16 (ucast u) OR push_bit 8 (ucast h)) OR ucast l :: u32) n"
    unfolding u32_ff_mask
    by (cases n rule: u32_byte_cases)
      (use n top_byte_clear [OF assms] in \<open>auto simp: bit_fields dest: b\<close>)
qed

text \<open>C19: the stack registers work as the computed-call idiom needs. With fewer than 31 return addresses on
  the stack, push one whose top byte is 0 (program addresses have at most 24 bits), then overwrite TOSL,
  TOSH and TOSU: the next return goes to exactly those 24 bits, and afterwards the registers show the
  caller's stack again. With 31 or more on the stack, and only then, a push panics.\<close>

theorem p18_computed_return:
  assumes "length (p18_stack s) < 31" and "drop_bit 24 a = 0"
  shows "(\<exists>s1 t. (do { x \<leftarrow> p18_push_return s a; x \<leftarrow> p18_write_phys x 0xFFD l;
       x \<leftarrow> p18_write_phys x 0xFFE h; p18_write_phys x 0xFFF u }) = Some s1 \<and>
     p18_pop_return s1 =
       (t, (push_bit 16 (ucast u) OR push_bit 8 (ucast h)) OR ucast l) \<and>
     p18_stack t = p18_stack s \<and> p18_synced t) \<and>
    (\<forall>x b. p18_push_return x b = None \<longleftrightarrow> 31 \<le> length (p18_stack x))"
proof -
  let ?x = "p18_sync_stack_sfrs (s\<lparr>p18_stack := a # p18_stack s\<rparr>)"
  have st: "p18_stack ?x = a # p18_stack s" by (simp add: p18_sync_stack_sfrs_def Let_def)
  have "(do { x \<leftarrow> p18_push_return s a; x \<leftarrow> p18_write_phys x 0xFFD l;
       x \<leftarrow> p18_write_phys x 0xFFE h; p18_write_phys x 0xFFF u }) =
     (do { x \<leftarrow> p18_write_phys ?x 0xFFD l; x \<leftarrow> p18_write_phys x 0xFFE h; p18_write_phys x 0xFFF u })"
    using assms(1) by (simp add: p18_push_return_def)
  also have "\<dots> = Some ((p18_poke (p18_poke (p18_poke ?x 0xFFD l) 0xFFE h) 0xFFF u)\<lparr>p18_stack :=
      ((push_bit 16 (ucast u) OR push_bit 8 (ucast h)) OR ucast l) # p18_stack s\<rparr>)"
    by (simp add: p18_write_phys_def Let_def st tos_bytes [OF assms(2), symmetric])
  finally have "\<exists>s1 t. (do { x \<leftarrow> p18_push_return s a; x \<leftarrow> p18_write_phys x 0xFFD l;
       x \<leftarrow> p18_write_phys x 0xFFE h; p18_write_phys x 0xFFF u }) = Some s1 \<and>
     p18_pop_return s1 =
       (t, (push_bit 16 (ucast u) OR push_bit 8 (ucast h)) OR ucast l) \<and>
     p18_stack t = p18_stack s \<and> p18_synced t"
    by (simp add: p18_pop_return_def p18_sync_synced p18_stack_sync)
  moreover have "\<forall>x b. p18_push_return x b = None \<longleftrightarrow> 31 \<le> length (p18_stack x)"
    by (simp add: p18_push_return_def)
  ultimately show ?thesis by blast
qed

lemma p18_computed_return_witness:
  "\<exists>s1 t. (do { x \<leftarrow> p18_push_return p18_nops 4; x \<leftarrow> p18_write_phys x 0xFFD 0x34;
       x \<leftarrow> p18_write_phys x 0xFFE 0x12; p18_write_phys x 0xFFF 0 }) = Some s1 \<and>
     p18_pop_return s1 = (t, 0x1234) \<and>
     p18_push_return (p18_nops\<lparr>p18_stack := replicate 31 4\<rparr>) 4 = None"
  using p18_computed_return [of p18_nops 4 "0x34" "0x12" 0] by (auto simp: p18_nops_def p18_new_def)

text \<open>an interrupt breaks the view: entry pushes the return address without refreshing the registers, so
  whenever they were right before the entry, STKPTR is wrong in the handler.\<close>

theorem p18_interrupt_desyncs_stack_view:
  assumes "p18_synced s" and "p18_step s = Some s'"
    and "p18_interrupt_ready s \<or> p18_interrupt_ready_lo s"
  shows "\<not> p18_synced s' \<and> p18_ram s' 0xFFC = of_nat (length (p18_stack s') - 1)"
proof -
  have ne: "(of_nat n :: u8) \<noteq> of_nat (Suc n)" for n by simp
  have "p18_stack s' = p18_pc s # p18_stack s \<and> p18_ram s' 0xFFC = p18_ram s 0xFFC"
    using assms(2)
  proof (cases rule: p18_step_cases)
    case high
    then show ?thesis by (simp add: p18_take_interrupt_def Let_def)
  next
    case low
    then show ?thesis by (simp add: p18_take_low_interrupt_def p18_enter_isr_low_def)
  next
    case (instruction word t n)
    then show ?thesis using assms(3) by blast
  qed
  then show ?thesis using assms(1) ne [of "length (p18_stack s)"] by (simp add: p18_synced_def Let_def)
qed

lemma p18_interrupt_desyncs_stack_view_witness:
  "\<exists>s'. p18_step (p18_request_interrupt (p18_poke p18_nops 0xFF2 0x90)) = Some s' \<and> \<not> p18_synced s'"
proof -
  let ?s = "p18_request_interrupt (p18_poke p18_nops 0xFF2 0x90)"
  have r: "p18_interrupt_ready ?s" "p18_synced ?s"
    by (simp_all add: p18_interrupt_ready_def p18_request_interrupt_def p18_pending_source_enabled_def
        p18_synced_def p18_nops_def p18_new_def pic18_por_def Let_def)
  then obtain s' where "p18_step ?s = Some s'" by (auto simp: p18_step_def)
  with r p18_interrupt_desyncs_stack_view [of ?s s'] show ?thesis by blast
qed

section \<open>The table pointer\<close>

lemma p18_tblptr_set:
  assumes "drop_bit 24 v = 0"
  shows "p18_tblptr (p18_set_tblptr s v) = v"
proof (rule bit_word_eqI)
  fix n assume n: "n < LENGTH(32)"
  show "bit (p18_tblptr (p18_set_tblptr s v)) n = bit v n"
    unfolding p18_tblptr_def p18_set_tblptr_def u32_ff_mask
    by (cases n rule: u32_byte_cases)
      (use n top_byte_clear [OF assms] in \<open>auto simp: bit_fields\<close>)
qed

lemma and_21: "(v :: u32) AND 0x1FFFFF = take_bit 21 v"
  by (simp add: take_bit_eq_mask mask_eq_exp_minus_1)

lemma p18_tblptr_21: "p18_tblptr (p18_set_tblptr s (v AND 0x1FFFFF)) = take_bit 21 v"
proof -
  have "drop_bit 24 (take_bit 21 v) = 0" by (rule bit_word_eqI) (simp add: bit_drop_bit_eq bit_take_bit_iff)
  then show ?thesis by (simp add: and_21 p18_tblptr_set)
qed

text \<open>The bytes \<open>n\<close> table reads with post-increment deliver through TABLAT, and the state after them.\<close>

fun p18_tblrd_walk :: "nat \<Rightarrow> pic18 \<Rightarrow> u8 list \<times> pic18" where
  "p18_tblrd_walk 0 s = ([], s)"
| "p18_tblrd_walk (Suc n) s =
     (let t = p18_exec_tblrd s 0x0009; (bs, u) = p18_tblrd_walk n t in (p18_ram t 0xFF5 # bs, u))"

lemma p18_tblrd_inc:
  "p18_tblptr (p18_exec_tblrd s 0x0009) = take_bit 21 (p18_tblptr s + 1)"
  "p18_ram (p18_exec_tblrd s 0x0009) 0xFF5 = p18_read_flash_byte s (p18_tblptr s)"
  "p18_prog (p18_exec_tblrd s 0x0009) = p18_prog s"
proof -
  let ?u = "p18_poke s 0xFF5 (p18_read_flash_byte s (p18_tblptr s))"
  have e: "p18_exec_tblrd s 0x0009 = p18_tblptr_inc ?u" by (simp add: p18_exec_tblrd_def Let_def)
  have "p18_tblptr ?u = p18_tblptr s" by (simp add: p18_tblptr_def)
  then show "p18_tblptr (p18_exec_tblrd s 0x0009) = take_bit 21 (p18_tblptr s + 1)"
    by (simp add: e p18_tblptr_inc_def p18_tblptr_21)
  show "p18_ram (p18_exec_tblrd s 0x0009) 0xFF5 = p18_read_flash_byte s (p18_tblptr s)"
    "p18_prog (p18_exec_tblrd s 0x0009) = p18_prog s"
    by (simp_all add: e p18_tblptr_inc_def p18_set_tblptr_def)
qed

lemma p18_tblrd_bytes:
  assumes "p18_tblptr s = of_nat p" and "p < 2 ^ 21"
  shows "fst (p18_tblrd_walk n s) =
      map (\<lambda>i. p18_read_flash_byte s (of_nat ((p + i) mod 2 ^ 21))) [0..<n] \<and>
    p18_tblptr (snd (p18_tblrd_walk n s)) = of_nat ((p + n) mod 2 ^ 21)"
  using assms
proof (induction n arbitrary: s p)
  case (Suc n)
  let ?t = "p18_exec_tblrd s 0x0009" and ?q = "(p + 1) mod 2 ^ 21"
  have "take_bit 21 (of_nat (p + 1) :: u32) = of_nat ?q"
    by (simp only: take_bit_of_nat) (simp add: take_bit_eq_mod)
  then have t: "p18_tblptr ?t = of_nat ?q" using Suc.prems by (simp add: p18_tblrd_inc add.commute)
  have fl: "p18_read_flash_byte ?t x = p18_read_flash_byte s x" for x
    by (simp add: p18_read_flash_byte_def p18_word_at_def p18_tblrd_inc)
  have m: "(Suc p mod 2097152 + i) mod 2097152 = Suc (p + i) mod 2097152" for i
    by (metis add_Suc mod_add_left_eq)
  have hd: "p18_ram ?t 0xFF5 = p18_read_flash_byte s (of_nat (p mod 2 ^ 21))"
    using Suc.prems by (simp add: p18_tblrd_inc)
  have "[0..<Suc n] = 0 # map Suc [0..<n]" by (simp only: upt_conv_Cons zero_less_Suc map_Suc_upt)
  then show ?case
    using Suc.IH [OF t] hd by (simp add: Let_def case_prod_unfold fl m del: upt_Suc)
qed simp

text \<open>The flash byte at a byte address: the words of the program, low byte first; 0 past the program.\<close>

lemma p18_flash_byte_at:
  assumes "a < 2 ^ 32"
  shows "p18_read_flash_byte s (of_nat a) =
    (let w = (if a div 2 < length (p18_prog s) then p18_prog s ! (a div 2) else 0)
     in if even a then of_nat (unat w mod 256) else of_nat (unat w div 256))"
proof -
  have u: "unat (of_nat a :: u32) = a" using assms by (simp add: unat_of_nat)
  have lo: "ucast (w AND 0xFF) = (of_nat (unat w mod 256) :: u8)" for w :: u16
    using u16_less_65536 [of w] by (simp add: word_eq_iff_unsigned [where ?'a = nat] field_nat unsigned_ucast_eq
        take_bit_eq_mod unat_of_nat less_mult_imp_div_less)
  have hi: "ucast (drop_bit 8 w) = (of_nat (unat w div 256) :: u8)" for w :: u16
    using u16_less_65536 [of w] by (simp add: word_eq_iff_unsigned [where ?'a = nat] field_nat unsigned_ucast_eq
        take_bit_eq_mod unat_of_nat less_mult_imp_div_less)
  show ?thesis
    by (simp add: p18_read_flash_byte_def p18_word_at_def u lo hi even_iff_mod_2_eq_zero Let_def)
qed

text \<open>C21: a table walk delivers the packed program bytes in address order and never leaves the 21-bit space:
  from a TBLPTR \<open>p\<close> below 2^21, \<open>n\<close> TBLRD*+ instructions put the bytes at addresses \<open>p\<close>, \<open>p + 1\<close>, ...
  (modulo 2^21) through TABLAT, where the byte at an even address \<open>a\<close> is the low byte of program word
  \<open>a div 2\<close>, at an odd address its high byte, and past the program 0; TBLPTR ends advanced by \<open>n\<close>
  modulo 2^21.\<close>

theorem p18_table_walk:
  assumes "p18_tblptr s = of_nat p" and "p < 2 ^ 21"
  shows "fst (p18_tblrd_walk n s) =
      map (\<lambda>i. let a = (p + i) mod 2 ^ 21;
                   w = (if a div 2 < length (p18_prog s) then p18_prog s ! (a div 2) else 0)
               in if even a then of_nat (unat w mod 256) else of_nat (unat w div 256)) [0..<n] \<and>
    p18_tblptr (snd (p18_tblrd_walk n s)) = of_nat ((p + n) mod 2 ^ 21)"
proof -
  have "(p + i) mod 2 ^ 21 < 2 ^ 32" for i using mod_less_divisor [of "2 ^ 21" "p + i"] by simp
  from p18_flash_byte_at [OF this] p18_tblrd_bytes [OF assms] show ?thesis by (simp only: Let_def)
qed

lemma p18_table_walk_witness:
  "fst (p18_tblrd_walk 3 (p18_new [0x2211, 0x4433])) = [0x11, 0x22, 0x33]"
  using p18_table_walk [of "p18_new [0x2211, 0x4433]" 0 3]
  by (simp add: p18_tblptr_def p18_new_def pic18_por_def upt_rec)

end
