(* ===== verification/Sie.thy ===== *)
theory Sie
  imports Sim18
begin

text \<open>
  The USB serial interface engine of \<^verbatim>\<open>crates/sim/src/sie.rs\<close>: a token-driven view over the 16-bit core's
  4096-byte data memory. The memory is a function on addresses, every address formed is below 4096
  because a buffer must lie in USB RAM; \<^const>\<open>None\<close> is the panic of the unmodelled ping-pong modes.
  The properties state the handshake discipline: a token that is not acknowledged moves no data, an
  acknowledged one touches only its buffer, its descriptor and the status registers, and the SIE
  hands the descriptor back.
\<close>

abbreviation (input) UIR :: nat where "UIR \<equiv> 0xF68"
abbreviation (input) UIE :: nat where "UIE \<equiv> 0xF69"
abbreviation (input) USTAT :: nat where "USTAT \<equiv> 0xF6C"
abbreviation (input) UCON :: nat where "UCON \<equiv> 0xF6D"
abbreviation (input) UADDR :: nat where "UADDR \<equiv> 0xF6E"
abbreviation (input) UCFG :: nat where "UCFG \<equiv> 0xF6F"
abbreviation (input) UEP0 :: nat where "UEP0 \<equiv> 0xF70"
abbreviation (input) PIR2 :: nat where "PIR2 \<equiv> 0xFA1"
abbreviation (input) BDT :: nat where "BDT \<equiv> 0x400"

datatype usb_token = Ack "u8 list" bool | Nak | Stall

record bd =
  bd_index :: nat
  bd_stat :: u8
  bd_cnt :: u8
  bd_addr :: nat

type_synonym usb_ram = "nat \<Rightarrow> u8"

definition bd_load :: "usb_ram \<Rightarrow> nat \<Rightarrow> bd" where
  "bd_load ram index =
     (let base = BDT + 4 * index in
      \<lparr>bd_index = index, bd_stat = ram base, bd_cnt = ram (base + 1),
       bd_addr = unat (ram (base + 2)) OR push_bit 8 (unat (ram (base + 3)))\<rparr>)"

definition bd_owned :: "bd \<Rightarrow> bool" where "bd_owned b \<longleftrightarrow> bd_stat b AND 0x80 \<noteq> 0"
definition bd_stalled :: "bd \<Rightarrow> bool" where "bd_stalled b \<longleftrightarrow> bd_stat b AND 0x04 \<noteq> 0"

definition bd_space :: "bd \<Rightarrow> nat" where
  "bd_space b = unat (bd_cnt b) OR push_bit 8 (unat (bd_stat b) AND 0x03)"

definition bd_retire :: "bd \<Rightarrow> usb_ram \<Rightarrow> u8 \<Rightarrow> nat \<Rightarrow> usb_ram" where
  "bd_retire b ram pid len =
     (let base = BDT + 4 * bd_index b in
      ram(base := push_bit 2 (pid AND 0x0F) OR (of_nat (drop_bit 8 len) AND 0x03),
          base + 1 := of_nat len, base + 2 := of_nat (bd_addr b),
          base + 3 := of_nat (drop_bit 8 (bd_addr b))))"

definition ep0_bds :: "usb_ram \<Rightarrow> (nat \<times> nat) option" where
  "ep0_bds ram = (if ram UCFG AND 0x03 = 0 \<or> ram UCFG AND 0x03 = 3 then Some (0, 1) else None)"

definition module_listening :: "usb_ram \<Rightarrow> bool" where
  "module_listening ram \<longleftrightarrow> ram UCON AND 0x08 \<noteq> 0 \<and> ram UCON AND 0x10 = 0"

definition control_enabled :: "usb_ram \<Rightarrow> bool" where
  "control_enabled ram \<longleftrightarrow> module_listening ram \<and>
     (let uep = ram UEP0 in
      uep AND 0x10 \<noteq> 0 \<and> uep AND 0x02 \<noteq> 0 \<and> uep AND 0x04 \<noteq> 0 \<and> uep AND 0x08 = 0)"

definition direction_enabled :: "usb_ram \<Rightarrow> u8 \<Rightarrow> bool" where
  "direction_enabled ram d \<longleftrightarrow> module_listening ram \<and> ram UEP0 AND 0x10 \<noteq> 0 \<and> ram UEP0 AND d \<noteq> 0"

definition in_usb_ram :: "nat \<Rightarrow> nat \<Rightarrow> bool" where
  "in_usb_ram a len \<longleftrightarrow> 0x400 \<le> a \<and> a < 0x800 \<and> 0x400 \<le> a + (len - 1) \<and> a + (len - 1) < 0x800"

definition raise_usbif :: "usb_ram \<Rightarrow> u8 \<Rightarrow> u8 \<Rightarrow> usb_ram" where
  "raise_usbif ram flag enable =
     (if ram UIE AND enable \<noteq> 0 then ram(PIR2 := ram PIR2 OR 0x20) else ram)"

definition sie_complete :: "usb_ram \<Rightarrow> u8 \<Rightarrow> bool \<Rightarrow> usb_ram" where
  "sie_complete ram ep dir_in =
     (let r1 = ram(USTAT := push_bit 3 (ep AND 0x0F) OR (if dir_in then 0x04 else 0));
          r2 = r1(UIR := r1 UIR OR 0x08)
      in raise_usbif r2 0x08 0x08)"

definition sie_stall :: "usb_ram \<Rightarrow> usb_ram \<times> usb_token" where
  "sie_stall ram =
     (let r1 = ram(UEP0 := ram UEP0 OR 0x01);
          r2 = r1(UIR := r1 UIR OR 0x20)
      in (raise_usbif r2 0x20 0x20, Stall))"

text \<open>The loop over the sixteen endpoint control registers.\<close>

definition clear_stalls :: "usb_ram \<Rightarrow> usb_ram" where
  "clear_stalls ram = foldl (\<lambda>r ep. r(UEP0 + ep := r (UEP0 + ep) AND NOT 0x01)) ram [0..<16]"

definition sie_reset :: "usb_ram \<Rightarrow> usb_ram" where
  "sie_reset ram =
     (let r1 = ram(UADDR := 0);
          r2 = r1(UIR := (r1 UIR AND NOT (0x08 OR 0x20)) OR 0x01);
          r3 = r2(UCON := r2 UCON AND NOT 0x10)
      in clear_stalls (raise_usbif r3 0x01 0x01))"

text \<open>\<open>ram[a..a + len].copy_from_slice(data)\<close> and the slice read back.\<close>

definition copy_in :: "usb_ram \<Rightarrow> nat \<Rightarrow> u8 list \<Rightarrow> usb_ram" where
  "copy_in ram a data = (\<lambda>x. if a \<le> x \<and> x < a + length data then data ! (x - a) else ram x)"

definition copy_out :: "usb_ram \<Rightarrow> nat \<Rightarrow> nat \<Rightarrow> u8 list" where
  "copy_out ram a len = map (\<lambda>i. ram (a + i)) [0..<len]"

definition sie_setup :: "usb_ram \<Rightarrow> u8 list \<Rightarrow> (usb_ram \<times> usb_token) option" where
  "sie_setup ram packet =
     (if \<not> control_enabled ram then Some (ram, Nak)
      else do {
        (out_bd, _) \<leftarrow> ep0_bds ram;
        let b = bd_load ram out_bd;
        (if \<not> bd_owned b then Some (ram, Nak)
         else if bd_stalled b then Some (sie_stall ram)
         else if bd_space b < length packet then Some (ram, Nak)
         else if \<not> in_usb_ram (bd_addr b) (length packet) then Some (ram, Nak)
         else
           let r1 = copy_in ram (bd_addr b) packet;
               r2 = sie_complete (bd_retire b r1 0x0D (length packet)) 0 False
           in Some (r2(UCON := r2 UCON OR 0x10), Ack packet False))
      })"

definition sie_in_token :: "usb_ram \<Rightarrow> (usb_ram \<times> usb_token) option" where
  "sie_in_token ram =
     (if \<not> direction_enabled ram 0x02 then Some (ram, Nak)
      else do {
        (_, in_bd) \<leftarrow> ep0_bds ram;
        let b = bd_load ram in_bd;
        (if \<not> bd_owned b then Some (ram, Nak)
         else if bd_stalled b then Some (sie_stall ram)
         else if \<not> in_usb_ram (bd_addr b) (bd_space b) then Some (ram, Nak)
         else Some (sie_complete (bd_retire b ram 0x09 (bd_space b)) 0 True,
                    Ack (copy_out ram (bd_addr b) (bd_space b)) (bd_stat b AND 0x40 \<noteq> 0)))
      })"

definition sie_out_token :: "usb_ram \<Rightarrow> u8 list \<Rightarrow> bool \<Rightarrow> (usb_ram \<times> usb_token) option" where
  "sie_out_token ram data data1 =
     (if \<not> direction_enabled ram 0x04 then Some (ram, Nak)
      else do {
        (out_bd, _) \<leftarrow> ep0_bds ram;
        let b = bd_load ram out_bd;
        (if \<not> bd_owned b then Some (ram, Nak)
         else if bd_stalled b then Some (sie_stall ram)
         else if length data > bd_space b then Some (ram, Nak)
         else if bd_stat b AND 0x08 \<noteq> 0 \<and> data1 \<noteq> (bd_stat b AND 0x40 \<noteq> 0) then Some (ram, Ack [] data1)
         else if \<not> in_usb_ram (bd_addr b) (length data) then Some (ram, Nak)
         else
           let r1 = copy_in ram (bd_addr b) data
           in Some (sie_complete (bd_retire b r1 0x01 (length data)) 0 False, Ack data data1))
      })"

text \<open>The entry points of the core.\<close>

definition p18_usb_reset :: "pic18 \<Rightarrow> pic18" where
  "p18_usb_reset s = s\<lparr>p18_ram := sie_reset (p18_ram s)\<rparr>"

definition p18_usb_setup :: "pic18 \<Rightarrow> u8 list \<Rightarrow> (pic18 \<times> usb_token) option" where
  "p18_usb_setup s packet = do { (r, t) \<leftarrow> sie_setup (p18_ram s) packet; Some (s\<lparr>p18_ram := r\<rparr>, t) }"

definition p18_usb_in :: "pic18 \<Rightarrow> (pic18 \<times> usb_token) option" where
  "p18_usb_in s = do { (r, t) \<leftarrow> sie_in_token (p18_ram s); Some (s\<lparr>p18_ram := r\<rparr>, t) }"

definition p18_usb_out :: "pic18 \<Rightarrow> u8 list \<Rightarrow> bool \<Rightarrow> (pic18 \<times> usb_token) option" where
  "p18_usb_out s data data1 =
     do { (r, t) \<leftarrow> sie_out_token (p18_ram s) data data1; Some (s\<lparr>p18_ram := r\<rparr>, t) }"

section \<open>What the status updates touch\<close>

definition sie_regs :: "nat set" where
  "sie_regs = {UIR, USTAT, UCON, UEP0, PIR2}"

lemma raise_usbif_frame [simp]: "x \<noteq> PIR2 \<Longrightarrow> raise_usbif ram f e x = ram x"
  by (simp add: raise_usbif_def)

lemma sie_complete_frame [simp]: "x \<notin> {USTAT, UIR, PIR2} \<Longrightarrow> sie_complete ram ep d x = ram x"
  by (simp add: sie_complete_def Let_def)

lemma sie_stall_frame [simp]: "x \<notin> {UEP0, UIR, PIR2} \<Longrightarrow> fst (sie_stall ram) x = ram x"
  by (simp add: sie_stall_def Let_def)

lemma bd_retire_frame [simp]:
  "x < BDT + 4 * bd_index b \<or> BDT + 4 * bd_index b + 4 \<le> x \<Longrightarrow> bd_retire b ram pid len x = ram x"
  by (auto simp: bd_retire_def Let_def)

lemma copy_in_frame [simp]: "x < a \<or> a + length data \<le> x \<Longrightarrow> copy_in ram a data x = ram x"
  by (auto simp: copy_in_def)

lemma copy_out_in: "copy_out (copy_in ram a data) a (length data) = data"
  by (rule nth_equalityI) (simp_all add: copy_out_def copy_in_def)

lemma bd_load_index [simp]: "bd_index (bd_load ram i) = i"
  by (simp add: bd_load_def Let_def)

lemma bd_retire_not_owned: "\<not> bd_owned (bd_load (bd_retire b ram pid len) (bd_index b))"
proof -
  have "\<not> bit (push_bit 2 (pid AND 0x0F) OR (of_nat (drop_bit 8 len) AND 0x03) :: u8) 7"
    by (simp add: bit_or_iff bit_and_iff bit_push_bit_iff)
  then show ?thesis by (simp add: bd_owned_def bd_load_def bd_retire_def Let_def mask_simps)
qed

lemma sie_complete_bd [simp]:
  "i \<le> 1 \<Longrightarrow> bd_load (sie_complete ram ep d) i = bd_load ram i"
  by (simp add: bd_load_def Let_def)

section \<open>The three tokens as one request\<close>

datatype usb_request = TSetup "u8 list" | TIn | TOut "u8 list" bool

fun sie_handle :: "usb_ram \<Rightarrow> usb_request \<Rightarrow> (usb_ram \<times> usb_token) option" where
  "sie_handle ram (TSetup p) = sie_setup ram p"
| "sie_handle ram TIn = sie_in_token ram"
| "sie_handle ram (TOut d t) = sie_out_token ram d t"

lemmas sie_token_defs = sie_setup_def sie_in_token_def sie_out_token_def

lemma in_usb_ram_window: "in_usb_ram a len \<Longrightarrow> a \<le> x \<Longrightarrow> x < a + len \<Longrightarrow> 0x400 \<le> x \<and> x < 0x800"
  by (auto simp: in_usb_ram_def)

lemma sie_stall_token [simp]: "snd (sie_stall ram) = Stall"
  by (simp add: sie_stall_def Let_def)

lemma sie_stall_pair: "sie_stall ram = (r, t) \<Longrightarrow> t = Stall \<and> r = fst (sie_stall ram)"
  by (metis fst_conv snd_conv sie_stall_token)

lemma copy_in_window:
  "in_usb_ram a (length data) \<Longrightarrow> x \<notin> {0x400..<0x800} \<Longrightarrow> copy_in ram a data x = ram x"
  using in_usb_ram_window [of a "length data" x] by (auto simp: copy_in_def)

lemma ep0_bds_index: "ep0_bds ram = Some (i, j) \<Longrightarrow> i = 0 \<and> j = 1"
  by (auto simp: ep0_bds_def split: if_splits)

lemma sie_setup_outcome:
  assumes "sie_setup ram p = Some (r, t)"
  shows "t = Nak \<and> r = ram \<or> t = Stall \<and> r = fst (sie_stall ram) \<or>
    t = Ack p False \<and> in_usb_ram (bd_addr (bd_load ram 0)) (length p) \<and> length p \<le> bd_space (bd_load ram 0) \<and>
      r = (let r2 = sie_complete (bd_retire (bd_load ram 0) (copy_in ram (bd_addr (bd_load ram 0)) p) 0x0D
             (length p)) 0 False in r2(UCON := r2 UCON OR 0x10))"
  using assms
  by (auto simp: sie_setup_def Let_def dest!: ep0_bds_index sie_stall_pair
      split: if_splits Option.bind_splits)

lemma sie_in_outcome:
  assumes "sie_in_token ram = Some (r, t)"
  shows "t = Nak \<and> r = ram \<or> t = Stall \<and> r = fst (sie_stall ram) \<or>
    t = Ack (copy_out ram (bd_addr (bd_load ram 1)) (bd_space (bd_load ram 1)))
        (bd_stat (bd_load ram 1) AND 0x40 \<noteq> 0) \<and>
      in_usb_ram (bd_addr (bd_load ram 1)) (bd_space (bd_load ram 1)) \<and>
      r = sie_complete (bd_retire (bd_load ram 1) ram 0x09 (bd_space (bd_load ram 1))) 0 True"
  using assms
  by (auto simp: sie_in_token_def Let_def dest!: ep0_bds_index sie_stall_pair
      split: if_splits Option.bind_splits)

lemma sie_out_outcome:
  assumes "sie_out_token ram d v = Some (r, t)"
  shows "t = Nak \<and> r = ram \<or> t = Stall \<and> r = fst (sie_stall ram) \<or> t = Ack [] v \<and> r = ram \<or>
    t = Ack d v \<and> in_usb_ram (bd_addr (bd_load ram 0)) (length d) \<and> length d \<le> bd_space (bd_load ram 0) \<and>
      r = sie_complete (bd_retire (bd_load ram 0) (copy_in ram (bd_addr (bd_load ram 0)) d) 0x01
             (length d)) 0 False"
  using assms
  by (auto simp: sie_out_token_def Let_def dest!: ep0_bds_index sie_stall_pair
      split: if_splits Option.bind_splits)

text \<open>C22: the SIE touches nothing it should not: a token answered NAK changes no byte, a stalled one only
  the endpoint and flag registers, and an acknowledged one only USB RAM (0x400 to 0x7FF) and the SIE's
  own status registers, so firmware variables in the other banks are never overwritten by the host.\<close>

theorem sie_containment:
  assumes "sie_handle ram req = Some (r, t)"
  shows "(t = Nak \<longrightarrow> r = ram) \<and>
    (t = Stall \<longrightarrow> (\<forall>x. x \<notin> {UEP0, UIR, PIR2} \<longrightarrow> r x = ram x)) \<and>
    (\<forall>x. r x \<noteq> ram x \<longrightarrow> x \<in> {0x400..<0x800} \<union> sie_regs)"
proof -
  have st: "fst (sie_stall ram) x \<noteq> ram x \<Longrightarrow> x \<in> sie_regs" for x
    by (rule ccontr) (simp add: sie_regs_def)
  have cm: "sie_complete (bd_retire (bd_load ram i) m pid len) ep dr x \<noteq> m x \<Longrightarrow> i \<le> 1 \<Longrightarrow>
      x \<in> {0x400..<0x800} \<union> sie_regs" for i m pid len ep dr x
    using sie_complete_frame [of x "bd_retire (bd_load ram i) m pid len" ep dr]
      bd_retire_frame [of x "bd_load ram i" m pid len]
    by (fastforce simp: sie_regs_def)
  have ci: "copy_in ram a d x \<noteq> ram x \<Longrightarrow> in_usb_ram a (length d) \<Longrightarrow> x \<in> {0x400..<0x800}" for a d x
    using copy_in_window by blast
  have tok: "sie_complete (bd_retire (bd_load ram 0) (copy_in ram a d) pid len) ep dr x \<noteq> ram x \<Longrightarrow>
      in_usb_ram a (length d) \<Longrightarrow> x \<in> {0x400..<0x800} \<union> sie_regs" for a d pid len ep dr x
    using cm [of 0 "copy_in ram a d" pid len ep dr x] ci [of a d x] by fastforce
  have un: "UCON \<in> sie_regs" by (simp add: sie_regs_def)
  show ?thesis
  proof (cases req)
    case (TSetup p)
    then show ?thesis
      using sie_setup_outcome [of ram p r t] assms st tok un
      by (auto simp: Let_def split: if_splits) blast+
  next
    case TIn
    then show ?thesis using sie_in_outcome [of ram r t] assms st cm [of 1] by auto blast+
  next
    case (TOut d v)
    then show ?thesis
      using sie_out_outcome [of ram d v r t] assms st tok by auto blast+
  qed
qed

definition usb_demo :: usb_ram where
  "usb_demo = (\<lambda>_. 0)(UCON := 0x08, UEP0 := 0x16, 0x400 := 0x80, 0x401 := 8, 0x403 := 5)"

lemma usb_demo_setup:
  "\<exists>r. sie_setup usb_demo [0x80, 6, 0, 1, 0, 0, 0x40, 0] = Some (r, Ack [0x80, 6, 0, 1, 0, 0, 0x40, 0] False)"
  by (simp add: usb_demo_def sie_setup_def control_enabled_def module_listening_def ep0_bds_def
      bd_load_def bd_owned_def bd_stalled_def bd_space_def in_usb_ram_def Let_def push_bit_eq_mult)

lemma sie_containment_witness:
  "\<exists>r. sie_handle usb_demo (TSetup [0x80, 6, 0, 1, 0, 0, 0x40, 0]) =
         Some (r, Ack [0x80, 6, 0, 1, 0, 0, 0x40, 0] False) \<and> r 0x20 = 0"
proof -
  obtain r where r: "sie_handle usb_demo (TSetup [0x80, 6, 0, 1, 0, 0, 0x40, 0]) =
      Some (r, Ack [0x80, 6, 0, 1, 0, 0, 0x40, 0] False)" using usb_demo_setup by auto
  have "r 0x20 = usb_demo 0x20" using sie_containment [OF r] by (auto simp: sie_regs_def)
  with r show ?thesis by (auto simp: usb_demo_def)
qed

section \<open>Histories of host tokens and firmware writes\<close>

text \<open>
  Between two host tokens the firmware runs and writes its memory. A history is the relation from a
  memory through such events to a later one, with the tokens' answers.
\<close>

datatype usb_event = Token usb_request | FwWrite nat u8

inductive usb_history :: "usb_ram \<Rightarrow> usb_event list \<Rightarrow> usb_token list \<Rightarrow> usb_ram \<Rightarrow> bool" where
  hist_nil: "usb_history ram [] [] ram"
| hist_token: "sie_handle ram req = Some (r, t) \<Longrightarrow> usb_history r es ts r' \<Longrightarrow>
    usb_history ram (Token req # es) (t # ts) r'"
| hist_write: "usb_history (ram(a := v)) es ts r' \<Longrightarrow> usb_history ram (FwWrite a v # es) ts r'"

inductive_cases usb_history_tokenE: "usb_history ram (Token req # es) ts r"
inductive_cases usb_history_writeE: "usb_history ram (FwWrite a v # es) ts r"

lemma sie_deaf:
  assumes "ram UCON AND 0x10 \<noteq> 0"
  shows "sie_handle ram req = Some (ram, Nak)"
  using assms
  by (cases req) (simp_all add: sie_token_defs control_enabled_def direction_enabled_def
      module_listening_def)

lemma usb_history_deaf:
  assumes "usb_history ram es ts r" and "ram UCON AND 0x10 \<noteq> 0"
    and "\<forall>v. FwWrite UCON v \<notin> set es"
  shows "r UCON AND 0x10 \<noteq> 0 \<and> set ts \<subseteq> {Nak}"
  using assms
proof (induction rule: usb_history.induct)
  case (hist_token ram req r t es ts r')
  then have "r = ram" "t = Nak" using sie_deaf [of ram req] by auto
  with hist_token show ?case by auto
next
  case (hist_write ram a v es ts r')
  then have "a \<noteq> UCON" by auto
  with hist_write show ?case by auto
qed simp

text \<open>C23: an acknowledged SETUP silences the endpoint until the firmware answers it: in every history of
  tokens and firmware writes that follows, every token is answered NAK for as long as the firmware has
  not written UCON, where the packet-disable bit it must clear lives.\<close>

theorem sie_setup_silences:
  assumes "sie_setup ram p = Some (r, Ack d v)" and "usb_history r es ts r'"
    and "\<forall>x. FwWrite UCON x \<notin> set es"
  shows "set ts \<subseteq> {Nak} \<and> r' UCON AND 0x10 \<noteq> 0"
proof -
  have "r UCON AND 0x10 \<noteq> 0"
    using sie_setup_outcome [OF assms(1)] by (auto simp: Let_def mask_simps sie_stall_def)
  then show ?thesis using usb_history_deaf [OF assms(2) _ assms(3)] by blast
qed

lemma sie_setup_silences_witness:
  "\<exists>r ts r'. sie_setup usb_demo [0x80, 6, 0, 1, 0, 0, 0x40, 0] =
       Some (r, Ack [0x80, 6, 0, 1, 0, 0, 0x40, 0] False) \<and>
     usb_history r [FwWrite 0x400 0x88, Token TIn] ts r' \<and> set ts \<subseteq> {Nak}"
proof -
  obtain r where r: "sie_setup usb_demo [0x80, 6, 0, 1, 0, 0, 0x40, 0] =
      Some (r, Ack [0x80, 6, 0, 1, 0, 0, 0x40, 0] False)" using usb_demo_setup by blast
  have "r UCON AND 0x10 \<noteq> 0"
    using sie_setup_outcome [OF r] by (auto simp: Let_def mask_simps)
  then have "sie_handle (r(0x400 := 0x88)) TIn = Some (r(0x400 := 0x88), Nak)"
    using sie_deaf [of "r(0x400 := 0x88)" TIn] by simp
  from usb_history.hist_write [OF usb_history.hist_token [OF this usb_history.hist_nil]]
  have h: "usb_history r [FwWrite 0x400 0x88, Token TIn] [Nak] (r(0x400 := 0x88))" .
  with r sie_setup_silences [OF r h] show ?thesis by auto
qed

section \<open>Data delivery\<close>

lemma bd_space_retired:
  assumes "len < 1024"
  shows "bd_space (bd_load (bd_retire b ram pid len) (bd_index b)) = len"
proof -
  have lo: "unat (of_nat len :: u8) = take_bit 8 len" by (simp add: unat_of_nat take_bit_eq_mod)
  have "unat ((push_bit 2 (pid AND 0x0F) OR (of_nat (drop_bit 8 len) AND 0x03)) :: u8) AND 0x03 =
      drop_bit 8 len"
  proof -
    have "(push_bit 2 (pid AND 0x0F) OR (of_nat (drop_bit 8 len) AND 0x03)) AND 0x03 =
        (of_nat (drop_bit 8 len) AND 0x03 :: u8)"
      by (rule byte_eqI) (simp_all add: bit_or_iff bit_and_iff bit_push_bit_iff)
    then have "unat ((push_bit 2 (pid AND 0x0F) OR (of_nat (drop_bit 8 len) AND 0x03)) AND 0x03 :: u8) =
        unat (of_nat (drop_bit 8 len) :: u8) mod 4" by (simp add: field_nat)
    moreover have "drop_bit 8 len < 4" using assms by (simp add: drop_bit_eq_div)
    ultimately have "unat ((push_bit 2 (pid AND 0x0F) OR (of_nat (drop_bit 8 len) AND 0x03)) AND 0x03 :: u8)
        = drop_bit 8 len" by (simp add: unat_of_nat)
    then show ?thesis by (simp only: unsigned_and_eq) simp
  qed
  moreover have "take_bit 8 len OR push_bit 8 (drop_bit 8 len) = len"
  proof (rule bit_eqI)
    fix n show "bit (take_bit 8 len OR push_bit 8 (drop_bit 8 len)) n = bit len n"
    proof (cases "n < 8")
      case False
      then obtain k where "n = 8 + k" using le_Suc_ex not_less by blast
      then show ?thesis by (simp add: bit_or_iff bit_take_bit_iff bit_push_bit_iff bit_drop_bit_eq)
    qed (simp add: bit_or_iff bit_take_bit_iff bit_push_bit_iff)
  qed
  ultimately show ?thesis
    using lo by (simp add: bd_space_def bd_load_def bd_retire_def Let_def)
qed

lemma sie_out_ack_mode: "sie_out_token ram d v = Some (r, Ack e v') \<Longrightarrow> ep0_bds ram = Some (0, 1)"
  by (auto simp: sie_out_token_def ep0_bds_def split: if_splits)

text \<open>C24: a non-empty OUT packet the SIE acknowledges and stores is delivered whole: when the armed buffer
  does not overlap the descriptor itself (it starts at 0x404 or later), the buffer then holds exactly
  the packet, the descriptor holds its length and the OUT packet identifier and is back with the
  firmware, and an OUT token that follows before the firmware writes anything is answered NAK and
  changes nothing.\<close>

theorem sie_out_delivers:
  assumes "sie_out_token ram d v = Some (r, Ack d v)" and "d \<noteq> []"
    and "0x404 \<le> bd_addr (bd_load ram 0)"
  shows "copy_out r (bd_addr (bd_load ram 0)) (length d) = d \<and> bd_space (bd_load r 0) = length d \<and>
    r BDT AND 0x7C = push_bit 2 0x01 \<and> \<not> bd_owned (bd_load r 0) \<and>
    (\<forall>d' v'. sie_out_token r d' v' = Some (r, Nak))"
proof -
  let ?b = "bd_load ram 0" and ?c = "copy_in ram (bd_addr (bd_load ram 0)) d"
  have o: "in_usb_ram (bd_addr ?b) (length d)" "length d \<le> bd_space ?b"
    and r: "r = sie_complete (bd_retire ?b ?c 0x01 (length d)) 0 False"
    using sie_out_outcome [OF assms(1)] assms(2) by auto
  have len: "length d < 1024" using o(1) assms(2,3) by (auto simp: in_usb_ram_def)
  have own: "\<not> bd_owned (bd_load r 0)"
    using bd_retire_not_owned [of ?b ?c 1 "length d"] by (simp add: r)
  have sp: "bd_space (bd_load r 0) = length d"
    using bd_space_retired [OF len, of ?b ?c 1] by (simp add: r)
  have same: "r x = ?c x" if "bd_addr ?b \<le> x" "x < bd_addr ?b + length d" for x
    using that in_usb_ram_window [OF o(1) that] assms(3) by (simp add: r)
  have "copy_out r (bd_addr ?b) (length d) = copy_out ?c (bd_addr ?b) (length d)"
    by (simp add: copy_out_def same)
  then have data: "copy_out r (bd_addr ?b) (length d) = d" by (simp add: copy_out_in)
  have "r BDT = push_bit 2 (1 AND 0x0F) OR (of_nat (drop_bit 8 (length d)) AND 0x03)"
    by (simp add: r bd_retire_def Let_def)
  moreover have "(push_bit 2 (1 AND 0x0F) OR (x AND 0x03)) AND 0x7C = push_bit 2 (1 :: u8)" for x
    by (rule byte_eqI) (simp_all add: bit_or_iff bit_and_iff)
  ultimately have pid: "r BDT AND 0x7C = push_bit 2 0x01" by simp
  have "\<not> (bd_addr ?b \<le> UCFG \<and> UCFG < bd_addr ?b + length d)"
    using in_usb_ram_window [OF o(1), of UCFG] by auto
  then have "?c UCFG = ram UCFG" by (auto simp: copy_in_def)
  then have "r UCFG = ram UCFG" by (simp add: r)
  with sie_out_ack_mode [OF assms(1)] have "ep0_bds r = Some (0, 1)" by (simp add: ep0_bds_def)
  then have "sie_out_token r d' v' = Some (r, Nak)" for d' v'
    using own by (simp add: sie_out_token_def)
  with data sp pid own show ?thesis by blast
qed

lemma sie_out_delivers_witness:
  "\<exists>r. sie_out_token usb_demo [7, 8, 9] True = Some (r, Ack [7, 8, 9] True) \<and> copy_out r 0x500 3 = [7, 8, 9]"
proof -
  have a: "bd_addr (bd_load usb_demo 0) = 0x500"
    by (simp add: usb_demo_def bd_load_def Let_def push_bit_eq_mult)
  obtain r where r: "sie_out_token usb_demo [7, 8, 9] True = Some (r, Ack [7, 8, 9] True)"
    by (simp add: usb_demo_def sie_out_token_def direction_enabled_def module_listening_def ep0_bds_def
      bd_load_def bd_owned_def bd_stalled_def bd_space_def in_usb_ram_def Let_def push_bit_eq_mult)
  with sie_out_delivers [OF r] a show ?thesis by (auto simp: numeral_3_eq_3)
qed

end
