(* ===== verification/RustStr.thy ===== *)
theory RustStr
  imports Prelude
begin

text \<open>
  The part of Rust's string library the text passes use, on \<^typ>\<open>string\<close>: trimming, splitting,
  prefixes, number parsing and hexadecimal formatting. Assembly text is ASCII; a character is one
  Unicode scalar below 256. A function that returns an \<open>Option\<close> or \<open>Result\<close> in Rust returns an
  \<^typ>\<open>'a option\<close> here.
\<close>

section \<open>Characters and trimming\<close>

definition is_ws :: "char \<Rightarrow> bool" where
  "is_ws c \<longleftrightarrow> c \<in> {CHR 0x09, CHR 0x0A, CHR 0x0B, CHR 0x0C, CHR 0x0D, CHR '' '', CHR 0x85, CHR 0xA0}"

definition trim_start :: "string \<Rightarrow> string" where "trim_start s = dropWhile is_ws s"

definition trim_end_by :: "(char \<Rightarrow> bool) \<Rightarrow> string \<Rightarrow> string" where
  "trim_end_by P s = rev (dropWhile P (rev s))"

definition trim :: "string \<Rightarrow> string" where "trim s = trim_end_by is_ws (trim_start s)"

definition trim_end_char :: "char \<Rightarrow> string \<Rightarrow> string" where
  "trim_end_char c = trim_end_by (\<lambda>x. x = c)"

text \<open>\<open>to_ascii_uppercase\<close> and \<open>to_ascii_lowercase\<close> of one character.\<close>

definition upper_char :: "char \<Rightarrow> char" where
  "upper_char c = (let n = of_char c :: nat in if 97 \<le> n \<and> n \<le> 122 then char_of (n - 32) else c)"

definition lower_char :: "char \<Rightarrow> char" where
  "lower_char c = (let n = of_char c :: nat in if 65 \<le> n \<and> n \<le> 90 then char_of (n + 32) else c)"

definition to_upper :: "string \<Rightarrow> string" where "to_upper = map upper_char"
definition to_lower :: "string \<Rightarrow> string" where "to_lower = map lower_char"

section \<open>Searching and splitting\<close>

definition strip_prefix :: "string \<Rightarrow> string \<Rightarrow> string option" where
  "strip_prefix p s = (if take (length p) s = p then Some (drop (length p) s) else None)"

definition strip_suffix :: "string \<Rightarrow> string \<Rightarrow> string option" where
  "strip_suffix p s = map_option rev (strip_prefix (rev p) (rev s))"

definition starts_with :: "string \<Rightarrow> string \<Rightarrow> bool" where
  "starts_with p s \<longleftrightarrow> take (length p) s = p"

fun find_sub :: "string \<Rightarrow> string \<Rightarrow> nat option" where
  "find_sub p [] = (if p = [] then Some 0 else None)"
| "find_sub p (x # xs) =
     (if starts_with p (x # xs) then Some 0 else map_option Suc (find_sub p xs))"

definition contains_sub :: "string \<Rightarrow> string \<Rightarrow> bool" where
  "contains_sub p s \<longleftrightarrow> find_sub p s \<noteq> None"

text \<open>\<open>split\<close> keeps empty pieces; \<open>split_whitespace\<close> drops them.\<close>

fun split_by :: "(char \<Rightarrow> bool) \<Rightarrow> string \<Rightarrow> string list" where
  "split_by P [] = [[]]"
| "split_by P (x # xs) =
     (if P x then [] # split_by P xs
      else (case split_by P xs of [] \<Rightarrow> [[x]] | w # ws \<Rightarrow> (x # w) # ws))"

definition split_char :: "char \<Rightarrow> string \<Rightarrow> string list" where
  "split_char c = split_by (\<lambda>x. x = c)"

definition split_ws :: "string \<Rightarrow> string list" where
  "split_ws s = filter (\<lambda>w. w \<noteq> []) (split_by is_ws s)"

text \<open>\<open>splitn(2, p)\<close>: the first piece and, after a separator, the rest. \<open>split_once\<close> is the case with one.\<close>

definition splitn2 :: "(char \<Rightarrow> bool) \<Rightarrow> string \<Rightarrow> string \<times> string option" where
  "splitn2 P s =
     (takeWhile (\<lambda>x. \<not> P x) s,
      case dropWhile (\<lambda>x. \<not> P x) s of [] \<Rightarrow> None | _ # r \<Rightarrow> Some r)"

definition split_once :: "(char \<Rightarrow> bool) \<Rightarrow> string \<Rightarrow> (string \<times> string) option" where
  "split_once P s = (case splitn2 P s of (a, None) \<Rightarrow> None | (a, Some r) \<Rightarrow> Some (a, r))"

fun join_sp :: "string list \<Rightarrow> string" where
  "join_sp [] = []"
| "join_sp [w] = w"
| "join_sp (w # ws) = w @ '' '' @ join_sp ws"

text \<open>\<open>lines()\<close>: a carriage return goes with its line feed, and a final empty piece is no line.\<close>

definition strip_cr :: "string \<Rightarrow> string" where
  "strip_cr s = (case strip_suffix [CHR 0x0D] s of Some t \<Rightarrow> t | None \<Rightarrow> s)"

definition str_lines :: "string \<Rightarrow> string list" where
  "str_lines s =
     (let ps = split_char (CHR 0x0A) s
      in map strip_cr (butlast ps) @ (if last ps = [] then [] else [last ps]))"

section \<open>Numbers\<close>

definition digit_val :: "nat \<Rightarrow> char \<Rightarrow> nat option" where
  "digit_val r c =
     (let n = of_char c :: nat;
          d = (if 48 \<le> n \<and> n \<le> 57 then n - 48
               else if 97 \<le> n \<and> n \<le> 122 then n - 87
               else if 65 \<le> n \<and> n \<le> 90 then n - 55 else 36)
      in if d < r then Some d else None)"

fun digits_val :: "nat \<Rightarrow> nat \<Rightarrow> string \<Rightarrow> nat option" where
  "digits_val r acc [] = Some acc"
| "digits_val r acc (c # cs) =
     (case digit_val r c of None \<Rightarrow> None | Some d \<Rightarrow> digits_val r (acc * r + d) cs)"

text \<open>\<open>usize::from_str_radix\<close>: an optional plus sign, at least one digit, below \<open>2 ^ 64\<close>.\<close>

definition from_str_radix :: "nat \<Rightarrow> string \<Rightarrow> nat option" where
  "from_str_radix r s =
     (let t = (case s of c # cs \<Rightarrow> if c = CHR ''+'' then cs else s | [] \<Rightarrow> [])
      in if t = [] then None
         else (case digits_val r 0 t of
                 Some n \<Rightarrow> if n < 2 ^ 64 then Some n else None
               | None \<Rightarrow> None))"

definition hex_digit :: "nat \<Rightarrow> char" where
  "hex_digit n = char_of (if n < 10 then 48 + n else 55 + n)"

fun hex_digits :: "nat \<Rightarrow> string" where
  "hex_digits n = (if n < 16 then [hex_digit n] else hex_digits (n div 16) @ [hex_digit (n mod 16)])"

declare hex_digits.simps [simp del]

text \<open>The format \<open>{n:0wX}\<close>.\<close>

definition fmt_hex :: "nat \<Rightarrow> nat \<Rightarrow> string" where
  "fmt_hex w n = (let h = hex_digits n in replicate (w - length h) (CHR ''0'') @ h)"

fun dec_digits :: "nat \<Rightarrow> string" where
  "dec_digits n = (if n < 10 then [hex_digit n] else dec_digits (n div 10) @ [hex_digit (n mod 10)])"

declare dec_digits.simps [simp del]

section \<open>Lemmas on splitting and trimming\<close>

lemma split_by_nonempty: "split_by P s \<noteq> []"
  by (cases "(P, s)" rule: split_by.cases) (auto split: list.splits)

lemma split_by_word: "\<forall>x \<in> set w. \<not> P x \<Longrightarrow> split_by P w = [w]"
  by (induction w) auto

lemma split_by_cons:
  assumes "\<forall>x \<in> set w. \<not> P x" and "P x"
  shows "split_by P (w @ x # s) = w # split_by P s"
  using assms by (induction w) auto

lemma split_ws_blank: "is_ws x \<Longrightarrow> split_ws (x # s) = split_ws s"
  by (simp add: split_ws_def)

lemma split_ws_nil: "split_ws [] = []"
  by (simp add: split_ws_def)

lemma split_ws_word: "\<forall>x \<in> set w. \<not> is_ws x \<Longrightarrow> w \<noteq> [] \<Longrightarrow> split_ws w = [w]"
  by (simp add: split_ws_def split_by_word)

lemma split_ws_cons:
  assumes "\<forall>x \<in> set w. \<not> is_ws x" and "w \<noteq> []" and "is_ws x"
  shows "split_ws (w @ x # s) = w # split_ws s"
  using assms by (simp add: split_ws_def split_by_cons)

lemma trim_end_by_keep: "s = [] \<or> \<not> P (last s) \<Longrightarrow> trim_end_by P s = s"
  by (cases s rule: rev_cases) (auto simp: trim_end_by_def)

lemma trim_start_keep: "s = [] \<or> \<not> is_ws (hd s) \<Longrightarrow> trim_start s = s"
  by (cases s) (auto simp: trim_start_def)

lemma trim_keep: "s \<noteq> [] \<Longrightarrow> \<not> is_ws (hd s) \<Longrightarrow> \<not> is_ws (last s) \<Longrightarrow> trim s = s"
  by (simp add: trim_def trim_start_keep trim_end_by_keep)

lemma find_sub_set: "find_sub p s = Some i \<Longrightarrow> set p \<subseteq> set s"
proof (induction s arbitrary: i)
  case (Cons x xs)
  show ?case
  proof (cases "starts_with p (x # xs)")
    case True
    then have "p = take (length p) (x # xs)" by (simp add: starts_with_def)
    then show ?thesis using set_take_subset [of "length p" "x # xs"] by (simp only:)
  next
    case False
    then show ?thesis using Cons by auto
  qed
qed (auto split: if_splits)

lemma find_sub_absent: "c \<in> set p \<Longrightarrow> c \<notin> set s \<Longrightarrow> find_sub p s = None"
  using find_sub_set [of p s] by (cases "find_sub p s") auto

lemma strip_prefix_hd: "p \<noteq> [] \<Longrightarrow> s \<noteq> [] \<Longrightarrow> hd s \<noteq> hd p \<Longrightarrow> strip_prefix p s = None"
  by (cases p; cases s) (auto simp: strip_prefix_def)

lemma strip_suffix_last: "p \<noteq> [] \<Longrightarrow> last p \<notin> set s \<Longrightarrow> strip_suffix p s = None"
proof -
  assume p: "p \<noteq> []" "last p \<notin> set s"
  show ?thesis
  proof (cases "s = []")
    case False
    then have "hd (rev s) \<noteq> hd (rev p)" using p by (metis hd_rev last_in_set)
    then show ?thesis using p False by (simp add: strip_suffix_def strip_prefix_hd)
  qed (use p in \<open>simp add: strip_suffix_def strip_prefix_def\<close>)
qed

lemma is_ws_space: "is_ws (CHR '' '')"
  by (simp add: is_ws_def)

section \<open>Formatting and parsing agree\<close>

lemma of_char_hex_digit [simp]:
  "n < 16 \<Longrightarrow> (of_char (hex_digit n) :: nat) = (if n < 10 then 48 + n else 55 + n)"
  by (simp add: hex_digit_def take_bit_eq_mod)

lemma digit_val_hex [simp]: "n < 16 \<Longrightarrow> digit_val 16 (hex_digit n) = Some n"
  by (auto simp: digit_val_def Let_def)

lemma digit_val_dec [simp]: "n < 10 \<Longrightarrow> digit_val 10 (hex_digit n) = Some n"
  by (simp add: digit_val_def Let_def)

lemma digits_val_append:
  "digits_val r acc (xs @ ys) =
     (case digits_val r acc xs of None \<Rightarrow> None | Some a \<Rightarrow> digits_val r a ys)"
  by (induction xs arbitrary: acc) (auto split: option.splits)

lemma digits_val_zeros: "digits_val r 0 (replicate k (CHR ''0'') @ xs) = digits_val r 0 xs" if "0 < r"
  using that by (induction k) (simp_all add: digit_val_def)

lemma digits_val_hex: "digits_val 16 0 (hex_digits n) = Some n"
proof (induction n rule: hex_digits.induct)
  case (1 n)
  then show ?case
    by (cases "n < 16") (simp_all add: hex_digits.simps [of n] digits_val_append)
qed

lemma digits_val_decimal: "digits_val 10 0 (dec_digits n) = Some n"
proof (induction n rule: dec_digits.induct)
  case (1 n)
  then show ?case
    by (cases "n < 10") (simp_all add: dec_digits.simps [of n] digits_val_append)
qed

lemma hex_digits_nonempty: "hex_digits n \<noteq> []"
  by (subst hex_digits.simps) simp

lemma hex_digits_chars: "\<forall>c \<in> set (hex_digits n). c \<in> hex_digit ` {0..<16}"
proof (induction n rule: hex_digits.induct)
  case (1 n)
  then show ?case by (cases "n < 16") (auto simp: hex_digits.simps [of n])
qed

lemma hex_digit_table:
  shows
    "hex_digit 0 = CHR ''0''"     "hex_digit (Suc 0) = CHR ''1''"     "hex_digit 2 = CHR ''2''"
    "hex_digit 3 = CHR ''3''"     "hex_digit 4 = CHR ''4''"     "hex_digit 5 = CHR ''5''"
    "hex_digit 6 = CHR ''6''"     "hex_digit 7 = CHR ''7''"     "hex_digit 8 = CHR ''8''"
    "hex_digit 9 = CHR ''9''"     "hex_digit 10 = CHR ''A''"     "hex_digit 11 = CHR ''B''"
    "hex_digit 12 = CHR ''C''"     "hex_digit 13 = CHR ''D''"     "hex_digit 14 = CHR ''E''"
    "hex_digit 15 = CHR ''F''"
  by (simp_all add: hex_digit_def char_of_def bit_iff_odd)

lemma upt_16: "[0..<16] = [0, Suc 0, 2, 3, 4, 5, 6, 7, 8, 9, 10, 11, 12, 13, 14, 15]"
  by (simp add: upt_rec)

lemma hex_digit_image: "hex_digit ` {0..<16} = set ''0123456789ABCDEF''"
  by (simp only: set_upt [symmetric] upt_16) (simp add: hex_digit_table)

lemma fmt_hex_chars: "set (fmt_hex w n) \<subseteq> set ''0123456789ABCDEF''"
proof -
  have "set (hex_digits n) \<subseteq> set ''0123456789ABCDEF''"
    using hex_digits_chars [of n] unfolding hex_digit_image by blast
  moreover have "set (replicate k (CHR ''0'')) \<subseteq> set ''0123456789ABCDEF''" for k
    by (induction k) auto
  ultimately show ?thesis by (simp only: fmt_hex_def Let_def set_append Un_subset_iff)
qed

lemma fmt_hex_not_ws: "c \<in> set (fmt_hex w n) \<Longrightarrow> \<not> is_ws c"
proof -
  assume "c \<in> set (fmt_hex w n)"
  then have "c \<in> set ''0123456789ABCDEF''" using fmt_hex_chars by blast
  then show "\<not> is_ws c" by (simp add: is_ws_def) (elim disjE; simp)
qed

lemma parse_fmt_hex:
  assumes "n < 2 ^ 64"
  shows "from_str_radix 16 (fmt_hex w n) = Some n"
proof -
  have ne: "fmt_hex w n \<noteq> []" using hex_digits_nonempty by (simp add: fmt_hex_def Let_def)
  have "hd (fmt_hex w n) \<in> set (fmt_hex w n)" using ne by simp
  then have "hd (fmt_hex w n) \<in> set ''0123456789ABCDEF''" using fmt_hex_chars by blast
  then have "hd (fmt_hex w n) \<noteq> CHR ''+''" by (simp, elim disjE; simp)
  moreover have "digits_val 16 0 (fmt_hex w n) = Some n"
    by (simp add: fmt_hex_def Let_def digits_val_zeros digits_val_hex)
  ultimately show ?thesis using ne assms by (cases "fmt_hex w n") (auto simp: from_str_radix_def)
qed

text \<open>The definitions a concrete string is evaluated with.\<close>

lemmas str_eval = trim_def trim_start_def trim_end_by_def trim_end_char_def is_ws_def strip_prefix_def
  strip_suffix_def starts_with_def split_char_def split_ws_def str_lines_def strip_cr_def
  from_str_radix_def digit_val_def upper_char_def to_upper_def lower_char_def to_lower_def

end
