(* ===== verification/Hex.thy ===== *)
theory Hex
  imports RustStr
begin

text \<open>
  Intel HEX: the writers of \<^verbatim>\<open>crates/asm/src/lib.rs\<close> (\<open>to_hex\<close>, \<open>to_hex_regions\<close>) and the readers of
  \<^verbatim>\<open>crates/sim/src/lib.rs\<close> (\<open>parse_hex\<close> for the 14-bit cores, \<open>parse_hex_pic18\<close> and
  \<open>parse_hex_pic14e\<close>). A record is text; its bytes are \<open>u8\<close>. A reader that panics returns \<^const>\<open>None\<close>.
\<close>

section \<open>Writing\<close>

definition hex_byte :: "u8 \<Rightarrow> string" where "hex_byte b = fmt_hex 2 (unat b)"

definition newline :: string where "newline = [CHR 0x0A]"

definition checksum :: "u8 list \<Rightarrow> u8" where
  "checksum rec = of_nat (0x100 - (sum_list (map unat rec) AND 0xFF))"

definition word_bytes :: "u16 \<Rightarrow> u8 list" where
  "word_bytes w = [ucast (w AND 0xFF), ucast (drop_bit 8 w AND 0xFF)]"

definition data_record :: "nat \<Rightarrow> u16 list \<Rightarrow> u8 list" where
  "data_record byte_addr ws =
     [of_nat (2 * length ws), of_nat (drop_bit 8 byte_addr), of_nat (byte_addr AND 0xFF), 0]
       @ concat (map word_bytes ws)"

text \<open>\<open>rposition(|w| w != 0)\<close> plus one: the length without the trailing zero words.\<close>

definition used_words :: "u16 list \<Rightarrow> nat" where
  "used_words ws = length (dropWhile (\<lambda>w. w = 0) (rev ws))"

text \<open>The \<open>while addr < hi\<close> loop of \<open>to_hex\<close>: records of at most eight words.\<close>

function to_hex_from :: "u16 list \<Rightarrow> nat \<Rightarrow> nat \<Rightarrow> string" where
  "to_hex_from ws hi addr =
     (if addr < hi then
        let n = min (hi - addr) 8;
            rec = data_record (addr * 2) (take n (drop addr ws));
            full = rec @ [checksum rec]
        in '':'' @ concat (map hex_byte full) @ newline @ to_hex_from ws hi (addr + n)
      else [])"
  by pat_completeness auto
termination by (relation "measure (\<lambda>(ws, hi, addr). hi - addr)") auto

declare to_hex_from.simps [simp del]

definition to_hex :: "u16 list \<Rightarrow> string" where
  "to_hex ws =
     '':020000040000FA'' @ newline @ to_hex_from ws (used_words ws) 0 @ '':00000001FF'' @ newline"

definition hex_record :: "u8 list \<Rightarrow> string" where
  "hex_record rec =
     '':'' @ concat (map hex_byte rec) @ hex_byte (checksum rec) @ newline"

function region_from :: "nat \<Rightarrow> u16 list \<Rightarrow> nat \<Rightarrow> nat \<Rightarrow> string" where
  "region_from base ws hi addr =
     (if addr < hi then
        let n = min (hi - addr) 8;
            byte_addr = (base AND 0xFFFF) + addr * 2
        in hex_record (data_record byte_addr (take n (drop addr ws)))
             @ region_from base ws hi (addr + n)
      else [])"
  by pat_completeness auto
termination by (relation "measure (\<lambda>(base, ws, hi, addr). hi - addr)") auto

declare region_from.simps [simp del]

fun regions_from :: "nat option \<Rightarrow> (u32 \<times> u16 list) list \<Rightarrow> string" where
  "regions_from current [] = []"
| "regions_from current ((base, ws) # chunks) =
     (let upper = unat (drop_bit 16 base);
          head = (if current = Some upper then []
                  else hex_record [0x02, 0x00, 0x00, 0x04, of_nat (drop_bit 8 upper), of_nat (upper AND 0xFF)])
      in head @ region_from (unat base) ws (used_words ws) 0 @ regions_from (Some upper) chunks)"

definition to_hex_regions :: "(u32 \<times> u16 list) list \<Rightarrow> string" where
  "to_hex_regions chunks = regions_from None chunks @ '':00000001FF'' @ newline"

section \<open>Reading\<close>

definition hex_nibble :: "char \<Rightarrow> u8 option" where
  "hex_nibble c = map_option of_nat (digit_val 16 c)"

fun hex_decode :: "string \<Rightarrow> u8 list option" where
  "hex_decode (a # b # cs) =
     do { x \<leftarrow> hex_nibble a; y \<leftarrow> hex_nibble b; r \<leftarrow> hex_decode cs; Some ((push_bit 4 x OR y) # r) }"
| "hex_decode _ = Some []"

text \<open>The lines of the file, trimmed, without the blank ones.\<close>

definition hex_lines :: "string \<Rightarrow> string list" where
  "hex_lines data = filter (\<lambda>l. l \<noteq> []) (map trim (str_lines data))"

definition rec_addr :: "u8 list \<Rightarrow> nat" where
  "rec_addr bytes = push_bit 8 (unat (bytes ! 1)) OR unat (bytes ! 2)"

text \<open>The first loop: the highest word any data record reaches.\<close>

fun max_word_from :: "string list \<Rightarrow> nat \<Rightarrow> nat option" where
  "max_word_from [] m = Some m"
| "max_word_from (l # ls) m =
     do { bytes \<leftarrow> hex_decode (tl l);
          (if length bytes < 4 then None
           else max_word_from ls
             (if bytes ! 3 = 0x00 then max m (rec_addr bytes div 2 + unat (bytes ! 0) div 2) else m)) }"

text \<open>The words of one record: \<open>chunks(2)\<close>, where an odd byte at the end panics.\<close>

fun store_chunks :: "nat \<Rightarrow> u8 list \<Rightarrow> u16 list \<Rightarrow> u16 list option" where
  "store_chunks k (a # b # bs) ws =
     (if k < length ws then store_chunks (k + 1) bs (ws[k := ucast a OR push_bit 8 (ucast b)]) else None)"
| "store_chunks k [] ws = Some ws"
| "store_chunks k [a] ws = None"

text \<open>A line of the second loop: the record's bytes and its data, or the panic.\<close>

definition hex_line :: "string \<Rightarrow> (u8 list \<times> u8 list) option" where
  "hex_line l =
     (if \<not> starts_with '':'' l then None
      else do { bytes \<leftarrow> hex_decode (tl l);
                (if length bytes < 4 \<or> length bytes < 4 + unat (bytes ! 0) then None
                 else Some (bytes, take (unat (bytes ! 0)) (drop 4 bytes))) })"

fun load_from :: "string list \<Rightarrow> u16 list \<Rightarrow> u16 list option" where
  "load_from [] ws = Some ws"
| "load_from (l # ls) ws =
     do { (bytes, data) \<leftarrow> hex_line l;
          (if bytes ! 3 = 0x00 then do { w \<leftarrow> store_chunks (rec_addr bytes div 2) data ws; load_from ls w }
           else if bytes ! 3 = 0x01 then Some ws
           else if bytes ! 3 = 0x04 then load_from ls ws
           else None) }"

definition parse_hex :: "string \<Rightarrow> u16 list option" where
  "parse_hex data =
     (let ls = hex_lines data in
      do { m \<leftarrow> max_word_from ls 8191; load_from ls (replicate (m + 1) 0) })"

text \<open>The extended address of a type 4 record; fewer than two data bytes panic.\<close>

definition upper_of :: "u8 list \<Rightarrow> nat option" where
  "upper_of data =
     (if length data < 2 then None
      else Some (push_bit 16 (push_bit 8 (unat (data ! 0)) OR unat (data ! 1))))"

fun load18_from :: "nat \<Rightarrow> string list \<Rightarrow> u16 list \<Rightarrow> u16 list option" where
  "load18_from upper [] ws = Some ws"
| "load18_from upper (l # ls) ws =
     do { (bytes, data) \<leftarrow> hex_line l;
          (if bytes ! 3 = 0x00 then
             let base = upper + rec_addr bytes
             in if 0x8000 \<le> base then load18_from upper ls ws
                else do { w \<leftarrow> store_chunks (base div 2) data ws; load18_from upper ls w }
           else if bytes ! 3 = 0x01 then Some ws
           else if bytes ! 3 = 0x04 then do { u \<leftarrow> upper_of data; load18_from u ls ws }
           else None) }"

definition parse_hex_pic18 :: "string \<Rightarrow> u16 list option" where
  "parse_hex_pic18 data = load18_from 0 (hex_lines data) (replicate 0x4000 0)"

fun max_word14e_from :: "string list \<Rightarrow> nat \<Rightarrow> nat \<Rightarrow> nat option" where
  "max_word14e_from [] upper m = Some m"
| "max_word14e_from (l # ls) upper m =
     do { bytes \<leftarrow> hex_decode (tl l);
          (if length bytes < 4 then None
           else if bytes ! 3 = 0x04 then do { u \<leftarrow> upper_of (drop 4 bytes); max_word14e_from ls u m }
           else max_word14e_from ls upper
             (if bytes ! 3 = 0x00 \<and> upper = 0
              then max m (rec_addr bytes div 2 + unat (bytes ! 0) div 2) else m)) }"

fun load14e_from :: "nat \<Rightarrow> string list \<Rightarrow> u16 list \<Rightarrow> u16 list option" where
  "load14e_from upper [] ws = Some ws"
| "load14e_from upper (l # ls) ws =
     do { (bytes, data) \<leftarrow> hex_line l;
          (if bytes ! 3 = 0x00 then
             if upper \<noteq> 0 then load14e_from upper ls ws
             else do { w \<leftarrow> store_chunks (rec_addr bytes div 2) data ws; load14e_from upper ls w }
           else if bytes ! 3 = 0x01 then Some ws
           else if bytes ! 3 = 0x04 then do { u \<leftarrow> upper_of data; load14e_from u ls ws }
           else None) }"

definition parse_hex_pic14e :: "string \<Rightarrow> u16 list option" where
  "parse_hex_pic14e data =
     (let ls = hex_lines data in
      do { m \<leftarrow> max_word14e_from ls 0 8191; load14e_from 0 ls (replicate (m + 1) 0) })"

end
