(* ===== verification/HexProps.thy ===== *)
theory HexProps
  imports Hex
begin

text \<open>
  The writers and the readers of Intel HEX agree: a line written is read back as the bytes it was
  written from, a file is the sequence of its records, and loading the records of an image rebuilds it.
\<close>

section \<open>Bytes and lines\<close>

lemma hex_byte_two: "hex_byte b = [hex_digit (unat b div 16), hex_digit (unat b mod 16)]"
proof -
  have b: "unat b < 256" by (rule u8_less_256)
  show ?thesis
  proof (cases "unat b < 16")
    case True
    then show ?thesis by (simp add: hex_byte_def fmt_hex_def hex_digits.simps hex_digit_table)
  next
    case False
    moreover have "unat b div 16 < 16" using b by simp
    ultimately show ?thesis
      by (simp add: hex_byte_def fmt_hex_def hex_digits.simps [of "unat b"]
          hex_digits.simps [of "unat b div 16"])
  qed
qed

lemma hex_nibble_digit: "n < 16 \<Longrightarrow> hex_nibble (hex_digit n) = Some (of_nat n)"
  by (simp add: hex_nibble_def)

lemma high_nibble [simp]: "unat (b :: u8) div 16 < 16"
  using u8_less_256 [of b] by simp

lemma nibbles_byte: "push_bit 4 (of_nat (unat b div 16)) OR of_nat (unat b mod 16) = (b :: u8)"
proof -
  have "unat b div 16 mod 256 = unat b div 16" by (intro mod_less less_trans [OF high_nibble]) simp
  then have "of_nat (unat b div 16) = drop_bit 4 b" "of_nat (unat b mod 16) = take_bit 4 b"
    by (simp_all add: word_eq_iff_unsigned [where ?'a = nat] unat_drop_bit_div unat_take_bit_mod unat_of_nat)
  then show ?thesis by (simp add: join_bits)
qed

lemma hex_decode_bytes: "hex_decode (concat (map hex_byte bs)) = Some bs"
  by (induction bs) (simp_all add: hex_byte_two hex_nibble_digit nibbles_byte)

definition rec_line :: "u8 list \<Rightarrow> string" where
  "rec_line bs = '':'' @ concat (map hex_byte bs)"

lemma decode_rec_line [simp]: "hex_decode (tl (rec_line bs)) = Some bs"
  by (simp add: rec_line_def hex_decode_bytes)

definition file_text :: "string list \<Rightarrow> string" where
  "file_text ls = concat (map (\<lambda>l. l @ newline) ls)"

lemma rec_line_not_ws: "c \<in> set (rec_line bs) \<Longrightarrow> \<not> is_ws c"
  by (auto simp: rec_line_def hex_byte_def is_ws_def [of "CHR '':''"] dest: fmt_hex_not_ws)

lemma str_lines_text:
  assumes "\<And>l c. l \<in> set ls \<Longrightarrow> c \<in> set l \<Longrightarrow> \<not> is_ws c"
  shows "str_lines (file_text ls) = ls"
proof -
  have nl: "is_ws (CHR 0x0A)" "is_ws (CHR 0x0D)" by (simp_all add: is_ws_def)
  have "split_char (CHR 0x0A) (file_text ls) = ls @ [[]]"
    using assms
  proof (induction ls)
    case (Cons l ls)
    have "\<forall>x \<in> set l. x \<noteq> CHR 0x0A" using Cons.prems [of l] nl by auto
    then have "split_char (CHR 0x0A) (l @ CHR 0x0A # file_text ls) = l # split_char (CHR 0x0A) (file_text ls)"
      unfolding split_char_def by (intro split_by_cons) auto
    moreover have "split_char (CHR 0x0A) (file_text ls) = ls @ [[]]"
      using Cons.prems by (intro Cons.IH) auto
    ultimately show ?case by (simp add: file_text_def newline_def)
  qed (simp add: file_text_def split_char_def)
  moreover have "strip_cr l = l" if "l \<in> set ls" for l
  proof (cases l rule: rev_cases)
    case (snoc u c)
    then have "c \<noteq> CHR 0x0D" using assms [OF that, of c] nl by auto
    then show ?thesis using snoc by (simp add: strip_cr_def strip_suffix_def strip_prefix_def)
  qed (simp add: strip_cr_def strip_suffix_def strip_prefix_def)
  ultimately show ?thesis by (simp add: str_lines_def map_idI)
qed

lemma hex_lines_text: "hex_lines (file_text (map rec_line rs)) = map rec_line rs"
proof -
  have ne: "rec_line bs \<noteq> []" for bs by (simp add: rec_line_def)
  have "trim (rec_line bs) = rec_line bs" for bs
    using ne [of bs] by (intro trim_keep rec_line_not_ws [of _ bs]) simp_all
  moreover have "str_lines (file_text (map rec_line rs)) = map rec_line rs"
    by (intro str_lines_text) (auto dest: rec_line_not_ws)
  ultimately show ?thesis using ne by (simp add: hex_lines_def o_def filter_map)
qed

section \<open>The records of an image\<close>

text \<open>The records both writers emit for the words of an image from index \<open>addr\<close> up to \<open>hi\<close>.\<close>

definition with_checksum :: "u8 list \<Rightarrow> u8 list" where
  "with_checksum rec = rec @ [checksum rec]"

function records :: "nat \<Rightarrow> u16 list \<Rightarrow> nat \<Rightarrow> nat \<Rightarrow> u8 list list" where
  "records base ws hi addr =
     (if addr < hi then
        with_checksum (data_record (base + addr * 2) (take (min (hi - addr) 8) (drop addr ws)))
          # records base ws hi (addr + min (hi - addr) 8)
      else [])"
  by pat_completeness auto
termination by (relation "measure (\<lambda>(base, ws, hi, addr). hi - addr)") auto

declare records.simps [simp del]

lemma file_text_cons: "file_text (l # ls) = l @ newline @ file_text ls"
  by (simp add: file_text_def)

lemma file_text_append: "file_text (as @ bs) = file_text as @ file_text bs"
  by (simp add: file_text_def)

lemma hex_record_line: "hex_record rec = rec_line (with_checksum rec) @ newline"
  by (simp add: hex_record_def rec_line_def with_checksum_def)

lemma to_hex_from_records: "to_hex_from ws hi addr = file_text (map rec_line (records 0 ws hi addr))"
proof (induction ws hi addr rule: to_hex_from.induct)
  case (1 ws hi addr)
  then show ?case
    by (cases "addr < hi")
      (simp_all add: to_hex_from.simps [of ws hi addr] records.simps [of 0 ws hi addr] file_text_cons
        rec_line_def with_checksum_def Let_def file_text_def [of "[]"])
qed

lemma region_from_records:
  "region_from base ws hi addr = file_text (map rec_line (records (base AND 0xFFFF) ws hi addr))"
proof (induction base ws hi addr rule: region_from.induct)
  case (1 base ws hi addr)
  then show ?case
    by (cases "addr < hi")
      (simp_all add: region_from.simps [of base ws hi addr] records.simps [of "base AND 0xFFFF" ws hi addr]
        file_text_cons hex_record_line Let_def file_text_def [of "[]"])
qed

definition ela_record :: "nat \<Rightarrow> u8 list" where
  "ela_record upper = with_checksum [0x02, 0x00, 0x00, 0x04, of_nat (drop_bit 8 upper), of_nat (upper AND 0xFF)]"

definition eof_record :: "u8 list" where "eof_record = [0, 0, 0, 1, 0xFF]"

lemma ela_line_0: "rec_line (ela_record 0) = '':020000040000FA''"
  by (simp add: rec_line_def ela_record_def with_checksum_def checksum_def hex_byte_two hex_digit_table)

lemma eof_line: "rec_line eof_record = '':00000001FF''"
  by (simp add: rec_line_def eof_record_def hex_byte_two hex_digit_table)

lemma to_hex_records:
  "to_hex ws = file_text (map rec_line (ela_record 0 # records 0 ws (used_words ws) 0 @ [eof_record]))"
  by (simp add: to_hex_def to_hex_from_records file_text_cons file_text_append ela_line_0 eof_line)
    (simp add: file_text_def)

section \<open>Reading one record\<close>

lemma word_bytes_join: "ucast (a :: u8) OR push_bit 8 (ucast b) = (w :: u16)"
  if "[a, b] = word_bytes w"
proof -
  have "n < 8" if "bit w (8 + n)" for n using bit_imp_le_length [OF that] by simp
  then have "ucast (ucast (drop_bit 8 w AND 0xFF) :: u8) = drop_bit 8 w"
    "ucast (ucast (w AND 0xFF) :: u8) = take_bit 8 w"
    by (auto intro!: bit_word_eqI
        simp: bit_ucast_iff bit_take_bit_iff bit_drop_bit_eq and_low_mask)
  then show ?thesis using that by (simp add: word_bytes_def or.commute [of "take_bit 8 w"] join_bits)
qed

lemma store_chunks_words:
  assumes "k + length ws \<le> length W"
  shows "store_chunks k (concat (map word_bytes ws)) W = Some (take k W @ ws @ drop (k + length ws) W)"
  using assms
proof (induction ws arbitrary: k W)
  case (Cons w ws)
  obtain a b where ab: "word_bytes w = [a, b]" by (simp add: word_bytes_def)
  have "store_chunks k (concat (map word_bytes (w # ws))) W =
      store_chunks (k + 1) (concat (map word_bytes ws)) (W[k := w])"
    using Cons.prems ab word_bytes_join [OF ab [symmetric]] by simp
  also have "\<dots> = Some (take (k + 1) (W[k := w]) @ ws @ drop (k + 1 + length ws) (W[k := w]))"
    using Cons.prems by (intro Cons.IH) simp
  also have "take (k + 1) (W[k := w]) = take k W @ [w]"
    using Cons.prems by (simp add: take_Suc_conv_app_nth)
  finally show ?case by simp
qed simp

lemma word_bytes_length [simp]: "length (concat (map word_bytes ws)) = 2 * length ws"
  by (induction ws) (simp_all add: word_bytes_def)

lemma record_length [simp]: "n \<le> 8 \<Longrightarrow> unat (2 * of_nat n :: u8) = 2 * n"
  by (simp add: unat_word_ariths unat_of_nat)

lemma data_record_header:
  assumes "length ws \<le> 8" and "a < 0x10000"
  shows "length (data_record a ws) = 4 + 2 * length ws"
    and "with_checksum (data_record a ws) ! 3 = 0"
    and "unat (with_checksum (data_record a ws) ! 0) = 2 * length ws"
    and "rec_addr (with_checksum (data_record a ws)) = a"
proof -
  have "drop_bit 8 a < 256" using assms(2) by (simp add: drop_bit_eq_div)
  then have "unat (of_nat (drop_bit 8 a) :: u8) = drop_bit 8 a" by (simp add: unat_of_nat)
  moreover have "unat (of_nat (a AND 0xFF) :: u8) = take_bit 8 a"
    by (simp add: unat_of_nat take_bit_eq_mod nat_and_ff)
  ultimately show "rec_addr (with_checksum (data_record a ws)) = a"
    by (simp add: rec_addr_def with_checksum_def data_record_def join_bits)
qed (use assms in \<open>simp_all add: data_record_def with_checksum_def unat_of_nat\<close>)

lemma hex_line_record:
  assumes "length bs = 4 + unat (bs ! 0)" and "bs \<noteq> []"
  shows "hex_line (rec_line (with_checksum bs)) = Some (with_checksum bs, drop 4 bs)"
proof -
  have "hex_decode (tl (rec_line (with_checksum bs))) = Some (with_checksum bs)"
    by (simp add: rec_line_def hex_decode_bytes)
  moreover have "with_checksum bs ! 0 = bs ! 0" using assms(2) by (simp add: with_checksum_def nth_append)
  ultimately show ?thesis
    using assms by (simp add: hex_line_def with_checksum_def rec_line_def starts_with_def)
qed

lemma hex_line_data:
  assumes "length ws \<le> 8" and "a < 0x10000"
  shows "hex_line (rec_line (with_checksum (data_record a ws))) =
    Some (with_checksum (data_record a ws), concat (map word_bytes ws))"
proof -
  have "unat (data_record a ws ! 0) = 2 * length ws"
    using assms by (simp add: data_record_def unat_of_nat)
  then show ?thesis using hex_line_record [of "data_record a ws"] data_record_header(1) [OF assms]
    by (simp add: data_record_def)
qed

section \<open>Loading the records of an image\<close>

text \<open>What the records from \<open>addr\<close> on write into an image \<open>W\<close>.\<close>

definition patched :: "u16 list \<Rightarrow> nat \<Rightarrow> nat \<Rightarrow> u16 list \<Rightarrow> u16 list" where
  "patched ws hi addr W = take addr W @ take (hi - addr) (drop addr ws) @ drop hi W"

lemma patched_step:
  assumes "addr < hi" and "hi \<le> length ws" and "hi \<le> length W" and "n = min (hi - addr) 8"
  shows "patched ws hi (addr + n) (take addr W @ take n (drop addr ws) @ drop (addr + n) W) =
    patched ws hi addr W"
proof -
  have "take (hi - addr) (drop addr ws) = take n (drop addr ws) @ take (hi - addr - n) (drop (addr + n) ws)"
    using assms(4) by (metis add.commute drop_drop le_add_diff_inverse min.cobounded1 take_add)
  then show ?thesis using assms by (simp add: patched_def)
qed

lemma records_step:
  assumes "addr < hi" and "n = min (hi - addr) 8"
  shows "records base ws hi addr =
    with_checksum (data_record (base + addr * 2) (take n (drop addr ws))) # records base ws hi (addr + n)"
  using assms by (simp add: records.simps [of base ws hi addr])

lemma records_stop: "hi \<le> addr \<Longrightarrow> records base ws hi addr = []"
  by (simp add: records.simps)

abbreviation (input) data_line :: "nat \<Rightarrow> u16 list \<Rightarrow> string" where
  "data_line a ws \<equiv> rec_line (with_checksum (data_record (a * 2) ws))"

lemma records_fold:
  assumes "addr \<le> hi" and "hi \<le> length ws" and "length W = len" and "hi \<le> len"
    and step: "\<And>ws' a ls V. length ws' \<le> 8 \<Longrightarrow> a + length ws' \<le> hi \<Longrightarrow> a < hi \<Longrightarrow> length V = len \<Longrightarrow>
      f (data_line a ws' # ls) V = f ls (take a V @ ws' @ drop (a + length ws') V)"
  shows "f (map rec_line (records 0 ws hi addr) @ ls) W = f ls (patched ws hi addr W)"
  using assms(1,3)
proof (induction "hi - addr" arbitrary: addr W rule: less_induct)
  case less
  show ?case
  proof (cases "addr < hi")
    case True
    define n where "n = min (hi - addr) 8"
    have n: "0 < n" "addr + n \<le> hi" "n \<le> 8" using True by (auto simp: n_def)
    let ?ws = "take n (drop addr ws)" and ?V = "take addr W @ take n (drop addr ws) @ drop (addr + n) W"
    have len: "length ?ws = n" using n assms(2) by simp
    have "f (map rec_line (records 0 ws hi addr) @ ls) W =
        f (data_line addr ?ws # map rec_line (records 0 ws hi (addr + n)) @ ls) W"
      by (simp add: records_step [OF True n_def, of 0 ws])
    also have "\<dots> = f (map rec_line (records 0 ws hi (addr + n)) @ ls) ?V"
      using step [of ?ws addr W] n len less.prems True by simp
    also have "\<dots> = f ls (patched ws hi (addr + n) ?V)"
      using n less.prems assms(2,4) len by (intro less.hyps) auto
    finally show ?thesis
      using patched_step [OF True assms(2) _ n_def, of W] assms(4) less.prems by simp
  next
    case False
    then have "addr = hi" using less.prems by simp
    then show ?thesis by (simp add: records_stop patched_def)
  qed
qed

lemma records_max:
  assumes "addr \<le> hi" and "hi \<le> length ws"
    and step: "\<And>ws' a ls m. length ws' \<le> 8 \<Longrightarrow> a + length ws' \<le> hi \<Longrightarrow> a < hi \<Longrightarrow>
      f (data_line a ws' # ls) m = f ls (max m (a + length ws'))"
  shows "f (map rec_line (records 0 ws hi addr) @ ls) m = f ls (if addr < hi then max m hi else m)"
  using assms(1)
proof (induction "hi - addr" arbitrary: addr m rule: less_induct)
  case less
  show ?case
  proof (cases "addr < hi")
    case True
    define n where "n = min (hi - addr) 8"
    have n: "0 < n" "addr + n \<le> hi" "n \<le> 8" using True by (auto simp: n_def)
    let ?ws = "take n (drop addr ws)"
    have len: "length ?ws = n" using n assms(2) by simp
    have "f (map rec_line (records 0 ws hi addr) @ ls) m =
        f (data_line addr ?ws # map rec_line (records 0 ws hi (addr + n)) @ ls) m"
      by (simp add: records_step [OF True n_def, of 0 ws])
    also have "\<dots> = f (map rec_line (records 0 ws hi (addr + n)) @ ls) (max m (addr + n))"
      using step [of ?ws addr _ m] n len True by simp
    also have "\<dots> = f ls (if addr + n < hi then max (max m (addr + n)) hi else max m (addr + n))"
      using n by (intro less.hyps) auto
    finally show ?thesis using True n by (auto simp: max_def)
  qed (simp add: records_stop)
qed

section \<open>The three readers on one record\<close>

lemma data_line_facts:
  assumes "length ws \<le> 8" and "a + length ws \<le> hi" and "a < hi" and "hi \<le> 0x8000"
  shows "hex_line (data_line a ws) =
      Some (with_checksum (data_record (a * 2) ws), concat (map word_bytes ws))"
    and "hex_decode (tl (data_line a ws)) = Some (with_checksum (data_record (a * 2) ws))"
    and "rec_addr (with_checksum (data_record (a * 2) ws)) = a * 2"
    and "with_checksum (data_record (a * 2) ws) ! 3 = 0"
    and "unat (with_checksum (data_record (a * 2) ws) ! 0) = 2 * length ws"
    and "length (with_checksum (data_record (a * 2) ws)) = 5 + 2 * length ws"
proof -
  have a: "a * 2 < 0x10000" using assms by simp
  note h = data_record_header [OF assms(1) a]
  show "hex_line (data_line a ws) =
      Some (with_checksum (data_record (a * 2) ws), concat (map word_bytes ws))"
    by (rule hex_line_data [OF assms(1) a])
  show "hex_decode (tl (data_line a ws)) = Some (with_checksum (data_record (a * 2) ws))"
    by (simp add: rec_line_def hex_decode_bytes)
  show "length (with_checksum (data_record (a * 2) ws)) = 5 + 2 * length ws"
    using h(1) by (simp add: with_checksum_def)
qed (use data_record_header [OF assms(1), of "a * 2"] assms in simp_all)

lemma load_data:
  assumes "length ws \<le> 8" "a + length ws \<le> hi" "a < hi" "hi \<le> 0x8000" "hi \<le> length V"
  shows "load_from (data_line a ws # ls) V = load_from ls (take a V @ ws @ drop (a + length ws) V)"
    and "load14e_from 0 (data_line a ws # ls) V = load14e_from 0 ls (take a V @ ws @ drop (a + length ws) V)"
    and "hi \<le> 0x4000 \<Longrightarrow>
      load18_from 0 (data_line a ws # ls) V = load18_from 0 ls (take a V @ ws @ drop (a + length ws) V)"
  using data_line_facts [OF assms(1-4)] store_chunks_words [of a ws V] assms by simp_all

lemma max_data:
  assumes "length ws \<le> 8" "a + length ws \<le> hi" "a < hi" "hi \<le> 0x8000"
  shows "max_word_from (data_line a ws # ls) m = max_word_from ls (max m (a + length ws))"
    and "max_word14e_from (data_line a ws # ls) 0 m = max_word14e_from ls 0 (max m (a + length ws))"
  using data_line_facts [OF assms] by simp_all

lemma ela_facts:
  "hex_line (rec_line (ela_record u)) = Some (ela_record u, [of_nat (drop_bit 8 u), of_nat (u AND 0xFF)])"
  "hex_decode (tl (rec_line (ela_record u))) = Some (ela_record u)"
  "length (ela_record u) = 7" "ela_record u ! 3 = 4"
  using hex_line_record [of "[0x02, 0x00, 0x00, 0x04, of_nat (drop_bit 8 u), of_nat (u AND 0xFF)]"]
  by (simp_all add: ela_record_def) (simp_all add: with_checksum_def)

lemma eof_facts:
  "hex_line (rec_line eof_record) = Some (eof_record, [])"
  "hex_decode (tl (rec_line eof_record)) = Some eof_record"
  "length eof_record = 5" "eof_record ! 3 = 1" "eof_record ! 0 = 0"
  using hex_line_record [of "[0, 0, 0, 1]"]
  by (simp_all add: eof_record_def with_checksum_def checksum_def)

lemma used_words_le: "used_words ws \<le> length ws"
  using length_dropWhile_le [of "\<lambda>w. w = 0" "rev ws"] by (simp add: used_words_def)

lemma used_words_zero:
  assumes "used_words ws \<le> i" and "i < length ws"
  shows "ws ! i = 0"
proof -
  let ?t = "takeWhile (\<lambda>w. w = 0) (rev ws)"
  have "length ?t + length (dropWhile (\<lambda>w. w = 0) (rev ws)) = length (rev ws)"
    by (simp only: length_append [symmetric] takeWhile_dropWhile_id)
  then have j: "length ws - 1 - i < length ?t" using assms by (simp add: used_words_def)
  then have "?t ! (length ws - 1 - i) \<in> set ?t" by (rule nth_mem)
  then have "?t ! (length ws - 1 - i) = 0" by (auto dest: set_takeWhileD)
  then show ?thesis using j assms by (simp add: takeWhile_nth rev_nth)
qed

section \<open>The program survives the file\<close>

lemma patched_zeros:
  assumes "hi = used_words ws" and "hi \<le> len" and "length ws \<le> len"
  shows "length (patched ws hi 0 (replicate len 0)) = len"
    and "i < len \<Longrightarrow> patched ws hi 0 (replicate len 0) ! i = (if i < length ws then ws ! i else 0)"
  using assms used_words_le [of ws] used_words_zero [of ws i]
  by (auto simp: patched_def nth_append)

lemma load_file:
  assumes "used_words ws \<le> 0x8000" and "used_words ws \<le> len"
  shows "load_from (map rec_line (records 0 ws (used_words ws) 0 @ [eof_record])) (replicate len 0) =
      Some (patched ws (used_words ws) 0 (replicate len 0))"
    and "load14e_from 0 (map rec_line (records 0 ws (used_words ws) 0) @ ls) (replicate len 0) =
      load14e_from 0 ls (patched ws (used_words ws) 0 (replicate len 0))"
    and "used_words ws \<le> 0x4000 \<Longrightarrow>
      load18_from 0 (map rec_line (records 0 ws (used_words ws) 0) @ ls) (replicate len 0) =
      load18_from 0 ls (patched ws (used_words ws) 0 (replicate len 0))"
proof -
  note fold = records_fold [of 0 "used_words ws" ws "replicate len 0" len, OF _ used_words_le]
  have "load_from (map rec_line (records 0 ws (used_words ws) 0) @ [rec_line eof_record]) (replicate len 0) =
      load_from [rec_line eof_record] (patched ws (used_words ws) 0 (replicate len 0))"
    using assms by (intro fold load_data) simp_all
  then show "load_from (map rec_line (records 0 ws (used_words ws) 0 @ [eof_record])) (replicate len 0) =
      Some (patched ws (used_words ws) 0 (replicate len 0))"
    by (simp add: eof_facts)
  show "load14e_from 0 (map rec_line (records 0 ws (used_words ws) 0) @ ls) (replicate len 0) =
      load14e_from 0 ls (patched ws (used_words ws) 0 (replicate len 0))"
    using assms by (intro fold load_data) simp_all
  show "load18_from 0 (map rec_line (records 0 ws (used_words ws) 0) @ ls) (replicate len 0) =
      load18_from 0 ls (patched ws (used_words ws) 0 (replicate len 0))" if "used_words ws \<le> 0x4000"
    using assms that by (intro fold load_data) simp_all
qed

lemma max_file:
  assumes "used_words ws \<le> 0x8000"
  shows "max_word_from (map rec_line (records 0 ws (used_words ws) 0 @ [eof_record])) 8191 =
      Some (max 8191 (used_words ws))"
    and "max_word14e_from (map rec_line (records 0 ws (used_words ws) 0) @ ls) 0 8191 =
      max_word14e_from ls 0 (max 8191 (used_words ws))"
proof -
  note fold = records_max [of 0 "used_words ws" ws, OF _ used_words_le]
  have m: "(if 0 < used_words ws then max 8191 (used_words ws) else 8191) = max 8191 (used_words ws)"
    by simp
  have "max_word_from (map rec_line (records 0 ws (used_words ws) 0) @ [rec_line eof_record]) 8191 =
      max_word_from [rec_line eof_record] (max 8191 (used_words ws))"
    using assms by (subst fold) (simp_all add: max_data m del: max_word_from.simps)
  then show "max_word_from (map rec_line (records 0 ws (used_words ws) 0 @ [eof_record])) 8191 =
      Some (max 8191 (used_words ws))"
    by (simp add: eof_facts)
  show "max_word14e_from (map rec_line (records 0 ws (used_words ws) 0) @ ls) 0 8191 =
      max_word14e_from ls 0 (max 8191 (used_words ws))"
    using fold [where f = "\<lambda>ls m. max_word14e_from ls 0 m"] assms max_data(2) m by simp
qed

lemma to_hex_lines:
  "hex_lines (to_hex ws) =
     rec_line (ela_record 0) # map rec_line (records 0 ws (used_words ws) 0) @ [rec_line eof_record]"
  using hex_lines_text [of "ela_record 0 # records 0 ws (used_words ws) 0 @ [eof_record]"]
  by (simp add: to_hex_records)

definition loaded :: "nat \<Rightarrow> u16 list \<Rightarrow> u16 list" where
  "loaded len ws = patched ws (used_words ws) 0 (replicate len 0)"

lemma upper_zero [simp]: "upper_of [0, 0] = Some 0"
  by (simp add: upper_of_def)

lemma parse_to_hex:
  assumes "length ws \<le> 0x8000"
  shows "parse_hex (to_hex ws) = Some (loaded (max 8191 (used_words ws) + 1) ws)"
    and "parse_hex_pic14e (to_hex ws) = Some (loaded (max 8191 (used_words ws) + 1) ws)"
    and "length ws \<le> 0x4000 \<Longrightarrow> parse_hex_pic18 (to_hex ws) = Some (loaded 0x4000 ws)"
proof -
  let ?n = "max 8191 (used_words ws) + 1"
  have u: "used_words ws \<le> 0x8000" using used_words_le [of ws] assms by simp
  have drop4: "drop 4 (ela_record 0) = [0, 0, checksum [2, 0, 0, 4, 0, 0]]"
    by (simp add: ela_record_def with_checksum_def)
  show "parse_hex (to_hex ws) = Some (loaded ?n ws)"
    using max_file(1) [OF u] load_file(1) [OF u, of ?n]
    by (simp add: parse_hex_def to_hex_lines ela_facts loaded_def)
  show "parse_hex_pic14e (to_hex ws) = Some (loaded ?n ws)"
    using max_file(2) [OF u, of "[rec_line eof_record]"] load_file(2) [OF u, of ?n "[rec_line eof_record]"]
    by (simp add: parse_hex_pic14e_def to_hex_lines ela_facts eof_facts loaded_def drop4 upper_of_def)
  show "parse_hex_pic18 (to_hex ws) = Some (loaded 0x4000 ws)" if "length ws \<le> 0x4000"
    using load_file(3) [of ws "0x4000" "[rec_line eof_record]"] used_words_le [of ws] that u
    by (simp add: parse_hex_pic18_def to_hex_lines ela_facts eof_facts loaded_def)
qed

text \<open>C25: an image written by \<open>to_hex\<close> is read back exactly. For up to 0x8000 words both word-addressed
  readers rebuild it at the same addresses, with zeros wherever the image has none, and the image
  occupies at least the 8192 words of a small part; the PIC18 reader does for up to its 0x4000 words.\<close>

theorem hex_round_trip:
  assumes "length ws \<le> 0x8000"
  shows "\<exists>r. parse_hex (to_hex ws) = Some r \<and> parse_hex_pic14e (to_hex ws) = Some r \<and>
      8192 \<le> length r \<and> used_words ws \<le> length r \<and>
      (\<forall>i < length r. r ! i = (if i < length ws then ws ! i else 0)) \<and>
    (length ws \<le> 0x4000 \<longrightarrow> (\<exists>r. parse_hex_pic18 (to_hex ws) = Some r \<and> length r = 0x4000 \<and>
      (\<forall>i < length r. r ! i = (if i < length ws then ws ! i else 0))))"
proof -
  have z: "length (loaded len ws) = len \<and> (\<forall>i < len. loaded len ws ! i = (if i < length ws then ws ! i else 0))"
    if "used_words ws \<le> len" for len
    using that used_words_le [of ws] used_words_zero [of ws]
    by (auto simp: loaded_def patched_def nth_append)
  have "length ws \<le> 0x4000 \<Longrightarrow> used_words ws \<le> 0x4000" using used_words_le [of ws] by simp
  then show ?thesis
    using parse_to_hex [OF assms] z [of "max 8191 (used_words ws) + 1"] z [of "0x4000"] by auto
qed

lemma hex_round_trip_witness:
  "\<exists>r. parse_hex (to_hex [0x3005, 0x0080, 0x2802, 0]) = Some r \<and> r ! 1 = 0x0080 \<and> r ! 7000 = 0"
  using hex_round_trip [of "[0x3005, 0x0080, 0x2802, 0]"] by auto

section \<open>Files with several regions\<close>

fun region_records :: "nat option \<Rightarrow> (u32 \<times> u16 list) list \<Rightarrow> u8 list list" where
  "region_records current [] = []"
| "region_records current ((base, ws) # chunks) =
     (let upper = unat (drop_bit 16 base) in
      (if current = Some upper then [] else [ela_record upper]) @
      records (unat base AND 0xFFFF) ws (used_words ws) 0 @ region_records (Some upper) chunks)"

lemma regions_from_text:
  "regions_from current chunks = file_text (map rec_line (region_records current chunks))"
  by (induction current chunks rule: regions_from.induct)
    (simp_all add: Let_def file_text_append region_from_records hex_record_line ela_record_def
      file_text_def [of "[]"] file_text_cons)

lemma to_hex_regions_lines:
  "hex_lines (to_hex_regions chunks) = map rec_line (region_records None chunks @ [eof_record])"
proof -
  have "to_hex_regions chunks = file_text (map rec_line (region_records None chunks @ [eof_record]))"
    by (simp add: to_hex_regions_def regions_from_text file_text_append eof_line)
      (simp add: file_text_def)
  then show ?thesis by (simp only: hex_lines_text)
qed

lemma regions_single: "to_hex_regions [(0, ws)] = to_hex ws"
  by (simp add: to_hex_regions_def regions_from_text file_text_append to_hex_records eof_line file_text_cons)
    (simp add: file_text_def)

lemma any_data_line:
  assumes "length ws \<le> 8"
  shows "hex_line (rec_line (with_checksum (data_record a ws))) =
      Some (with_checksum (data_record a ws), concat (map word_bytes ws))"
    and "with_checksum (data_record a ws) ! 3 = 0"
    and "length (with_checksum (data_record a ws)) = 5 + unat (with_checksum (data_record a ws) ! 0)"
proof -
  have "unat (data_record a ws ! 0) = 2 * length ws" using assms by (simp add: data_record_def)
  moreover have "length (data_record a ws) = 4 + 2 * length ws" by (simp add: data_record_def)
  ultimately show "hex_line (rec_line (with_checksum (data_record a ws))) =
      Some (with_checksum (data_record a ws), concat (map word_bytes ws))"
    using hex_line_record [of "data_record a ws"] by (simp add: data_record_def)
qed (use assms in \<open>simp_all add: data_record_def with_checksum_def\<close>)

text \<open>Above the first 64 KiB the program readers skip the data.\<close>

lemma skip_records:
  "0x8000 \<le> u \<Longrightarrow> load18_from u (map rec_line (records b ws hi addr) @ ls) W = load18_from u ls W"
  "u \<noteq> 0 \<Longrightarrow> load14e_from u (map rec_line (records b ws hi addr) @ ls) W = load14e_from u ls W"
  "u \<noteq> 0 \<Longrightarrow> max_word14e_from (map rec_line (records b ws hi addr) @ ls) u m = max_word14e_from ls u m"
  by (induction b ws hi addr rule: records.induct;
      (subst records.simps, simp add: any_data_line))+

lemma upper_of_ela:
  assumes "u < 0x10000"
  shows "upper_of [of_nat (drop_bit 8 u), of_nat (u AND 0xFF)] = Some (push_bit 16 u)"
    and "upper_of (drop 4 (ela_record u)) = Some (push_bit 16 u)"
proof -
  have "drop_bit 8 u < 256" using assms by (simp add: drop_bit_eq_div)
  then have "push_bit 8 (unat (of_nat (drop_bit 8 u) :: u8)) OR unat (of_nat (u AND 0xFF) :: u8) = u"
    using join_bits_nat [of 8 u] by (simp add: unat_of_nat nat_and_ff take_bit_eq_mod)
  then show "upper_of [of_nat (drop_bit 8 u), of_nat (u AND 0xFF)] = Some (push_bit 16 u)"
    "upper_of (drop 4 (ela_record u)) = Some (push_bit 16 u)"
    by (simp_all add: upper_of_def ela_record_def with_checksum_def)
qed

text \<open>C26: configuration words written as a second region above 64 KiB never reach the program: both readers
  that track the extended address load exactly the words they load from the program alone, and a
  program written as a single region is the same text \<open>to_hex\<close> writes.\<close>

theorem hex_config_region:
  assumes "drop_bit 16 base \<noteq> (0 :: u32)"
  shows "(length ws \<le> 0x8000 \<longrightarrow>
      parse_hex_pic14e (to_hex_regions [(0, ws), (base, cfg)]) = parse_hex_pic14e (to_hex ws)) \<and>
    (length ws \<le> 0x4000 \<longrightarrow>
      parse_hex_pic18 (to_hex_regions [(0, ws), (base, cfg)]) = parse_hex_pic18 (to_hex ws)) \<and>
    to_hex_regions [(0, ws)] = to_hex ws"
proof -
  let ?u = "unat (drop_bit 16 base)" and ?hi = "used_words ws"
  let ?cfg = "map rec_line (records (unat base AND 0xFFFF) cfg (used_words cfg) 0)"
  let ?prog = "map rec_line (records 0 ws ?hi 0)"
  have u: "?u < 0x10000" "?u \<noteq> 0"
    using unsigned_less [where ?'a = nat, of base] assms
    by (simp add: unat_drop_bit_div) (simp add: assms unat_eq_0)
  then have up: "0x8000 \<le> push_bit 16 ?u" "push_bit 16 ?u \<noteq> 0" by (simp_all add: push_bit_eq_mult)
  have ls: "hex_lines (to_hex_regions [(0, ws), (base, cfg)]) =
      rec_line (ela_record 0) # ?prog @ rec_line (ela_record ?u) # ?cfg @ [rec_line eof_record]"
    using u by (simp add: to_hex_regions_lines)
  note ela = ela_facts upper_of_ela [OF u(1)] upper_of_ela [of 0, simplified] eof_facts
  have "parse_hex_pic14e (to_hex_regions [(0, ws), (base, cfg)]) = parse_hex_pic14e (to_hex ws)"
    if "length ws \<le> 0x8000"
  proof -
    let ?n = "max 8191 ?hi + 1"
    have h: "?hi \<le> 0x8000" "?hi \<le> ?n" using that used_words_le [of ws] by simp_all
    show ?thesis
      using parse_to_hex(2) [OF that] up max_file(2) [OF h(1)] load_file(2) [OF h]
      by (simp add: parse_hex_pic14e_def ls ela skip_records loaded_def)
  qed
  moreover have "parse_hex_pic18 (to_hex_regions [(0, ws), (base, cfg)]) = parse_hex_pic18 (to_hex ws)"
    if "length ws \<le> 0x4000"
  proof -
    have h: "?hi \<le> 0x8000" "?hi \<le> 0x4000" using that used_words_le [of ws] by simp_all
    show ?thesis
      using parse_to_hex(3) [of ws] that up load_file(3) [OF h(1) h(2) h(2)]
      by (simp add: parse_hex_pic18_def ls ela skip_records loaded_def)
  qed
  ultimately show ?thesis using regions_single by blast
qed

lemma hex_config_region_witness:
  "parse_hex_pic18 (to_hex_regions [(0, [0xEF00, 0xF000]), (0x300000, [0xFFFF])]) =
     parse_hex_pic18 (to_hex [0xEF00, 0xF000])"
  using hex_config_region [of "0x300000" "[0xEF00, 0xF000]" "[0xFFFF]"] by simp

lemma of_nat_sum_bytes: "of_nat (sum_list (map unat bs)) = (sum_list bs :: u8)"
  by (induction bs) simp_all

lemma checksum_zero: "sum_list (with_checksum rec) = 0"
proof -
  let ?s = "sum_list (map unat rec)"
  have "of_nat (?s mod 256) = (of_nat ?s :: u8)"
    by (simp add: word_eq_iff_unsigned [where ?'a = nat] unat_of_nat)
  then have "of_nat (0x100 - (?s AND 0xFF)) = - (sum_list rec :: u8)"
    by (simp add: nat_and_ff of_nat_diff of_nat_sum_bytes)
  then show ?thesis by (simp add: with_checksum_def checksum_def)
qed

lemma records_good:
  "bs \<in> set (records base ws hi addr) \<Longrightarrow> sum_list bs = 0 \<and> length bs = 5 + unat (bs ! 0)"
proof (induction base ws hi addr rule: records.induct)
  case (1 base ws hi addr)
  let ?r = "with_checksum (data_record (base + addr * 2) (take (min (hi - addr) 8) (drop addr ws)))"
  have "sum_list ?r = 0 \<and> length ?r = 5 + unat (?r ! 0)"
    using checksum_zero any_data_line(3) [of "take (min (hi - addr) 8) (drop addr ws)"] by simp
  then show ?case
    using 1 by (cases "addr < hi") (auto simp: records.simps [of base ws hi addr])
qed

lemma region_records_good:
  "bs \<in> set (region_records current chunks) \<Longrightarrow> sum_list bs = 0 \<and> length bs = 5 + unat (bs ! 0)"
proof (induction current chunks rule: region_records.induct)
  case (2 current base ws chunks)
  have "sum_list (ela_record u) = 0 \<and> length (ela_record u) = 5 + unat (ela_record u ! 0)" for u
    using checksum_zero [of "[2, 0, 0, 4, of_nat (drop_bit 8 u), of_nat (u AND 0xFF)]"]
    by (simp add: ela_record_def) (simp add: with_checksum_def)
  then show ?case using 2 records_good by (auto simp: Let_def split: if_splits)
qed simp

text \<open>C27: every line of a written file is a well-formed record: a colon and hex digits, the length the count byte
  announces, and bytes that sum to zero modulo 256.\<close>

theorem hex_checksums:
  assumes "l \<in> set (hex_lines (to_hex_regions chunks))"
  shows "\<exists>bs. starts_with '':'' l \<and> hex_decode (tl l) = Some bs \<and> length bs = 5 + unat (bs ! 0) \<and>
    sum_list bs = 0"
proof -
  obtain bs where l: "l = rec_line bs" and bs: "bs \<in> set (region_records None chunks @ [eof_record])"
    using assms by (auto simp: to_hex_regions_lines)
  have "sum_list eof_record = 0" "length eof_record = 5 + unat (eof_record ! 0)"
    by (simp_all add: eof_record_def)
  then have "sum_list bs = 0 \<and> length bs = 5 + unat (bs ! 0)" using bs region_records_good by auto
  then show ?thesis using l by (simp add: rec_line_def starts_with_def hex_decode_bytes)
qed

lemma hex_checksums_witness:
  "\<exists>bs. hex_decode ''020000040000FA'' = Some bs \<and> sum_list bs = 0"
proof -
  have "'':020000040000FA'' \<in> set (hex_lines (to_hex_regions [(0, [5])]))"
    using ela_line_0 by (simp add: to_hex_regions_lines)
  from hex_checksums [OF this] show ?thesis by auto
qed

end
