(* ===== verification/Asm.thy ===== *)
theory Asm
  imports RustStr
begin

text \<open>
  The two-pass assembler of \<^verbatim>\<open>crates/asm/src/lib.rs\<close> for the word-addressed cores: the shared first
  pass (labels, \<open>org\<close>, \<open>equ\<close>, \<open>.align\<close>, \<open>.table\<close>), operand resolution, and the encoders of the
  classic, enhanced and baseline instruction sets. The encoders' \<open>match\<close> arms that differ only in the
  mnemonic and the base word are grouped into tables. Addresses are \<^typ>\<open>nat\<close>; a panic, an unsigned
  underflow included, is \<^const>\<open>None\<close>.
\<close>

type_synonym symtab = "string \<rightharpoonup> nat"

section \<open>Numbers, symbols and literals\<close>

definition is_directive :: "string \<Rightarrow> string \<Rightarrow> bool" where
  "is_directive line name \<longleftrightarrow> line = name \<or>
     (case strip_prefix name line of Some (c # _) \<Rightarrow> c = CHR '' '' \<or> c = CHR 0x09 | _ \<Rightarrow> False)"

definition insert_label :: "symtab \<Rightarrow> string \<Rightarrow> nat \<Rightarrow> symtab" where
  "insert_label tab name addr =
     (let s1 = tab(name \<mapsto> addr) in
      if starts_with ''_'' name then s1
      else if s1 (''_'' @ name) = None then s1(''_'' @ name \<mapsto> addr) else s1)"

definition parse_num_opt :: "string \<Rightarrow> nat option" where
  "parse_num_opt s = (case strip_prefix ''0x'' s of
     Some h \<Rightarrow> from_str_radix 16 h | None \<Rightarrow> from_str_radix 10 s)"

text \<open>\<open>parse_num\<close> unwraps: the same value, where no number is a panic.\<close>

definition parse_num :: "string \<Rightarrow> nat option" where
  "parse_num s = (case strip_prefix ''0x'' s of
     Some h \<Rightarrow> from_str_radix 16 h | None \<Rightarrow> from_str_radix 10 s)"

text \<open>The scan from the end of \<open>sym_offset\<close>: how many characters follow the sign, on the reversed text.\<close>

fun rev_cut :: "string \<Rightarrow> nat option" where
  "rev_cut [] = None"
| "rev_cut (c # cs) =
     (if c = CHR ''+'' \<or> c = CHR ''-'' then Some 0
      else if c = CHR ''x'' \<or> c = CHR ''X'' \<or> digit_val 16 c \<noteq> None then map_option Suc (rev_cut cs)
      else None)"

text \<open>\<open>sym_offset\<close>: the outer \<^const>\<open>None\<close> is the panic of \<open>base - n\<close> below zero.\<close>

definition sym_offset :: "symtab \<Rightarrow> string \<Rightarrow> nat option option" where
  "sym_offset tab t =
     (case rev_cut (rev t) of
        None \<Rightarrow> Some None
      | Some k \<Rightarrow>
          let i = length t - 1 - k; name = take i t; off = drop (i + 1) t
          in case (tab name, parse_num_opt off) of
               (Some base, Some n) \<Rightarrow>
                 if t ! i = CHR ''+'' then Some (Some (base + n))
                 else if n \<le> base then Some (Some (base - n)) else None
             | _ \<Rightarrow> Some None)"

text \<open>The three attempts \<open>sym_addr\<close> and \<open>parse_lit\<close> share: a symbol, a symbol with an offset, a number.\<close>

definition sym_value :: "symtab \<Rightarrow> string \<Rightarrow> nat option" where
  "sym_value tab t =
     (case tab t of Some v \<Rightarrow> Some v
      | None \<Rightarrow> do { r \<leftarrow> sym_offset tab t;
                   (case r of Some v \<Rightarrow> Some v | None \<Rightarrow> parse_num_opt t) })"

definition sym_addr :: "symtab \<Rightarrow> string \<Rightarrow> nat option" where
  "sym_addr tab tok = sym_value tab (trim_end_char (CHR '','') tok)"

definition strip_fn :: "string \<Rightarrow> string \<Rightarrow> string option" where
  "strip_fn s name =
     (if length name < length s \<and> to_lower (take (length name) s) = to_lower name
      then Some (trim_end_char (CHR '')'') (drop (length name) s)) else None)"

definition lit_fns :: "(string \<times> nat \<times> nat) list" where
  "lit_fns = [(''LOW('', 0xFF, 0), (''HIGH('', 0xFF, 8), (''PAGE('', 0x38, 8), (''UPPER('', 0xFF, 16)]"

fun parse_lit_from :: "(string \<times> nat \<times> nat) list \<Rightarrow> symtab \<Rightarrow> string \<Rightarrow> nat option" where
  "parse_lit_from [] tab s = parse_num s"
| "parse_lit_from ((name, msk, shift) # fns) tab s =
     (case strip_fn s name of
        Some inner \<Rightarrow> do { v \<leftarrow> sym_value tab inner; Some (drop_bit shift v AND msk) }
      | None \<Rightarrow> parse_lit_from fns tab s)"

definition parse_lit :: "symtab \<Rightarrow> string \<Rightarrow> nat option" where
  "parse_lit = parse_lit_from lit_fns"

section \<open>The first pass\<close>

record pass1 =
  p1_lines :: "(nat \<times> string) list"
  p1_sym :: symtab
  p1_org :: nat

definition push_line :: "pass1 \<Rightarrow> string \<Rightarrow> pass1" where
  "push_line st line = st\<lparr>p1_lines := p1_lines st @ [(p1_org st, line)], p1_org := p1_org st + 1\<rparr>"

definition power_of_two :: "nat \<Rightarrow> bool" where
  "power_of_two n \<longleftrightarrow> n \<in> set (map (\<lambda>k. 2 ^ k) [0..<64])"

text \<open>\<open>.align N\<close>: \<open>(org + n - 1) & !(n - 1)\<close> for a power of two.\<close>

definition align_org :: "nat \<Rightarrow> nat \<Rightarrow> nat option" where
  "align_org org n = (if 2 \<le> n \<and> power_of_two n then Some ((org + n - 1) div n * n) else None)"

definition table_fits :: "nat \<Rightarrow> nat \<Rightarrow> bool" where
  "table_fits org sz =
     (let lo = org AND 0xFF in if sz \<le> 255 then lo + sz \<le> 0x100 else lo = 0)"

text \<open>The arms after the label arm, in order: a label with blanks, \<open>equ\<close>, \<open>.align\<close>, \<open>.table\<close>, an instruction.\<close>

definition pass1_plain :: "string \<Rightarrow> pass1 \<Rightarrow> pass1 option" where
  "pass1_plain line st =
     (case strip_suffix '':'' line of
        Some label \<Rightarrow> Some (st\<lparr>p1_sym := insert_label (p1_sym st) (trim label) (p1_org st)\<rparr>)
      | None \<Rightarrow>
     (case find_sub '' equ '' line of
        Some eq \<Rightarrow> do {
          v \<leftarrow> parse_num (trim (drop (eq + 5) line));
          Some (st\<lparr>p1_sym := insert_label (p1_sym st) (trim (take eq line)) v\<rparr>) }
      | None \<Rightarrow>
     (case strip_prefix ''.align '' line of
        Some n \<Rightarrow> do { k \<leftarrow> parse_num (trim n); a \<leftarrow> align_org (p1_org st) k; Some (st\<lparr>p1_org := a\<rparr>) }
      | None \<Rightarrow>
     (case strip_prefix ''.table '' line of
        Some rest \<Rightarrow>
          (case split_ws rest of
             _ # sz # _ \<Rightarrow> do {
               n \<leftarrow> parse_num sz;
               (if table_fits (p1_org st) n then Some st else None) }
           | _ \<Rightarrow> None)
      | None \<Rightarrow> Some (push_line st line)))))"

definition pass1_label :: "string \<Rightarrow> pass1 \<Rightarrow> pass1 option" where
  "pass1_label line st =
     (case find_sub '':'' line of
        None \<Rightarrow> pass1_plain line st
      | Some colon \<Rightarrow>
          let label = trim (take colon line); rest = trim (drop (colon + 1) line)
          in if label \<noteq> [] \<and> CHR '' '' \<notin> set label \<and> CHR 0x09 \<notin> set label then
               let s1 = st\<lparr>p1_sym := insert_label (p1_sym st) label (p1_org st)\<rparr>
               in Some (if rest = [] then s1 else push_line s1 rest)
             else pass1_plain line st)"

text \<open>The loop body; a stripped line is what is left of the first \<open>;\<close>. \<open>end\<close> stops the loop.\<close>

definition strip_comment :: "string \<Rightarrow> string" where
  "strip_comment raw = trim (hd (split_char (CHR '';'') raw))"

fun pass1_lines :: "string list \<Rightarrow> pass1 \<Rightarrow> pass1 option" where
  "pass1_lines [] st = Some st"
| "pass1_lines (raw # raws) st =
     (let line = strip_comment raw in
      if line = [] then pass1_lines raws st
      else if is_directive line ''list'' \<or> is_directive line ''radix'' then pass1_lines raws st
      else (case strip_prefix ''org '' line of
              Some rest \<Rightarrow> do {
                target \<leftarrow> parse_num (trim rest);
                (if p1_org st \<le> target then pass1_lines raws (st\<lparr>p1_org := target\<rparr>) else None) }
            | None \<Rightarrow>
                if is_directive line ''end'' then Some st
                else do { s1 \<leftarrow> pass1_label line st; pass1_lines raws s1 }))"

definition assemble_first_pass :: "string \<Rightarrow> pass1 option" where
  "assemble_first_pass src =
     pass1_lines (str_lines src) \<lparr>p1_lines = [], p1_sym = Map.empty, p1_org = 0\<rparr>"

text \<open>Pass 2: the words, one encoded line stored at each address.\<close>

fun emit_words :: "(nat \<Rightarrow> string \<Rightarrow> u16 option) \<Rightarrow> (nat \<times> string) list \<Rightarrow> u16 list \<Rightarrow> u16 list option" where
  "emit_words enc [] out = Some out"
| "emit_words enc ((addr, line) # ls) out =
     do { w \<leftarrow> enc addr line;
          (if addr < length out then emit_words enc ls (out[addr := w]) else None) }"

definition assemble_with :: "(symtab \<Rightarrow> nat \<Rightarrow> string \<Rightarrow> u16 option) \<Rightarrow> string \<Rightarrow> u16 list option" where
  "assemble_with enc src =
     do { p \<leftarrow> assemble_first_pass src;
          emit_words (enc (p1_sym p)) (p1_lines p) (replicate (p1_org p) 0) }"

section \<open>Operands of the encoders\<close>

definition operand :: "nat \<Rightarrow> string list \<Rightarrow> string" where
  "operand i parts = (if i < length parts then parts ! i else [])"

text \<open>The closure \<open>f\<close>: a file register at most \<open>limit\<close> (a mask of ones).\<close>

definition file_field :: "nat \<Rightarrow> symtab \<Rightarrow> string \<Rightarrow> u16 option" where
  "file_field limit tab s =
     (let t = trim_end_char (CHR '','') s
      in do { v \<leftarrow> (case tab t of Some v \<Rightarrow> Some v | None \<Rightarrow> sym_addr tab t);
              (if v \<le> limit then Some (of_nat v AND of_nat limit) else None) })"

text \<open>The destination bit with its default: the classic set takes \<open>W\<close>, the other two \<open>F\<close>.\<close>

definition dest_or_w :: "string list \<Rightarrow> u16" where
  "dest_or_w parts = (if 2 < length parts \<and> to_upper (trim (parts ! 2)) = ''F'' then 1 else 0)"

definition dest_or_f :: "string list \<Rightarrow> u16" where
  "dest_or_f parts = (if 2 < length parts \<and> to_upper (trim (parts ! 2)) = ''W'' then 0 else 1)"

definition jump_target :: "symtab \<Rightarrow> string \<Rightarrow> nat option" where
  "jump_target tab op = (case tab op of Some v \<Rightarrow> Some v | None \<Rightarrow> parse_num op)"

definition signed_num :: "string \<Rightarrow> int option" where
  "signed_num t = (case strip_prefix ''-'' t of
     Some r \<Rightarrow> map_option (\<lambda>n. - int n) (parse_num r) | None \<Rightarrow> map_option int (parse_num t))"

text \<open>The definitions a concrete text is evaluated with.\<close>

lemmas asm_eval = str_eval strip_comment_def is_directive_def parse_num_def parse_num_opt_def
  parse_lit_def lit_fns_def strip_fn_def pass1_label_def pass1_plain_def push_line_def insert_label_def

end
