(* ===== verification/Encode.thy ===== *)
theory Encode
  imports Asm
begin

text \<open>
  The instruction encoders of \<^verbatim>\<open>crates/asm/src/lib.rs\<close> (\<open>encode\<close>, \<open>encode_pic14e\<close> and
  \<open>encode_pic_baseline\<close>): mnemonic and operands of a line to one instruction word. The arms of each
  \<open>match\<close> that have the same shape are one table from mnemonic to base word.
\<close>

section \<open>The classic instruction set\<close>

definition enc14_plain :: "(string \<times> u16) list" where
  "enc14_plain =
     [(''NOP'', 0x0000), (''RETURN'', 0x0008), (''RETFIE'', 0x0009), (''SLEEP'', 0x0063),
      (''CLRWDT'', 0x0064), (''CLRW'', 0x0100)]"

definition enc14_file :: "(string \<times> u16) list" where
  "enc14_file =
     [(''MOVWF'', 0x0080), (''CLRF'', 0x0180)]"

definition enc14_dest :: "(string \<times> u16) list" where
  "enc14_dest =
     [(''DECF'', 0x0300), (''MOVF'', 0x0800), (''ADDWF'', 0x0700), (''SUBWF'', 0x0200),
      (''ANDWF'', 0x0500), (''IORWF'', 0x0400), (''XORWF'', 0x0600), (''COMF'', 0x0900),
      (''INCF'', 0x0A00), (''DECFSZ'', 0x0B00), (''RRF'', 0x0C00), (''RLF'', 0x0D00),
      (''SWAPF'', 0x0E00), (''INCFSZ'', 0x0F00)]"

definition enc14_lit :: "(string \<times> u16) list" where
  "enc14_lit =
     [(''MOVLW'', 0x3000), (''ADDLW'', 0x3E00), (''ANDLW'', 0x3900), (''IORLW'', 0x3800),
      (''XORLW'', 0x3A00), (''SUBLW'', 0x3C00), (''RETLW'', 0x3400)]"

definition enc14_bit :: "(string \<times> u16) list" where
  "enc14_bit = [(''BTFSC'', 0x1800), (''BTFSS'', 0x1C00), (''BCF'', 0x1000), (''BSF'', 0x1400)]"

text \<open>The operands of a bit instruction, joined again and split at the comma.\<close>

definition bit_operands :: "string list \<Rightarrow> (string \<times> string) option" where
  "bit_operands parts = split_once (\<lambda>c. c = CHR '','') (join_sp (tl parts))"

definition encode14_parts :: "symtab \<Rightarrow> string \<Rightarrow> string list \<Rightarrow> u16 option" where
  "encode14_parts tab mne parts =
     (let op = operand 1 parts; d = dest_or_w parts in
      case map_of enc14_plain mne of Some w \<Rightarrow> Some w | None \<Rightarrow>
      case map_of enc14_file mne of Some w \<Rightarrow>
        do { f \<leftarrow> file_field 0x7F tab op; Some (w OR f) } | None \<Rightarrow>
      case map_of enc14_dest mne of Some w \<Rightarrow>
        do { f \<leftarrow> file_field 0x7F tab op; Some ((w OR push_bit 7 d) OR f) } | None \<Rightarrow>
      case map_of enc14_lit mne of Some w \<Rightarrow>
        do { k \<leftarrow> parse_lit tab op; Some (w OR of_nat k) } | None \<Rightarrow>
      case map_of enc14_bit mne of Some w \<Rightarrow>
        do { (freg, b) \<leftarrow> bit_operands parts;
             n \<leftarrow> parse_num (trim b);
             f \<leftarrow> file_field 0x7F tab (trim freg);
             Some ((w OR push_bit 7 (of_nat n AND 7)) OR f) } | None \<Rightarrow>
      if mne = ''GOTO'' then do { k \<leftarrow> jump_target tab op; Some (0x2800 OR (of_nat k AND 0x7FF)) }
      else if mne = ''CALL'' then do { k \<leftarrow> jump_target tab op; Some (0x2000 OR (of_nat k AND 0x7FF)) }
      else None)"

definition encode14 :: "symtab \<Rightarrow> string \<Rightarrow> u16 option" where
  "encode14 tab line =
     (case split_ws line of [] \<Rightarrow> None | m # ms \<Rightarrow> encode14_parts tab (to_upper m) (m # ms))"

definition assemble :: "string \<Rightarrow> u16 list option" where
  "assemble = assemble_with (\<lambda>tab addr line. encode14 tab line)"

section \<open>The enhanced instruction set\<close>

definition enc14e_plain :: "(string \<times> u16) list" where
  "enc14e_plain =
     [(''BRW'', 0x000B), (''CALLW'', 0x000A), (''OPTION'', 0x0062), (''CLRW'', 0x0103),
      (''RESET'', 0x0001)]"

definition enc14e_file :: "(string \<times> u16) list" where
  "enc14e_file =
     [(''TRIS'', 0x0060)]"

definition enc14e_dest :: "(string \<times> u16) list" where
  "enc14e_dest =
     [(''DECF'', 0x0300), (''ASRF'', 0x3700), (''LSLF'', 0x3500), (''LSRF'', 0x3600),
      (''ADDWFC'', 0x3D00), (''SUBWFB'', 0x3B00)]"

definition fsr_n :: "string \<Rightarrow> u16 option" where
  "fsr_n s = (if contains_sub ''FSR0'' s then Some 0 else if contains_sub ''FSR1'' s then Some 1 else None)"

text \<open>The literal of BRA: the signed distance from the next instruction, cut to nine bits.\<close>

definition bra_word :: "int \<Rightarrow> nat \<Rightarrow> u16" where
  "bra_word target addr = 0x3200 OR of_int ((target - (int addr + 1)) mod 0x200)"

definition bra_target :: "symtab \<Rightarrow> string \<Rightarrow> int option" where
  "bra_target tab op = (case tab op of Some v \<Rightarrow> Some (int v) | None \<Rightarrow> signed_num op)"

definition low6 :: "int \<Rightarrow> u16" where "low6 k = of_int (k mod 0x40)"

definition moviw_word :: "bool \<Rightarrow> string \<Rightarrow> u16 option" where
  "moviw_word load full =
     do {
       n \<leftarrow> fsr_n full;
       (if contains_sub ''['' full then do {
          k \<leftarrow> signed_num (trim (hd (split_char (CHR ''['') full)));
          Some (((if load then 0x3F00 else 0x3F80) OR push_bit 6 n) OR low6 k) }
        else
          let mm = (if starts_with ''++'' full then 0
                    else if starts_with ''--'' full then 1
                    else if strip_suffix ''++'' full \<noteq> None then 2 else 3)
          in Some (((if load then 0x0010 else 0x0018) OR push_bit 2 n) OR mm))
     }"

definition encode14e_parts :: "symtab \<Rightarrow> nat \<Rightarrow> string \<Rightarrow> string list \<Rightarrow> u16 option" where
  "encode14e_parts tab addr mne parts =
     (let op = operand 1 parts; d = dest_or_f parts in
      if mne = ''MOVLB'' then do { k \<leftarrow> parse_num op; Some (0x0020 OR (of_nat k AND 0x1F)) }
      else if mne = ''MOVLP'' then do { k \<leftarrow> parse_num op; Some (0x3180 OR (of_nat k AND 0x7F)) }
      else if mne = ''BRA'' then do { t \<leftarrow> bra_target tab op; Some (bra_word t addr) }
      else if mne = ''ADDFSR'' then do {
        n \<leftarrow> fsr_n op;
        k \<leftarrow> signed_num (operand 2 parts);
        Some ((0x3100 OR push_bit 6 n) OR low6 k) }
      else if mne = ''MOVIW'' then moviw_word True (join_sp (tl parts))
      else if mne = ''MOVWI'' then moviw_word False (join_sp (tl parts))
      else
      case map_of enc14e_plain mne of Some w \<Rightarrow> Some w | None \<Rightarrow>
      case map_of enc14e_file mne of Some w \<Rightarrow>
        do { f \<leftarrow> file_field 0x7F tab op; Some (w OR f) } | None \<Rightarrow>
      case map_of enc14e_dest mne of Some w \<Rightarrow>
        do { f \<leftarrow> file_field 0x7F tab op; Some ((w OR push_bit 7 d) OR f) } | None \<Rightarrow>
      encode14_parts tab mne parts)"

definition encode14e :: "symtab \<Rightarrow> nat \<Rightarrow> string \<Rightarrow> u16 option" where
  "encode14e tab addr line =
     (case split_ws line of [] \<Rightarrow> None | m # ms \<Rightarrow> encode14e_parts tab addr (to_upper m) (m # ms))"

definition assemble_pic14e :: "string \<Rightarrow> u16 list option" where
  "assemble_pic14e = assemble_with encode14e"

section \<open>The baseline instruction set\<close>

definition enc12_plain :: "(string \<times> u16) list" where
  "enc12_plain =
     [(''NOP'', 0x0000), (''CLRW'', 0x0040), (''OPTION'', 0x0002), (''SLEEP'', 0x0003),
      (''CLRWDT'', 0x0004)]"

definition enc12_file :: "(string \<times> u16) list" where
  "enc12_file =
     [(''TRIS'', 0x0000), (''MOVWF'', 0x0020), (''CLRF'', 0x0060)]"

definition enc12_dest :: "(string \<times> u16) list" where
  "enc12_dest =
     [(''MOVF'', 0x0200), (''ADDWF'', 0x01C0), (''SUBWF'', 0x0080), (''ANDWF'', 0x0140),
      (''IORWF'', 0x0100), (''XORWF'', 0x0180), (''COMF'', 0x0240), (''DECF'', 0x00C0),
      (''DECFSZ'', 0x02C0), (''INCF'', 0x0280), (''INCFSZ'', 0x03C0), (''RLF'', 0x0340),
      (''RRF'', 0x0300), (''SWAPF'', 0x0380)]"

definition enc12_lit :: "(string \<times> u16) list" where
  "enc12_lit =
     [(''MOVLW'', 0x0C00), (''ANDLW'', 0x0E00), (''IORLW'', 0x0D00), (''XORLW'', 0x0F00),
      (''RETLW'', 0x0800)]"

definition enc12_bit :: "(string \<times> u16) list" where
  "enc12_bit = [(''BTFSC'', 0x0600), (''BTFSS'', 0x0700), (''BCF'', 0x0400), (''BSF'', 0x0500)]"

definition encode12_parts :: "symtab \<Rightarrow> string \<Rightarrow> string list \<Rightarrow> u16 option" where
  "encode12_parts tab mne parts =
     (let op = operand 1 parts; d = dest_or_f parts in
      case map_of enc12_plain mne of Some w \<Rightarrow> Some w | None \<Rightarrow>
      case map_of enc12_file mne of Some w \<Rightarrow>
        do { f \<leftarrow> file_field 0x1F tab op; Some (w OR f) } | None \<Rightarrow>
      case map_of enc12_dest mne of Some w \<Rightarrow>
        do { f \<leftarrow> file_field 0x1F tab op; Some ((w OR push_bit 5 d) OR f) } | None \<Rightarrow>
      case map_of enc12_lit mne of Some w \<Rightarrow>
        do { k \<leftarrow> parse_lit tab op; Some (w OR of_nat k) } | None \<Rightarrow>
      case map_of enc12_bit mne of Some w \<Rightarrow>
        do { (freg, b) \<leftarrow> bit_operands parts;
             n \<leftarrow> parse_num (trim b);
             (if n \<le> 7 then do {
                f \<leftarrow> file_field 0x1F tab (trim freg);
                Some ((w OR push_bit 5 (of_nat n)) OR f) } else None) } | None \<Rightarrow>
      if mne = ''GOTO'' then do {
        k \<leftarrow> jump_target tab op;
        (if k \<le> 0x3FF then Some (0x0A00 OR (of_nat k AND 0x1FF)) else None) }
      else if mne = ''CALL'' then do {
        k \<leftarrow> jump_target tab op;
        (if k \<le> 0x3FF \<and> k AND 0x1FF < 0x100 then Some (0x0900 OR (of_nat k AND 0xFF)) else None) }
      else None)"

definition encode12 :: "symtab \<Rightarrow> string \<Rightarrow> u16 option" where
  "encode12 tab line =
     (case split_ws line of [] \<Rightarrow> None | m # ms \<Rightarrow> encode12_parts tab (to_upper m) (m # ms))"

definition assemble_pic_baseline :: "string \<Rightarrow> u16 list option" where
  "assemble_pic_baseline = assemble_with (\<lambda>tab addr line. encode12 tab line)"

end
