(* ===== verification/Exec14.thy ===== *)
theory Exec14
  imports Encode Sim14Facts
begin

text \<open>
  Assembled words on the classic core: the word an encoder arm builds, cut into fields the way the
  simulator's decoder does, and what one step of each instruction does. The delay loops and the
  constant-table reads are proved over these.
\<close>

section \<open>Fields of an assembled word\<close>

lemma drop_small: "k < 2 ^ n \<Longrightarrow> drop_bit n (of_nat k :: u16) = 0"
proof -
  assume "k < 2 ^ n"
  then have "k mod 65536 div 2 ^ n = 0" by (meson div_less le_less_trans mod_less_eq_dividend)
  then show ?thesis
    by (simp add: word_eq_iff_unsigned [where ?'a = nat] unat_drop_bit_div unat_of_nat)
qed

lemma take_small: "k < 2 ^ n \<Longrightarrow> take_bit n (of_nat k :: u16) = of_nat k"
  by (simp add: take_bit_of_nat take_bit_nat_eq_self)

lemma drop_small_u8: "8 \<le> n \<Longrightarrow> drop_bit n (ucast (k :: u8) :: u16) = 0"
  by (rule bit_word_eqI) (auto simp: bit_drop_bit_eq bit_ucast_iff dest: bit_u8_less)

lemma take_u8: "take_bit 8 (ucast (k :: u8) :: u16) = ucast k"
  by (rule bit_word_eqI) (auto simp: bit_take_bit_iff bit_ucast_iff dest: bit_u8_less)

lemma ucast_u8_back [simp]: "ucast (ucast (k :: u8) :: u16) = k"
  by (rule bit_word_eqI) (auto simp: bit_ucast_iff)

text \<open>A file register number below 128 in the low seven bits of a byte-oriented word.\<close>

lemma file_fields:
  assumes "f < 128"
  shows "drop_bit 12 (of_nat f :: u16) = 0" "drop_bit 10 (of_nat f :: u16) = 0"
    "drop_bit 8 (of_nat f :: u16) = 0" "drop_bit 7 (of_nat f :: u16) = 0"
    "take_bit 7 (of_nat f :: u16) = of_nat f" "unat (of_nat f :: u16) = f"
  using assms by (auto intro!: drop_small take_small simp: unat_of_nat)

section \<open>One instruction\<close>

lemmas dispatch14_defs = p14_dispatch_def p14_byte_op_def p14_exec_literal_def
  p14_exec_call_goto_def p14_exec_bit_def p14_write_d_def and_low_mask and_low_mask_1 Let_def

lemma exec_byte_op:
  "drop_bit 7 word \<noteq> 0 \<Longrightarrow> p14_exec_byte s pc word =
     p14_byte_op s pc (drop_bit 7 word AND 1) (unat (word AND 0x7F)) (drop_bit 8 word AND 0x3F)"
  by (auto simp: p14_exec_byte_def)

lemma exec_movlw: "p14_dispatch s pc (0x3000 OR ucast (k :: u8)) = Some (s\<lparr>p14_w := k\<rparr>, pc + 1)"
  by (simp add: dispatch14_defs drop_small_u8 take_u8)

lemma exec_addlw:
  "p14_dispatch s pc (0x3E00 OR ucast (k :: u8)) =
     Some ((p14_add_flags s (p14_w s) k (p14_w s + k))\<lparr>p14_w := p14_w s + k\<rparr>, pc + 1)"
  by (simp add: dispatch14_defs drop_small_u8 take_u8)

lemma exec_movwf:
  assumes "f < 128" and "f \<noteq> 2"
  shows "p14_dispatch s pc (0x0080 OR of_nat f) = Some (p14_write_f s f (p14_w s), pc + 1)"
  using assms by (simp add: exec_byte_op dispatch14_defs file_fields)

lemma exec_movwf_pcl:
  "p14_dispatch s pc 0x0082 = Some (s, push_bit 8 (ucast (p14_ram s 0x0A) AND 0x1F) OR ucast (p14_w s))"
  by (simp add: exec_byte_op dispatch14_defs)

lemma exec_decfsz:
  assumes "f < 128"
  shows "p14_dispatch s pc (0x0B80 OR of_nat f) =
    Some (p14_write_f s f (p14_read_f s f - 1), if p14_read_f s f = 1 then pc + 2 else pc + 1)"
  using assms by (simp add: exec_byte_op dispatch14_defs file_fields)

lemma exec_nop: "p14_dispatch s pc 0 = Some (s, pc + 1)"
  by (simp add: dispatch14_defs p14_exec_byte_def)

lemma exec_goto:
  assumes "k < 0x800"
  shows "p14_dispatch s pc (0x2800 OR of_nat k) =
    Some (s, push_bit 8 (ucast (p14_ram s 0x0A) AND 0x18) OR of_nat k)"
proof -
  have "bit (0x2800 OR of_nat k :: u16) 11" by (simp add: bit_or_iff)
  then have "(0x2800 OR of_nat k :: u16) AND 0x800 \<noteq> 0"
    using and_exp_eq_0_iff_not_bit [of "0x2800 OR of_nat k :: u16" 11] by simp
  then show ?thesis using assms by (simp add: dispatch14_defs drop_small take_small)
qed

end
