(* ===== verification/AsmProps.thy ===== *)
theory AsmProps
  imports Exec14
begin

text \<open>
  What the two passes guarantee: addresses grow along the file, so every instruction has a word of its
  own and nothing is overwritten; and what \<open>.table\<close> buys the computed jump of a constant table.
\<close>

section \<open>Addresses grow\<close>

text \<open>The invariant of the first pass: the lines so far have growing addresses below the next one.\<close>

definition p1_ok :: "pass1 \<Rightarrow> bool" where
  "p1_ok st \<longleftrightarrow> sorted_wrt (<) (map fst (p1_lines st)) \<and> (\<forall>a \<in> fst ` set (p1_lines st). a < p1_org st)"

lemma p1_ok_push: "p1_ok st \<Longrightarrow> p1_ok (push_line st l)"
  by (auto simp: p1_ok_def push_line_def sorted_wrt_append less_Suc_eq)

lemma p1_ok_sym [simp]: "p1_ok (st\<lparr>p1_sym := m\<rparr>) = p1_ok st"
  by (simp add: p1_ok_def)

lemma p1_ok_org: "p1_ok st \<Longrightarrow> p1_org st \<le> a \<Longrightarrow> p1_ok (st\<lparr>p1_org := a\<rparr>)"
  by (force simp: p1_ok_def)

lemma align_org_ge: "align_org org n = Some a \<Longrightarrow> org \<le> a"
proof -
  assume "align_org org n = Some a"
  then have n: "2 \<le> n" "a = (org + n - 1) div n * n" by (auto simp: align_org_def split: if_splits)
  have "(org + n - 1) mod n < n" using n by simp
  moreover have "(org + n - 1) div n * n + (org + n - 1) mod n = org + n - 1" by simp
  ultimately show ?thesis using n by linarith
qed

lemma pass1_plain_ok:
  assumes "pass1_plain line st = Some s'" and "p1_ok st"
  shows "p1_ok s'"
  using assms align_org_ge
  by (auto simp: pass1_plain_def p1_ok_push p1_ok_org split: option.splits Option.bind_splits
      list.splits if_splits)

lemma pass1_label_ok:
  assumes "pass1_label line st = Some s'" and "p1_ok st"
  shows "p1_ok s'"
  using assms pass1_plain_ok [of line st s']
  by (auto simp: pass1_label_def Let_def p1_ok_push split: option.splits if_splits)

lemma pass1_lines_ok: "pass1_lines raws st = Some p \<Longrightarrow> p1_ok st \<Longrightarrow> p1_ok p"
proof (induction raws arbitrary: st)
  case (Cons raw raws)
  then show ?case using pass1_label_ok p1_ok_org
    by (auto simp: Let_def split: if_splits option.splits Option.bind_splits)
qed simp

lemma first_pass_ok: "assemble_first_pass src = Some p \<Longrightarrow> p1_ok p"
  unfolding assemble_first_pass_def by (erule pass1_lines_ok) (simp add: p1_ok_def)

lemma emit_words_facts:
  assumes "emit_words enc ls out = Some r" and "sorted_wrt (<) (map fst ls)"
  shows "length r = length out \<and>
    (\<forall>(a, l) \<in> set ls. a < length out \<and> enc a l = Some (r ! a)) \<and>
    (\<forall>a. a \<notin> fst ` set ls \<longrightarrow> r ! a = out ! a)"
  using assms
proof (induction ls arbitrary: out)
  case (Cons x ls)
  obtain b k w where x: "x = (b, k)" "enc b k = Some w" "b < length out"
      "emit_words enc ls (out[b := w]) = Some r"
    using Cons.prems(1) by (cases x) (auto split: Option.bind_splits if_splits)
  have s: "sorted_wrt (<) (map fst ls)" "b \<notin> fst ` set ls" using Cons.prems(2) x by auto
  show ?case using Cons.IH [OF x(4) s(1)] x s(2) by auto
qed simp

lemma emit_words_total:
  assumes "\<And>a l. (a, l) \<in> set ls \<Longrightarrow> a < length out \<and> enc a l \<noteq> None"
  shows "\<exists>r. emit_words enc ls out = Some r"
  using assms
proof (induction ls arbitrary: out)
  case (Cons x ls)
  obtain b k where x: "x = (b, k)" by (cases x)
  then obtain w where w: "enc b k = Some w" "b < length out" using Cons.prems [of b k] by auto
  have "\<exists>r. emit_words enc ls (out[b := w]) = Some r"
    by (rule Cons.IH) (use Cons.prems in auto)
  then show ?case using x w by simp
qed simp

text \<open>C28: the layout is what the source says. When \<open>assemble\<close> succeeds, the image is as long as the final
  address, every instruction line stands at its own address (addresses grow strictly along the file, so
  an \<open>org\<close> never overwrites a word) encoded with the complete symbol table, labels defined later
  included, and every address no line claims holds zero. It fails only in the first pass or on a line
  its encoder refuses, never on an address.\<close>

theorem assemble_layout:
  assumes "assemble_first_pass src = Some p"
  shows "(\<forall>out. assemble src = Some out \<longrightarrow>
      length out = p1_org p \<and> sorted_wrt (<) (map fst (p1_lines p)) \<and>
      (\<forall>(a, l) \<in> set (p1_lines p). a < length out \<and> encode14 (p1_sym p) l = Some (out ! a)) \<and>
      (\<forall>a < length out. a \<notin> fst ` set (p1_lines p) \<longrightarrow> out ! a = 0)) \<and>
    (assemble src = None \<longrightarrow> (\<exists>(a, l) \<in> set (p1_lines p). encode14 (p1_sym p) l = None))"
proof -
  note ok = first_pass_ok [OF assms]
  have s: "sorted_wrt (<) (map fst (p1_lines p))" using ok by (simp add: p1_ok_def)
  let ?enc = "\<lambda>(addr :: nat) line. encode14 (p1_sym p) line"
  have a: "assemble src = emit_words ?enc (p1_lines p) (replicate (p1_org p) 0)"
    using assms by (simp add: assemble_def assemble_with_def)
  have "assemble src = None \<Longrightarrow> \<exists>(a, l) \<in> set (p1_lines p). encode14 (p1_sym p) l = None"
    using ok emit_words_total [of "p1_lines p" "replicate (p1_org p) 0" ?enc] a
    by (fastforce simp: p1_ok_def)
  moreover have "length out = p1_org p \<and>
      (\<forall>(a, l) \<in> set (p1_lines p). a < length out \<and> encode14 (p1_sym p) l = Some (out ! a)) \<and>
      (\<forall>a < length out. a \<notin> fst ` set (p1_lines p) \<longrightarrow> out ! a = 0)" if "assemble src = Some out" for out
    using emit_words_facts [of ?enc "p1_lines p" "replicate (p1_org p) 0" out, OF _ s] that a by auto
  ultimately show ?thesis using s by blast
qed

lemma assemble_layout_witness:
  "\<exists>p. assemble_first_pass (''l1: MOVLW 5'' @ [CHR 0x0A] @ '' GOTO l1'') = Some p \<and>
     (\<forall>out. assemble (''l1: MOVLW 5'' @ [CHR 0x0A] @ '' GOTO l1'') = Some out \<longrightarrow> length out = p1_org p)"
proof -
  obtain p where p: "assemble_first_pass (''l1: MOVLW 5'' @ [CHR 0x0A] @ '' GOTO l1'') = Some p"
    by (simp add: assemble_first_pass_def asm_eval Let_def)
  then show ?thesis using assemble_layout [OF p] by blast
qed

section \<open>Constant tables\<close>

lemma trim_close: "CHR '')'' \<notin> set name \<Longrightarrow> trim_end_char (CHR '')'') (name @ '')'') = name"
  by (cases name rule: rev_cases) (auto simp: trim_end_char_def trim_end_by_def)

lemma parse_low:
  assumes "CHR '')'' \<notin> set name" and "tab name = Some v"
  shows "parse_lit tab (''LOW('' @ name @ '')'') = Some (v AND 0xFF)"
    and "parse_lit tab (''HIGH('' @ name @ '')'') = Some (drop_bit 8 v AND 0xFF)"
  using assms trim_close [OF assms(1)]
  by (simp_all add: parse_lit_def lit_fns_def strip_fn_def to_lower_def lower_char_def sym_value_def)

lemma table_jump_nat:
  assumes "table_fits base sz" and "i < sz" and "i < 256"
  shows "(base AND 0xFF) + i < 256"
  using assms by (auto simp: table_fits_def Let_def split: if_splits)

text \<open>C29: a constant table the assembler accepts is read right. Let \<open>.table name size\<close> pass at the table's
  base, and let the reader load PCLATH with HIGH(name) and W with an index below both the size and 256.
  Then ADDLW LOW(name) followed by MOVWF PCL, as the assembler encodes them, continues at word
  base + index: the low-byte addition never carries out of the table's window.\<close>

theorem table_read_lands:
  assumes "table_fits base sz" and "i < sz" and "i < 256" and "base + i < 0x2000"
    and "tab name = Some base" and "CHR '')'' \<notin> set name"
    and "parse_lit tab (''HIGH('' @ name @ '')'') = Some hi" and "p14_ram s 0x0A = of_nat hi"
    and "parse_lit tab (''LOW('' @ name @ '')'') = Some lo" and "p14_w s = of_nat i"
  shows "\<exists>t. p14_dispatch s pc (0x3E00 OR of_nat lo) = Some (t, pc + 1) \<and>
    p14_dispatch t (pc + 1) 0x0082 = Some (t, of_nat (base + i))"
proof -
  have lo: "lo = base mod 256" and hi: "hi = base div 256 mod 256"
    using assms(7,9) parse_low [where tab = tab and v = base, OF assms(6,5)] by (simp_all add: nat_and_ff drop_bit_eq_div)
  have sum: "base mod 256 + i < 256" using table_jump_nat [OF assms(1-3)] by (simp add: nat_and_ff)
  then have "(of_nat lo :: u16) = ucast (of_nat lo :: u8)"
    by (simp add: lo word_eq_iff_unsigned [where ?'a = nat] unat_of_nat)
  moreover have "push_bit 8 (ucast (of_nat hi :: u8) AND 0x1F) OR ucast (of_nat i + of_nat lo :: u8) =
      (of_nat (base + i) :: u16)"
  proof -
    have b: "base div 256 < 32" using assms(4) by simp
    have "(ucast (of_nat hi :: u8) AND 0x1F :: u16) = of_nat (base div 256)"
      using b by (simp add: hi word_eq_iff_unsigned [where ?'a = nat] unat_of_nat field_nat)
    moreover have "(ucast (of_nat i + of_nat lo :: u8) :: u16) = of_nat (base mod 256 + i)"
      using sum by (simp add: lo word_eq_iff_unsigned [where ?'a = nat] unat_of_nat unat_word_ariths)
    moreover have "push_bit 8 (of_nat (base div 256)) OR of_nat (base mod 256 + i) =
        (of_nat (base div 256 * 2 ^ 8 + (base mod 256 + i)) :: u16)"
      by (rule or_eq_add) (use sum in simp)
    moreover have "base div 256 * 2 ^ 8 + (base mod 256 + i) = base + i" by simp
    ultimately show ?thesis by (simp only:)
  qed
  ultimately show ?thesis
    using assms(8,10) by (simp add: exec_addlw exec_movwf_pcl)
qed

lemma table_read_lands_witness:
  "\<forall>s. \<exists>t. p14_dispatch ((p14_poke s 0x0A 1)\<lparr>p14_w := 3\<rparr>) 9 0x3E20 = Some (t, 10) \<and>
     p14_dispatch t 10 0x0082 = Some (t, 0x123)"
proof
  fix s :: pic14
  have p: "parse_lit [''t'' \<mapsto> 0x120] (''HIGH('' @ ''t'' @ '')'') = Some 1"
    "parse_lit [''t'' \<mapsto> 0x120] (''LOW('' @ ''t'' @ '')'') = Some 0x20"
    using parse_low [of "''t''" "[''t'' \<mapsto> 0x120]" "0x120"] by simp_all
  show "\<exists>t. p14_dispatch ((p14_poke s 0x0A 1)\<lparr>p14_w := 3\<rparr>) 9 0x3E20 = Some (t, 10) \<and>
      p14_dispatch t 10 0x0082 = Some (t, 0x123)"
    using table_read_lands [where sz = 4 and i = 3 and base = "0x120" and pc = 9 and
        s = "(p14_poke s 0x0A 1)\<lparr>p14_w := 3\<rparr>", OF _ _ _ _ _ _ p(1) _ p(2)]
    by (simp add: table_fits_def)
qed

end
