(* ===== verification/Ir.thy ===== *)
theory Ir
  imports RustStr
begin

text \<open>
  The intermediate representation of \<^verbatim>\<open>crates/ir/src/lib.rs\<close> that every pass reads and writes: types,
  values, instructions, functions and modules, and the read-only helpers on them. Names are the
  source's, with a suffix where Isabelle already uses one. An \<open>i64\<close> constant is an \<^typ>\<open>int\<close>; the parser
  refuses one outside the 64-bit range. A source location is kept, as the code keeps it, beside each
  instruction.
\<close>

section \<open>Types and values\<close>

datatype ty = I1 | I8 | I16 | I32 | I64 | F32

fun ty_bytes :: "ty \<Rightarrow> nat" where
  "ty_bytes I1 = 1"
| "ty_bytes I8 = 1"
| "ty_bytes I16 = 2"
| "ty_bytes I32 = 4"
| "ty_bytes F32 = 4"
| "ty_bytes I64 = 8"

datatype val = Reg string | Const int | GlobalV string

datatype bin_op = Add | Sub | And | Or | Xor | Mul | UDiv | URem | SDiv | SRem | Shl | LShr | AShr

datatype gep_base = BaseGlobal string | BaseReg string

record src_loc =
  loc_file :: string
  loc_line :: nat
  loc_col :: nat

section \<open>Instructions\<close>

record i_load =
  ld_dst :: string
  ld_ty :: ty
  ld_ptr :: string
  ld_ptr_ty :: bool
  ld_volatile :: bool
  ld_loc :: "src_loc option"

record i_store =
  st_ty :: ty
  st_val :: val
  st_ptr :: string
  st_volatile :: bool
  st_loc :: "src_loc option"

record i_bin =
  bin_dst :: string
  bin_op :: bin_op
  bin_ty :: ty
  bin_a :: val
  bin_b :: val
  bin_loc :: "src_loc option"

text \<open>\<open>Zext\<close>, \<open>Sext\<close>, \<open>Trunc\<close> and \<open>IntToPtr\<close> have the same fields in the code; one record serves the four.\<close>

record i_cast =
  ca_dst :: string
  ca_from :: ty
  ca_val :: val
  ca_to :: ty
  ca_loc :: "src_loc option"

record i_icmp =
  ic_dst :: string
  ic_pred :: string
  ic_ty :: ty
  ic_a :: val
  ic_b :: val
  ic_loc :: "src_loc option"

record i_select =
  se_dst :: string
  se_cond :: val
  se_ty :: ty
  se_a :: val
  se_b :: val
  se_ptr :: bool
  se_loc :: "src_loc option"

record call_arg =
  arg_ty :: "ty option"
  arg_val :: val
  arg_byval :: "u8 option"
  arg_sret :: bool

record i_call =
  call_dst :: "string option"
  call_ty :: "ty option"
  call_func :: string
  call_args :: "call_arg list"
  call_callees :: "string list"
  call_loc :: "src_loc option"

record i_br =
  br_target :: string
  br_loc :: "src_loc option"

record i_br_cond =
  bc_cond :: val
  bc_t :: string
  bc_f :: string
  bc_loc :: "src_loc option"

record i_switch =
  sw_val :: val
  sw_ty :: ty
  sw_default :: string
  sw_cases :: "(int \<times> string) list"
  sw_loc :: "src_loc option"

record i_phi =
  phi_dst :: string
  phi_ty :: ty
  phi_incoming :: "(val \<times> string) list"
  phi_ptr :: bool
  phi_loc :: "src_loc option"

record i_gep =
  gep_dst :: string
  gep_base :: gep_base
  gep_k :: u16
  gep_terms :: "(u16 \<times> string) list"
  gep_loc :: "src_loc option"

record i_alloca =
  al_dst :: string
  al_size :: u8
  al_loc :: "src_loc option"

datatype mem_len = LenConst u8 | LenReg val

record i_memcpy =
  mc_dst :: val
  mc_src :: val
  mc_len :: mem_len
  mc_loc :: "src_loc option"

record i_freeze =
  fr_dst :: string
  fr_ty :: ty
  fr_val :: val
  fr_loc :: "src_loc option"

record i_va_arg =
  va_dst :: string
  va_ty :: ty
  va_ptr :: string
  va_ptr_ty :: bool
  va_loc :: "src_loc option"

record i_va_start =
  vs_list :: string
  vs_loc :: "src_loc option"

datatype fbin_op = FAdd | FSub | FMul | FDiv

record i_float_bin =
  fb_dst :: string
  fb_op :: fbin_op
  fb_a :: val
  fb_b :: val
  fb_loc :: "src_loc option"

record i_fcmp =
  fc_dst :: string
  fc_pred :: string
  fc_a :: val
  fc_b :: val
  fc_loc :: "src_loc option"

datatype fconv_op = FpToSi | FpToUi | SiToFp | UiToFp | Fpext | Fptrunc

record i_float_conv =
  fv_dst :: string
  fv_op :: fconv_op
  fv_from :: ty
  fv_val :: val
  fv_to :: ty
  fv_loc :: "src_loc option"

record asm_operand =
  op_constraint :: string
  op_ptr :: string

record i_asm =
  asm_template :: string
  asm_clobbers_memory :: bool
  asm_operands :: "asm_operand list"
  asm_loc :: "src_loc option"

datatype inst =
    Load i_load | Store i_store | Bin i_bin | Ret "(ty \<times> val) option" "src_loc option"
  | Zext i_cast | Sext i_cast | Trunc i_cast | IntToPtr i_cast
  | Icmp i_icmp | Select i_select | Call i_call | Br i_br | BrCond i_br_cond | Switch i_switch
  | Phi i_phi | Gep i_gep | Alloca i_alloca | Memcpy i_memcpy | Freeze i_freeze
  | VaArg i_va_arg | VaStart i_va_start | FloatBin i_float_bin | Fcmp i_fcmp
  | FloatConv i_float_conv | Asm i_asm

fun inst_loc :: "inst \<Rightarrow> src_loc option" where
  "inst_loc (Load i) = ld_loc i"
| "inst_loc (Store i) = st_loc i"
| "inst_loc (Bin i) = bin_loc i"
| "inst_loc (Ret _ l) = l"
| "inst_loc (Zext i) = ca_loc i"
| "inst_loc (Sext i) = ca_loc i"
| "inst_loc (Trunc i) = ca_loc i"
| "inst_loc (IntToPtr i) = ca_loc i"
| "inst_loc (Icmp i) = ic_loc i"
| "inst_loc (Select i) = se_loc i"
| "inst_loc (Call i) = call_loc i"
| "inst_loc (Br i) = br_loc i"
| "inst_loc (BrCond i) = bc_loc i"
| "inst_loc (Switch i) = sw_loc i"
| "inst_loc (Phi i) = phi_loc i"
| "inst_loc (Gep i) = gep_loc i"
| "inst_loc (Alloca i) = al_loc i"
| "inst_loc (Memcpy i) = mc_loc i"
| "inst_loc (Freeze i) = fr_loc i"
| "inst_loc (VaArg i) = va_loc i"
| "inst_loc (VaStart i) = vs_loc i"
| "inst_loc (FloatBin i) = fb_loc i"
| "inst_loc (Fcmp i) = fc_loc i"
| "inst_loc (FloatConv i) = fv_loc i"
| "inst_loc (Asm i) = asm_loc i"

section \<open>What an instruction names\<close>

fun val_name :: "val \<Rightarrow> string" where
  "val_name (Reg r) = r"
| "val_name (Const _) = []"
| "val_name (GlobalV _) = []"

text \<open>\<open>collect_global_vals\<close> inserts into a set; here the set it adds.\<close>

fun global_of :: "val \<Rightarrow> string set" where
  "global_of (GlobalV g) = {g}"
| "global_of _ = {}"

fun collect_global_vals :: "inst \<Rightarrow> string set" where
  "collect_global_vals (Store s) = global_of (st_val s)"
| "collect_global_vals (Bin b) = global_of (bin_a b) \<union> global_of (bin_b b)"
| "collect_global_vals (Ret (Some (_, v)) _) = global_of v"
| "collect_global_vals (Zext z) = global_of (ca_val z)"
| "collect_global_vals (Sext z) = global_of (ca_val z)"
| "collect_global_vals (Trunc z) = global_of (ca_val z)"
| "collect_global_vals (IntToPtr z) = global_of (ca_val z)"
| "collect_global_vals (Icmp i) = global_of (ic_a i) \<union> global_of (ic_b i)"
| "collect_global_vals (Select s) = global_of (se_cond s) \<union> global_of (se_a s) \<union> global_of (se_b s)"
| "collect_global_vals (Call c) = \<Union> (set (map (global_of \<circ> arg_val) (call_args c)))"
| "collect_global_vals (Phi p) = \<Union> (set (map (global_of \<circ> fst) (phi_incoming p)))"
| "collect_global_vals (Memcpy m) = global_of (mc_dst m) \<union> global_of (mc_src m) \<union>
     (case mc_len m of LenReg v \<Rightarrow> global_of v | LenConst _ \<Rightarrow> {})"
| "collect_global_vals (Freeze f) = global_of (fr_val f)"
| "collect_global_vals (FloatBin f) = global_of (fb_a f) \<union> global_of (fb_b f)"
| "collect_global_vals (Fcmp f) = global_of (fc_a f) \<union> global_of (fc_b f)"
| "collect_global_vals (FloatConv f) = global_of (fv_val f)"
| "collect_global_vals _ = {}"

definition bare_ptr :: "string \<Rightarrow> string" where
  "bare_ptr p = (case strip_prefix ''%'' p of Some r \<Rightarrow> r | None \<Rightarrow> p)"

fun read_vals :: "inst \<Rightarrow> string list" where
  "read_vals (Load l) = [bare_ptr (ld_ptr l)]"
| "read_vals (Store s) = [bare_ptr (st_ptr s), val_name (st_val s)]"
| "read_vals (Bin b) = [val_name (bin_a b), val_name (bin_b b)]"
| "read_vals (Ret (Some (_, v)) _) = [val_name v]"
| "read_vals (Ret None _) = []"
| "read_vals (Zext z) = [val_name (ca_val z)]"
| "read_vals (Sext z) = [val_name (ca_val z)]"
| "read_vals (Trunc z) = [val_name (ca_val z)]"
| "read_vals (IntToPtr z) = [val_name (ca_val z)]"
| "read_vals (Icmp i) = [val_name (ic_a i), val_name (ic_b i)]"
| "read_vals (Select s) = [val_name (se_cond s), val_name (se_a s), val_name (se_b s)]"
| "read_vals (Call c) = map (val_name \<circ> arg_val) (call_args c) @
     (if call_callees c = [] then [] else [call_func c])"
| "read_vals (Br _) = []"
| "read_vals (BrCond b) = [val_name (bc_cond b)]"
| "read_vals (Switch s) = [val_name (sw_val s)]"
| "read_vals (Phi p) = map (val_name \<circ> fst) (phi_incoming p)"
| "read_vals (Gep g) = (case gep_base g of BaseReg r \<Rightarrow> [r] | BaseGlobal _ \<Rightarrow> []) @ map snd (gep_terms g)"
| "read_vals (Alloca _) = []"
| "read_vals (VaArg v) = [va_ptr v]"
| "read_vals (VaStart v) = [vs_list v]"
| "read_vals (Memcpy m) = [val_name (mc_dst m), val_name (mc_src m)] @
     (case mc_len m of LenConst _ \<Rightarrow> [] | LenReg v \<Rightarrow> [val_name v])"
| "read_vals (Freeze f) = [val_name (fr_val f)]"
| "read_vals (FloatBin f) = [val_name (fb_a f), val_name (fb_b f)]"
| "read_vals (Fcmp f) = [val_name (fc_a f), val_name (fc_b f)]"
| "read_vals (FloatConv f) = [val_name (fv_val f)]"
| "read_vals (Asm a) = map (bare_ptr \<circ> op_ptr) (asm_operands a)"

section \<open>Functions and modules\<close>

record ir_block =
  blk_label :: string
  blk_insts :: "inst list"

record param =
  par_name :: string
  par_width :: u8
  par_byval :: "u8 option"
  par_sret :: bool
  par_ptr :: bool

record ir_func =
  fn_name :: string
  fn_ret :: "ty option"
  fn_params :: "param list"
  fn_blocks :: "ir_block list"
  fn_isr :: bool
  fn_irq_priority :: u8
  fn_naked :: bool
  fn_unreachable_body :: bool
  fn_variadic :: bool

record placed =
  pl_byte :: u16
  pl_bit :: "u8 option"

record ir_global =
  gl_name :: string
  gl_ty :: ty
  gl_is_const :: bool
  gl_size :: u16
  gl_bytes :: "u8 list"
  gl_refs :: "(nat \<times> string \<times> u16) list"
  gl_addr :: "placed option"
  gl_internal :: bool

record ir_module =
  mod_globals :: "ir_global list"
  mod_funcs :: "ir_func list"
  mod_asm :: "string list"

definition needs_ram_init :: "ir_global \<Rightarrow> bool" where
  "needs_ram_init g \<longleftrightarrow> gl_is_const g \<or> gl_refs g \<noteq> [] \<or> (\<exists>b \<in> set (gl_bytes g). b \<noteq> 0)"

section \<open>Runtime routines\<close>

definition runtime_names :: "string list" where
  "runtime_names =
     [''__mul_u8'', ''__mul_u16'', ''__mul_s16'', ''__mul_u32'',
      ''__udivmod_u8'', ''__udiv_u8'', ''__urem_u8'',
      ''__udivmod_u16'', ''__udiv_u16'', ''__urem_u16'',
      ''__udivmod_u32'', ''__udiv_u32'', ''__urem_u32'',
      ''__sdivmod_i8'', ''__sdiv_i8'', ''__srem_i8'',
      ''__sdivmod_i16'', ''__sdiv_i16'', ''__srem_i16'',
      ''__sdivmod_i32'', ''__sdiv_i32'', ''__srem_i32'',
      ''__shl_u8'', ''__lshr_u8'', ''__ashr_i8'',
      ''__shl_u16'', ''__lshr_u16'', ''__ashr_i16'',
      ''__shl_u32'', ''__lshr_u32'', ''__ashr_i32'',
      ''__udec_u32'', ''__udec_u16_5'', ''__udec_u16_rj5'',
      ''__add_f32'', ''__sub_f32'', ''__mul_f32'', ''__div_f32'', ''__cmp_f32'',
      ''__uitofp_f32'', ''__sitofp_f32'', ''__fptoui_f32'', ''__fptosi_f32'']"

definition is_runtime_routine :: "string \<Rightarrow> bool" where
  "is_runtime_routine name \<longleftrightarrow>
     (let base = (case strip_suffix ''_isr_high'' name of Some b \<Rightarrow> b
                  | None \<Rightarrow> (case strip_suffix ''_isr'' name of Some b \<Rightarrow> b | None \<Rightarrow> name))
      in base \<in> set runtime_names)"

end
