(* ===== verification/IrText.thy ===== *)
theory IrText
  imports Ir
begin

text \<open>
  The canonical text of a module (\<open>serialize\<close> of \<^verbatim>\<open>crates/ir/src/lib.rs\<close>), the boundary between the
  passes. It omits source locations, a global's size, initial bytes and references, and refuses (a
  panic, \<^const>\<open>None\<close>) a scalar parameter whose width is not 1, 2 or 4.
\<close>

section \<open>Numbers and lists\<close>

definition int_str :: "int \<Rightarrow> string" where
  "int_str k = (if k < 0 then CHR ''-'' # dec_digits (nat (- k)) else dec_digits (nat k))"

fun join_with :: "string \<Rightarrow> string list \<Rightarrow> string" where
  "join_with sep [] = []"
| "join_with sep [w] = w"
| "join_with sep (w # ws) = w @ sep @ join_with sep ws"

section \<open>Values, types and operators\<close>

fun val_str :: "val \<Rightarrow> string" where
  "val_str (Reg r) = ''%'' @ r"
| "val_str (Const k) = int_str k"
| "val_str (GlobalV g) = ''@'' @ g"

fun ty_str :: "ty \<Rightarrow> string" where
  "ty_str I1 = ''i1''"
| "ty_str I8 = ''i8''"
| "ty_str I16 = ''i16''"
| "ty_str I32 = ''i32''"
| "ty_str I64 = ''i64''"
| "ty_str F32 = ''float''"

fun op_str :: "bin_op \<Rightarrow> string" where
  "op_str Add = ''add''"
| "op_str Sub = ''sub''"
| "op_str And = ''and''"
| "op_str Or = ''or''"
| "op_str Xor = ''xor''"
| "op_str Mul = ''mul''"
| "op_str UDiv = ''udiv''"
| "op_str URem = ''urem''"
| "op_str SDiv = ''sdiv''"
| "op_str SRem = ''srem''"
| "op_str Shl = ''shl''"
| "op_str LShr = ''lshr''"
| "op_str AShr = ''ashr''"

fun fbinop_str :: "fbin_op \<Rightarrow> string" where
  "fbinop_str FAdd = ''fadd''"
| "fbinop_str FSub = ''fsub''"
| "fbinop_str FMul = ''fmul''"
| "fbinop_str FDiv = ''fdiv''"

fun fconvop_str :: "fconv_op \<Rightarrow> string" where
  "fconvop_str FpToSi = ''fptosi''"
| "fconvop_str FpToUi = ''fptoui''"
| "fconvop_str SiToFp = ''sitofp''"
| "fconvop_str UiToFp = ''uitofp''"
| "fconvop_str Fpext = ''fpext''"
| "fconvop_str Fptrunc = ''fptrunc''"

fun escape_asm :: "string \<Rightarrow> string" where
  "escape_asm [] = []"
| "escape_asm (c # cs) =
     (if c = CHR 0x5C then [CHR 0x5C, CHR 0x5C]
      else if c = CHR 0x22 then [CHR 0x5C, CHR 0x22]
      else if c = CHR 0x0A then [CHR 0x5C, CHR ''n'']
      else [c]) @ escape_asm cs"

section \<open>Calls\<close>

definition call_arg_str :: "call_arg \<Rightarrow> string" where
  "call_arg_str a =
     (case arg_ty a of Some t \<Rightarrow> ty_str t @ '' '' | None \<Rightarrow> []) @
     (case arg_byval a of Some n \<Rightarrow> ''byval'' @ dec_digits (unat n) @ '' '' | None \<Rightarrow> []) @
     (if arg_sret a then ''sret '' else []) @ val_str (arg_val a)"

definition call_args_str :: "call_arg list \<Rightarrow> string" where
  "call_args_str args = join_with '', '' (map call_arg_str args)"

definition callee_str :: "string \<Rightarrow> string list \<Rightarrow> string" where
  "callee_str func callees = (if callees = [] then ''@'' @ func else ''%'' @ func)"

definition callees_str :: "string list \<Rightarrow> string" where
  "callees_str callees = (if callees = [] then [] else '' callees '' @ join_with '' '' callees)"

definition call_str :: "i_call \<Rightarrow> string" where
  "call_str c =
     (case (call_ty c, call_dst c) of
        (Some t, Some d) \<Rightarrow>
          ''%'' @ d @ '' = call '' @ ty_str t @ '' '' @ callee_str (call_func c) (call_callees c) @ ''('' @
          call_args_str (call_args c) @ '')'' @ callees_str (call_callees c)
      | _ \<Rightarrow>
          ''call void '' @ callee_str (call_func c) (call_callees c) @ ''('' @
          call_args_str (call_args c) @ '')'' @ callees_str (call_callees c))"

section \<open>Instructions\<close>

definition ty_or_ptr :: "bool \<Rightarrow> ty \<Rightarrow> string" where
  "ty_or_ptr ptr t = (if ptr then ''ptr'' else ty_str t)"

definition cast_str :: "string \<Rightarrow> i_cast \<Rightarrow> string" where
  "cast_str name z = ''%'' @ ca_dst z @ '' = '' @ name @ '' '' @ ty_str (ca_from z) @ '' '' @
     val_str (ca_val z) @ '' to '' @ ty_str (ca_to z)"

definition gep_str :: "i_gep \<Rightarrow> string" where
  "gep_str g = ''%'' @ gep_dst g @ '' = gep '' @
     (case gep_base g of BaseGlobal n \<Rightarrow> ''@'' @ n | BaseReg r \<Rightarrow> ''%'' @ r) @
     '' +'' @ dec_digits (unat (gep_k g)) @
     concat (map (\<lambda>(scale, r). '' +'' @ dec_digits (unat scale) @ ''*%'' @ r) (gep_terms g))"

definition asm_str :: "i_asm \<Rightarrow> string" where
  "asm_str a = ''asm '' @ [CHR 0x22] @ escape_asm (asm_template a) @ [CHR 0x22] @
     (if asm_clobbers_memory a then '' memory'' else []) @
     (if asm_operands a = [] then []
      else '' '' @ join_with '', '' (map (\<lambda>p. op_constraint p @ '' '' @ op_ptr p) (asm_operands a)))"

fun inst_str :: "inst \<Rightarrow> string" where
  "inst_str (Load l) = ''%'' @ ld_dst l @ '' = load '' @ (if ld_volatile l then ''volatile '' else []) @
     ty_or_ptr (ld_ptr_ty l) (ld_ty l) @ '' '' @ ld_ptr l"
| "inst_str (Store s) = ''store '' @ (if st_volatile s then ''volatile '' else []) @
     ty_str (st_ty s) @ '' '' @ val_str (st_val s) @ '' '' @ st_ptr s"
| "inst_str (Bin b) = ''%'' @ bin_dst b @ '' = '' @ op_str (bin_op b) @ '' '' @ ty_str (bin_ty b) @
     '' '' @ val_str (bin_a b) @ '' '' @ val_str (bin_b b)"
| "inst_str (Ret None _) = ''ret void''"
| "inst_str (Ret (Some (t, v)) _) = ''ret '' @ ty_str t @ '' '' @ val_str v"
| "inst_str (Zext z) = cast_str ''zext'' z"
| "inst_str (Sext z) = cast_str ''sext'' z"
| "inst_str (Trunc z) = cast_str ''trunc'' z"
| "inst_str (IntToPtr z) = cast_str ''inttoptr'' z"
| "inst_str (Icmp i) = ''%'' @ ic_dst i @ '' = icmp '' @ ic_pred i @ '' '' @ ty_str (ic_ty i) @ '' '' @
     val_str (ic_a i) @ '' '' @ val_str (ic_b i)"
| "inst_str (Select s) = ''%'' @ se_dst s @ '' = select i1 '' @ val_str (se_cond s) @ '' '' @
     ty_or_ptr (se_ptr s) (se_ty s) @ '' '' @ val_str (se_a s) @ '' '' @
     ty_or_ptr (se_ptr s) (se_ty s) @ '' '' @ val_str (se_b s)"
| "inst_str (Call c) = call_str c"
| "inst_str (Br b) = ''br '' @ br_target b"
| "inst_str (BrCond b) = ''br i1 '' @ val_str (bc_cond b) @ '' '' @ bc_t b @ '' '' @ bc_f b"
| "inst_str (Switch s) = ''switch '' @ ty_str (sw_ty s) @ '' '' @ val_str (sw_val s) @ '', default '' @
     sw_default s @ '', cases '' @
     join_with '', '' (map (\<lambda>(k, l). int_str k @ '' '' @ l) (sw_cases s))"
| "inst_str (Phi p) = ''%'' @ phi_dst p @ '' = phi '' @ ty_or_ptr (phi_ptr p) (phi_ty p) @ '' '' @
     join_with '' '' (map (\<lambda>(v, l). val_str v @ '' '' @ l) (phi_incoming p))"
| "inst_str (Gep g) = gep_str g"
| "inst_str (Alloca a) = ''%'' @ al_dst a @ '' = alloca '' @ dec_digits (unat (al_size a))"
| "inst_str (Memcpy m) = ''memcpy '' @ val_str (mc_dst m) @ '' '' @ val_str (mc_src m) @ '' '' @
     (case mc_len m of LenConst n \<Rightarrow> dec_digits (unat n) | LenReg v \<Rightarrow> val_str v)"
| "inst_str (Freeze f) = ''%'' @ fr_dst f @ '' = freeze '' @ ty_str (fr_ty f) @ '' '' @ val_str (fr_val f)"
| "inst_str (VaArg v) = ''%'' @ va_dst v @ '' = va_arg ptr '' @ va_ptr v @ '' '' @ ty_or_ptr (va_ptr_ty v) (va_ty v)"
| "inst_str (VaStart v) = ''va_start '' @ vs_list v"
| "inst_str (FloatBin f) = ''%'' @ fb_dst f @ '' = '' @ fbinop_str (fb_op f) @ '' float '' @
     val_str (fb_a f) @ '' '' @ val_str (fb_b f)"
| "inst_str (Fcmp f) = ''%'' @ fc_dst f @ '' = fcmp '' @ fc_pred f @ '' float '' @
     val_str (fc_a f) @ '' '' @ val_str (fc_b f)"
| "inst_str (FloatConv f) = ''%'' @ fv_dst f @ '' = '' @ fconvop_str (fv_op f) @ '' '' @ ty_str (fv_from f) @
     '' '' @ val_str (fv_val f) @ '' to '' @ ty_str (fv_to f)"
| "inst_str (Asm a) = asm_str a"

section \<open>Functions, globals and the module\<close>

definition param_str :: "param \<Rightarrow> string option" where
  "param_str p =
     (case par_byval p of
        Some n \<Rightarrow> Some (par_name p @ ''=byval'' @ dec_digits (unat n))
      | None \<Rightarrow>
          if par_sret p then Some (par_name p @ ''=sret'')
          else if par_ptr p then Some (par_name p @ ''=ptr'')
          else if par_width p = 1 then Some (par_name p @ ''=i8'')
          else if par_width p = 2 then Some (par_name p @ ''=i16'')
          else if par_width p = 4 then Some (par_name p @ ''=i32'')
          else None)"

definition global_line :: "ir_global \<Rightarrow> string" where
  "global_line g =
     (if gl_is_const g then ''const '' else ''global '') @ gl_name g @ '' '' @ ty_str (gl_ty g) @
     (case gl_addr g of
        None \<Rightarrow> []
      | Some p \<Rightarrow> '' @0x'' @ fmt_hex 2 (unat (pl_byte p)) @
          (case pl_bit p of None \<Rightarrow> [] | Some b \<Rightarrow> ''.'' @ dec_digits (unat b))) @
     (if gl_internal g then '' internal'' else [])"

definition markers_str :: "ir_func \<Rightarrow> string" where
  "markers_str f =
     (if fn_isr f then '' [isr]'' else []) @
     (if fn_irq_priority f = 1 then '' [irq1]'' else if fn_irq_priority f = 2 then '' [irq2]'' else []) @
     (if fn_naked f then '' [naked]'' else []) @
     (if fn_unreachable_body f then '' [unreachable]'' else [])"

fun map_all :: "('a \<Rightarrow> 'b option) \<Rightarrow> 'a list \<Rightarrow> 'b list option" where
  "map_all f [] = Some []"
| "map_all f (x # xs) = do { y \<leftarrow> f x; ys \<leftarrow> map_all f xs; Some (y # ys) }"

definition proto_str :: "ir_func \<Rightarrow> string list \<Rightarrow> string" where
  "proto_str f ps =
     (let proto = join_with '', '' ps in
      if fn_variadic f then proto @ (if proto = [] then [] else '', '') @ ''...'' else proto)"

definition fn_line :: "ir_func \<Rightarrow> string option" where
  "fn_line f =
     do { ps \<leftarrow> map_all param_str (fn_params f);
          Some (''fn '' @ fn_name f @ ''('' @ (case fn_ret f of Some t \<Rightarrow> ty_str t | None \<Rightarrow> ''void'') @ '')'' @
                markers_str f @ '' ('' @ proto_str f ps @ '')'') }"

definition block_lines :: "ir_block \<Rightarrow> string list" where
  "block_lines b =
     (''  block '' @ blk_label b @ '':'') # map (\<lambda>i. ''    '' @ inst_str i) (blk_insts b)"

definition func_lines :: "ir_func \<Rightarrow> string list option" where
  "func_lines f = do { l \<leftarrow> fn_line f; Some (l # concat (map block_lines (fn_blocks f))) }"

definition asm_line :: "string \<Rightarrow> string" where
  "asm_line e = ''module_asm '' @ [CHR 0x22] @ escape_asm e @ [CHR 0x22]"

definition module_lines :: "ir_module \<Rightarrow> string list option" where
  "module_lines m =
     do { fs \<leftarrow> map_all func_lines (mod_funcs m);
          Some (map asm_line (mod_asm m) @ map global_line (mod_globals m) @ concat fs) }"

text \<open>Every line the code writes ends in a line feed.\<close>

definition unlines :: "string list \<Rightarrow> string" where
  "unlines ls = concat (map (\<lambda>l. l @ [CHR 0x0A]) ls)"

definition serialize :: "ir_module \<Rightarrow> string option" where
  "serialize m = map_option unlines (module_lines m)"

end
