(* ===== verification/IrParse.thy ===== *)
theory IrParse
  imports IrText
begin

text \<open>
  The reader of the canonical text (\<open>parse\<close> of \<^verbatim>\<open>crates/ir/src/lib.rs\<close>). The chain of
  \<open>if let Some(rest) = line.strip_prefix(..)\<close> arms is the table \<open>by_prefix\<close> walks in the code's order;
  a token iterator is the list of words, its \<open>next().unwrap()\<close> a match on it. A panic is \<^const>\<open>None\<close>.
\<close>

section \<open>Numbers, tokens and parentheses\<close>

definition parse_int :: "string \<Rightarrow> int option" where
  "parse_int s =
     (case strip_prefix ''-'' s of
        Some r \<Rightarrow> if r = [] then None
                  else (case digits_val 10 0 r of
                          Some n \<Rightarrow> if n \<le> 2 ^ 63 then Some (- int n) else None | None \<Rightarrow> None)
      | None \<Rightarrow> (case from_str_radix 10 s of
                    Some n \<Rightarrow> if n < 2 ^ 63 then Some (int n) else None | None \<Rightarrow> None))"

definition parse_below :: "nat \<Rightarrow> nat \<Rightarrow> string \<Rightarrow> nat option" where
  "parse_below m r s = (case from_str_radix r s of Some n \<Rightarrow> if n < m then Some n else None | None \<Rightarrow> None)"

definition parse_u8 :: "string \<Rightarrow> u8 option" where
  "parse_u8 s = map_option of_nat (parse_below 256 10 s)"

definition parse_u16 :: "string \<Rightarrow> u16 option" where
  "parse_u16 s = map_option of_nat (parse_below 65536 10 s)"

definition trim_pct :: "string \<Rightarrow> string" where "trim_pct = dropWhile (\<lambda>c. c = CHR ''%'')"

definition trim_plus :: "string \<Rightarrow> string" where "trim_plus = dropWhile (\<lambda>c. c = CHR ''+'')"

text \<open>\<open>trim_start_matches("0x")\<close> removes the prefix as often as it stands there.\<close>

fun trim_0x :: "string \<Rightarrow> string" where
  "trim_0x (a # b # s) = (if a = CHR ''0'' \<and> b = CHR ''x'' then trim_0x s else a # b # s)"
| "trim_0x s = s"

text \<open>\<open>matching_paren\<close>: the index of the parenthesis that closes the one at \<open>opn\<close>.\<close>

fun paren_from :: "nat \<Rightarrow> nat \<Rightarrow> string \<Rightarrow> nat option" where
  "paren_from depth i [] = None"
| "paren_from depth i (c # cs) =
     (let d = (if c = CHR ''('' then depth + 1 else if c = CHR '')'' then depth - 1 else depth)
      in if d = 0 then Some i else paren_from d (i + 1) cs)"

definition matching_paren :: "string \<Rightarrow> nat \<Rightarrow> nat option" where
  "matching_paren s opn = paren_from 0 opn (drop opn s)"

text \<open>The slice \<open>s[i..j]\<close>; an inverted range is a panic.\<close>

definition slice :: "string \<Rightarrow> nat \<Rightarrow> nat \<Rightarrow> string option" where
  "slice s i j = (if i \<le> j \<and> j \<le> length s then Some (drop i (take j s)) else None)"

fun by_prefix :: "(string \<times> (string \<Rightarrow> 'a option)) list \<Rightarrow> (string \<Rightarrow> 'a option) \<Rightarrow> string \<Rightarrow> 'a option" where
  "by_prefix [] dflt s = dflt s"
| "by_prefix ((p, f) # arms) dflt s =
     (case strip_prefix p s of Some rest \<Rightarrow> f rest | None \<Rightarrow> by_prefix arms dflt s)"

section \<open>Types, values and addresses\<close>

definition ty_names :: "(string \<times> ty) list" where
  "ty_names = [(''i1'', I1), (''i8'', I8), (''ptr'', I16), (''i16'', I16), (''i32'', I32), (''i64'', I64),
     (''float'', F32), (''f32'', F32), (''double'', F32)]"

definition parse_ty :: "string \<Rightarrow> ty option" where
  "parse_ty s = map_of ty_names s"

text \<open>\<open>parse_addr\<close>: no \<open>@\<close> is the code's \<open>None\<close>; after one a bad number is a panic, the outer \<^const>\<open>None\<close>.\<close>

definition parse_addr :: "string \<Rightarrow> u16 option option" where
  "parse_addr s =
     (case strip_prefix ''@'' s of
        None \<Rightarrow> Some None
      | Some h \<Rightarrow> map_option (Some \<circ> of_nat) (parse_below 65536 16 (trim_0x h)))"

definition parse_val :: "string \<Rightarrow> val option" where
  "parse_val tok =
     (let s = trim_end_char (CHR '','') tok in
      case strip_prefix ''%'' s of Some r \<Rightarrow> Some (Reg r) | None \<Rightarrow>
      case strip_prefix ''@'' s of Some g \<Rightarrow> Some (GlobalV g) | None \<Rightarrow>
      map_option Const (parse_int s))"

section \<open>Parameters and call arguments\<close>

definition plain_param :: "string \<Rightarrow> u8 \<Rightarrow> param" where
  "plain_param name width =
     \<lparr>par_name = name, par_width = width, par_byval = None, par_sret = False, par_ptr = False\<rparr>"

definition parse_param :: "string \<Rightarrow> param option" where
  "parse_param tok =
     (let s = trim tok;
          (nm, rest) = (case find_sub ''='' s of
             Some i \<Rightarrow> (trim (take i s), trim (drop (i + 1) s)) | None \<Rightarrow> (s, []));
          name = trim_pct nm
      in case strip_prefix ''byval'' rest of
           Some n \<Rightarrow> do { k \<leftarrow> parse_u8 n; Some ((plain_param name k)\<lparr>par_byval := Some k\<rparr>) }
         | None \<Rightarrow>
             if rest = ''sret'' then Some ((plain_param name 2)\<lparr>par_sret := True\<rparr>)
             else if rest = ''ptr'' then Some ((plain_param name 2)\<lparr>par_ptr := True\<rparr>)
             else if rest \<in> set [''i1'', ''i8'', ''i16'', ''i32'', ''float'', ''f32''] then
               do { t \<leftarrow> parse_ty rest; Some (plain_param name (of_nat (ty_bytes t))) }
             else if rest = [] then Some (plain_param name 1)
             else None)"

text \<open>The loop over the words of a call argument; the last word no other arm takes is the value.\<close>

fun arg_words :: "string list \<Rightarrow> ty option \<Rightarrow> u8 option \<Rightarrow> bool \<Rightarrow> string option \<Rightarrow> call_arg option" where
  "arg_words [] t bv sr v =
     do { tok \<leftarrow> v; x \<leftarrow> parse_val tok;
          Some \<lparr>arg_ty = t, arg_val = x, arg_byval = bv, arg_sret = sr\<rparr> }"
| "arg_words (tok # toks) t bv sr v =
     (if tok \<in> set [''i1'', ''i8'', ''i16'', ''i32'', ''float'', ''f32'', ''double''] then
        arg_words toks (parse_ty tok) bv sr v
      else case strip_prefix ''byval'' tok of
        Some n \<Rightarrow> do { k \<leftarrow> parse_u8 n; arg_words toks t (Some k) sr v }
      | None \<Rightarrow> if tok = ''sret'' then arg_words toks t bv True v
                else arg_words toks t bv sr (Some tok))"

definition parse_call_arg :: "string \<Rightarrow> call_arg option" where
  "parse_call_arg s = arg_words (split_ws (trim s)) None None False None"

definition callee_pos :: "string \<Rightarrow> nat option" where
  "callee_pos rest =
     (case (find_sub ''@'' rest, find_sub ''%'' rest) of
        (Some a, Some p) \<Rightarrow> Some (min a p)
      | (Some a, None) \<Rightarrow> Some a
      | (None, Some p) \<Rightarrow> Some p
      | (None, None) \<Rightarrow> None)"

definition parse_call :: "string \<Rightarrow> (ty option \<times> string \<times> call_arg list \<times> string list) option" where
  "parse_call rest =
     do {
       pos \<leftarrow> callee_pos rest;
       t \<leftarrow> (if trim (take pos rest) = ''void'' then Some None
            else map_option Some (parse_ty (trim (take pos rest))));
       opn \<leftarrow> find_sub ''('' rest;
       func \<leftarrow> map_option trim (slice rest (pos + 1) opn);
       close \<leftarrow> matching_paren rest opn;
       args \<leftarrow> (if opn + 1 = close then Some []
               else do { inner \<leftarrow> slice rest (opn + 1) close;
                         map_all parse_call_arg (split_char (CHR '','') inner) });
       Some (t, func, args,
         case strip_prefix ''callees'' (trim (drop (close + 1) rest)) of
           Some l \<Rightarrow> split_ws l | None \<Rightarrow> [])
     }"

definition parse_call_inst :: "string option \<Rightarrow> string \<Rightarrow> inst option" where
  "parse_call_inst dst rest =
     do { (t, func, args, callees) \<leftarrow> parse_call rest;
          Some (Call \<lparr>call_dst = dst, call_ty = t, call_func = func, call_args = args,
                      call_callees = callees, call_loc = None\<rparr>) }"

section \<open>Quoted assembly text\<close>

fun unescape_asm :: "string \<Rightarrow> string" where
  "unescape_asm [] = []"
| "unescape_asm [c] = [c]"
| "unescape_asm (c # d # cs) =
     (if c = CHR 0x5C then
        (if d = CHR 0x5C then CHR 0x5C # unescape_asm cs
         else if d = CHR 0x22 then CHR 0x22 # unescape_asm cs
         else if d = CHR ''n'' then CHR 0x0A # unescape_asm cs
         else CHR 0x5C # d # unescape_asm cs)
      else c # unescape_asm (d # cs))"

text \<open>The scan to the closing quote: what stands before it, and what follows it.\<close>

fun scan_quote :: "bool \<Rightarrow> string \<Rightarrow> (string \<times> string) option" where
  "scan_quote escaped [] = None"
| "scan_quote escaped (c # cs) =
     (if \<not> escaped \<and> c = CHR 0x22 then Some ([], cs)
      else map_option (\<lambda>(inner, rest). (c # inner, rest))
             (scan_quote (\<not> escaped \<and> c = CHR 0x5C) cs))"

definition parse_quoted_unescaped :: "string \<Rightarrow> (string \<times> string) option" where
  "parse_quoted_unescaped s =
     (case dropWhile (\<lambda>c. c \<noteq> CHR 0x22) s of
        [] \<Rightarrow> None
      | _ # r \<Rightarrow> map_option (\<lambda>(inner, rest). (unescape_asm inner, rest)) (scan_quote False r))"

fun asm_ops :: "string list \<Rightarrow> asm_operand list option" where
  "asm_ops [] = Some []"
| "asm_ops (piece # pieces) =
     (case split_ws (trim piece) of
        [] \<Rightarrow> asm_ops pieces
      | con # ptr # _ \<Rightarrow> do { r \<leftarrow> asm_ops pieces; Some (\<lparr>op_constraint = con, op_ptr = ptr\<rparr> # r) }
      | _ \<Rightarrow> None)"

definition asm_operands_of :: "string \<Rightarrow> asm_operand list option" where
  "asm_operands_of rest = (if rest = [] then Some [] else asm_ops (split_char (CHR '','') rest))"

definition ws_or_comma :: "char \<Rightarrow> bool" where "ws_or_comma c \<longleftrightarrow> is_ws c \<or> c = CHR '',''"

text \<open>The clobber marker: at the front, later among the operands, or absent; and what is left.\<close>

definition asm_memory :: "string \<Rightarrow> bool \<times> string" where
  "asm_memory after =
     (case strip_prefix ''memory'' after of
        Some tail \<Rightarrow>
          if tail = [] \<or> ws_or_comma (hd tail) then (True, trim (dropWhile ws_or_comma tail))
          else (False, after)
      | None \<Rightarrow>
          if \<exists>t \<in> set (split_ws after). trim_end_char (CHR '','') (dropWhile (\<lambda>c. c = CHR '','') t) = ''memory''
          then (True, join_with '', '' (filter (\<lambda>p. trim p \<noteq> [])
                 (map (\<lambda>p. join_sp (filter (\<lambda>t. t \<noteq> ''memory'') (split_ws p)))
                    (split_char (CHR '','') after))))
          else (False, after))"

definition parse_asm :: "string \<Rightarrow> inst option" where
  "parse_asm line =
     do {
       (template, after) \<leftarrow> parse_quoted_unescaped line;
       let (mem, rest) = asm_memory (trim after);
       ops \<leftarrow> asm_operands_of rest;
       Some (Asm \<lparr>asm_template = template, asm_clobbers_memory = mem, asm_operands = ops, asm_loc = None\<rparr>)
     }"

section \<open>Instructions without a result\<close>

definition parse_memcpy :: "string \<Rightarrow> inst option" where
  "parse_memcpy rest =
     (case split_ws rest of
        d # s # l # _ \<Rightarrow> do {
          dst \<leftarrow> parse_val d; src \<leftarrow> parse_val s;
          len \<leftarrow> (case strip_prefix ''%'' l of
                   Some r \<Rightarrow> Some (LenReg (Reg r)) | None \<Rightarrow> map_option LenConst (parse_u8 l));
          Some (Memcpy \<lparr>mc_dst = dst, mc_src = src, mc_len = len, mc_loc = None\<rparr>) }
      | _ \<Rightarrow> None)"

definition parse_store :: "string \<Rightarrow> inst option" where
  "parse_store rest =
     (let ws = split_ws rest; vol = (ws \<noteq> [] \<and> hd ws = ''volatile'') in
      case (if vol then tl ws else ws) of
        t # v # p # _ \<Rightarrow> do {
          tt \<leftarrow> parse_ty t; vv \<leftarrow> parse_val v;
          Some (Store \<lparr>st_ty = tt, st_val = vv, st_ptr = p, st_volatile = vol, st_loc = None\<rparr>) }
      | _ \<Rightarrow> None)"

definition parse_ret :: "string \<Rightarrow> inst option" where
  "parse_ret rest =
     (if rest = ''void'' then Some (Ret None None)
      else case split_ws rest of
        t # v # _ \<Rightarrow> do { tt \<leftarrow> parse_ty t; vv \<leftarrow> parse_val v; Some (Ret (Some (tt, vv)) None) }
      | _ \<Rightarrow> None)"

fun skip_label :: "string list \<Rightarrow> (string \<times> string list) option" where
  "skip_label [] = None"
| "skip_label (t # ts) =
     (if t = ''label'' then (case ts of u # us \<Rightarrow> Some (u, us) | [] \<Rightarrow> None) else Some (t, ts))"

definition bare_label :: "string \<Rightarrow> string" where
  "bare_label t = trim_end_char (CHR '','') (trim_pct t)"

definition parse_br :: "string \<Rightarrow> inst option" where
  "parse_br rest =
     (case strip_prefix ''i1 '' rest of
        Some r \<Rightarrow>
          (case split_ws r of
             c # ts \<Rightarrow> do {
               cond \<leftarrow> parse_val c; (t, us) \<leftarrow> skip_label ts; (f, _) \<leftarrow> skip_label us;
               Some (BrCond \<lparr>bc_cond = cond, bc_t = bare_label t, bc_f = bare_label f, bc_loc = None\<rparr>) }
           | [] \<Rightarrow> None)
      | None \<Rightarrow> Some (Br \<lparr>br_target = trim_pct (case strip_prefix ''label '' rest of Some r \<Rightarrow> r | None \<Rightarrow> rest),
                        br_loc = None\<rparr>))"

text \<open>The case list: the pending case value is the code's \<open>pending_k\<close> with \<open>expect_val\<close>.\<close>

fun sw_case_words :: "string list \<Rightarrow> int option \<Rightarrow> (int \<times> string) list option" where
  "sw_case_words [] pending = (if pending = None then Some [] else None)"
| "sw_case_words (tok # toks) pending =
     (let t = trim_end_char (CHR '','') tok in
      if t = ''cases'' then sw_case_words toks pending
      else case pending of
        Some k \<Rightarrow> do { r \<leftarrow> sw_case_words toks None; Some ((k, trim_pct t) # r) }
      | None \<Rightarrow> do { k \<leftarrow> parse_int t; sw_case_words toks (Some k) })"

definition parse_switch :: "string \<Rightarrow> inst option" where
  "parse_switch rest =
     (case split_ws rest of
        t # v # d # ts \<Rightarrow> do {
          tt \<leftarrow> parse_ty t; vv \<leftarrow> parse_val (trim_end_char (CHR '','') v);
          (dflt, us) \<leftarrow> (if d = ''default'' then (case ts of u # us \<Rightarrow> Some (u, us) | [] \<Rightarrow> None)
                        else Some (d, ts));
          cs \<leftarrow> sw_case_words us None;
          (if cs = [] then None
           else Some (Switch \<lparr>sw_val = vv, sw_ty = tt, sw_default = bare_label dflt, sw_cases = cs,
                              sw_loc = None\<rparr>)) }
      | _ \<Rightarrow> None)"

definition parse_va_start :: "string \<Rightarrow> inst option" where
  "parse_va_start rest = Some (VaStart \<lparr>vs_list = trim rest, vs_loc = None\<rparr>)"

section \<open>Instructions with a result\<close>

definition parse_va_arg :: "string \<Rightarrow> string \<Rightarrow> inst option" where
  "parse_va_arg dst rest =
     (case rev (split_ws rest) of
        t # p # _ \<Rightarrow> do {
          tt \<leftarrow> parse_ty t;
          Some (VaArg \<lparr>va_dst = dst, va_ty = tt, va_ptr = trim_pct p, va_ptr_ty = (t = ''ptr''), va_loc = None\<rparr>) }
      | _ \<Rightarrow> None)"

definition parse_load :: "string \<Rightarrow> string \<Rightarrow> inst option" where
  "parse_load dst rest =
     (let ws = split_ws rest; vol = (ws \<noteq> [] \<and> hd ws = ''volatile'') in
      case (if vol then tl ws else ws) of
        t # p # _ \<Rightarrow> do {
          tt \<leftarrow> parse_ty t;
          Some (Load \<lparr>ld_dst = dst, ld_ty = tt, ld_ptr = p, ld_ptr_ty = (t = ''ptr''), ld_volatile = vol,
                      ld_loc = None\<rparr>) }
      | _ \<Rightarrow> None)"

definition parse_alloca :: "string \<Rightarrow> string \<Rightarrow> inst option" where
  "parse_alloca dst rest =
     do { n \<leftarrow> parse_u8 (trim rest); Some (Alloca \<lparr>al_dst = dst, al_size = n, al_loc = None\<rparr>) }"

definition parse_cast :: "string \<Rightarrow> string \<Rightarrow> i_cast option" where
  "parse_cast dst rest =
     (case split_ws rest of
        f # v # k # t # _ \<Rightarrow> do {
          ff \<leftarrow> parse_ty f; vv \<leftarrow> parse_val v; tt \<leftarrow> parse_ty t;
          (if k = ''to'' then Some \<lparr>ca_dst = dst, ca_from = ff, ca_val = vv, ca_to = tt, ca_loc = None\<rparr>
           else None) }
      | _ \<Rightarrow> None)"

definition icmp_preds :: "string list" where
  "icmp_preds = [''eq'', ''ne'', ''ult'', ''ule'', ''ugt'', ''uge'', ''slt'', ''sle'', ''sgt'', ''sge'']"

definition parse_icmp :: "string \<Rightarrow> string \<Rightarrow> inst option" where
  "parse_icmp dst rest =
     (case split_ws rest of
        p # t # a # b # _ \<Rightarrow>
          if p \<in> set icmp_preds then do {
            tt \<leftarrow> parse_ty t; aa \<leftarrow> parse_val a; bb \<leftarrow> parse_val b;
            Some (Icmp \<lparr>ic_dst = dst, ic_pred = p, ic_ty = tt, ic_a = aa, ic_b = bb, ic_loc = None\<rparr>) }
          else None
      | _ \<Rightarrow> None)"

definition parse_select :: "string \<Rightarrow> string \<Rightarrow> inst option" where
  "parse_select dst rest =
     (case split_ws rest of
        i # c # t # a # t2 # b # _ \<Rightarrow>
          if i \<noteq> ''i1'' then None
          else do {
            cc \<leftarrow> parse_val c; aa \<leftarrow> parse_val a; bb \<leftarrow> parse_val b;
            (if t = ''ptr'' then
               (if t2 = ''ptr'' then
                  Some (Select \<lparr>se_dst = dst, se_cond = cc, se_ty = I16, se_a = aa, se_b = bb,
                                se_ptr = True, se_loc = None\<rparr>)
                else None)
             else do {
               tt \<leftarrow> parse_ty t; tt2 \<leftarrow> parse_ty t2;
               (if tt = tt2 then
                  Some (Select \<lparr>se_dst = dst, se_cond = cc, se_ty = tt, se_a = aa, se_b = bb,
                                se_ptr = False, se_loc = None\<rparr>)
                else None) }) }
      | _ \<Rightarrow> None)"

fun phi_words :: "string list \<Rightarrow> (val \<times> string) list option" where
  "phi_words [] = Some []"
| "phi_words [_] = None"
| "phi_words (v # l # ts) = do { x \<leftarrow> parse_val v; r \<leftarrow> phi_words ts; Some ((x, l) # r) }"

definition parse_phi :: "string \<Rightarrow> string \<Rightarrow> inst option" where
  "parse_phi dst rest =
     (case split_ws rest of
        t # ts \<Rightarrow> do {
          tt \<leftarrow> parse_ty t; inc \<leftarrow> phi_words ts;
          Some (Phi \<lparr>phi_dst = dst, phi_ty = tt, phi_incoming = inc, phi_ptr = (t = ''ptr''), phi_loc = None\<rparr>) }
      | [] \<Rightarrow> None)"

definition parse_term :: "string \<Rightarrow> (u16 \<times> string) option" where
  "parse_term tok =
     (let t = trim_plus tok in
      do { star \<leftarrow> find_sub ''*'' t;
           s \<leftarrow> parse_u16 (take star t);
           Some (s, trim_pct (drop (star + 1) t)) })"

definition parse_gep_expr :: "string \<Rightarrow> (gep_base \<times> u16 \<times> (u16 \<times> string) list) option" where
  "parse_gep_expr rest =
     (case split_ws rest of
        b # k # ts \<Rightarrow> do {
          kk \<leftarrow> parse_u16 (trim_plus k);
          terms \<leftarrow> map_all parse_term ts;
          Some (case strip_prefix ''@'' b of Some g \<Rightarrow> BaseGlobal g | None \<Rightarrow> BaseReg (trim_pct b),
                kk, terms) }
      | _ \<Rightarrow> None)"

definition parse_gep :: "string \<Rightarrow> string \<Rightarrow> inst option" where
  "parse_gep dst rest =
     do { (b, k, ts) \<leftarrow> parse_gep_expr rest;
          Some (Gep \<lparr>gep_dst = dst, gep_base = b, gep_k = k, gep_terms = ts, gep_loc = None\<rparr>) }"

definition parse_freeze :: "string \<Rightarrow> string \<Rightarrow> inst option" where
  "parse_freeze dst rest =
     (case split_ws rest of
        t # v # _ \<Rightarrow> do { tt \<leftarrow> parse_ty t; vv \<leftarrow> parse_val v;
                        Some (Freeze \<lparr>fr_dst = dst, fr_ty = tt, fr_val = vv, fr_loc = None\<rparr>) }
      | _ \<Rightarrow> None)"

definition fbin_names :: "(string \<times> fbin_op) list" where
  "fbin_names = [(''fadd'', FAdd), (''fsub'', FSub), (''fmul'', FMul), (''fdiv'', FDiv)]"

definition fconv_names :: "(string \<times> fconv_op) list" where
  "fconv_names = [(''fptosi'', FpToSi), (''fptoui'', FpToUi), (''sitofp'', SiToFp), (''uitofp'', UiToFp),
     (''fpext'', Fpext), (''fptrunc'', Fptrunc)]"

definition bin_names :: "(string \<times> bin_op) list" where
  "bin_names = [(''add'', Add), (''sub'', Sub), (''and'', And), (''or'', Or), (''xor'', Xor), (''mul'', Mul),
     (''udiv'', UDiv), (''urem'', URem), (''sdiv'', SDiv), (''srem'', SRem), (''shl'', Shl),
     (''lshr'', LShr), (''ashr'', AShr)]"

definition parse_float_bin :: "string \<Rightarrow> fbin_op \<Rightarrow> string list \<Rightarrow> inst option" where
  "parse_float_bin dst o' ws =
     (case ws of
        t # a # b # _ \<Rightarrow>
          if parse_ty t = Some F32 then do {
            aa \<leftarrow> parse_val a; bb \<leftarrow> parse_val b;
            Some (FloatBin \<lparr>fb_dst = dst, fb_op = o', fb_a = aa, fb_b = bb, fb_loc = None\<rparr>) }
          else None
      | _ \<Rightarrow> None)"

definition parse_fcmp :: "string \<Rightarrow> string list \<Rightarrow> inst option" where
  "parse_fcmp dst ws =
     (case ws of
        p # t # a # b # _ \<Rightarrow>
          if parse_ty t = Some F32 then do {
            aa \<leftarrow> parse_val a; bb \<leftarrow> parse_val b;
            Some (Fcmp \<lparr>fc_dst = dst, fc_pred = p, fc_a = aa, fc_b = bb, fc_loc = None\<rparr>) }
          else None
      | _ \<Rightarrow> None)"

definition parse_float_conv :: "string \<Rightarrow> fconv_op \<Rightarrow> string list \<Rightarrow> inst option" where
  "parse_float_conv dst o' ws =
     (case ws of
        f # v # k # t # _ \<Rightarrow> do {
          ff \<leftarrow> parse_ty f; vv \<leftarrow> parse_val v; tt \<leftarrow> parse_ty t;
          (if k = ''to'' then Some (FloatConv \<lparr>fv_dst = dst, fv_op = o', fv_from = ff, fv_val = vv,
                                               fv_to = tt, fv_loc = None\<rparr>)
           else None) }
      | _ \<Rightarrow> None)"

definition parse_bin :: "string \<Rightarrow> string \<Rightarrow> string list \<Rightarrow> inst option" where
  "parse_bin dst name ws =
     (case ws of
        t # a # b # _ \<Rightarrow> do {
          tt \<leftarrow> parse_ty t; aa \<leftarrow> parse_val a; bb \<leftarrow> parse_val b; o' \<leftarrow> map_of bin_names name;
          Some (Bin \<lparr>bin_dst = dst, bin_op = o', bin_ty = tt, bin_a = aa, bin_b = bb, bin_loc = None\<rparr>) }
      | _ \<Rightarrow> None)"

text \<open>The arms after the prefixes: the operation is the first word.\<close>

definition parse_op :: "string \<Rightarrow> string \<Rightarrow> inst option" where
  "parse_op dst body =
     (case split_ws body of
        [] \<Rightarrow> None
      | name # ws \<Rightarrow>
          case map_of fbin_names name of Some o' \<Rightarrow> parse_float_bin dst o' ws | None \<Rightarrow>
          if name = ''fcmp'' then parse_fcmp dst ws
          else case map_of fconv_names name of Some o' \<Rightarrow> parse_float_conv dst o' ws | None \<Rightarrow>
          parse_bin dst name ws)"

definition parse_body :: "string \<Rightarrow> string \<Rightarrow> inst option" where
  "parse_body dst body =
     by_prefix
       [(''va_arg '', parse_va_arg dst), (''load '', parse_load dst),
        (''call '', parse_call_inst (Some dst)), (''alloca '', parse_alloca dst),
        (''inttoptr '', map_option IntToPtr \<circ> parse_cast dst),
        (''zext '', map_option Zext \<circ> parse_cast dst), (''trunc '', map_option Trunc \<circ> parse_cast dst),
        (''icmp '', parse_icmp dst), (''sext '', map_option Sext \<circ> parse_cast dst),
        (''select '', parse_select dst), (''phi '', parse_phi dst), (''gep '', parse_gep dst),
        (''freeze '', parse_freeze dst)]
       (parse_op dst) body"

definition parse_def :: "string \<Rightarrow> inst option" where
  "parse_def line =
     do { eq \<leftarrow> find_sub '' = '' line;
          parse_body (trim_pct (take eq line)) (trim (drop (eq + 3) line)) }"

definition parse_inst :: "string \<Rightarrow> inst option" where
  "parse_inst line =
     (if starts_with ''asm '' line then parse_asm line
      else if line = ''ret'' then Some (Ret None None)
      else by_prefix
        [(''memcpy '', parse_memcpy), (''store '', parse_store), (''ret '', parse_ret), (''br '', parse_br),
         (''switch '', parse_switch), (''call '', parse_call_inst None), (''va_start '', parse_va_start)]
        parse_def line)"

section \<open>Lines of a module\<close>

text \<open>The words after a global's name and type: placement and linkage.\<close>

fun global_words :: "string list \<Rightarrow> placed option \<Rightarrow> bool \<Rightarrow> (placed option \<times> bool) option" where
  "global_words [] addr internal = Some (addr, internal)"
| "global_words (tok # toks) addr internal =
     (if tok = ''internal'' then global_words toks addr True
      else case split_once (\<lambda>c. c = CHR ''.'') tok of
        Some (a, b) \<Rightarrow> do {
          bt \<leftarrow> parse_u8 b;
          (if unat bt < 8 then do {
             r \<leftarrow> parse_addr a;
             byte \<leftarrow> r;
             global_words toks (Some \<lparr>pl_byte = byte, pl_bit = Some bt\<rparr>) internal }
           else None) }
      | None \<Rightarrow> do {
          r \<leftarrow> parse_addr tok;
          global_words toks (map_option (\<lambda>byte. \<lparr>pl_byte = byte, pl_bit = None\<rparr>) r) internal })"

definition parse_global :: "bool \<Rightarrow> string \<Rightarrow> ir_global option" where
  "parse_global is_const rest =
     (case split_ws rest of
        name # t # toks \<Rightarrow> do {
          tt \<leftarrow> parse_ty t;
          (addr, internal) \<leftarrow> global_words toks None False;
          Some \<lparr>gl_name = name, gl_ty = tt, gl_is_const = is_const, gl_size = of_nat (ty_bytes tt),
                gl_bytes = [], gl_refs = [], gl_addr = addr, gl_internal = internal\<rparr> }
      | _ \<Rightarrow> None)"

definition parse_fn :: "string \<Rightarrow> ir_func option" where
  "parse_fn rest =
     do {
       opn \<leftarrow> find_sub ''('' rest;
       ret_close \<leftarrow> matching_paren rest opn;
       ret_str \<leftarrow> map_option trim (slice rest (opn + 1) ret_close);
       let after = drop (ret_close + 1) rest;
       p_open \<leftarrow> find_sub ''('' after;
       let marks = take p_open after;
       p_close \<leftarrow> matching_paren after p_open;
       p_str \<leftarrow> slice after (p_open + 1) p_close;
       ret \<leftarrow> (if ret_str = ''void'' \<or> ret_str = [] then Some None else map_option Some (parse_ty ret_str));
       let toks = map trim (split_char (CHR '','') p_str);
       params \<leftarrow> (if trim p_str = [] then Some []
                 else map_all parse_param (filter (\<lambda>s. s \<noteq> [] \<and> s \<noteq> ''...'') toks));
       Some \<lparr>fn_name = trim (take opn rest), fn_ret = ret, fn_params = params, fn_blocks = [],
             fn_isr = contains_sub ''[isr]'' marks,
             fn_irq_priority = (if contains_sub ''[irq1]'' marks then 1
                                else if contains_sub ''[irq2]'' marks then 2 else 0),
             fn_naked = contains_sub ''[naked]'' marks,
             fn_unreachable_body = contains_sub ''[unreachable]'' marks,
             fn_variadic = (''...'' \<in> set toks)\<rparr>
     }"

text \<open>The state of the line loop.\<close>

record ir_parser =
  ip_globals :: "ir_global list"
  ip_funcs :: "ir_func list"
  ip_asm :: "string list"
  ip_func :: "ir_func option"
  ip_block :: "ir_block option"

definition flush_block :: "ir_parser \<Rightarrow> ir_parser" where
  "flush_block st =
     (case (ip_func st, ip_block st) of
        (Some f, Some b) \<Rightarrow> st\<lparr>ip_func := Some (f\<lparr>fn_blocks := fn_blocks f @ [b]\<rparr>), ip_block := None\<rparr>
      | _ \<Rightarrow> st)"

definition flush_func :: "ir_parser \<Rightarrow> ir_parser" where
  "flush_func st =
     (let s1 = flush_block st in
      case ip_func s1 of
        Some f \<Rightarrow> s1\<lparr>ip_funcs := ip_funcs s1 @ [f], ip_func := None\<rparr>
      | None \<Rightarrow> s1)"

definition parse_label :: "string \<Rightarrow> ir_parser \<Rightarrow> ir_parser" where
  "parse_label line st =
     (let s1 = flush_block st;
          raw = trim (trim_end_char (CHR '':'') line);
          label = (case strip_prefix ''block '' raw of Some r \<Rightarrow> trim r | None \<Rightarrow> raw)
      in if label = [] then s1 else s1\<lparr>ip_block := Some \<lparr>blk_label = label, blk_insts = []\<rparr>\<rparr>)"

definition push_inst :: "inst \<Rightarrow> ir_parser \<Rightarrow> ir_parser option" where
  "push_inst i st =
     (case (ip_func st, ip_block st) of
        (Some _, Some b) \<Rightarrow> Some (st\<lparr>ip_block := Some (b\<lparr>blk_insts := blk_insts b @ [i]\<rparr>)\<rparr>)
      | _ \<Rightarrow> None)"

definition parse_line :: "string \<Rightarrow> ir_parser \<Rightarrow> ir_parser option" where
  "parse_line line st =
     (if line = [] then Some st
      else if starts_with ''module_asm '' line then
        do { (d, _) \<leftarrow> parse_quoted_unescaped line; Some (st\<lparr>ip_asm := ip_asm st @ [d]\<rparr>) }
      else
      case strip_prefix ''global '' line of Some rest \<Rightarrow>
        do { g \<leftarrow> parse_global False rest; Some (st\<lparr>ip_globals := ip_globals st @ [g]\<rparr>) } | None \<Rightarrow>
      case strip_prefix ''const '' line of Some rest \<Rightarrow>
        do { g \<leftarrow> parse_global True rest; Some (st\<lparr>ip_globals := ip_globals st @ [g]\<rparr>) } | None \<Rightarrow>
      case strip_prefix ''fn '' line of Some rest \<Rightarrow>
        do { f \<leftarrow> parse_fn rest; Some ((flush_func st)\<lparr>ip_func := Some f\<rparr>) } | None \<Rightarrow>
      if line = ''}'' \<or> line = ''{'' then Some st
      else if strip_suffix '':'' line \<noteq> None then Some (parse_label line st)
      else do { i \<leftarrow> parse_inst line; push_inst i st })"

fun parse_lines :: "string list \<Rightarrow> ir_parser \<Rightarrow> ir_parser option" where
  "parse_lines [] st = Some st"
| "parse_lines (l # ls) st = do { s1 \<leftarrow> parse_line (trim l) st; parse_lines ls s1 }"

definition parse :: "string \<Rightarrow> ir_module option" where
  "parse txt =
     do {
       st \<leftarrow> parse_lines (str_lines txt)
              \<lparr>ip_globals = [], ip_funcs = [], ip_asm = [], ip_func = None, ip_block = None\<rparr>;
       let s1 = flush_func st;
       Some \<lparr>mod_globals = ip_globals s1, mod_funcs = ip_funcs s1, mod_asm = ip_asm s1\<rparr>
     }"

end
