(* ===== verification/IrTokens.thy ===== *)
theory IrTokens
  imports IrParse
begin

text \<open>
  Words of the canonical text: what a name, a value, a type or a number looks like in it and that the
  reader takes each back; a line as a list of words (\<open>split_ws (join_sp ws) = ws\<close>); and the modules the
  text can carry (\<open>wf_module\<close>).
\<close>

section \<open>Names and words\<close>

definition name_char :: "char \<Rightarrow> bool" where
  "name_char c \<longleftrightarrow> c \<in> set ''abcdefghijklmnopqrstuvwxyzABCDEFGHIJKLMNOPQRSTUVWXYZ0123456789_.$-''"

definition ident :: "string \<Rightarrow> bool" where
  "ident s \<longleftrightarrow> s \<noteq> [] \<and> (\<forall>c \<in> set s. name_char c)"

text \<open>A word of the text: no blank, comma or colon in it.\<close>

definition word_char :: "char \<Rightarrow> bool" where
  "word_char c \<longleftrightarrow> \<not> is_ws c \<and> c \<noteq> CHR '','' \<and> c \<noteq> CHR '':''"

definition word :: "string \<Rightarrow> bool" where
  "word s \<longleftrightarrow> s \<noteq> [] \<and> (\<forall>c \<in> set s. word_char c)"

lemma name_char_not:
  "name_char c \<Longrightarrow> word_char c \<and> c \<notin> set ''%@=()+*:{}[]'' \<and> c \<noteq> CHR 0x22 \<and> c \<noteq> CHR 0x5C \<and> c \<noteq> CHR '' ''"
  unfolding name_char_def by (simp, elim disjE) (simp_all add: word_char_def is_ws_def)

lemma ident_word: "ident s \<Longrightarrow> word s"
  using name_char_not by (auto simp: ident_def word_def)

lemma ident_not_in: "ident s \<Longrightarrow> c \<in> set ''%@=()+*:{}[], '' \<Longrightarrow> c \<notin> set s"
  using name_char_not by (fastforce simp: ident_def word_char_def is_ws_def)

lemma word_nonempty [simp]: "word s \<Longrightarrow> s \<noteq> []"
  by (simp add: word_def)

lemma word_not_ws: "word s \<Longrightarrow> \<forall>c \<in> set s. \<not> is_ws c"
  by (simp add: word_def word_char_def)

lemma word_append: "word s \<Longrightarrow> \<forall>c \<in> set t. word_char c \<Longrightarrow> word (s @ t) \<and> word (t @ s)"
  by (auto simp: word_def)

section \<open>Prefixes\<close>

lemma strip_prefix_rec [simp]:
  "strip_prefix [] s = Some s"
  "strip_prefix (a # p) [] = None"
  "strip_prefix (a # p) (b # s) = (if a = b then strip_prefix p s else None)"
  by (simp_all add: strip_prefix_def)

lemma strip_prefix_append [simp]: "strip_prefix p (p @ s) = Some s"
  by (induction p) simp_all

lemma strip_prefix_notin: "c \<in> set p \<Longrightarrow> c \<notin> set s \<Longrightarrow> strip_prefix p s = None"
proof (induction p arbitrary: s)
  case (Cons a p)
  then show ?case by (cases s) auto
qed simp

lemma find_sub_skip:
  assumes "p \<noteq> []" and "hd p \<notin> set s"
  shows "find_sub p (s @ p @ t) = Some (length s)"
  using assms
proof (induction s)
  case Nil
  then obtain a q where "p = a # q" by (cases p) auto
  then show ?case by (simp add: starts_with_def)
next
  case (Cons x s)
  then have "\<not> starts_with p (x # s @ p @ t)" by (cases p) (auto simp: starts_with_def)
  then show ?case using Cons by simp
qed

lemma find_sub_char: "c \<notin> set s \<Longrightarrow> find_sub [c] (s @ c # t) = Some (length s)"
  using find_sub_skip [of "[c]" s t] by simp

lemma find_sub_none: "p \<noteq> [] \<Longrightarrow> hd p \<notin> set s \<Longrightarrow> find_sub p s = None"
proof (induction s)
  case (Cons x s)
  then have "\<not> starts_with p (x # s)" by (cases p) (auto simp: starts_with_def)
  then show ?case using Cons by simp
qed simp

section \<open>Lines as lists of words\<close>

lemma join_sp_cons: "ws \<noteq> [] \<Longrightarrow> join_sp (w # ws) = w @ CHR '' '' # join_sp ws"
  by (cases ws) simp_all

text \<open>A piece between blanks, which may end in a comma.\<close>

definition tok :: "string \<Rightarrow> bool" where
  "tok s \<longleftrightarrow> s \<noteq> [] \<and> (\<forall>c \<in> set s. \<not> is_ws c)"

lemma word_tok: "word s \<Longrightarrow> tok s"
  using word_not_ws by (simp add: tok_def)

lemma split_ws_join_tok: "\<forall>w \<in> set ws. tok w \<Longrightarrow> split_ws (join_sp ws) = ws"
proof (induction ws)
  case (Cons w ws)
  then have w: "\<forall>c \<in> set w. \<not> is_ws c" "w \<noteq> []" by (simp_all add: tok_def)
  show ?case
  proof (cases "ws = []")
    case True
    then show ?thesis using split_ws_word [OF w] by simp
  next
    case False
    have "split_ws (w @ CHR '' '' # join_sp ws) = w # split_ws (join_sp ws)"
      by (rule split_ws_cons) (use w in \<open>simp_all add: is_ws_def\<close>)
    then show ?thesis using Cons False by (simp add: join_sp_cons)
  qed
qed (simp add: split_ws_nil)

lemma split_ws_join_sp: "\<forall>w \<in> set ws. word w \<Longrightarrow> split_ws (join_sp ws) = ws"
  by (rule split_ws_join_tok) (use word_tok in blast)

lemma join_sp_ends:
  assumes "ws \<noteq> []" and "\<forall>w \<in> set ws. w \<noteq> []"
  shows "join_sp ws \<noteq> [] \<and> hd (join_sp ws) = hd (hd ws) \<and> last (join_sp ws) = last (last ws)"
  using assms
proof (induction ws)
  case (Cons w ws)
  then show ?case by (cases "ws = []") (auto simp: join_sp_cons)
qed simp

lemma join_sp_set: "set (join_sp ws) \<subseteq> {CHR '' ''} \<union> \<Union> (set ` set ws)"
proof (induction ws)
  case (Cons w ws)
  then show ?case by (cases "ws = []") (auto simp: join_sp_cons)
qed simp

lemma word_ends: "word w \<Longrightarrow> \<not> is_ws (hd w) \<and> \<not> is_ws (last w)"
  using word_not_ws by (auto simp: word_def)

lemma trim_join_sp: "\<forall>w \<in> set ws. word w \<Longrightarrow> trim (join_sp ws) = join_sp ws"
proof (cases "ws = []")
  case True
  then show ?thesis by (simp add: trim_def trim_start_def trim_end_by_def)
next
  case False
  assume w: "\<forall>w \<in> set ws. word w"
  then have e: "join_sp ws \<noteq> []" "hd (join_sp ws) = hd (hd ws)" "last (join_sp ws) = last (last ws)"
    using join_sp_ends [OF False] by auto
  moreover have "word (hd ws)" "word (last ws)" using w False by auto
  ultimately show ?thesis using word_ends by (simp add: trim_keep)
qed

lemma trim_word: "word w \<Longrightarrow> trim w = w"
  using trim_join_sp [of "[w]"] by simp

lemma trim_end_word [simp]: "word w \<Longrightarrow> trim_end_char (CHR '','') w = w"
  unfolding trim_end_char_def
  by (rule trim_end_by_keep) (auto simp: word_def word_char_def)

lemma trim_end_comma [simp]: "word w \<Longrightarrow> trim_end_char (CHR '','') (w @ '','') = w"
  using trim_end_word [of w] by (simp add: trim_end_char_def trim_end_by_def)

lemma trim_pct_ident [simp]: "ident s \<Longrightarrow> trim_pct s = s"
  using ident_not_in [of s "CHR ''%''"] by (cases s) (auto simp: trim_pct_def)

lemma trim_pct_reg [simp]: "ident s \<Longrightarrow> trim_pct (CHR ''%'' # s) = s"
  using trim_pct_ident [of s] by (simp add: trim_pct_def)

section \<open>Numbers\<close>

definition digit_char :: "char \<Rightarrow> bool" where "digit_char c \<longleftrightarrow> c \<in> set ''0123456789''"

lemma hex_digit_dec: "n < 10 \<Longrightarrow> digit_char (hex_digit n)"
proof -
  assume "n < 10"
  then have "n \<in> {0, Suc 0, 2, 3, 4, 5, 6, 7, 8, 9}" by auto
  then show ?thesis by (elim insertE emptyE) (simp_all add: hex_digit_table digit_char_def)
qed

lemma dec_digits_chars: "\<forall>c \<in> set (dec_digits n). digit_char c"
proof (induction n rule: dec_digits.induct)
  case (1 n)
  then show ?case
    by (cases "n < 10") (auto simp: dec_digits.simps [of n] hex_digit_dec)
qed

lemma dec_digits_nonempty [simp]: "dec_digits n \<noteq> []"
  by (subst dec_digits.simps) simp

lemma digit_name: "digit_char c \<Longrightarrow> name_char c \<and> c \<noteq> CHR ''-''"
  unfolding digit_char_def by (simp, elim disjE) (simp_all add: name_char_def)

lemma dec_digits_ident: "ident (dec_digits n)"
  using dec_digits_chars digit_name by (auto simp: ident_def)

lemma dec_digits_hd: "hd (dec_digits n) \<noteq> CHR ''+'' \<and> hd (dec_digits n) \<noteq> CHR ''-''"
proof -
  have "hd (dec_digits n) \<in> set (dec_digits n)" by simp
  then have "digit_char (hd (dec_digits n))" using dec_digits_chars by blast
  then show ?thesis by (auto simp: digit_char_def)
qed

lemma from_str_dec: "n < 2 ^ 64 \<Longrightarrow> from_str_radix 10 (dec_digits n) = Some n"
  using dec_digits_hd [of n] digits_val_decimal [of n]
  by (cases "dec_digits n") (auto simp: from_str_radix_def)

lemma parse_below_dec: "n < m \<Longrightarrow> m \<le> 2 ^ 64 \<Longrightarrow> parse_below m 10 (dec_digits n) = Some n"
  by (simp add: parse_below_def from_str_dec)

lemma parse_u8_dec [simp]: "parse_u8 (dec_digits (unat n)) = Some (n :: u8)"
  using u8_less_256 [of n] by (simp add: parse_u8_def parse_below_dec)

lemma parse_u16_dec [simp]: "parse_u16 (dec_digits (unat n)) = Some (n :: u16)"
  using u16_less_65536 [of n] by (simp add: parse_u16_def parse_below_dec)

definition i64 :: "int \<Rightarrow> bool" where "i64 k \<longleftrightarrow> - (2 ^ 63) \<le> k \<and> k < 2 ^ 63"

lemma parse_int_str: "i64 k \<Longrightarrow> parse_int (int_str k) = Some k"
proof (cases "k < 0")
  case True
  assume "i64 k"
  then have "nat (- k) \<le> nat (2 ^ 63)" unfolding i64_def by (intro nat_mono) linarith
  then have "nat (- k) \<le> 2 ^ 63" by simp
  then show ?thesis using True by (simp add: parse_int_def int_str_def digits_val_decimal)
next
  case False
  assume k: "i64 k"
  have "strip_prefix ''-'' (dec_digits (nat k)) = None"
    using dec_digits_hd [of "nat k"] by (cases "dec_digits (nat k)") auto
  moreover have "nat k < 2 ^ 63" using k False by (simp add: i64_def nat_less_iff)
  ultimately show ?thesis using False by (simp add: parse_int_def int_str_def from_str_dec)
qed

lemma int_str_ident: "ident (int_str k)"
  using dec_digits_ident [of "nat k"] dec_digits_ident [of "nat (- k)"]
  by (auto simp: int_str_def ident_def name_char_def)

section \<open>Values and types\<close>

fun wf_val :: "val \<Rightarrow> bool" where
  "wf_val (Reg r) = ident r"
| "wf_val (GlobalV g) = ident g"
| "wf_val (Const k) = i64 k"

lemma word_cons: "word_char c \<Longrightarrow> word s \<Longrightarrow> word (c # s)"
  by (simp add: word_def)

lemma word_char_sigil [simp]: "word_char (CHR ''%'')" "word_char (CHR ''@'')" "word_char (CHR ''+'')"
  "word_char (CHR ''*'')"
  by (simp_all add: word_char_def is_ws_def)

lemma word_pct: "ident s \<Longrightarrow> word (CHR ''%'' # s)"
  by (simp add: word_cons ident_word)

lemma word_at: "ident s \<Longrightarrow> word (CHR ''@'' # s)"
  by (simp add: word_cons ident_word)

lemma val_str_word: "wf_val v \<Longrightarrow> word (val_str v)"
  by (cases v) (simp_all add: word_pct word_at ident_word int_str_ident)

lemma parse_val_str [simp]: "wf_val v \<Longrightarrow> parse_val (val_str v) = Some v"
proof (cases v)
  case (Const k)
  assume "wf_val v"
  then have "i64 k" using Const by simp
  moreover have "strip_prefix ''%'' (int_str k) = None" "strip_prefix ''@'' (int_str k) = None"
    using ident_not_in [OF int_str_ident, of "CHR ''%''" k] ident_not_in [OF int_str_ident, of "CHR ''@''" k]
    by (simp_all add: strip_prefix_notin [of "CHR ''%''"] strip_prefix_notin [of "CHR ''@''"])
  ultimately show ?thesis
    using Const ident_word [OF int_str_ident] by (simp add: parse_val_def parse_int_str)
next
  case (Reg r)
  assume "wf_val v"
  then have "trim_end_char (CHR '','') (CHR ''%'' # r) = CHR ''%'' # r"
    using Reg by (intro trim_end_word word_pct) simp
  then show ?thesis using Reg by (simp add: parse_val_def)
next
  case (GlobalV g)
  assume "wf_val v"
  then have "trim_end_char (CHR '','') (CHR ''@'' # g) = CHR ''@'' # g"
    using GlobalV by (intro trim_end_word word_at) simp
  then show ?thesis using GlobalV by (simp add: parse_val_def)
qed

lemma parse_val_comma [simp]: "wf_val v \<Longrightarrow> parse_val (trim_end_char (CHR '','') (val_str v @ '','')) = Some v"
  using val_str_word [of v] by simp

lemma ty_str_ident: "ident (ty_str t)"
  by (cases t) (simp_all add: ident_def name_char_def)

lemma ty_or_ptr_ident: "ident (ty_or_ptr p t)"
  by (simp add: ty_or_ptr_def ty_str_ident) (simp add: ident_def name_char_def)

lemma parse_ty_str [simp]: "parse_ty (ty_str t) = Some t"
  by (cases t) (simp_all add: parse_ty_def ty_names_def)

lemma ty_str_not [simp]: "ty_str t \<noteq> ''ptr''" "ty_str t \<noteq> ''volatile''" "ty_str t \<noteq> ''void''" "ty_str t \<noteq> []"
  by (cases t; simp)+

lemma parse_ty_or_ptr [simp]: "(p \<longrightarrow> t = I16) \<Longrightarrow> parse_ty (ty_or_ptr p t) = Some t"
  by (cases p) (simp_all add: ty_or_ptr_def parse_ty_def [of "''ptr''"] ty_names_def)

lemma ty_or_ptr_iff [simp]: "ty_or_ptr p t = ''ptr'' \<longleftrightarrow> p" "ty_or_ptr p t \<noteq> ''volatile''"
  by (simp_all add: ty_or_ptr_def)

end
