(* ===== verification/IrInst.thy ===== *)
theory IrInst
  imports IrTokens
begin

text \<open>
  One instruction line: for every instruction the text can carry (\<open>wf_inst\<close>), what \<open>inst_str\<close> writes
  \<open>parse_inst\<close> reads back, up to the source location, which the text omits.
\<close>

declare join_sp.simps [simp del]

section \<open>The instructions the text can carry\<close>

definition wf_ptr :: "string \<Rightarrow> bool" where
  "wf_ptr p \<longleftrightarrow> (\<exists>n. ident n \<and> (p = CHR ''%'' # n \<or> p = CHR ''@'' # n))"

text \<open>The type token of a call argument is read only for the types a value argument has.\<close>

definition wf_arg :: "call_arg \<Rightarrow> bool" where
  "wf_arg a \<longleftrightarrow> arg_ty a \<noteq> Some I64 \<and> wf_val (arg_val a)"

definition wf_operand :: "asm_operand \<Rightarrow> bool" where
  "wf_operand p \<longleftrightarrow> word (op_constraint p) \<and> op_constraint p \<noteq> ''memory'' \<and> wf_ptr (op_ptr p)"

definition wf_cast :: "i_cast \<Rightarrow> bool" where
  "wf_cast z \<longleftrightarrow> ident (ca_dst z) \<and> wf_val (ca_val z)"

fun wf_inst :: "inst \<Rightarrow> bool" where
  "wf_inst (Load l) \<longleftrightarrow> ident (ld_dst l) \<and> wf_ptr (ld_ptr l) \<and> (ld_ptr_ty l \<longrightarrow> ld_ty l = I16)"
| "wf_inst (Store s) \<longleftrightarrow> wf_val (st_val s) \<and> wf_ptr (st_ptr s)"
| "wf_inst (Bin b) \<longleftrightarrow> ident (bin_dst b) \<and> wf_val (bin_a b) \<and> wf_val (bin_b b)"
| "wf_inst (Ret r _) \<longleftrightarrow> (\<forall>t v. r = Some (t, v) \<longrightarrow> wf_val v)"
| "wf_inst (Zext z) \<longleftrightarrow> wf_cast z"
| "wf_inst (Sext z) \<longleftrightarrow> wf_cast z"
| "wf_inst (Trunc z) \<longleftrightarrow> wf_cast z"
| "wf_inst (IntToPtr z) \<longleftrightarrow> wf_cast z"
| "wf_inst (Icmp i) \<longleftrightarrow> ident (ic_dst i) \<and> ic_pred i \<in> set icmp_preds \<and> wf_val (ic_a i) \<and> wf_val (ic_b i)"
| "wf_inst (Select s) \<longleftrightarrow> ident (se_dst s) \<and> wf_val (se_cond s) \<and> wf_val (se_a s) \<and> wf_val (se_b s) \<and>
     (se_ptr s \<longrightarrow> se_ty s = I16)"
| "wf_inst (Call c) \<longleftrightarrow> (case call_dst c of None \<Rightarrow> call_ty c = None | Some d \<Rightarrow> ident d \<and> call_ty c \<noteq> None) \<and>
     ident (call_func c) \<and> (\<forall>a \<in> set (call_args c). wf_arg a) \<and> (\<forall>f \<in> set (call_callees c). ident f)"
| "wf_inst (Br b) \<longleftrightarrow> ident (br_target b)"
| "wf_inst (BrCond b) \<longleftrightarrow> wf_val (bc_cond b) \<and> ident (bc_t b) \<and> ident (bc_f b) \<and>
     bc_t b \<noteq> ''label'' \<and> bc_f b \<noteq> ''label''"
| "wf_inst (Switch s) \<longleftrightarrow> wf_val (sw_val s) \<and> ident (sw_default s) \<and> sw_cases s \<noteq> [] \<and>
     (\<forall>(k, l) \<in> set (sw_cases s). i64 k \<and> ident l \<and> l \<noteq> ''cases'')"
| "wf_inst (Phi p) \<longleftrightarrow> ident (phi_dst p) \<and> (phi_ptr p \<longrightarrow> phi_ty p = I16) \<and> phi_incoming p \<noteq> [] \<and>
     (\<forall>(v, l) \<in> set (phi_incoming p). wf_val v \<and> ident l)"
| "wf_inst (Gep g) \<longleftrightarrow> ident (gep_dst g) \<and> (case gep_base g of BaseGlobal n \<Rightarrow> ident n | BaseReg r \<Rightarrow> ident r) \<and>
     (\<forall>(s, r) \<in> set (gep_terms g). ident r)"
| "wf_inst (Alloca a) \<longleftrightarrow> ident (al_dst a)"
| "wf_inst (Memcpy m) \<longleftrightarrow> wf_val (mc_dst m) \<and> wf_val (mc_src m) \<and>
     (case mc_len m of LenConst _ \<Rightarrow> True | LenReg v \<Rightarrow> (\<exists>r. v = Reg r \<and> ident r))"
| "wf_inst (Freeze f) \<longleftrightarrow> ident (fr_dst f) \<and> wf_val (fr_val f)"
| "wf_inst (VaArg v) \<longleftrightarrow> ident (va_dst v) \<and> ident (va_ptr v) \<and> (va_ptr_ty v \<longrightarrow> va_ty v = I16)"
| "wf_inst (VaStart v) \<longleftrightarrow> ident (vs_list v)"
| "wf_inst (FloatBin f) \<longleftrightarrow> ident (fb_dst f) \<and> wf_val (fb_a f) \<and> wf_val (fb_b f)"
| "wf_inst (Fcmp f) \<longleftrightarrow> ident (fc_dst f) \<and> ident (fc_pred f) \<and> wf_val (fc_a f) \<and> wf_val (fc_b f)"
| "wf_inst (FloatConv f) \<longleftrightarrow> ident (fv_dst f) \<and> wf_val (fv_val f)"
| "wf_inst (Asm a) \<longleftrightarrow> (\<forall>p \<in> set (asm_operands a). wf_operand p)"

text \<open>The instruction without its source location, which is what the text keeps.\<close>

fun unloc :: "inst \<Rightarrow> inst" where
  "unloc (Load i) = Load (i\<lparr>ld_loc := None\<rparr>)"
| "unloc (Store i) = Store (i\<lparr>st_loc := None\<rparr>)"
| "unloc (Bin i) = Bin (i\<lparr>bin_loc := None\<rparr>)"
| "unloc (Ret r _) = Ret r None"
| "unloc (Zext i) = Zext (i\<lparr>ca_loc := None\<rparr>)"
| "unloc (Sext i) = Sext (i\<lparr>ca_loc := None\<rparr>)"
| "unloc (Trunc i) = Trunc (i\<lparr>ca_loc := None\<rparr>)"
| "unloc (IntToPtr i) = IntToPtr (i\<lparr>ca_loc := None\<rparr>)"
| "unloc (Icmp i) = Icmp (i\<lparr>ic_loc := None\<rparr>)"
| "unloc (Select i) = Select (i\<lparr>se_loc := None\<rparr>)"
| "unloc (Call i) = Call (i\<lparr>call_loc := None\<rparr>)"
| "unloc (Br i) = Br (i\<lparr>br_loc := None\<rparr>)"
| "unloc (BrCond i) = BrCond (i\<lparr>bc_loc := None\<rparr>)"
| "unloc (Switch i) = Switch (i\<lparr>sw_loc := None\<rparr>)"
| "unloc (Phi i) = Phi (i\<lparr>phi_loc := None\<rparr>)"
| "unloc (Gep i) = Gep (i\<lparr>gep_loc := None\<rparr>)"
| "unloc (Alloca i) = Alloca (i\<lparr>al_loc := None\<rparr>)"
| "unloc (Memcpy i) = Memcpy (i\<lparr>mc_loc := None\<rparr>)"
| "unloc (Freeze i) = Freeze (i\<lparr>fr_loc := None\<rparr>)"
| "unloc (VaArg i) = VaArg (i\<lparr>va_loc := None\<rparr>)"
| "unloc (VaStart i) = VaStart (i\<lparr>vs_loc := None\<rparr>)"
| "unloc (FloatBin i) = FloatBin (i\<lparr>fb_loc := None\<rparr>)"
| "unloc (Fcmp i) = Fcmp (i\<lparr>fc_loc := None\<rparr>)"
| "unloc (FloatConv i) = FloatConv (i\<lparr>fv_loc := None\<rparr>)"
| "unloc (Asm i) = Asm (i\<lparr>asm_loc := None\<rparr>)"

section \<open>Dispatch on the first word\<close>

lemma parse_inst_def_text:
  assumes "ident d" and "trim b = b"
  shows "parse_inst (''%'' @ d @ '' = '' @ b) = parse_body d b"
proof -
  have "CHR '' '' \<notin> set (CHR ''%'' # d)" using ident_not_in [OF assms(1)] by simp
  then have "find_sub '' = '' ((CHR ''%'' # d) @ '' = '' @ b) = Some (length (CHR ''%'' # d))"
    by (intro find_sub_skip) simp_all
  then have "find_sub '' = '' (''%'' @ d @ '' = '' @ b) = Some (Suc (length d))" by simp
  moreover have "drop (4 + length d) (CHR ''%'' # d @ '' = '' @ b) = b" by (simp add: numeral_eq_Suc)
  ultimately show ?thesis
    using assms by (simp add: parse_inst_def starts_with_def parse_def_def)
qed

lemmas parse_inst_def_line = parse_inst_def_text [OF _ trim_join_sp]

lemma body_arms:
  assumes "ws \<noteq> []"
  shows
    "parse_body d (join_sp (''va_arg'' # ws)) = parse_va_arg d (join_sp ws)"
    "parse_body d (join_sp (''load'' # ws)) = parse_load d (join_sp ws)"
    "parse_body d (join_sp (''alloca'' # ws)) = parse_alloca d (join_sp ws)"
    "parse_body d (join_sp (''inttoptr'' # ws)) = map_option IntToPtr (parse_cast d (join_sp ws))"
    "parse_body d (join_sp (''zext'' # ws)) = map_option Zext (parse_cast d (join_sp ws))"
    "parse_body d (join_sp (''trunc'' # ws)) = map_option Trunc (parse_cast d (join_sp ws))"
    "parse_body d (join_sp (''icmp'' # ws)) = parse_icmp d (join_sp ws)"
    "parse_body d (join_sp (''sext'' # ws)) = map_option Sext (parse_cast d (join_sp ws))"
    "parse_body d (join_sp (''select'' # ws)) = parse_select d (join_sp ws)"
    "parse_body d (join_sp (''phi'' # ws)) = parse_phi d (join_sp ws)"
    "parse_body d (join_sp (''gep'' # ws)) = parse_gep d (join_sp ws)"
    "parse_body d (join_sp (''freeze'' # ws)) = parse_freeze d (join_sp ws)"
    "parse_body d (join_sp (''fcmp'' # ws)) = parse_op d (join_sp (''fcmp'' # ws))"
  using assms by (simp_all add: parse_body_def join_sp_cons)

lemma body_bin: "ws \<noteq> [] \<Longrightarrow> parse_body d (join_sp (op_str o' # ws)) = parse_op d (join_sp (op_str o' # ws))"
  by (cases o') (simp_all add: parse_body_def join_sp_cons)

lemma body_fbin:
  "ws \<noteq> [] \<Longrightarrow> parse_body d (join_sp (fbinop_str o' # ws)) = parse_op d (join_sp (fbinop_str o' # ws))"
  by (cases o') (simp_all add: parse_body_def join_sp_cons)

lemma body_fconv:
  "ws \<noteq> [] \<Longrightarrow> parse_body d (join_sp (fconvop_str o' # ws)) = parse_op d (join_sp (fconvop_str o' # ws))"
  by (cases o') (simp_all add: parse_body_def join_sp_cons)

lemma inst_arms:
  assumes "ws \<noteq> []"
  shows
    "parse_inst (join_sp (''memcpy'' # ws)) = parse_memcpy (join_sp ws)"
    "parse_inst (join_sp (''store'' # ws)) = parse_store (join_sp ws)"
    "parse_inst (join_sp (''ret'' # ws)) = parse_ret (join_sp ws)"
    "parse_inst (join_sp (''br'' # ws)) = parse_br (join_sp ws)"
    "parse_inst (join_sp (''switch'' # ws)) = parse_switch (join_sp ws)"
    "parse_inst (join_sp (''va_start'' # ws)) = parse_va_start (join_sp ws)"
  using assms by (simp_all add: parse_inst_def starts_with_def join_sp_cons)

section \<open>Words of an operand\<close>

lemma wf_ptr_word: "wf_ptr p \<Longrightarrow> word p"
  by (auto simp: wf_ptr_def word_pct word_at)

lemma word_lit:
  "word ''to''" "word ''i1''" "word ''volatile''" "word ''float''" "word ''default''" "word ''cases''" "word ''ptr''"
  "word ''va_arg''" "word ''load''" "word ''alloca''" "word ''inttoptr''" "word ''zext''" "word ''trunc''"
  "word ''icmp''" "word ''sext''" "word ''select''" "word ''phi''" "word ''gep''" "word ''freeze''" "word ''fcmp''"
  "word ''void''" "word ''memory''" "word ''store''" "word ''memcpy''" "word ''ret''" "word ''br''"
  "word ''switch''" "word ''va_start''" "word ''call''"
  by (simp_all add: word_def word_char_def is_ws_def)

lemma word_bin [simp]: "word (op_str o')"
  by (cases o') (simp_all add: word_def word_char_def is_ws_def)

lemma word_fbin [simp]: "word (fbinop_str o')"
  by (cases o') (simp_all add: word_def word_char_def is_ws_def)

lemma word_fconv [simp]: "word (fconvop_str o')"
  by (cases o') (simp_all add: word_def word_char_def is_ws_def)

lemma word_ty [simp]: "word (ty_str t)" "word (ty_or_ptr p t)"
  by (simp_all add: ident_word ty_str_ident ty_or_ptr_ident)

lemma word_pred: "p \<in> set icmp_preds \<Longrightarrow> word p"
  unfolding icmp_preds_def by (simp, elim disjE) (simp_all add: word_def word_char_def is_ws_def)

lemma word_dec [simp]: "word (dec_digits n)" "word (int_str k)"
  by (simp_all add: ident_word dec_digits_ident int_str_ident)

lemmas words = val_str_word wf_ptr_word word_lit word_pred ident_word

section \<open>A line of words\<close>

text \<open>What the line loop needs of a line: no blank at its ends, no line feed in it, no colon at its end.\<close>

definition plain_line :: "string \<Rightarrow> bool" where
  "plain_line s \<longleftrightarrow> s \<noteq> [] \<and> \<not> is_ws (hd s) \<and> \<not> is_ws (last s) \<and> CHR 0x0A \<notin> set s \<and> last s \<noteq> CHR '':''"

definition reads_back :: "inst \<Rightarrow> bool" where
  "reads_back i \<longleftrightarrow> parse_inst (inst_str i) = Some (unloc i) \<and> plain_line (inst_str i)"

lemma plain_join_tok:
  assumes "ws \<noteq> []" and "\<forall>w \<in> set ws. tok w" and "word (last ws)"
  shows "plain_line (join_sp ws)"
proof -
  have e: "join_sp ws \<noteq> []" "hd (join_sp ws) = hd (hd ws)" "last (join_sp ws) = last (last ws)"
    using join_sp_ends [of ws] assms by (auto simp: tok_def)
  have "tok (hd ws)" using assms by auto
  then have "\<not> is_ws (hd (hd ws))" by (simp add: tok_def)
  moreover have "CHR 0x0A \<notin> set (join_sp ws)"
    using join_sp_set [of ws] assms(2) by (fastforce simp: tok_def is_ws_def)
  moreover have "last (last ws) \<noteq> CHR '':''" using assms(3) by (auto simp: word_def word_char_def)
  ultimately show ?thesis using e word_ends [OF assms(3)] by (simp add: plain_line_def)
qed

lemma plain_join_sp: "ws \<noteq> [] \<Longrightarrow> \<forall>w \<in> set ws. word w \<Longrightarrow> plain_line (join_sp ws)"
  by (rule plain_join_tok) (auto simp: word_tok)

lemma reads_back_toks:
  assumes "inst_str i = join_sp ws" and "ws \<noteq> []" and "\<forall>w \<in> set ws. tok w" and "word (last ws)"
    and "parse_inst (join_sp ws) = Some (unloc i)"
  shows "reads_back i"
  using assms plain_join_tok [of ws] by (simp add: reads_back_def)

lemma reads_back_words:
  assumes "inst_str i = join_sp ws" and "ws \<noteq> []" and "\<forall>w \<in> set ws. word w"
    and "parse_inst (join_sp ws) = Some (unloc i)"
  shows "reads_back i"
  using assms plain_join_sp [of ws] by (simp add: reads_back_def)

lemma def_line_words: "ws \<noteq> [] \<Longrightarrow> ''%'' @ d @ '' = '' @ join_sp ws = join_sp ((CHR ''%'' # d) # ''='' # ws)"
  by (simp add: join_sp_cons)

lemma reads_back_def_line:
  assumes "inst_str i = ''%'' @ d @ '' = '' @ join_sp ws" and "ws \<noteq> []" and "\<forall>w \<in> set ws. word w"
    and "ident d" and "parse_body d (join_sp ws) = Some (unloc i)"
  shows "reads_back i"
proof (rule reads_back_words)
  show "inst_str i = join_sp ((CHR ''%'' # d) # ''='' # ws)"
    using assms(1,2) def_line_words by simp
  show "parse_inst (join_sp ((CHR ''%'' # d) # ''='' # ws)) = Some (unloc i)"
    using parse_inst_def_line [OF assms(4,3)] assms(5) def_line_words [OF assms(2), of d] by simp
  show "\<forall>w \<in> set ((CHR ''%'' # d) # ''='' # ws). word w"
    using assms(3,4) word_pct by (simp add: word_def word_char_def is_ws_def)
qed simp

section \<open>Instruction by instruction\<close>

lemma join_sp_one: "join_sp [w] = w"
  by (simp add: join_sp.simps)

lemmas text_eval = join_sp_cons join_sp_one

lemmas parse_eval = body_arms body_bin body_fbin body_fconv inst_arms split_ws_join_sp words

lemma rb_load: "wf_inst (Load l) \<Longrightarrow> reads_back (Load l)"
  by (cases "ld_volatile l")
    (rule reads_back_def_line [where d = "ld_dst l" and
        ws = "[''load'', ''volatile'', ty_or_ptr (ld_ptr_ty l) (ld_ty l), ld_ptr l]"],
      simp add: text_eval, simp_all add: parse_eval parse_load_def Let_def,
     rule reads_back_def_line [where d = "ld_dst l" and
        ws = "[''load'', ty_or_ptr (ld_ptr_ty l) (ld_ty l), ld_ptr l]"],
      simp add: text_eval, simp_all add: parse_eval parse_load_def Let_def)

lemma op_names [simp]:
  "map_of fbin_names (op_str o') = None" "op_str o' \<noteq> ''fcmp''" "map_of fconv_names (op_str o') = None"
  "map_of bin_names (op_str o') = Some o'"
  by (cases o'; simp add: fbin_names_def fconv_names_def bin_names_def)+

lemma fbin_op_names [simp]: "map_of fbin_names (fbinop_str o') = Some o'"
  by (cases o') (simp_all add: fbin_names_def)

lemma fconv_op_names [simp]:
  "map_of fbin_names (fconvop_str o') = None" "fconvop_str o' \<noteq> ''fcmp''"
  "map_of fconv_names (fconvop_str o') = Some o'"
  by (cases o'; simp add: fbin_names_def fconv_names_def)+

lemma rb_bin: "wf_inst (Bin b) \<Longrightarrow> reads_back (Bin b)"
  by (rule reads_back_def_line [where d = "bin_dst b" and
        ws = "[op_str (bin_op b), ty_str (bin_ty b), val_str (bin_a b), val_str (bin_b b)]"],
      simp add: text_eval, simp_all add: parse_eval parse_op_def parse_bin_def)

lemma rb_store: "wf_inst (Store s) \<Longrightarrow> reads_back (Store s)"
  by (cases "st_volatile s")
    (rule reads_back_words [where ws = "[''store'', ''volatile'', ty_str (st_ty s), val_str (st_val s), st_ptr s]"],
      simp add: text_eval, simp_all add: parse_eval parse_store_def Let_def,
     rule reads_back_words [where ws = "[''store'', ty_str (st_ty s), val_str (st_val s), st_ptr s]"],
      simp add: text_eval, simp_all add: parse_eval parse_store_def Let_def)

lemma rb_ret: "wf_inst (Ret r l) \<Longrightarrow> reads_back (Ret r l)"
proof (cases r)
  case None
  then show ?thesis
    by (intro reads_back_words [where ws = "[''ret'', ''void'']"])
      (simp_all add: parse_eval, simp_all add: text_eval parse_ret_def)
next
  case (Some p)
  assume wf: "wf_inst (Ret r l)"
  obtain t v where p: "p = (t, v)" by (cases p)
  have "join_sp [ty_str t, val_str v] \<noteq> ''void''" by (cases t) (simp_all add: text_eval)
  with wf show ?thesis
    by (intro reads_back_words [where ws = "[''ret'', ty_str t, val_str v]"])
      (simp add: Some p text_eval, simp_all add: Some p parse_eval parse_ret_def)
qed

lemma parse_cast_words:
  assumes "wf_cast z"
  shows "parse_cast (ca_dst z) (join_sp [ty_str (ca_from z), val_str (ca_val z), ''to'', ty_str (ca_to z)]) =
    Some (z\<lparr>ca_loc := None\<rparr>)"
  using assms by (simp add: wf_cast_def parse_cast_def split_ws_join_sp words)

lemma rb_cast:
  assumes "wf_cast z" and "inst_str i = cast_str name z" and "word name"
    and "\<And>ws. ws \<noteq> [] \<Longrightarrow>
      parse_body (ca_dst z) (join_sp (name # ws)) = map_option C (parse_cast (ca_dst z) (join_sp ws))"
    and "unloc i = C (z\<lparr>ca_loc := None\<rparr>)"
  shows "reads_back i"
  using assms
  by (intro reads_back_def_line [where d = "ca_dst z" and
        ws = "[name, ty_str (ca_from z), val_str (ca_val z), ''to'', ty_str (ca_to z)]"])
    (simp add: text_eval cast_str_def, simp_all add: parse_cast_words words wf_cast_def)

lemma rb_casts:
  "wf_inst (Zext z) \<Longrightarrow> reads_back (Zext z)" "wf_inst (Sext z) \<Longrightarrow> reads_back (Sext z)"
  "wf_inst (Trunc z) \<Longrightarrow> reads_back (Trunc z)" "wf_inst (IntToPtr z) \<Longrightarrow> reads_back (IntToPtr z)"
  by (rule rb_cast [where z = z and name = "''zext''"], simp_all add: word_lit body_arms)
    (rule rb_cast [where z = z and name = "''sext''"], simp_all add: word_lit body_arms,
     rule rb_cast [where z = z and name = "''trunc''"], simp_all add: word_lit body_arms,
     rule rb_cast [where z = z and name = "''inttoptr''"], simp_all add: word_lit body_arms)

lemma rb_icmp: "wf_inst (Icmp i) \<Longrightarrow> reads_back (Icmp i)"
  by (rule reads_back_def_line [where d = "ic_dst i" and
        ws = "[''icmp'', ic_pred i, ty_str (ic_ty i), val_str (ic_a i), val_str (ic_b i)]"],
      simp add: text_eval, simp_all add: parse_eval parse_icmp_def)

lemma rb_select: "wf_inst (Select s) \<Longrightarrow> reads_back (Select s)"
  by (rule reads_back_def_line [where d = "se_dst s" and
        ws = "[''select'', ''i1'', val_str (se_cond s), ty_or_ptr (se_ptr s) (se_ty s), val_str (se_a s),
               ty_or_ptr (se_ptr s) (se_ty s), val_str (se_b s)]"],
      simp add: text_eval, simp_all add: parse_eval parse_select_def)

lemma rb_br: "wf_inst (Br b) \<Longrightarrow> reads_back (Br b)"
proof -
  assume wf: "wf_inst (Br b)"
  have "CHR '' '' \<notin> set (br_target b)" using wf by (simp add: ident_not_in)
  then have "strip_prefix ''i1 '' (br_target b) = None" "strip_prefix ''label '' (br_target b) = None"
    by (simp_all add: strip_prefix_notin [of "CHR '' ''"])
  with wf show ?thesis
    by (intro reads_back_words [where ws = "[''br'', br_target b]"])
      (simp add: text_eval, simp_all add: parse_eval parse_br_def join_sp_one)
qed

lemma trim_pct_append: "ident l \<Longrightarrow> trim_pct (l @ t) = l @ t"
  using ident_not_in [of l "CHR ''%''"] ident_word [of l] by (cases l) (auto simp: trim_pct_def word_def)

lemma bare_label_ident [simp]: "ident l \<Longrightarrow> bare_label l = l"
  by (simp only: bare_label_def trim_pct_ident trim_end_word ident_word)

lemma bare_label_comma [simp]: "ident l \<Longrightarrow> bare_label (l @ '','') = l"
  by (simp only: bare_label_def trim_pct_append trim_end_comma ident_word)

lemma rb_br_cond: "wf_inst (BrCond b) \<Longrightarrow> reads_back (BrCond b)"
  by (rule reads_back_words [where ws = "[''br'', ''i1'', val_str (bc_cond b), bc_t b, bc_f b]"],
      simp add: text_eval)
    (simp_all add: parse_eval parse_br_def join_sp_cons [of "[_, _, _]"])

lemma rb_alloca: "wf_inst (Alloca a) \<Longrightarrow> reads_back (Alloca a)"
  by (rule reads_back_def_line [where d = "al_dst a" and ws = "[''alloca'', dec_digits (unat (al_size a))]"],
      simp add: text_eval, simp_all add: parse_eval parse_alloca_def join_sp_one trim_word)

lemma rb_memcpy: "wf_inst (Memcpy m) \<Longrightarrow> reads_back (Memcpy m)"
proof (cases "mc_len m")
  case (LenConst n)
  assume "wf_inst (Memcpy m)"
  moreover have "strip_prefix ''%'' (dec_digits (unat n)) = None"
    using ident_not_in [OF dec_digits_ident, of "CHR ''%''"] by (simp add: strip_prefix_notin [of "CHR ''%''"])
  ultimately show ?thesis
    using LenConst
    by (intro reads_back_words [where ws = "[''memcpy'', val_str (mc_dst m), val_str (mc_src m), dec_digits (unat n)]"])
      (simp add: text_eval, simp_all add: parse_eval parse_memcpy_def)
next
  case (LenReg v)
  assume "wf_inst (Memcpy m)"
  then show ?thesis
    using LenReg
    by (intro reads_back_words [where ws = "[''memcpy'', val_str (mc_dst m), val_str (mc_src m), val_str v]"])
      (simp add: text_eval, auto simp: parse_eval parse_memcpy_def word_pct)
qed

lemma rb_freeze: "wf_inst (Freeze f) \<Longrightarrow> reads_back (Freeze f)"
  by (rule reads_back_def_line [where d = "fr_dst f" and ws = "[''freeze'', ty_str (fr_ty f), val_str (fr_val f)]"],
      simp add: text_eval, simp_all add: parse_eval parse_freeze_def)

lemma rb_va_arg: "wf_inst (VaArg v) \<Longrightarrow> reads_back (VaArg v)"
  by (rule reads_back_def_line [where d = "va_dst v" and
        ws = "[''va_arg'', ''ptr'', va_ptr v, ty_or_ptr (va_ptr_ty v) (va_ty v)]"],
      simp add: text_eval, simp_all add: parse_eval parse_va_arg_def)

lemma rb_va_start: "wf_inst (VaStart v) \<Longrightarrow> reads_back (VaStart v)"
  by (rule reads_back_words [where ws = "[''va_start'', vs_list v]"],
      simp add: text_eval, simp_all add: parse_eval parse_va_start_def join_sp_one trim_word)

lemma rb_float_bin: "wf_inst (FloatBin f) \<Longrightarrow> reads_back (FloatBin f)"
  by (rule reads_back_def_line [where d = "fb_dst f" and
        ws = "[fbinop_str (fb_op f), ty_str F32, val_str (fb_a f), val_str (fb_b f)]"],
      simp add: text_eval, simp_all del: ty_str.simps add: parse_eval parse_op_def parse_float_bin_def)

lemma rb_fcmp: "wf_inst (Fcmp f) \<Longrightarrow> reads_back (Fcmp f)"
  by (rule reads_back_def_line [where d = "fc_dst f" and
        ws = "[''fcmp'', fc_pred f, ty_str F32, val_str (fc_a f), val_str (fc_b f)]"],
      simp add: text_eval, simp_all del: ty_str.simps add: parse_eval parse_op_def parse_fcmp_def fbin_names_def)

lemma rb_float_conv: "wf_inst (FloatConv f) \<Longrightarrow> reads_back (FloatConv f)"
  by (rule reads_back_def_line [where d = "fv_dst f" and
        ws = "[fconvop_str (fv_op f), ty_str (fv_from f), val_str (fv_val f), ''to'', ty_str (fv_to f)]"],
      simp add: text_eval, simp_all add: parse_eval parse_op_def parse_float_conv_def)


section \<open>Lists of words\<close>

lemma join_sp_append: "xs \<noteq> [] \<Longrightarrow> ys \<noteq> [] \<Longrightarrow> join_sp (xs @ ys) = join_sp xs @ '' '' @ join_sp ys"
proof (induction xs)
  case (Cons x xs)
  then show ?case by (cases "xs = []") (simp_all add: join_sp_cons join_sp_one)
qed simp

lemma join_with_blank:
  assumes "\<forall>x \<in> set xs. h x \<noteq> []"
  shows "join_with '' '' (map (\<lambda>x. join_sp (h x)) xs) = join_sp (concat (map h xs))"
  using assms
proof (induction xs)
  case (Cons x xs)
  then show ?case
    by (cases xs) (simp_all add: join_sp_append)
qed (simp add: join_sp.simps)

text \<open>Groups of words, a comma after every group but the last.\<close>

fun comma_words :: "string list list \<Rightarrow> string list" where
  "comma_words [] = []"
| "comma_words [g] = g"
| "comma_words (g # gs) = butlast g @ [last g @ '',''] @ comma_words gs"

lemma comma_words_cons: "gs \<noteq> [] \<Longrightarrow> comma_words (g # gs) = butlast g @ [last g @ '',''] @ comma_words gs"
  by (cases gs) simp_all

lemma comma_words_nonempty: "gs \<noteq> [] \<Longrightarrow> [] \<notin> set gs \<Longrightarrow> comma_words gs \<noteq> []"
  by (cases gs rule: comma_words.cases) auto

lemma join_sp_comma: "g \<noteq> [] \<Longrightarrow> join_sp (butlast g @ [last g @ s]) = join_sp g @ s"
proof (induction g)
  case (Cons w g)
  then show ?case by (cases "g = []") (simp_all add: join_sp_cons join_sp_one)
qed simp

lemma join_with_comma:
  assumes "[] \<notin> set gs"
  shows "join_with '', '' (map join_sp gs) = join_sp (comma_words gs)"
  using assms
proof (induction gs)
  case (Cons g gs)
  show ?case
  proof (cases "gs = []")
    case False
    have "join_sp ((butlast g @ [last g @ '','']) @ comma_words gs) =
        join_sp (butlast g @ [last g @ '','']) @ '' '' @ join_sp (comma_words gs)"
      by (rule join_sp_append) (use False Cons.prems comma_words_nonempty in simp_all)
    also have "join_sp (butlast g @ [last g @ '','']) = join_sp g @ '',''"
      by (rule join_sp_comma) (use Cons.prems in auto)
    moreover obtain h hs where "gs = h # hs" using False by (cases gs) auto
    ultimately show ?thesis using Cons False by (simp add: comma_words_cons)
  qed (simp add: join_sp_one)
qed (simp add: join_sp.simps)

lemma tok_comma: "tok w \<Longrightarrow> tok (w @ '','')"
  by (auto simp: tok_def is_ws_def)

lemma comma_words_tok: "\<forall>g \<in> set gs. g \<noteq> [] \<and> (\<forall>w \<in> set g. tok w) \<Longrightarrow> \<forall>w \<in> set (comma_words gs). tok w"
proof (induction gs)
  case (Cons g gs)
  have "\<forall>w \<in> set (butlast g). tok w" using Cons.prems by (auto dest: in_set_butlastD)
  with Cons show ?case
    by (cases "gs = []") (auto simp: comma_words_cons intro!: tok_comma)
qed simp

lemma comma_words_last: "gs \<noteq> [] \<Longrightarrow> [] \<notin> set gs \<Longrightarrow> last (comma_words gs) = last (last gs)"
proof (induction gs)
  case (Cons g gs)
  then show ?case
    by (cases "gs = []") (auto simp: comma_words_cons comma_words_nonempty)
qed simp

section \<open>Phi, switch and address arithmetic\<close>

lemma rb_phi: "wf_inst (Phi p) \<Longrightarrow> reads_back (Phi p)"
proof -
  assume wf: "wf_inst (Phi p)"
  let ?h = "\<lambda>(v, l). [val_str v, l]"
  let ?ws = "concat (map ?h (phi_incoming p))"
  have "map (\<lambda>(v, l). val_str v @ '' '' @ l) xs = map (\<lambda>x. join_sp (?h x)) xs" for xs
    by (simp add: case_prod_unfold join_sp_cons join_sp_one)
  then have tx: "join_with '' '' (map (\<lambda>(v, l). val_str v @ '' '' @ l) (phi_incoming p)) = join_sp ?ws"
    by (simp only:) (rule join_with_blank, auto)
  have words: "\<forall>w \<in> set ?ws. word w" using wf val_str_word ident_word by fastforce
  have ne: "?ws \<noteq> []" using wf by (cases "phi_incoming p") auto
  have "phi_words (concat (map ?h xs)) = Some xs" if "\<forall>(v, l) \<in> set xs. wf_val v" for xs
    using that by (induction xs) auto
  then have "phi_words ?ws = Some (phi_incoming p)" using wf by fastforce
  then show ?thesis
    using wf words ne
    by (intro reads_back_def_line [where d = "phi_dst p" and ws = "''phi'' # ty_or_ptr (phi_ptr p) (phi_ty p) # ?ws"])
      (simp add: text_eval tx [simplified], simp_all add: parse_eval parse_phi_def)
qed

lemma sw_cases_read:
  assumes "\<forall>(k, l) \<in> set cs. i64 k \<and> ident l \<and> l \<noteq> ''cases''"
  shows "sw_case_words (comma_words (map (\<lambda>(k, l). [int_str k, l]) cs)) None = Some cs"
  using assms
proof (induction cs)
  case (Cons c cs)
  obtain k l where c: "c = (k, l)" by (cases c)
  have k: "parse_int (int_str k) = Some k" "int_str k \<noteq> ''cases''" "word (int_str k)"
    using Cons.prems c parse_int_str [of k] by (auto simp: parse_int_def from_str_radix_def digit_val_def)
  have l: "ident l" "l \<noteq> ''cases''" "word l" using Cons.prems c ident_word by auto
  show ?case
    using Cons c k l by (cases "cs = []") (simp_all add: comma_words_cons)
qed simp

lemma rb_switch: "wf_inst (Switch s) \<Longrightarrow> reads_back (Switch s)"
proof -
  assume wf: "wf_inst (Switch s)"
  let ?gs = "map (\<lambda>(k, l). [int_str k, l]) (sw_cases s)"
  let ?ws = "''switch'' # ty_str (sw_ty s) # (val_str (sw_val s) @ '','') # ''default'' #
    (sw_default s @ '','') # ''cases'' # comma_words ?gs"
  have ne: "comma_words ?gs \<noteq> []" using wf by (intro comma_words_nonempty) auto
  have "map (\<lambda>(k, l). int_str k @ '' '' @ l) xs = map join_sp (map (\<lambda>(k, l). [int_str k, l]) xs)" for xs
    by (simp add: case_prod_unfold join_sp_cons join_sp_one)
  then have tx: "join_with '', '' (map (\<lambda>(k, l). int_str k @ '' '' @ l) (sw_cases s)) = join_sp (comma_words ?gs)"
    by (simp only:) (rule join_with_comma, auto)
  have ids: "\<forall>g \<in> set ?gs. g \<noteq> [] \<and> (\<forall>w \<in> set g. word w)"
    using wf by (simp add: case_prod_unfold ident_word)
  then have toks: "\<forall>w \<in> set (comma_words ?gs). tok w" by (intro comma_words_tok) (auto simp: word_tok)
  have "last (comma_words ?gs) = last (last ?gs)" using wf by (intro comma_words_last) auto
  moreover have "last ?gs \<in> set ?gs" using wf by (intro last_in_set) simp
  ultimately have lst: "word (last (comma_words ?gs))" using ids last_in_set by metis
  have all: "\<forall>w \<in> set ?ws. tok w"
    using toks wf by (simp add: words tok_comma word_tok)
  show ?thesis
  proof (rule reads_back_toks [where ws = ?ws])
    show "inst_str (Switch s) = join_sp ?ws" using ne tx by (simp add: text_eval)
    show "parse_inst (join_sp ?ws) = Some (unloc (Switch s))"
      using wf all sw_cases_read [of "sw_cases s"]
      by (simp add: inst_arms split_ws_join_tok parse_switch_def Let_def word_lit words
          trim_end_comma [simplified] bare_label_comma [simplified])
  qed (use all lst ne in simp_all)
qed

lemma rb_gep: "wf_inst (Gep g) \<Longrightarrow> reads_back (Gep g)"
proof -
  assume wf: "wf_inst (Gep g)"
  let ?tm = "\<lambda>(n, r). ''+'' @ dec_digits (unat (n :: u16)) @ ''*%'' @ r"
  let ?b = "case gep_base g of BaseGlobal n \<Rightarrow> ''@'' @ n | BaseReg r \<Rightarrow> ''%'' @ r"
  let ?k = "''+'' @ dec_digits (unat (gep_k g))"
  let ?ws = "''gep'' # ?b # ?k # map ?tm (gep_terms g)"
  have join: "join_sp (w # map f ts) = w @ concat (map (\<lambda>t. '' '' @ f t) ts)" for w f and ts :: "(u16 \<times> string) list"
    by (induction ts arbitrary: w) (simp_all add: join_sp_one join_sp_cons)
  have trm: "parse_term (?tm t) = Some t" "word (?tm t)" if "ident (snd t)" for t
  proof -
    obtain n r where t: "t = (n, r)" by (cases t)
    let ?d = "dec_digits (unat n)"
    have "trim_plus (CHR ''+'' # ?d @ u) = ?d @ u" for u
      using dec_digits_hd [of "unat n"] by (cases ?d) (simp_all add: trim_plus_def)
    moreover have "find_sub ''*'' (?d @ CHR ''*'' # u) = Some (length ?d)" for u
      by (rule find_sub_char) (use ident_not_in [OF dec_digits_ident] in simp)
    ultimately show "parse_term (?tm t) = Some t" using that t by (simp add: parse_term_def)
    show "word (?tm t)"
      using that t ident_word word_dec(1) [of "unat n"] by (auto simp: word_def)
  qed
  have "map_all parse_term (map ?tm ts) = Some ts" if "\<forall>(n, r) \<in> set ts. ident r" for ts
    using that trm by (induction ts) auto
  then have terms: "map_all parse_term (map ?tm (gep_terms g)) = Some (gep_terms g)" using wf by simp
  have "trim_plus ?k = dec_digits (unat (gep_k g))"
    using dec_digits_hd [of "unat (gep_k g)"] by (cases "dec_digits (unat (gep_k g))") (simp_all add: trim_plus_def)
  then have k: "parse_u16 (trim_plus ?k) = Some (gep_k g)" by simp
  have b: "(case strip_prefix ''@'' ?b of Some n \<Rightarrow> BaseGlobal n | None \<Rightarrow> BaseReg (trim_pct ?b)) = gep_base g"
    and wb: "word ?b"
    using wf by (auto simp: word_pct word_at split: gep_base.splits)
  have all: "\<forall>w \<in> set ?ws. word w"
    using wf wb trm(2) word_dec(1) by (fastforce simp: words word_cons)
  have body: "parse_gep (gep_dst g) (join_sp (?b # ?k # map ?tm (gep_terms g))) = Some (unloc (Gep g))"
    using all k terms b by (simp add: parse_gep_def parse_gep_expr_def split_ws_join_sp)
  have "inst_str (Gep g) = ''%'' @ gep_dst g @ '' = '' @ join_sp ?ws"
    by (simp add: gep_str_def join_sp_cons join case_prod_unfold)
  then show ?thesis
    using wf all body by (intro reads_back_def_line [where d = "gep_dst g" and ws = ?ws]) (simp_all add: body_arms)
qed

end
