(* ===== verification/IrCallAsm.thy ===== *)
theory IrCallAsm
  imports IrInst
begin

text \<open>
  The two instructions whose text is not a plain list of words: calls, with their parenthesised
  arguments, and inline assembly, with its quoted template; and with them the round trip of every
  instruction (\<open>inst_reads_back\<close>).
\<close>

section \<open>Comma-separated pieces\<close>

lemma split_char_word: "c \<notin> set p \<Longrightarrow> split_char c p = [p]"
  unfolding split_char_def by (rule split_by_word) auto

lemma split_char_cons: "c \<notin> set p \<Longrightarrow> split_char c (p @ c # s) = p # split_char c s"
  unfolding split_char_def by (rule split_by_cons) auto

lemma split_join_comma:
  assumes "\<forall>p \<in> set ps. CHR '','' \<notin> set p" and "ps \<noteq> []"
  shows "split_char (CHR '','') (join_with '', '' ps) = hd ps # map ((#) (CHR '' '')) (tl ps)"
  using assms
proof (induction ps)
  case (Cons p ps)
  show ?case
  proof (cases ps)
    case Nil
    then show ?thesis using Cons.prems by (simp add: split_char_word)
  next
    case (Cons q qs)
    have "split_char (CHR '','') (CHR '' '' # join_with '', '' ps) = map ((#) (CHR '' '')) ps"
    proof -
      have "split_char (CHR '','') (join_with '', '' ps) = hd ps # map ((#) (CHR '' '')) (tl ps)"
        using Cons.IH Cons.prems Cons by simp
      then show ?thesis using Cons by (simp add: split_char_def)
    qed
    then show ?thesis using Cons Cons.prems by (simp add: split_char_cons)
  qed
qed simp

lemma trim_blank_word: "word (hd gs) \<Longrightarrow> gs \<noteq> [] \<Longrightarrow> \<forall>w \<in> set gs. word w \<Longrightarrow> trim (CHR '' '' # join_sp gs) = join_sp gs"
  using trim_join_sp [of gs] by (simp add: trim_def trim_start_def is_ws_def)

section \<open>Call arguments\<close>

definition arg_toks :: "call_arg \<Rightarrow> string list" where
  "arg_toks a =
     (case arg_ty a of Some t \<Rightarrow> [ty_str t] | None \<Rightarrow> []) @
     (case arg_byval a of Some n \<Rightarrow> [''byval'' @ dec_digits (unat n)] | None \<Rightarrow> []) @
     (if arg_sret a then [''sret''] else []) @ [val_str (arg_val a)]"

lemma call_arg_str_words: "call_arg_str a = join_sp (arg_toks a)"
  by (simp add: call_arg_str_def arg_toks_def join_sp_cons join_sp_one split: option.splits)

lemma word_byval: "word (''byval'' @ dec_digits n)"
proof -
  have "\<forall>c \<in> set ''byval''. word_char c" by (simp add: word_char_def is_ws_def)
  then show ?thesis using word_append [of "dec_digits n" "''byval''"] by simp
qed

lemma arg_toks_words: "wf_arg a \<Longrightarrow> \<forall>w \<in> set (arg_toks a). word w"
proof -
  assume "wf_arg a"
  then have "word (val_str (arg_val a))" by (simp add: wf_arg_def val_str_word)
  moreover have "word ''sret''" by (simp add: word_def word_char_def is_ws_def)
  ultimately show ?thesis using word_byval by (auto simp: arg_toks_def simp del: append.simps split: option.splits)
qed

lemma val_str_hd: "hd (val_str v) \<in> set ''%@-0123456789''"
proof (cases v)
  case (Const k)
  have "hd (dec_digits n) \<in> set (dec_digits n)" for n by simp
  then have "digit_char (hd (dec_digits n))" for n using dec_digits_chars by blast
  then show ?thesis using Const by (auto simp: int_str_def digit_char_def)
qed simp_all

lemma val_str_no_keyword:
  "hd p \<in> set ''abcdefghijklmnopqrstuvwxyz'' \<Longrightarrow> p \<noteq> [] \<Longrightarrow> val_str v \<noteq> p \<and> strip_prefix p (val_str v) = None"
  using val_str_hd [of v] by (cases p; cases "val_str v") auto

lemma arg_words_read:
  assumes "wf_arg a"
  shows "arg_words (arg_toks a) None None False None = Some a"
proof -
  have v: "arg_words [val_str (arg_val a)] t bv sr None =
      Some \<lparr>arg_ty = t, arg_val = arg_val a, arg_byval = bv, arg_sret = sr\<rparr>" for t bv sr
    using assms val_str_no_keyword [of _ "arg_val a"] by (simp add: wf_arg_def)
  have sr: "arg_words ((if arg_sret a then [''sret''] else []) @ [val_str (arg_val a)]) t bv False None =
      Some \<lparr>arg_ty = t, arg_val = arg_val a, arg_byval = bv, arg_sret = arg_sret a\<rparr>" for t bv
    using v by simp
  have bv: "arg_words ((case arg_byval a of Some n \<Rightarrow> [''byval'' @ dec_digits (unat n)] | None \<Rightarrow> []) @
      (if arg_sret a then [''sret''] else []) @ [val_str (arg_val a)]) t None False None =
      Some \<lparr>arg_ty = t, arg_val = arg_val a, arg_byval = arg_byval a, arg_sret = arg_sret a\<rparr>" for t
    using sr by (cases "arg_byval a") simp_all
  show ?thesis
  proof (cases "arg_ty a")
    case None
    then show ?thesis using bv [of None] by (simp add: arg_toks_def)
  next
    case (Some t)
    then have "ty_str t \<in> set [''i1'', ''i8'', ''i16'', ''i32'', ''float'', ''f32'', ''double'']"
      using assms by (cases t) (simp_all add: wf_arg_def)
    then have "arg_words (ty_str t # ws) None bv sr v = arg_words ws (Some t) bv sr v" for ws bv sr v
      by (simp only: arg_words.simps if_True parse_ty_str)
    then show ?thesis using bv [of "Some t"] Some by (simp add: arg_toks_def)
  qed
qed

lemma parse_call_arg_str:
  assumes "wf_arg a"
  shows "parse_call_arg (call_arg_str a) = Some a" "parse_call_arg (CHR '' '' # call_arg_str a) = Some a"
proof -
  note w = arg_toks_words [OF assms]
  have ne: "arg_toks a \<noteq> []" by (simp add: arg_toks_def)
  then have "trim (CHR '' '' # join_sp (arg_toks a)) = join_sp (arg_toks a)"
    using trim_blank_word w by simp
  then show "parse_call_arg (call_arg_str a) = Some a" "parse_call_arg (CHR '' '' # call_arg_str a) = Some a"
    using w arg_words_read [OF assms]
    by (simp_all add: parse_call_arg_def call_arg_str_words trim_join_sp split_ws_join_sp)
qed

text \<open>No comma, parenthesis or line feed inside an argument.\<close>

definition arg_char :: "char \<Rightarrow> bool" where
  "arg_char c \<longleftrightarrow> name_char c \<or> c \<in> set ''%@ ''"

lemma arg_char_not: "arg_char c \<Longrightarrow> c \<notin> set ''(),'' \<and> c \<noteq> CHR 0x0A"
proof -
  assume "arg_char c"
  then consider "name_char c" | "c = CHR ''%''" | "c = CHR ''@''" | "c = CHR '' ''"
    by (auto simp: arg_char_def)
  then show ?thesis
  proof cases
    case 1
    then show ?thesis using name_char_not [of c] by (simp add: word_char_def is_ws_def)
  qed simp_all
qed

lemma call_arg_chars: "wf_arg a \<Longrightarrow> \<forall>c \<in> set (call_arg_str a). arg_char c"
proof -
  assume wf: "wf_arg a"
  have id: "\<forall>c \<in> set s. arg_char c" if "ident s" for s using that by (simp add: ident_def arg_char_def)
  have v: "\<forall>c \<in> set (val_str (arg_val a)). arg_char c"
    using wf id int_str_ident by (cases "arg_val a") (auto simp: wf_arg_def, auto simp: arg_char_def)
  have b: "ident ''byval''" "ident ''sret''" by (simp_all add: ident_def name_char_def)
  have sp: "arg_char (CHR '' '')" by (simp add: arg_char_def)
  show ?thesis
    using v id [OF ty_str_ident] id [OF dec_digits_ident] id [OF b(1)] id [OF b(2)] sp
    unfolding call_arg_str_def by (auto split: option.splits)
qed

lemma join_with_chars: "\<forall>c \<in> set (join_with sep ps). c \<in> set sep \<or> (\<exists>p \<in> set ps. c \<in> set p)"
  by (induction sep ps rule: join_with.induct) auto

lemma call_args_chars:
  "\<forall>a \<in> set args. wf_arg a \<Longrightarrow> c \<in> set (call_args_str args) \<Longrightarrow> c \<notin> set ''()'' \<and> c \<noteq> CHR 0x0A"
  using join_with_chars [of "'', ''" "map call_arg_str args"] call_arg_chars arg_char_not
  by (fastforce simp: call_args_str_def)

lemma parse_call_args:
  assumes "\<forall>a \<in> set args. wf_arg a" and "args \<noteq> []"
  shows "map_all parse_call_arg (split_char (CHR '','') (call_args_str args)) = Some args"
proof -
  have c: "\<forall>p \<in> set (map call_arg_str args). CHR '','' \<notin> set p"
    using assms call_arg_chars arg_char_not by fastforce
  have "map_all parse_call_arg (map ((#) (CHR '' '')) (map call_arg_str xs)) = Some xs"
    if "\<forall>a \<in> set xs. wf_arg a" for xs
    using that by (induction xs) (simp_all add: parse_call_arg_str)
  moreover obtain a as where "args = a # as" using assms(2) by (cases args) auto
  ultimately show ?thesis
    using split_join_comma [OF c] assms by (simp add: call_args_str_def parse_call_arg_str)
qed

section \<open>Calls\<close>

lemma join_with_sp: "join_with '' '' ws = join_sp ws"
  by (induction ws rule: join_sp.induct) (simp_all add: join_sp.simps)

lemma paren_from_skip:
  "0 < d \<Longrightarrow> \<forall>c \<in> set s. c \<notin> set ''()'' \<Longrightarrow> paren_from d i (s @ t) = paren_from d (i + length s) t"
  by (induction s arbitrary: i) simp_all

lemma matching_paren_text:
  assumes "\<forall>c \<in> set s. c \<notin> set ''()''" and "n = length pre"
  shows "matching_paren (pre @ CHR ''('' # s @ CHR '')'' # post) n = Some (n + 1 + length s)"
  using assms paren_from_skip [of 1 s "Suc n"] by (simp add: matching_paren_def)

lemma find_sub_beyond:
  assumes "c \<notin> set s" and "find_sub [c] (s @ t) = Some n"
  shows "length s \<le> n"
  using assms by (induction s arbitrary: n) (auto simp: starts_with_def)

lemma callee_pos_text:
  assumes "x = CHR ''@'' \<or> x = CHR ''%''" and "CHR ''@'' \<notin> set s" and "CHR ''%'' \<notin> set s"
  shows "callee_pos (s @ x # t) = Some (length s)"
proof -
  have x: "find_sub [x] (s @ x # t) = Some (length s)" using assms find_sub_char [of x s t] by auto
  have ge: "find_sub [c] (s @ x # t) = Some n \<Longrightarrow> length s \<le> n" if "c \<in> set ''@%''" for c n
    using that assms find_sub_beyond [of c s] by auto
  show ?thesis
  proof (cases "x = CHR ''@''")
    case True
    then show ?thesis using x ge [of "CHR ''%''"]
      by (cases "find_sub ''%'' (s @ x # t)") (auto simp: callee_pos_def min_def)
  next
    case False
    then have "x = CHR ''%''" using assms(1) by simp
    then show ?thesis using x ge [of "CHR ''@''"]
      by (cases "find_sub ''@'' (s @ x # t)") (auto simp: callee_pos_def min_def)
  qed
qed

lemma callees_tail:
  assumes "\<forall>f \<in> set fs. ident f"
  shows "(case strip_prefix ''callees'' (trim (callees_str fs)) of Some l \<Rightarrow> split_ws l | None \<Rightarrow> []) = fs"
proof (cases "fs = []")
  case True
  then show ?thesis by (simp add: callees_str_def trim_def trim_start_def trim_end_by_def)
next
  case False
  have w: "word ''callees''" by (simp add: word_def word_char_def is_ws_def)
  have all: "\<forall>g \<in> set (''callees'' # fs). word g" using assms ident_word w by simp
  have "callees_str fs = CHR '' '' # join_sp (''callees'' # fs)"
    using False by (simp add: callees_str_def join_with_sp join_sp_cons)
  then have "trim (callees_str fs) = join_sp (''callees'' # fs)" using trim_blank_word all by simp
  moreover have "split_ws (CHR '' '' # join_sp fs) = fs"
    using assms ident_word by (simp add: split_ws_blank is_ws_def split_ws_join_sp)
  ultimately show ?thesis using False by (simp add: join_sp_cons)
qed

lemma slice_middle: "i = length p \<Longrightarrow> j = length p + length m \<Longrightarrow> slice (p @ m @ q) i j = Some m"
  by (simp add: slice_def)

lemma parse_call_text:
  assumes "ident func" and "\<forall>a \<in> set args. wf_arg a" and "\<forall>f \<in> set callees. ident f"
    and "ident tt" and "tt = ''void'' \<and> t = None \<or> tt \<noteq> ''void'' \<and> map_option Some (parse_ty tt) = Some t"
  shows "parse_call (tt @ '' '' @ callee_str func callees @ ''('' @ call_args_str args @ '')'' @
    callees_str callees) = Some (t, func, args, callees)"
proof -
  obtain x where x: "callee_str func callees = x # func" "x = CHR ''@'' \<or> x = CHR ''%''"
    by (cases "callees = []") (simp_all add: callee_str_def)
  let ?A = "call_args_str args" and ?C = "callees_str callees"
  let ?R = "(tt @ '' '') @ x # func @ ''('' @ ?A @ '')'' @ ?C"
  let ?pre = "(tt @ '' '') @ x # func"
  have pos: "callee_pos ?R = Some (length (tt @ '' ''))"
    by (rule callee_pos_text) (use x(2) ident_not_in [OF assms(4)] in auto)
  have "CHR ''('' \<notin> set ?pre" using ident_not_in [OF assms(4)] ident_not_in [OF assms(1)] x(2) by auto
  then have opn: "find_sub ''('' ?R = Some (length ?pre)" using find_sub_char [of "CHR ''(''" ?pre] by simp
  have close: "matching_paren ?R (length ?pre) = Some (length ?pre + 1 + length ?A)"
    using matching_paren_text [of ?A "length ?pre" ?pre ?C] call_args_chars [OF assms(2)] by simp
  have tw: "word tt" using assms(4) by (rule ident_word)
  have "trim (tt @ '' '') = tt"
  proof -
    have "trim_start (tt @ '' '') = tt @ '' ''"
      using word_ends [OF tw] tw by (intro trim_start_keep) simp
    then show ?thesis
      using trim_end_by_keep [of tt is_ws] word_ends [OF tw] by (simp add: trim_def trim_end_by_def is_ws_def)
  qed
  then have ty: "trim (take (length (tt @ '' '')) ?R) = tt" by simp
  have func: "map_option trim (slice ?R (length (tt @ '' '') + 1) (length ?pre)) = Some func"
    using trim_word [OF ident_word [OF assms(1)]] by (simp add: slice_def)
  have inner: "slice ?R (length ?pre + 1) (length ?pre + 1 + length ?A) = Some ?A"
    using slice_middle [of _ "?pre @ ''(''" _ ?A "'')'' @ ?C"] by simp
  have "drop n (p @ q) = q" if "n = length p" for n and p q :: string using that by simp
  from this [of _ "?pre @ ''('' @ ?A @ '')''" ?C]
  have tail: "drop (length ?pre + 1 + length ?A + 1) ?R = ?C" by simp
  have args: "(if length ?pre + 1 = length ?pre + 1 + length ?A then Some []
      else do { inner \<leftarrow> slice ?R (length ?pre + 1) (length ?pre + 1 + length ?A);
                map_all parse_call_arg (split_char (CHR '','') inner) }) = Some args"
  proof (cases args)
    case Nil
    then show ?thesis by (simp add: call_args_str_def)
  next
    case (Cons a as)
    have "call_arg_str a \<noteq> []" using val_str_hd [of "arg_val a"] join_sp_ends [of "arg_toks a"] arg_toks_words [of a] assms(2) Cons
      by (auto simp: call_arg_str_words arg_toks_def)
    then have "?A \<noteq> []" using Cons by (cases as) (simp_all add: call_args_str_def)
    then show ?thesis using inner parse_call_args [OF assms(2)] Cons by simp
  qed
  have "parse_call ?R = Some (t, func, args, callees)"
    unfolding parse_call_def pos opn Option.bind.simps ty func close args tail callees_tail [OF assms(3)]
    using assms(5) by auto
  then show ?thesis using x(1) by simp
qed

lemma plain_line_append:
  assumes "plain_line s" and "\<forall>c \<in> set m. c \<noteq> CHR 0x0A" and "plain_line t"
  shows "plain_line (s @ m @ t)"
  using assms by (auto simp: plain_line_def)

lemma call_text_plain:
  assumes "word (hd ws)" and "ws \<noteq> []" and "\<forall>w \<in> set ws. word w" and "\<forall>a \<in> set args. wf_arg a"
    and "\<forall>f \<in> set callees. ident f"
  shows "plain_line (join_sp ws @ ''('' @ call_args_str args @ '')'' @ callees_str callees)"
proof -
  have p: "plain_line (join_sp ws)" using assms by (simp add: plain_join_sp)
  have a: "\<forall>c \<in> set (''('' @ call_args_str args). c \<noteq> CHR 0x0A"
    using call_args_chars [OF assms(4)] by auto
  have t: "plain_line ('')'' @ callees_str callees)"
  proof (cases "callees = []")
    case True
    then show ?thesis by (simp add: callees_str_def plain_line_def is_ws_def)
  next
    case False
    have e: "callees_str callees = CHR '' '' # join_sp (''callees'' # callees)"
      using False by (simp add: callees_str_def join_with_sp join_sp_cons)
    have "word ''callees''" by (simp add: word_def word_char_def is_ws_def)
    then have "plain_line (join_sp (''callees'' # callees))"
      using assms(5) by (intro plain_join_sp) (auto simp: ident_word)
    then show ?thesis unfolding e by (auto simp: plain_line_def is_ws_def)
  qed
  show ?thesis using plain_line_append [OF p a t] by simp
qed

lemma callee_word: "ident func \<Longrightarrow> word (callee_str func callees)"
  by (simp add: callee_str_def word_pct word_at)

lemma void_ident: "ident ''void''"
  by (simp add: ident_def name_char_def)

lemma rb_call:
  assumes wf: "wf_inst (Call c)"
  shows "reads_back (Call c)"
proof -
  let ?callee = "callee_str (call_func c) (call_callees c)"
  let ?tail = "''('' @ call_args_str (call_args c) @ '')'' @ callees_str (call_callees c)"
  have f: "ident (call_func c)" and a: "\<forall>a \<in> set (call_args c). wf_arg a"
    and cs: "\<forall>g \<in> set (call_callees c). ident g" using wf by auto
  note parse = parse_call_text [OF f a cs]
  show ?thesis
  proof (cases "call_dst c")
    case None
    then have t: "call_ty c = None" using wf by simp
    have s: "inst_str (Call c) = join_sp [''call'', ''void'', ?callee] @ ?tail"
      using None t by (simp add: call_str_def join_sp_cons join_sp_one)
    have "parse_inst (inst_str (Call c)) = parse_call_inst None (''void'' @ '' '' @ ?callee @ ?tail)"
      unfolding s by (simp add: join_sp_cons join_sp_one parse_inst_def starts_with_def)
    then have "parse_inst (inst_str (Call c)) = Some (unloc (Call c))"
      using parse [OF void_ident, of None] None t by (simp add: parse_call_inst_def)
    moreover have "plain_line (inst_str (Call c))"
      unfolding s by (rule call_text_plain) (use f a cs in \<open>simp_all add: word_lit callee_word\<close>)
    ultimately show ?thesis by (simp add: reads_back_def)
  next
    case (Some d)
    then obtain t where t: "call_ty c = Some t" and d: "ident d" using wf by auto
    let ?b = "join_sp [''call'', ty_str t, ?callee] @ ?tail"
    have s: "inst_str (Call c) = ''%'' @ d @ '' = '' @ ?b"
      using Some t by (simp add: call_str_def join_sp_cons join_sp_one)
    have pb: "plain_line ?b"
      by (rule call_text_plain) (use f a cs in \<open>simp_all add: word_lit callee_word\<close>)
    then have "trim ?b = ?b" by (simp add: plain_line_def trim_keep)
    then have "parse_inst (inst_str (Call c)) = parse_body d ?b"
      unfolding s by (rule parse_inst_def_text [OF d])
    also have "\<dots> = parse_call_inst (Some d) (ty_str t @ '' '' @ ?callee @ ?tail)"
      by (simp add: join_sp_cons join_sp_one parse_body_def)
    also have "\<dots> = Some (unloc (Call c))"
      using parse [OF ty_str_ident, of t "Some t"] Some t by (simp add: parse_call_inst_def)
    finally have "parse_inst (inst_str (Call c)) = Some (unloc (Call c))" .
    moreover have "plain_line (inst_str (Call c))"
    proof -
      have "plain_line (''%'' @ d @ '' ='')"
        using ident_not_in [OF d] ident_word [OF d]
        by (auto simp: plain_line_def is_ws_def word_def word_char_def)
      from plain_line_append [OF this _ pb, of "'' ''"] show ?thesis unfolding s by simp
    qed
    ultimately show ?thesis by (simp add: reads_back_def)
  qed
qed

section \<open>Inline assembly\<close>

lemma unescape_escape: "unescape_asm (escape_asm t) = t"
proof (induction t)
  case (Cons c t)
  show ?case
  proof (cases "c = CHR 0x5C \<or> c = CHR 0x22 \<or> c = CHR 0x0A")
    case False
    then have "escape_asm (c # t) = c # escape_asm t" by simp
    then show ?thesis using Cons False by (cases "escape_asm t") auto
  qed (use Cons in auto)
qed simp

lemma scan_escape: "scan_quote False (escape_asm t @ CHR 0x22 # rest) = Some (escape_asm t, rest)"
  by (induction t) auto

lemma escape_no_lf: "CHR 0x0A \<notin> set (escape_asm t)"
  by (induction t) auto

lemma parse_quoted_text:
  assumes "CHR 0x22 \<notin> set p"
  shows "parse_quoted_unescaped (p @ CHR 0x22 # escape_asm t @ CHR 0x22 # rest) = Some (t, rest)"
proof -
  have "dropWhile (\<lambda>c. c \<noteq> CHR 0x22) (p @ CHR 0x22 # u) = CHR 0x22 # u" for u
    using assms by (induction p) auto
  then show ?thesis by (simp add: parse_quoted_unescaped_def scan_escape unescape_escape)
qed

definition op_group :: "asm_operand \<Rightarrow> string list" where
  "op_group p = [op_constraint p, op_ptr p]"

definition ops_text :: "asm_operand list \<Rightarrow> string" where
  "ops_text ops = join_with '', '' (map (\<lambda>p. join_sp (op_group p)) ops)"

lemma op_group_words: "wf_operand p \<Longrightarrow> \<forall>w \<in> set (op_group p). word w"
  by (auto simp: op_group_def wf_operand_def wf_ptr_word)

lemma ops_text_comma: "ops_text ops = join_sp (comma_words (map op_group ops))"
proof -
  have "ops_text ops = join_with '', '' (map join_sp (map op_group ops))" by (simp add: ops_text_def comp_def)
  also have "\<dots> = join_sp (comma_words (map op_group ops))"
    by (rule join_with_comma) (auto simp: op_group_def)
  finally show ?thesis .
qed

lemma ops_toks:
  assumes "\<forall>p \<in> set ops. wf_operand p"
  shows "\<forall>w \<in> set (comma_words (map op_group ops)). tok w"
proof (rule comma_words_tok)
  show "\<forall>g \<in> set (map op_group ops). g \<noteq> [] \<and> (\<forall>w \<in> set g. tok w)"
    using assms op_group_words word_tok by (fastforce simp: op_group_def)
qed

lemma ops_plain:
  assumes "\<forall>p \<in> set ops. wf_operand p" and "ops \<noteq> []"
  shows "plain_line (ops_text ops)"
  unfolding ops_text_comma
proof (rule plain_join_tok [OF _ ops_toks [OF assms(1)]])
  show "comma_words (map op_group ops) \<noteq> []"
    by (rule comma_words_nonempty) (use assms in \<open>auto simp: op_group_def\<close>)
  have "last (comma_words (map op_group ops)) = last (last (map op_group ops))"
    by (rule comma_words_last) (use assms in \<open>auto simp: op_group_def\<close>)
  also have "\<dots> = op_ptr (last ops)" using assms by (simp add: last_map op_group_def)
  finally show "word (last (comma_words (map op_group ops)))"
    using assms by (simp add: wf_operand_def wf_ptr_word)
qed

lemma plain_trim: "plain_line s \<Longrightarrow> trim s = s"
  by (simp add: plain_line_def trim_keep)

lemma asm_ops_text:
  assumes "\<forall>p \<in> set ops. wf_operand p"
  shows "asm_operands_of (ops_text ops) = Some ops"
proof (cases ops)
  case Nil
  then show ?thesis by (simp add: ops_text_def asm_operands_of_def)
next
  case (Cons p ps)
  have g: "trim (join_sp (op_group q)) = join_sp (op_group q)"
    "trim (CHR '' '' # join_sp (op_group q)) = join_sp (op_group q)"
    "split_ws (join_sp (op_group q)) = [op_constraint q, op_ptr q]" if "wf_operand q" for q
    using op_group_words [OF that] trim_blank_word [of "op_group q"]
    by (simp_all add: trim_join_sp split_ws_join_sp) (simp_all add: op_group_def)
  have "asm_ops (map ((#) (CHR '' '')) (map (\<lambda>q. join_sp (op_group q)) qs)) = Some qs"
    if "\<forall>q \<in> set qs. wf_operand q" for qs
    using that by (induction qs) (simp_all add: g)
  moreover have "\<forall>x \<in> set (map (\<lambda>q. join_sp (op_group q)) ops). CHR '','' \<notin> set x"
    using assms op_group_words join_sp_set by (fastforce simp: word_def word_char_def)
  ultimately have "asm_ops (split_char (CHR '','') (ops_text ops)) = Some ops"
    using assms Cons split_join_comma [of "map (\<lambda>q. join_sp (op_group q)) ops"] g
    by (simp add: ops_text_def)
  moreover have "ops_text ops \<noteq> []" using ops_plain [OF assms] Cons by (simp add: plain_line_def)
  ultimately show ?thesis by (simp add: asm_operands_of_def)
qed

lemma strip_prefix_in_word:
  "strip_prefix p (w @ CHR '' '' # u) = Some tail \<Longrightarrow> CHR '' '' \<notin> set p \<Longrightarrow>
     \<exists>x. w = p @ x \<and> tail = x @ CHR '' '' # u"
proof (induction p arbitrary: w)
  case (Cons a p)
  then show ?case by (cases w) (auto split: if_splits)
qed simp

lemma asm_memory_absent:
  assumes "\<forall>p \<in> set ops. wf_operand p"
  shows "asm_memory (ops_text ops) = (False, ops_text ops)"
proof (cases ops)
  case Nil
  then show ?thesis by (simp add: ops_text_def asm_memory_def split_ws_nil)
next
  case (Cons p ps)
  have wp: "word (op_constraint p)" "op_constraint p \<noteq> ''memory''" using assms Cons by (simp_all add: wf_operand_def)
  obtain u where u: "ops_text ops = op_constraint p @ CHR '' '' # u"
    using Cons by (cases ps) (simp_all add: ops_text_def op_group_def join_sp_cons)
  have front: "\<not> (tail = [] \<or> ws_or_comma (hd tail))" if pre: "strip_prefix ''memory'' (ops_text ops) = Some tail" for tail
  proof -
    obtain x where x: "op_constraint p = ''memory'' @ x" "tail = x @ CHR '' '' # u"
      using strip_prefix_in_word [of "''memory''" "op_constraint p" u tail] pre u by auto
    then have "x \<noteq> []" using wp(2) by auto
    then have "hd tail \<in> set (op_constraint p)" using x by (cases x) auto
    then show ?thesis using wp(1) x(2) by (auto simp: word_def word_char_def ws_or_comma_def)
  qed
  have "trim_end_char (CHR '','') (dropWhile (\<lambda>c. c = CHR '','') t) \<noteq> ''memory''"
    if "t \<in> set (comma_words (map op_group ops))" for t
  proof -
    have "\<exists>w. (t = w \<or> t = w @ '','') \<and> word w \<and> w \<noteq> ''memory''"
      using that assms
    proof (induction ops)
      case (Cons q qs)
      have q: "word (op_constraint q)" "op_constraint q \<noteq> ''memory''" "word (op_ptr q)" "op_ptr q \<noteq> ''memory''"
        using Cons.prems by (auto simp: wf_operand_def wf_ptr_word, auto simp: wf_ptr_def)
      show ?case
        using Cons q by (cases "qs = []") (auto simp: comma_words_cons op_group_def)
    qed simp
    then obtain w where w: "t = w \<or> t = w @ '',''" "word w" "w \<noteq> ''memory''" by blast
    have n: "w \<noteq> []" "word_char (hd w)" using w(2) by (simp_all add: word_def)
    have "hd t = hd w" using w(1) n(1) by (elim disjE) simp_all
    then have "hd t \<noteq> CHR '',''" using n(2) by (simp add: word_char_def)
    then have "dropWhile (\<lambda>c. c = CHR '','') t = t" by (simp add: dropWhile_eq_self_iff)
    moreover have "trim_end_char (CHR '','') t = w"
      using w(1) trim_end_word [OF w(2)] trim_end_comma [OF w(2)] by metis
    ultimately show ?thesis using w(3) by simp
  qed
  then have "\<not> (\<exists>t \<in> set (split_ws (ops_text ops)).
      trim_end_char (CHR '','') (dropWhile (\<lambda>c. c = CHR '','') t) = ''memory'')"
    by (simp add: ops_text_comma split_ws_join_tok [OF ops_toks [OF assms]])
  then have none: "(if \<exists>t \<in> set (split_ws (ops_text ops)).
      trim_end_char (CHR '','') (dropWhile (\<lambda>c. c = CHR '','') t) = ''memory'' then x else y) = y" for x y :: "bool \<times> string"
    by (rule if_not_P)
  show ?thesis
  proof (cases "strip_prefix ''memory'' (ops_text ops)")
    case None
    show ?thesis unfolding asm_memory_def None option.case none ..
  next
    case (Some tail)
    show ?thesis unfolding asm_memory_def Some option.case if_not_P [OF front [OF Some]] ..
  qed
qed

lemma rb_asm:
  assumes "wf_inst (Asm a)"
  shows "reads_back (Asm a)"
proof -
  let ?ops = "asm_operands a"
  have wf: "\<forall>p \<in> set ?ops. wf_operand p" using assms by simp
  define after where "after = (if asm_clobbers_memory a then '' memory'' else []) @
    (if ?ops = [] then [] else '' '' @ ops_text ?ops)"
  have s: "inst_str (Asm a) = ''asm '' @ CHR 0x22 # escape_asm (asm_template a) @ CHR 0x22 # after"
    by (simp add: asm_str_def after_def ops_text_def op_group_def join_sp_cons join_sp_one)
  have pl: "?ops \<noteq> [] \<Longrightarrow> plain_line (ops_text ?ops)" using ops_plain [OF wf] by simp
  have tb: "trim (CHR '' '' # t) = trim t" for t by (simp add: trim_def trim_start_def is_ws_def)
  have nil: "ops_text [] = []" by (simp add: ops_text_def)
  have tn: "trim [] = []" by (simp add: trim_def trim_start_def trim_end_by_def)
  have mem: "asm_memory (trim after) = (asm_clobbers_memory a, ops_text ?ops)"
  proof (cases "asm_clobbers_memory a")
    case False
    then have "trim after = ops_text ?ops"
      using pl plain_trim nil by (auto simp: after_def tb tn)
    then show ?thesis using False asm_memory_absent [OF wf] by simp
  next
    case True
    show ?thesis
    proof (cases "?ops = []")
      case True
      have "trim ''memory'' = ''memory''" by (rule trim_word) (rule word_lit)
      then have "trim after = ''memory''"
        using True \<open>asm_clobbers_memory a\<close> by (simp add: after_def tb)
      then show ?thesis using True \<open>asm_clobbers_memory a\<close> nil tn by (simp add: asm_memory_def)
    next
      case False
      note po = pl [OF False]
      have "plain_line ''memory''" by (simp add: plain_line_def is_ws_def)
      from plain_line_append [OF this _ po, of "'' ''"]
      have "trim (''memory '' @ ops_text ?ops) = ''memory '' @ ops_text ?ops" by (simp add: plain_trim)
      then have t: "trim after = ''memory'' @ CHR '' '' # ops_text ?ops"
        using False \<open>asm_clobbers_memory a\<close> by (simp add: after_def tb)
      obtain p ps where ops: "?ops = p # ps" using False by (cases ?ops) auto
      then have "word (op_constraint p)" using wf by (simp add: wf_operand_def)
      moreover have "hd (ops_text ?ops) = hd (op_constraint p)"
        using ops calculation by (cases ps) (simp_all add: ops_text_def op_group_def join_sp_cons word_def)
      ultimately have "\<not> ws_or_comma (hd (ops_text ?ops))"
        by (simp add: ws_or_comma_def word_def word_char_def)
      then have "dropWhile ws_or_comma (CHR '' '' # ops_text ?ops) = ops_text ?ops"
        by (cases "ops_text ?ops") (simp_all add: ws_or_comma_def is_ws_def)
      then show ?thesis
        unfolding t using \<open>asm_clobbers_memory a\<close> plain_trim [OF po]
        by (simp add: asm_memory_def ws_or_comma_def is_ws_def)
    qed
  qed
  have q: "parse_quoted_unescaped (inst_str (Asm a)) = Some (asm_template a, after)"
    unfolding s by (rule parse_quoted_text) simp
  have "parse_inst (inst_str (Asm a)) = parse_asm (inst_str (Asm a))"
    by (simp add: s [simplified] parse_inst_def starts_with_def)
  also have "\<dots> = Some (unloc (Asm a))"
    unfolding parse_asm_def q using mem asm_ops_text [OF wf] by simp
  finally have p: "parse_inst (inst_str (Asm a)) = Some (unloc (Asm a))" .
  have c: "plain_line ''asm''" "\<forall>c \<in> set ('' '' @ CHR 0x22 # escape_asm (asm_template a)). c \<noteq> CHR 0x0A"
    using escape_no_lf [of "asm_template a"] by (auto simp: plain_line_def is_ws_def)
  have m: "plain_line (CHR 0x22 # '' memory'')" "plain_line [CHR 0x22]" by (simp_all add: plain_line_def is_ws_def)
  have "plain_line (CHR 0x22 # after)"
    using m pl plain_line_append [OF m(1) _ pl, of "'' ''"] plain_line_append [OF m(2) _ pl, of "'' ''"]
    by (cases "?ops = []") (simp_all add: after_def)
  from plain_line_append [OF c this] have "plain_line (inst_str (Asm a))" unfolding s by simp
  then show ?thesis using p by (simp add: reads_back_def)
qed

section \<open>Every instruction\<close>

lemma inst_reads_back: "wf_inst i \<Longrightarrow> reads_back i"
  by (cases i) (simp_all only: rb_load rb_store rb_bin rb_ret rb_casts rb_icmp rb_select rb_call rb_br rb_br_cond
      rb_switch rb_phi rb_gep rb_alloca rb_memcpy rb_freeze rb_va_arg rb_va_start rb_float_bin rb_fcmp
      rb_float_conv rb_asm)

end
