(* ===== verification/IrRoundTrip.thy ===== *)
theory IrRoundTrip
  imports IrCallAsm
begin

text \<open>
  The round trip of the text boundary: global, function and block lines, the line loop, and
  \<open>parse (serialize m) = m\<close> up to what the text omits.
\<close>

section \<open>Parameters and function headers\<close>

definition wf_param :: "param \<Rightarrow> bool" where
  "wf_param p \<longleftrightarrow> ident (par_name p) \<and>
     (case par_byval p of
        Some n \<Rightarrow> par_width p = n \<and> \<not> par_sret p \<and> \<not> par_ptr p
      | None \<Rightarrow> if par_sret p then par_width p = 2 \<and> \<not> par_ptr p
                else if par_ptr p then par_width p = 2
                else par_width p = 1 \<or> par_width p = 2 \<or> par_width p = 4)"

lemma param_text:
  assumes "ident n" and "word t"
  shows "find_sub ''='' (n @ CHR ''='' # t) = Some (length n)" "trim n = n" "trim t = t"
    "trim (n @ CHR ''='' # t) = n @ CHR ''='' # t" "word (n @ CHR ''='' # t)"
proof -
  have "CHR ''='' \<notin> set n" using ident_not_in [OF assms(1)] by simp
  then show "find_sub ''='' (n @ CHR ''='' # t) = Some (length n)" by (rule find_sub_char)
  show "trim n = n" "trim t = t" using assms by (simp_all add: trim_word ident_word)
  have "word_char (CHR ''='')" by (simp add: word_char_def is_ws_def)
  then show w: "word (n @ CHR ''='' # t)" using assms ident_word [OF assms(1)] by (auto simp: word_def)
  show "trim (n @ CHR ''='' # t) = n @ CHR ''='' # t" using w by (rule trim_word)
qed

lemma param_reads_back:
  assumes "wf_param p"
  shows "\<exists>s. param_str p = Some s \<and> word s \<and> CHR ''='' \<in> set s \<and> set s \<inter> set ''(),'' = {} \<and> parse_param s = Some p"
proof -
  have id: "ident (par_name p)" using assms by (simp add: wf_param_def)
  have no: "set (par_name p) \<inter> set ''(),'' = {}" using ident_not_in [OF id] by auto
  have w: "word ''sret''" "word ''ptr''" "word ''i8''" "word ''i16''" "word ''i32''"
    by (simp_all add: word_def word_char_def is_ws_def)
  show ?thesis
  proof (cases "par_byval p")
    case (Some n)
    have d: "set (dec_digits (unat n)) \<inter> set ''(),'' = {}" using ident_not_in [OF dec_digits_ident] by auto
    note t = param_text [OF id word_byval [of "unat n"]]
    show ?thesis
      using assms Some id no d t
      by (intro exI [of _ "par_name p @ ''=byval'' @ dec_digits (unat n)"])
        (auto simp: wf_param_def param_str_def parse_param_def plain_param_def Let_def)
  next
    case None
    show ?thesis
      using assms None id no param_text [OF id w(1)] param_text [OF id w(2)] param_text [OF id w(3)]
        param_text [OF id w(4)] param_text [OF id w(5)]
      by (auto simp: wf_param_def param_str_def parse_param_def plain_param_def parse_ty_def ty_names_def Let_def
          split: if_splits)
  qed
qed

lemma starts_with_rec:
  "starts_with [] s" "\<not> starts_with (a # p) []" "starts_with (a # p) (b # s) \<longleftrightarrow> a = b \<and> starts_with p s"
  by (auto simp: starts_with_def)

text \<open>The marks between the two groups of a header, one flag at a time.\<close>

lemma contains_sub_cons: "contains_sub p (c # s) \<longleftrightarrow> starts_with p (c # s) \<or> contains_sub p s"
  by (simp add: contains_sub_def)

lemma contains_sub_mark:
  assumes "m \<in> {'' [isr]'', '' [irq1]'', '' [irq2]'', '' [naked]'', '' [unreachable]''}"
    and "n \<in> {'' [isr]'', '' [irq1]'', '' [irq2]'', '' [naked]'', '' [unreachable]''}"
  shows "contains_sub (tl n) (m @ s) \<longleftrightarrow> m = n \<or> contains_sub (tl n) s"
  using assms by (elim insertE emptyE) (simp_all add: contains_sub_cons starts_with_rec)

lemma contains_sub_opt:
  assumes "m \<in> {'' [isr]'', '' [irq1]'', '' [irq2]'', '' [naked]'', '' [unreachable]''}"
    and "n \<in> {'' [isr]'', '' [irq1]'', '' [irq2]'', '' [naked]'', '' [unreachable]''}"
  shows "contains_sub (tl n) ((if c then m else []) @ s) \<longleftrightarrow> c \<and> m = n \<or> contains_sub (tl n) s"
  using contains_sub_mark [OF assms] by simp

lemma markers_opt:
  "markers_str f = (if fn_isr f then '' [isr]'' else []) @
     (if fn_irq_priority f = 1 then '' [irq1]'' else []) @ (if fn_irq_priority f = 2 then '' [irq2]'' else []) @
     (if fn_naked f then '' [naked]'' else []) @ (if fn_unreachable_body f then '' [unreachable]'' else [])"
  by (simp add: markers_str_def)

lemma markers_contains:
  assumes "n \<in> {'' [isr]'', '' [irq1]'', '' [irq2]'', '' [naked]'', '' [unreachable]''}"
  shows "contains_sub (tl n) (markers_str f @ '' '') \<longleftrightarrow>
    fn_isr f \<and> '' [isr]'' = n \<or> fn_irq_priority f = 1 \<and> '' [irq1]'' = n \<or> fn_irq_priority f = 2 \<and> '' [irq2]'' = n \<or>
    fn_naked f \<and> '' [naked]'' = n \<or> fn_unreachable_body f \<and> '' [unreachable]'' = n"
proof -
  have "\<not> contains_sub (tl n) '' ''"
    using assms by (elim insertE emptyE) (simp_all add: contains_sub_def starts_with_rec)
  then show ?thesis
    by (simp only: markers_opt append_assoc contains_sub_opt [OF _ assms] insert_iff simp_thms)
qed

lemma markers_read:
  "contains_sub ''[isr]'' (markers_str f @ '' '') = fn_isr f"
  "contains_sub ''[irq1]'' (markers_str f @ '' '') = (fn_irq_priority f = 1)"
  "contains_sub ''[irq2]'' (markers_str f @ '' '') = (fn_irq_priority f = 2)"
  "contains_sub ''[naked]'' (markers_str f @ '' '') = fn_naked f"
  "contains_sub ''[unreachable]'' (markers_str f @ '' '') = fn_unreachable_body f"
  using markers_contains [of "'' [isr]''" f] markers_contains [of "'' [irq1]''" f]
    markers_contains [of "'' [irq2]''" f] markers_contains [of "'' [naked]''" f]
    markers_contains [of "'' [unreachable]''" f]
  by simp_all

lemma markers_chars: "CHR ''('' \<notin> set (markers_str f)" "CHR 0x0A \<notin> set (markers_str f)"
  by (simp_all add: markers_opt)

lemma map_all_param:
  assumes "\<forall>p \<in> set ps. wf_param p"
  shows "\<exists>ss. map_all param_str ps = Some ss \<and> length ss = length ps \<and>
    (\<forall>s \<in> set ss. word s \<and> CHR ''='' \<in> set s \<and> set s \<inter> set ''(),'' = {}) \<and> map_all parse_param ss = Some ps"
  using assms
proof (induction ps)
  case (Cons p ps)
  obtain s where "param_str p = Some s" "word s" "CHR ''='' \<in> set s" "set s \<inter> set ''(),'' = {}" "parse_param s = Some p"
    using param_reads_back [of p] Cons.prems by auto
  then show ?case using Cons by auto
qed simp

lemma join_with_append:
  "xs \<noteq> [] \<Longrightarrow> join_with sep (xs @ [y]) = join_with sep xs @ sep @ y"
  by (induction sep xs rule: join_with.induct) simp_all

lemma join_with_nonempty: "xs \<noteq> [] \<Longrightarrow> \<forall>x \<in> set xs. x \<noteq> [] \<Longrightarrow> join_with sep xs \<noteq> []"
  by (cases "(sep, xs)" rule: join_with.cases) auto

lemma proto_text:
  assumes "\<forall>s \<in> set ss. s \<noteq> []"
  shows "proto_str f ss = join_with '', '' (ss @ (if fn_variadic f then [''...''] else []))"
proof (cases "ss = []")
  case False
  then show ?thesis
    using assms join_with_nonempty [of ss "'', ''"] join_with_append [of ss "'', ''" "''...''"]
    by (simp add: proto_str_def Let_def)
qed (simp add: proto_str_def)

lemma proto_read:
  fixes f :: ir_func
  assumes "\<forall>s \<in> set ss. word s \<and> CHR ''='' \<in> set s \<and> set s \<inter> set ''(),'' = {}"
  defines "toks \<equiv> map trim (split_char (CHR '','') (proto_str f ss))"
  shows "filter (\<lambda>s. s \<noteq> [] \<and> s \<noteq> ''...'') toks = ss" "(''...'' \<in> set toks) = fn_variadic f"
    "trim (proto_str f ss) = [] \<Longrightarrow> ss = []" "\<forall>c \<in> set (proto_str f ss). c \<notin> set ''()'' \<and> c \<noteq> CHR 0x0A"
proof -
  let ?qs = "ss @ (if fn_variadic f then [''...''] else [])"
  have dots: "word ''...''" by (simp add: word_def word_char_def is_ws_def)
  then have w: "\<forall>q \<in> set ?qs. word q" using assms(1) by auto
  have pt: "proto_str f ss = join_with '', '' ?qs" using assms(1) by (intro proto_text) auto
  have nc: "\<forall>q \<in> set ?qs. CHR '','' \<notin> set q" using w by (auto simp: word_def word_char_def)
  have nd: "\<forall>s \<in> set ss. s \<noteq> ''...'' \<and> s \<noteq> []" using assms(1) by auto
  have tr: "trim q = q" "trim (CHR '' '' # q) = q" if "word q" for q
    using trim_word [OF that] trim_blank_word [of "[q]"] that by (simp_all add: join_sp_one)
  have toks: "toks = (if ?qs = [] then [[]] else ?qs)"
  proof (cases "?qs = []")
    case True
    then show ?thesis unfolding toks_def pt by (simp add: split_char_def trim_def trim_start_def trim_end_by_def)
  next
    case False
    have "map trim (map ((#) (CHR '' '')) xs) = xs" if "\<forall>x \<in> set xs. word x" for xs
      using that by (induction xs) (simp_all add: tr)
    moreover have "word (hd ?qs)" "\<forall>x \<in> set (tl ?qs). word x"
      using w list.set_sel(1) [OF False] list.set_sel(2) [OF False] by blast+
    ultimately have "toks = hd ?qs # tl ?qs"
      unfolding toks_def pt split_join_comma [OF nc False] by (simp add: tr)
    then show ?thesis using False by simp
  qed
  have keep: "filter (\<lambda>s. s \<noteq> [] \<and> s \<noteq> ''...'') ss = ss" using nd by (induction ss) auto
  show "filter (\<lambda>s. s \<noteq> [] \<and> s \<noteq> ''...'') toks = ss" using keep by (simp add: toks)
  show "(''...'' \<in> set toks) = fn_variadic f" using nd by (auto simp: toks)
  show "ss = []" if "trim (proto_str f ss) = []"
  proof (rule ccontr)
    assume "ss \<noteq> []"
    then have "toks = ?qs" "?qs \<noteq> []" by (simp_all add: toks)
    have "hd ?qs \<in> set ?qs" using \<open>?qs \<noteq> []\<close> by (rule list.set_sel(1))
    then have h: "word (hd ?qs)" using w by blast
    obtain u where "proto_str f ss = hd ?qs @ u"
      using \<open>?qs \<noteq> []\<close> unfolding pt by (cases "(''a'', ?qs)" rule: join_with.cases) auto
    moreover have "trim_start (hd ?qs @ u) = hd ?qs @ u"
      using word_ends [OF h] h by (intro trim_start_keep) (simp add: word_def)
    moreover have "\<exists>x \<in> set (hd ?qs @ u). \<not> is_ws x" using word_ends [OF h] h by (auto simp: word_def)
    ultimately show False using that by (auto simp: trim_def trim_end_by_def)
  qed
  have "\<forall>q \<in> set ?qs. set q \<inter> set ''()'' = {} \<and> CHR 0x0A \<notin> set q"
  proof
    fix q assume "q \<in> set ?qs"
    then have "q = ''...'' \<or> q \<in> set ss" by (auto split: if_splits)
    moreover have "CHR 0x0A \<notin> set q" using w \<open>q \<in> set ?qs\<close> by (auto simp: word_def word_char_def is_ws_def)
    ultimately show "set q \<inter> set ''()'' = {} \<and> CHR 0x0A \<notin> set q" using assms(1) by auto
  qed
  then show "\<forall>c \<in> set (proto_str f ss). c \<notin> set ''()'' \<and> c \<noteq> CHR 0x0A"
    using join_with_chars [of "'', ''" ?qs] unfolding pt by fastforce
qed

definition wf_header :: "ir_func \<Rightarrow> bool" where
  "wf_header f \<longleftrightarrow> ident (fn_name f) \<and> (\<forall>p \<in> set (fn_params f). wf_param p) \<and> fn_irq_priority f \<in> {0, 1, 2}"

lemma ident_ret: "ident (case r of Some t \<Rightarrow> ty_str t | None \<Rightarrow> ''void'')"
  by (simp add: ty_str_ident void_ident split: option.split)

lemma header_reads_back:
  assumes "wf_header f"
  shows "\<exists>l. fn_line f = Some (''fn '' @ l) \<and> plain_line (''fn '' @ l) \<and> parse_fn l = Some (f\<lparr>fn_blocks := []\<rparr>)"
proof -
  let ?n = "fn_name f" and ?r = "case fn_ret f of Some t \<Rightarrow> ty_str t | None \<Rightarrow> ''void''" and ?m = "markers_str f"
  have n: "ident ?n" "word ?n" using assms ident_word by (auto simp: wf_header_def)
  have r: "ident ?r" "word ?r" using ident_ret ident_word by auto
  obtain ss where ss: "map_all param_str (fn_params f) = Some ss" "length ss = length (fn_params f)"
      "\<forall>s \<in> set ss. word s \<and> CHR ''='' \<in> set s \<and> set s \<inter> set ''(),'' = {}" "map_all parse_param ss = Some (fn_params f)"
    using map_all_param [of "fn_params f"] assms by (auto simp: wf_header_def)
  let ?q = "proto_str f ss"
  note pr = proto_read [OF ss(3), of f]
  let ?after = "?m @ '' ('' @ ?q @ '')''"
  let ?l = "?n @ ''('' @ ?r @ '')'' @ ?after"
  have np: "CHR ''('' \<notin> set ?n" using ident_not_in [OF n(1)] by simp
  have opn: "find_sub ''('' ?l = Some (length ?n)" using find_sub_char [OF np] by simp
  have rp: "\<forall>c \<in> set ?r. c \<notin> set ''()''" using ident_not_in [OF r(1)] by auto
  have rc: "matching_paren ?l (length ?n) = Some (length ?n + 1 + length ?r)"
    using matching_paren_text [OF rp, of "length ?n" ?n ?after] by simp
  have rs: "map_option trim (slice ?l (length ?n + 1) (length ?n + 1 + length ?r)) = Some ?r"
    using slice_middle [of _ "?n @ ''(''" _ ?r "'')'' @ ?after"] trim_word [OF r(2)] by simp
  have "drop k (p @ q) = q" if "k = length p" for k and p q :: string using that by simp
  from this [of _ "?n @ ''('' @ ?r @ '')''" ?after]
  have af: "drop (length ?n + 1 + length ?r + 1) ?l = ?after" by simp
  have po: "find_sub ''('' ?after = Some (length (?m @ '' ''))"
    using find_sub_char [of "CHR ''(''" "?m @ '' ''" "?q @ '')''"] markers_chars(1) by simp
  have mk: "take (length (?m @ '' '')) ?after = ?m @ '' ''" by simp
  have qp: "\<forall>c \<in> set ?q. c \<notin> set ''()''" using pr(4) by auto
  have pc: "matching_paren ?after (length (?m @ '' '')) = Some (length (?m @ '' '') + 1 + length ?q)"
    using matching_paren_text [OF qp, of "length (?m @ '' '')" "?m @ '' ''" "[]"] by simp
  have ps: "slice ?after (length (?m @ '' '') + 1) (length (?m @ '' '') + 1 + length ?q) = Some ?q"
    using slice_middle [of _ "?m @ '' (''" _ ?q "'')''"] by simp
  have ret: "(if ?r = ''void'' \<or> ?r = [] then Some None else map_option Some (parse_ty ?r)) = Some (fn_ret f)"
    by (simp split: option.split)
  have par: "(if trim ?q = [] then Some []
      else map_all parse_param (filter (\<lambda>s. s \<noteq> [] \<and> s \<noteq> ''...'') (map trim (split_char (CHR '','') ?q)))) =
      Some (fn_params f)"
  proof (cases "trim ?q = []")
    case True
    then have "fn_params f = []" using pr(3) ss(2) by simp
    then show ?thesis using True by simp
  next
    case False
    then show ?thesis unfolding pr(1) ss(4) by simp
  qed
  have irq: "(if fn_irq_priority f = 1 then 1 else if fn_irq_priority f = 2 then 2 else 0) = fn_irq_priority f"
    using assms by (auto simp: wf_header_def)
  have nm: "trim (take (length ?n) ?l) = ?n" using trim_word [OF n(2)] by simp
  have "parse_fn ?l = Some (f\<lparr>fn_blocks := []\<rparr>)"
    unfolding parse_fn_def opn Option.bind.simps rc rs af Let_def po mk pc ps ret par nm markers_read pr(2) irq by simp
  moreover have "fn_line f = Some (''fn '' @ ?l)" using ss(1) by (simp add: fn_line_def)
  moreover have "plain_line (''fn '' @ ?l)"
  proof -
    have "CHR 0x0A \<notin> set ?n" "CHR 0x0A \<notin> set ?r" using n(2) r(2) by (auto simp: word_def word_char_def is_ws_def)
    then show ?thesis using pr(4) markers_chars(2) by (auto simp: plain_line_def is_ws_def)
  qed
  ultimately show ?thesis by blast
qed

section \<open>Globals\<close>

definition wf_global :: "ir_global \<Rightarrow> bool" where
  "wf_global g \<longleftrightarrow> ident (gl_name g) \<and>
     (\<forall>p b. gl_addr g = Some p \<longrightarrow> pl_bit p = Some b \<longrightarrow> unat b < 8)"

definition unsized :: "ir_global \<Rightarrow> ir_global" where
  "unsized g = g\<lparr>gl_size := of_nat (ty_bytes (gl_ty g)), gl_bytes := [], gl_refs := []\<rparr>"

definition addr_tok :: "placed \<Rightarrow> string" where
  "addr_tok p = ''@0x'' @ fmt_hex 2 (unat (pl_byte p)) @
     (case pl_bit p of None \<Rightarrow> [] | Some b \<Rightarrow> ''.'' @ dec_digits (unat b))"

definition global_toks :: "ir_global \<Rightarrow> string list" where
  "global_toks g = gl_name g # ty_str (gl_ty g) #
     (case gl_addr g of None \<Rightarrow> [] | Some p \<Rightarrow> [addr_tok p]) @ (if gl_internal g then [''internal''] else [])"

lemma fmt_hex_char: "c \<in> set (fmt_hex w n) \<Longrightarrow> name_char c \<and> c \<noteq> CHR ''.'' \<and> c \<noteq> CHR ''x''"
proof -
  assume "c \<in> set (fmt_hex w n)"
  then have "c \<in> set ''0123456789ABCDEF''" using fmt_hex_chars by blast
  then show ?thesis by (simp, elim disjE) (simp_all add: name_char_def)
qed

lemma fmt_hex_ident: "ident (fmt_hex w n)"
proof -
  have "fmt_hex w n \<noteq> []" using hex_digits_nonempty by (simp add: fmt_hex_def Let_def)
  then show ?thesis using fmt_hex_char by (simp add: ident_def)
qed

lemma parse_addr_text: "parse_addr (''@0x'' @ fmt_hex 2 (unat (b :: u16))) = Some (Some b)"
proof -
  let ?h = "fmt_hex 2 (unat b)"
  have "CHR ''x'' \<notin> set ?h" using fmt_hex_char by blast
  then have "trim_0x ?h = ?h" by (cases ?h rule: trim_0x.cases) auto
  moreover have "parse_below 65536 16 ?h = Some (unat b)"
    using u16_less_65536 [of b] by (simp add: parse_below_def parse_fmt_hex)
  ultimately show ?thesis by (simp add: parse_addr_def)
qed

lemma split_once_none: "\<forall>c \<in> set s. c \<noteq> x \<Longrightarrow> split_once (\<lambda>c. c = x) s = None"
proof -
  assume "\<forall>c \<in> set s. c \<noteq> x"
  then have d: "dropWhile (\<lambda>c. c \<noteq> x) s = []" by simp
  show ?thesis unfolding split_once_def splitn2_def d by simp
qed

lemma addr_tok_read:
  assumes "\<forall>b. pl_bit p = Some b \<longrightarrow> unat b < 8"
  shows "global_words (addr_tok p # toks) a i = global_words toks (Some p) i" "word (addr_tok p)"
proof -
  let ?h = "''@0x'' @ fmt_hex 2 (unat (pl_byte p))"
  have nd: "\<forall>c \<in> set ?h. c \<noteq> CHR ''.''" using fmt_hex_char by auto
  have wh: "word ?h"
    using ident_word [OF fmt_hex_ident, of 2 "unat (pl_byte p)"] by (auto simp: word_def word_char_def is_ws_def)
  have ni: "addr_tok p \<noteq> ''internal''" by (simp add: addr_tok_def)
  have tw: "takeWhile (\<lambda>c. c \<noteq> CHR ''.'') (?h @ u) = ?h @ takeWhile (\<lambda>c. c \<noteq> CHR ''.'') u"
    "dropWhile (\<lambda>c. c \<noteq> CHR ''.'') (?h @ u) = dropWhile (\<lambda>c. c \<noteq> CHR ''.'') u" for u
    using nd by (simp_all add: takeWhile_append2 dropWhile_append2)
  show "word (addr_tok p)"
  proof (cases "pl_bit p")
    case (Some b)
    have "word (''.'' @ dec_digits (unat b))" using word_dec(1) [of "unat b"] by (auto simp: word_def word_char_def is_ws_def)
    then have "\<forall>c \<in> set (''.'' @ dec_digits (unat b)). word_char c" by (simp add: word_def)
    from word_append [OF wh this] show ?thesis using Some by (simp add: addr_tok_def)
  qed (use wh in \<open>simp add: addr_tok_def\<close>)
  show "global_words (addr_tok p # toks) a i = global_words toks (Some p) i"
  proof (cases "pl_bit p")
    case None
    then have "split_once (\<lambda>c. c = CHR ''.'') (addr_tok p) = None"
      using split_once_none [OF nd] by (simp add: addr_tok_def)
    then show ?thesis
      using None ni parse_addr_text [of "pl_byte p"] by (cases p) (simp add: addr_tok_def)
  next
    case (Some b)
    then have "split_once (\<lambda>c. c = CHR ''.'') (addr_tok p) = Some (?h, dec_digits (unat b))"
      using tw [of "''.'' @ dec_digits (unat b)"] by (simp add: addr_tok_def split_once_def splitn2_def)
    moreover have "unat b < 8" using assms Some by simp
    ultimately show ?thesis
      using Some ni parse_addr_text [of "pl_byte p"] by (cases p) simp
  qed
qed

lemma global_reads_back:
  assumes "wf_global g"
  shows "\<exists>l. global_line g = (if gl_is_const g then ''const '' else ''global '') @ l \<and>
    plain_line (global_line g) \<and> parse_global (gl_is_const g) l = Some (unsized g)"
proof -
  let ?k = "if gl_is_const g then ''const'' else ''global''"
  have i: "word ''internal''" "word ''const''" "word ''global''" by (simp_all add: word_def word_char_def is_ws_def)
  have aw: "word (addr_tok p)" if "gl_addr g = Some p" for p
    using assms that addr_tok_read(2) [of p] by (simp add: wf_global_def)
  have w: "\<forall>w \<in> set (global_toks g). word w"
    using assms aw i by (auto simp: global_toks_def wf_global_def ident_word split: option.splits)
  have s: "global_line g = (if gl_is_const g then ''const '' else ''global '') @ join_sp (global_toks g)"
    by (simp add: global_line_def global_toks_def addr_tok_def join_sp_cons join_sp_one split: option.splits)
  have "(if gl_is_const g then ''const '' else ''global '') @ join_sp (global_toks g) = join_sp (?k # global_toks g)"
    by (simp add: join_sp_cons global_toks_def)
  moreover have "plain_line (join_sp (?k # global_toks g))" using w i by (intro plain_join_sp) auto
  ultimately have pl: "plain_line (global_line g)" using s by simp
  have gi: "global_words (if gl_internal g then [''internal''] else []) a False = Some (a, gl_internal g)" for a by simp
  have "global_words ((case gl_addr g of None \<Rightarrow> [] | Some p \<Rightarrow> [addr_tok p]) @
      (if gl_internal g then [''internal''] else [])) None False = Some (gl_addr g, gl_internal g)"
  proof (cases "gl_addr g")
    case None
    then show ?thesis using gi by simp
  next
    case (Some p)
    then have "\<forall>b. pl_bit p = Some b \<longrightarrow> unat b < 8" using assms by (simp add: wf_global_def)
    from addr_tok_read(1) [OF this] show ?thesis using Some gi by (simp only: option.case append_Cons append_Nil)
  qed
  then have "parse_global (gl_is_const g) (join_sp (global_toks g)) = Some (unsized g)"
    using w unfolding parse_global_def
    by (subst split_ws_join_sp) (simp_all add: global_toks_def unsized_def)
  then show ?thesis using s pl by blast
qed

section \<open>Modules\<close>

definition wf_block :: "ir_block \<Rightarrow> bool" where
  "wf_block b \<longleftrightarrow> ident (blk_label b) \<and> (\<forall>i \<in> set (blk_insts b). wf_inst i)"

definition wf_module :: "ir_module \<Rightarrow> bool" where
  "wf_module m \<longleftrightarrow> (\<forall>g \<in> set (mod_globals m). wf_global g) \<and>
     (\<forall>f \<in> set (mod_funcs m). wf_header f \<and> (\<forall>b \<in> set (fn_blocks f). wf_block b))"

text \<open>What the text keeps of a module: no source locations, and of a global its name, type and placement.\<close>

definition text_block :: "ir_block \<Rightarrow> ir_block" where
  "text_block b = b\<lparr>blk_insts := map unloc (blk_insts b)\<rparr>"

definition text_func :: "ir_func \<Rightarrow> ir_func" where
  "text_func f = f\<lparr>fn_blocks := map text_block (fn_blocks f)\<rparr>"

definition text_module :: "ir_module \<Rightarrow> ir_module" where
  "text_module m = m\<lparr>mod_globals := map unsized (mod_globals m), mod_funcs := map text_func (mod_funcs m)\<rparr>"

lemma strip_colon: "s \<noteq> [] \<Longrightarrow> strip_suffix '':'' s \<noteq> None \<longleftrightarrow> last s = CHR '':''"
  by (cases s rule: rev_cases) (auto simp: strip_suffix_def)

lemma inst_not_header:
  "starts_with ''module_asm '' (inst_str i) = False \<and> strip_prefix ''global '' (inst_str i) = None \<and>
     strip_prefix ''const '' (inst_str i) = None \<and> strip_prefix ''fn '' (inst_str i) = None \<and>
     inst_str i \<noteq> ''}'' \<and> inst_str i \<noteq> ''{''"
proof (cases i)
  case (Ret r l)
  then show ?thesis by (cases r) (auto simp: starts_with_rec)
qed (simp_all add: starts_with_rec cast_str_def gep_str_def asm_str_def call_str_def split: option.split)

lemma parse_line_inst:
  assumes "wf_inst i"
  shows "parse_line (inst_str i) st = push_inst (unloc i) st"
proof -
  have rb: "parse_inst (inst_str i) = Some (unloc i)" "plain_line (inst_str i)"
    using inst_reads_back [OF assms] by (simp_all add: reads_back_def)
  then have "inst_str i \<noteq> []" "strip_suffix '':'' (inst_str i) = None"
    using strip_colon [of "inst_str i"] by (auto simp: plain_line_def)
  then show ?thesis using rb(1) inst_not_header [of i] by (simp add: parse_line_def)
qed

lemma parse_line_label:
  assumes "ident l"
  shows "parse_line (''block '' @ l @ '':'') st =
    Some ((flush_block st)\<lparr>ip_block := Some \<lparr>blk_label = l, blk_insts = []\<rparr>\<rparr>)"
proof -
  let ?t = "''block '' @ l @ '':''"
  have w: "word l" using assms by (rule ident_word)
  have b: "word ''block''" by (simp add: word_def word_char_def is_ws_def)
  have nc: "last l \<noteq> CHR '':''" "l \<noteq> []" using w by (auto simp: word_def word_char_def)
  have "trim_end_char (CHR '':'') ?t = ''block '' @ l"
    using nc trim_end_by_keep [of "''block '' @ l" "\<lambda>x. x = CHR '':''"] by (simp add: trim_end_char_def trim_end_by_def)
  moreover have "trim (''block '' @ l) = ''block '' @ l"
    using trim_join_sp [of "[''block'', l]"] w b by (simp add: join_sp_cons join_sp_one)
  ultimately have "parse_label ?t st = (flush_block st)\<lparr>ip_block := Some \<lparr>blk_label = l, blk_insts = []\<rparr>\<rparr>"
    using trim_word [OF w] nc by (simp add: parse_label_def Let_def)
  moreover have "strip_suffix '':'' ?t \<noteq> None" by (simp add: strip_suffix_def)
  ultimately show ?thesis by (simp add: parse_line_def starts_with_rec)
qed

lemma parse_line_asm: "parse_line (asm_line e) st = Some (st\<lparr>ip_asm := ip_asm st @ [e]\<rparr>)"
  using parse_quoted_text [of "''module_asm ''" e "[]"]
  by (simp add: parse_line_def asm_line_def starts_with_rec)

lemma parse_line_global:
  assumes "wf_global g"
  shows "parse_line (global_line g) st = Some (st\<lparr>ip_globals := ip_globals st @ [unsized g]\<rparr>)"
proof -
  obtain l where l: "global_line g = (if gl_is_const g then ''const '' else ''global '') @ l"
      "parse_global (gl_is_const g) l = Some (unsized g)" using global_reads_back [OF assms] by blast
  then show ?thesis by (cases "gl_is_const g") (simp_all add: parse_line_def starts_with_rec)
qed

lemma parse_line_fn:
  assumes "fn_line f = Some (''fn '' @ l)" and "parse_fn l = Some g"
  shows "parse_line (''fn '' @ l) st = Some ((flush_func st)\<lparr>ip_func := Some g\<rparr>)"
  using assms by (simp add: parse_line_def starts_with_rec)

section \<open>The line loop\<close>

lemma trim_indent: "\<forall>c \<in> set p. is_ws c \<Longrightarrow> plain_line s \<Longrightarrow> trim (p @ s) = s"
proof -
  assume p: "\<forall>c \<in> set p. is_ws c" and s: "plain_line s"
  have "dropWhile is_ws (p @ s) = s"
    using p s by (induction p) (auto simp: plain_line_def dropWhile_eq_self_iff)
  then have "trim (p @ s) = trim_end_by is_ws s" by (simp add: trim_def trim_start_def)
  also have "\<dots> = s" using s by (intro trim_end_by_keep) (simp add: plain_line_def)
  finally show ?thesis .
qed

lemma push_insts:
  assumes "\<forall>i \<in> set is. wf_inst i" and "ip_func st = Some f" and "ip_block st = Some b"
  shows "parse_lines (map (\<lambda>i. ''    '' @ inst_str i) is @ rest) st =
    parse_lines rest (st\<lparr>ip_block := Some (b\<lparr>blk_insts := blk_insts b @ map unloc is\<rparr>)\<rparr>)"
  using assms
proof (induction "is" arbitrary: st b)
  case (Cons i "is")
  have "plain_line (inst_str i)" using inst_reads_back Cons.prems by (simp add: reads_back_def)
  then have t: "trim (''    '' @ inst_str i) = inst_str i" by (rule trim_indent [rotated]) (simp add: is_ws_def)
  have "parse_lines ((''    '' @ inst_str i) # map (\<lambda>i. ''    '' @ inst_str i) is @ rest) st =
      parse_lines (map (\<lambda>i. ''    '' @ inst_str i) is @ rest)
        (st\<lparr>ip_block := Some (b\<lparr>blk_insts := blk_insts b @ [unloc i]\<rparr>)\<rparr>)"
    using Cons.prems t by (simp add: parse_line_inst push_inst_def del: append_Cons)
  also have "\<dots> = parse_lines rest (st\<lparr>ip_block := Some (b\<lparr>blk_insts := blk_insts b @ map unloc (i # is)\<rparr>)\<rparr>)"
    using Cons.prems by (subst Cons.IH) (simp_all, cases b, simp)
  finally show ?case by simp
next
  case Nil
  then have "st\<lparr>ip_block := Some b\<rparr> = st" by (cases st) simp
  then show ?case by simp
qed

lemma push_block:
  assumes "wf_block b" and "ip_func (flush_block st) = Some f"
  shows "parse_lines (block_lines b @ rest) st =
    parse_lines rest ((flush_block st)\<lparr>ip_block := Some (text_block b)\<rparr>)"
proof -
  have id: "ident (blk_label b)" using assms(1) by (simp add: wf_block_def)
  have nl: "plain_line (''block'')" "plain_line (blk_label b)"
    using plain_join_sp [of "[blk_label b]"] ident_word [OF id] by (simp_all add: plain_line_def is_ws_def join_sp_one)
  define l where "l = ''  block '' @ blk_label b @ '':''"
  have "trim l = ''block '' @ blk_label b @ '':''"
  proof -
    have "dropWhile is_ws (''  '' @ ''block '' @ blk_label b @ '':'') = ''block '' @ blk_label b @ '':''"
      by (simp add: is_ws_def)
    moreover have "trim_end_by is_ws (''block '' @ blk_label b @ '':'') = ''block '' @ blk_label b @ '':''"
      by (rule trim_end_by_keep) (simp add: is_ws_def)
    ultimately show ?thesis by (simp add: l_def trim_def trim_start_def)
  qed
  then have p: "parse_line (trim l) st =
      Some ((flush_block st)\<lparr>ip_block := Some \<lparr>blk_label = blk_label b, blk_insts = []\<rparr>\<rparr>)"
    using parse_line_label [OF id] by (simp only:)
  have "block_lines b = l # map (\<lambda>i. ''    '' @ inst_str i) (blk_insts b)" by (simp add: block_lines_def l_def)
  then have "parse_lines (block_lines b @ rest) st =
      parse_lines (map (\<lambda>i. ''    '' @ inst_str i) (blk_insts b) @ rest)
        ((flush_block st)\<lparr>ip_block := Some \<lparr>blk_label = blk_label b, blk_insts = []\<rparr>\<rparr>)"
    using p by simp
  also have "\<dots> = parse_lines rest ((flush_block st)\<lparr>ip_block := Some (text_block b)\<rparr>)"
    using assms by (subst push_insts) (simp_all add: wf_block_def text_block_def, cases b, simp)
  finally show ?thesis .
qed

lemma push_blocks:
  assumes "\<forall>b \<in> set bs. wf_block b" and "ip_func (flush_block st) = Some f"
  shows "\<exists>s1. parse_lines (concat (map block_lines bs) @ rest) st = parse_lines rest s1 \<and>
    flush_block s1 = (flush_block st)\<lparr>ip_func := Some (f\<lparr>fn_blocks := fn_blocks f @ map text_block bs\<rparr>)\<rparr>"
  using assms
proof (induction bs arbitrary: st f)
  case Nil
  then have "flush_block st = (flush_block st)\<lparr>ip_func := Some f\<rparr>" by simp
  then show ?case by (intro exI [of _ st]) simp
next
  case (Cons b bs)
  let ?s = "(flush_block st)\<lparr>ip_block := Some (text_block b)\<rparr>"
  let ?g = "f\<lparr>fn_blocks := fn_blocks f @ [text_block b]\<rparr>"
  have nb: "ip_block (flush_block st) = None" if "ip_func (flush_block st) \<noteq> None"
    using that by (auto simp: flush_block_def split: option.splits)
  have fl: "flush_block ?s = (flush_block st)\<lparr>ip_func := Some ?g\<rparr>"
    using Cons.prems(2) nb by (simp add: flush_block_def)
  have b: "parse_lines (concat (map block_lines (b # bs)) @ rest) st =
      parse_lines (concat (map block_lines bs) @ rest) ?s"
    using push_block [of b st f] Cons.prems by simp
  obtain s1 where "parse_lines (concat (map block_lines bs) @ rest) ?s = parse_lines rest s1"
      "flush_block s1 = (flush_block ?s)\<lparr>ip_func := Some (?g\<lparr>fn_blocks := fn_blocks ?g @ map text_block bs\<rparr>)\<rparr>"
    using Cons.IH [of ?s ?g] Cons.prems fl by auto
  then show ?case using b fl by auto
qed

lemma flush_none: "ip_func st = None \<Longrightarrow> flush_func st = st"
  by (simp add: flush_func_def flush_block_def)

lemma flush_func_none:
  "ip_func st = None \<longrightarrow> ip_block st = None \<Longrightarrow>
     ip_func (flush_func st) = None \<and> ip_block (flush_func st) = None"
  by (cases "ip_func st"; cases "ip_block st")
    (simp_all add: flush_func_def flush_block_def Let_def)

lemma push_func:
  assumes "wf_header f" and "\<forall>b \<in> set (fn_blocks f). wf_block b" and "ip_func st = None \<longrightarrow> ip_block st = None"
  shows "\<exists>ls s1. func_lines f = Some ls \<and> parse_lines (ls @ rest) st = parse_lines rest s1 \<and>
    flush_func s1 = (flush_func st)\<lparr>ip_funcs := ip_funcs (flush_func st) @ [text_func f]\<rparr> \<and> ip_func s1 \<noteq> None"
proof -
  obtain l where l: "fn_line f = Some (''fn '' @ l)" "plain_line (''fn '' @ l)" "parse_fn l = Some (f\<lparr>fn_blocks := []\<rparr>)"
    using header_reads_back [OF assms(1)] by blast
  let ?s = "(flush_func st)\<lparr>ip_func := Some (f\<lparr>fn_blocks := []\<rparr>)\<rparr>"
  let ?bs = "concat (map block_lines (fn_blocks f))"
  note nn = flush_func_none [OF assms(3)]
  have fb: "flush_block ?s = ?s" using nn by (simp add: flush_block_def)
  have ls: "func_lines f = Some ((''fn '' @ l) # ?bs)" using l(1) by (simp add: func_lines_def)
  have "trim (''fn '' @ l) = ''fn '' @ l" using l(2) by (rule plain_trim)
  then have "parse_lines (((''fn '' @ l) # ?bs) @ rest) st = parse_lines (?bs @ rest) ?s"
    using parse_line_fn [OF l(1,3), of st] by (simp only: append_Cons parse_lines.simps Option.bind.simps)
  moreover obtain s1 where s1: "parse_lines (?bs @ rest) ?s = parse_lines rest s1"
      "flush_block s1 = ?s\<lparr>ip_func := Some (f\<lparr>fn_blocks := []\<rparr>\<lparr>fn_blocks := fn_blocks (f\<lparr>fn_blocks := []\<rparr>) @ map text_block (fn_blocks f)\<rparr>)\<rparr>"
    using push_blocks [OF assms(2), of ?s "f\<lparr>fn_blocks := []\<rparr>" rest] fb by auto
  moreover have "flush_func s1 = (flush_func st)\<lparr>ip_funcs := ip_funcs (flush_func st) @ [text_func f]\<rparr>"
    using s1(2) nn unfolding flush_func_def [of s1] by (cases "flush_func st") (simp add: text_func_def)
  moreover have "ip_func s1 \<noteq> None" using s1(2) by (auto simp: flush_block_def split: option.splits)
  ultimately show ?thesis using ls by auto
qed

lemma parse_lines_append: "parse_lines (xs @ ys) st = do { s \<leftarrow> parse_lines xs st; parse_lines ys s }"
proof (induction xs arbitrary: st)
  case (Cons x xs)
  then show ?case by (cases "parse_line (trim x) st") simp_all
qed simp

lemma push_funcs:
  assumes "\<forall>f \<in> set fs. wf_header f \<and> (\<forall>b \<in> set (fn_blocks f). wf_block b)"
    and "ip_func st = None \<longrightarrow> ip_block st = None"
  shows "\<exists>lss s1. map_all func_lines fs = Some lss \<and> parse_lines (concat lss) st = Some s1 \<and>
    flush_func s1 = (flush_func st)\<lparr>ip_funcs := ip_funcs (flush_func st) @ map text_func fs\<rparr>"
  using assms
proof (induction fs arbitrary: st)
  case Nil
  have "(flush_func st)\<lparr>ip_funcs := ip_funcs (flush_func st)\<rparr> = flush_func st" by simp
  then show ?case by simp
next
  case (Cons f fs)
  have f: "wf_header f" "\<forall>b \<in> set (fn_blocks f). wf_block b" using Cons.prems by auto
  obtain ls s1 where ls: "func_lines f = Some ls" "parse_lines ls st = Some s1"
      "flush_func s1 = (flush_func st)\<lparr>ip_funcs := ip_funcs (flush_func st) @ [text_func f]\<rparr>" "ip_func s1 \<noteq> None"
    using push_func [OF f Cons.prems(2), of "[]"] by auto
  obtain lss s2 where r: "map_all func_lines fs = Some lss" "parse_lines (concat lss) s1 = Some s2"
      "flush_func s2 = (flush_func s1)\<lparr>ip_funcs := ip_funcs (flush_func s1) @ map text_func fs\<rparr>"
    using Cons.IH [of s1] Cons.prems ls(4) by auto
  have "parse_lines (concat (ls # lss)) st = Some s2"
    using ls(2) r(2) by (simp add: parse_lines_append)
  moreover have "flush_func s2 = (flush_func st)\<lparr>ip_funcs := ip_funcs (flush_func st) @ map text_func (f # fs)\<rparr>"
    using r(3) ls(3) by (cases "flush_func st") simp
  ultimately show ?case using ls(1) r(1) by auto
qed

section \<open>Lines and text\<close>

definition text_line :: "string \<Rightarrow> bool" where
  "text_line l \<longleftrightarrow> CHR 0x0A \<notin> set l \<and> l \<noteq> [] \<and> last l \<noteq> CHR 0x0D"

lemma plain_text_line: "plain_line s \<Longrightarrow> CHR 0x0A \<notin> set p \<Longrightarrow> text_line (p @ s)"
  by (auto simp: plain_line_def text_line_def is_ws_def)

lemma str_lines_unlines:
  assumes "\<forall>l \<in> set ls. text_line l"
  shows "str_lines (unlines ls) = ls"
proof -
  have sp: "split_char (CHR 0x0A) (unlines ls) = ls @ [[]]"
    using assms
  proof (induction ls)
    case (Cons l ls)
    have "split_char (CHR 0x0A) (l @ CHR 0x0A # unlines ls) = l # split_char (CHR 0x0A) (unlines ls)"
      by (rule split_char_cons) (use Cons.prems in \<open>simp add: text_line_def\<close>)
    then show ?case using Cons by (simp add: unlines_def)
  qed (simp add: unlines_def split_char_def)
  have "strip_cr l = l" if "text_line l" for l
    using that by (cases l rule: rev_cases) (auto simp: text_line_def strip_cr_def strip_suffix_def)
  then have "map strip_cr ls = ls" using assms by (simp add: map_idI)
  then show ?thesis by (simp add: str_lines_def sp)
qed

lemma asm_line_plain: "plain_line (asm_line e)"
  using escape_no_lf [of e] by (simp add: asm_line_def plain_line_def is_ws_def)

lemma block_text_lines: "wf_block b \<Longrightarrow> \<forall>l \<in> set (block_lines b). text_line l"
proof -
  assume wf: "wf_block b"
  then have "word (blk_label b)" by (simp add: wf_block_def ident_word)
  then have "CHR 0x0A \<notin> set (blk_label b)" by (auto simp: word_def word_char_def is_ws_def)
  then have "text_line (''  block '' @ blk_label b @ '':'')" by (simp add: text_line_def)
  moreover have "text_line (''    '' @ inst_str i)" if "i \<in> set (blk_insts b)" for i
  proof (rule plain_text_line)
    show "plain_line (inst_str i)" using wf that inst_reads_back by (simp add: wf_block_def reads_back_def)
  qed simp
  ultimately show ?thesis by (auto simp: block_lines_def simp del: append_Cons)
qed

lemma func_text_lines:
  assumes "wf_header f" and "\<forall>b \<in> set (fn_blocks f). wf_block b" and "func_lines f = Some ls"
  shows "\<forall>l \<in> set ls. text_line l"
proof -
  obtain l where "fn_line f = Some (''fn '' @ l)" "plain_line (''fn '' @ l)" using header_reads_back [OF assms(1)] by blast
  then have l: "ls = (''fn '' @ l) # concat (map block_lines (fn_blocks f))" "text_line (''fn '' @ l)"
    using assms(3) plain_text_line [of "''fn '' @ l" "[]"] by (simp_all add: func_lines_def del: append_Cons)
  have "\<forall>x \<in> set (concat (map block_lines (fn_blocks f))). text_line x"
    using assms(2) block_text_lines by (simp add: Ball_def) blast
  then show ?thesis using l by (simp del: append_Cons)
qed

lemma funcs_text_lines:
  assumes "\<forall>f \<in> set fs. wf_header f \<and> (\<forall>b \<in> set (fn_blocks f). wf_block b)" and "map_all func_lines fs = Some lss"
  shows "\<forall>l \<in> set (concat lss). text_line l"
  using assms
proof (induction fs arbitrary: lss)
  case (Cons f fs)
  obtain ls ms where "func_lines f = Some ls" "map_all func_lines fs = Some ms" "lss = ls # ms"
    using Cons.prems(2) by (auto split: Option.bind_splits)
  then show ?case using Cons func_text_lines [of f ls] by auto
qed simp

lemma push_asms: "parse_lines (map asm_line es) st = Some (st\<lparr>ip_asm := ip_asm st @ es\<rparr>)"
proof (induction es arbitrary: st)
  case (Cons e es)
  then show ?case using plain_trim [OF asm_line_plain] by (simp add: parse_line_asm)
qed simp

lemma push_globals:
  "\<forall>g \<in> set gs. wf_global g \<Longrightarrow>
     parse_lines (map global_line gs) st = Some (st\<lparr>ip_globals := ip_globals st @ map unsized gs\<rparr>)"
proof (induction gs arbitrary: st)
  case (Cons g gs)
  have "trim (global_line g) = global_line g" using global_reads_back [of g] Cons.prems plain_trim by auto
  then show ?case using Cons by (simp add: parse_line_global)
qed simp

section \<open>The text is canonical\<close>

lemma inst_str_unloc [simp]: "inst_str (unloc i) = inst_str i"
proof (cases i)
  case (Ret r l)
  then show ?thesis by (cases r) auto
qed (simp_all add: cast_str_def gep_str_def asm_str_def call_str_def split: option.split)

lemma map_all_map: "map_all f (map g xs) = map_all (f \<circ> g) xs"
  by (induction xs) simp_all

lemma module_lines_text: "module_lines (text_module m) = module_lines m"
proof -
  have "block_lines (text_block b) = block_lines b" for b
    by (simp add: block_lines_def text_block_def comp_def)
  moreover have "fn_line (text_func f) = fn_line f" for f
    by (simp add: fn_line_def text_func_def markers_str_def proto_str_def Let_def)
  ultimately have "func_lines \<circ> text_func = func_lines"
    by (auto simp: func_lines_def text_func_def comp_def fun_eq_iff)
  moreover have "global_line \<circ> unsized = global_line"
    by (auto simp: global_line_def unsized_def comp_def fun_eq_iff)
  ultimately show ?thesis by (simp add: module_lines_def text_module_def map_all_map)
qed

text \<open>The limits of the text, outside \<open>wf_inst\<close>: a 64-bit call argument loses its type, and a call whose
  result nobody names becomes a call of no result.\<close>

lemma i64_argument_type_lost:
  assumes "ident r"
  shows "parse_call_arg (call_arg_str \<lparr>arg_ty = Some I64, arg_val = Reg r, arg_byval = None, arg_sret = False\<rparr>) =
    Some \<lparr>arg_ty = None, arg_val = Reg r, arg_byval = None, arg_sret = False\<rparr>"
proof -
  let ?a = "\<lparr>arg_ty = Some I64, arg_val = Reg r, arg_byval = None, arg_sret = False\<rparr>"
  have s: "call_arg_str ?a = join_sp [''i64'', CHR ''%'' # r]"
    by (simp add: call_arg_str_def join_sp_cons join_sp_one)
  have w: "\<forall>w \<in> set [''i64'', CHR ''%'' # r]. word w"
    using word_pct [OF assms] by (simp add: word_def word_char_def is_ws_def)
  have "parse_val (CHR ''%'' # r) = Some (Reg r)" using parse_val_str [of "Reg r"] assms by simp
  then show ?thesis
    unfolding parse_call_arg_def s trim_join_sp [OF w] split_ws_join_sp [OF w] by simp
qed

lemma unnamed_result_lost:
  "inst_str (Call \<lparr>call_dst = None, call_ty = Some I8, call_func = f, call_args = [], call_callees = [], call_loc = None\<rparr>) =
   inst_str (Call \<lparr>call_dst = None, call_ty = None, call_func = f, call_args = [], call_callees = [], call_loc = None\<rparr>)"
  by (simp add: call_str_def)

text \<open>C30: the text boundary between the passes loses nothing it is meant to carry. For every module of
  well-formed names, 64-bit constants and representable shapes, \<open>serialize\<close> succeeds, \<open>parse\<close> of its text
  gives the module back without source locations and global payloads, and writing that module again
  gives the same text. All 25 kinds of instruction are included, quoted assembly with escapes among them.\<close>

theorem ir_text_round_trip:
  assumes "wf_module m"
  shows "\<exists>t. serialize m = Some t \<and> parse t = Some (text_module m) \<and> serialize (text_module m) = Some t"
proof -
  let ?s0 = "\<lparr>ip_globals = [], ip_funcs = [], ip_asm = [], ip_func = None, ip_block = None\<rparr> :: ir_parser"
  let ?s1 = "?s0\<lparr>ip_asm := mod_asm m, ip_globals := map unsized (mod_globals m)\<rparr>"
  have wf: "\<forall>f \<in> set (mod_funcs m). wf_header f \<and> (\<forall>b \<in> set (fn_blocks f). wf_block b)"
    "\<forall>g \<in> set (mod_globals m). wf_global g" using assms by (simp_all add: wf_module_def)
  obtain lss s2 where f: "map_all func_lines (mod_funcs m) = Some lss" "parse_lines (concat lss) ?s1 = Some s2"
      "flush_func s2 = (flush_func ?s1)\<lparr>ip_funcs := ip_funcs (flush_func ?s1) @ map text_func (mod_funcs m)\<rparr>"
    using push_funcs [OF wf(1), of ?s1] by auto
  let ?ls = "map asm_line (mod_asm m) @ map global_line (mod_globals m) @ concat lss"
  have ls: "module_lines m = Some ?ls" using f(1) by (simp add: module_lines_def)
  have gl: "\<forall>g \<in> set (mod_globals m). text_line (global_line g)"
    using wf(2) global_reads_back plain_text_line [of _ "[]"] by fastforce
  have "\<forall>l \<in> set ?ls. text_line l"
    using funcs_text_lines [OF wf(1) f(1)] gl asm_line_plain plain_text_line [of _ "[]"] by auto
  then have "str_lines (unlines ?ls) = ?ls" by (rule str_lines_unlines)
  moreover have "parse_lines ?ls ?s0 = Some s2"
    using f(2) push_globals [OF wf(2)] by (simp add: parse_lines_append push_asms)
  moreover have "flush_func s2 = ?s1\<lparr>ip_funcs := map text_func (mod_funcs m)\<rparr>"
    using f(3) flush_none [of ?s1] by simp
  ultimately have "parse (unlines ?ls) = Some (text_module m)"
    by (simp add: parse_def Let_def text_module_def)
  then show ?thesis using ls module_lines_text [of m] by (simp add: serialize_def)
qed

definition demo_module :: ir_module where
  "demo_module = \<lparr>
     mod_globals = [\<lparr>gl_name = ''g'', gl_ty = I8, gl_is_const = False, gl_size = 1, gl_bytes = [7], gl_refs = [],
       gl_addr = Some \<lparr>pl_byte = 0x20, pl_bit = Some 3\<rparr>, gl_internal = True\<rparr>],
     mod_funcs = [\<lparr>fn_name = ''f'', fn_ret = Some I8,
       fn_params = [\<lparr>par_name = ''a'', par_width = 2, par_byval = None, par_sret = False, par_ptr = True\<rparr>],
       fn_blocks = [\<lparr>blk_label = ''entry'', blk_insts =
         [Load \<lparr>ld_dst = ''1'', ld_ty = I8, ld_ptr = ''@g'', ld_ptr_ty = False, ld_volatile = True,
                ld_loc = Some \<lparr>loc_file = ''a.c'', loc_line = 4, loc_col = 2\<rparr>\<rparr>,
          Asm \<lparr>asm_template = [CHR 0x22, CHR 0x5C, CHR 0x0A], asm_clobbers_memory = True, asm_operands = [], asm_loc = None\<rparr>,
          Ret (Some (I8, Reg ''1'')) None]\<rparr>],
       fn_isr = True, fn_irq_priority = 2, fn_naked = False, fn_unreachable_body = False, fn_variadic = True\<rparr>],
     mod_asm = [''nop'']\<rparr>"

lemma ir_text_round_trip_witness:
  "\<exists>t. serialize demo_module = Some t \<and> parse t = Some (text_module demo_module)"
proof -
  have "wf_module demo_module"
    by (simp add: demo_module_def wf_module_def wf_global_def wf_header_def wf_param_def wf_block_def
        wf_ptr_def ident_def name_char_def)
  then show ?thesis using ir_text_round_trip by blast
qed

end
