(* ===== verification/CallGraphProps.thy ===== *)
theory CallGraphProps
  imports CallGraph
begin

text \<open>
  The depth-first search is right: a panic is a call cycle, and without one the depth is the length of
  the longest call chain.
\<close>

section \<open>The collected edges\<close>

definition adj_ok :: "graph_acc \<Rightarrow> bool" where
  "adj_ok g \<longleftrightarrow> (\<forall>x y. y \<in> set (callees_of g x) \<longleftrightarrow> (x, y) \<in> set (ga_edges g))"

lemma adj_ok_seed: "adj_ok g \<Longrightarrow> adj_ok (seed_node f g)"
proof -
  have "callees_of (seed_node f g) x = callees_of g x" "ga_edges (seed_node f g) = ga_edges g" for x
    by (simp_all add: seed_node_def callees_of_def split: option.split)
  then show "adj_ok g \<Longrightarrow> adj_ok (seed_node f g)" by (simp add: adj_ok_def)
qed

lemma adj_ok_edge: "adj_ok g \<Longrightarrow> adj_ok (add_edge f l c g)"
  by (auto simp: adj_ok_def add_edge_def callees_of_def split: option.splits)

lemma adj_ok_fold: "(\<And>x g. adj_ok g \<Longrightarrow> adj_ok (h x g)) \<Longrightarrow> adj_ok g \<Longrightarrow> adj_ok (fold h xs g)"
  by (induction xs arbitrary: g) auto

lemma adj_ok_inst: "adj_ok g \<Longrightarrow> adj_ok (add_inst f i g)"
  by (cases i) (auto intro: adj_ok_edge adj_ok_fold)

lemma adj_ok_collect: "adj_ok (collect_edges m)"
proof -
  have "adj_ok (add_func f g)" if "adj_ok g" for f g
    unfolding add_func_def by (intro adj_ok_fold adj_ok_inst adj_ok_seed that)
  moreover have "adj_ok \<lparr>ga_adj = Map.empty, ga_edges = [], ga_locs = Map.empty\<rparr>"
    by (simp add: adj_ok_def callees_of_def)
  ultimately show ?thesis unfolding collect_edges_def by (rule adj_ok_fold)
qed

text \<open>Every edge leaves a function of the module.\<close>

definition edges_from :: "string set \<Rightarrow> graph_acc \<Rightarrow> bool" where
  "edges_from F g \<longleftrightarrow> (\<forall>(x, y) \<in> set (ga_edges g). x \<in> F)"

lemma edges_from_fold: "(\<And>x g. x \<in> set xs \<Longrightarrow> edges_from F g \<Longrightarrow> edges_from F (h x g)) \<Longrightarrow>
    edges_from F g \<Longrightarrow> edges_from F (fold h xs g)"
  by (induction xs arbitrary: g) auto

lemma edges_from_edge: "f \<in> F \<Longrightarrow> edges_from F g \<Longrightarrow> edges_from F (add_edge f l c g)"
  by (auto simp: edges_from_def add_edge_def)

lemma edges_from_inst: "f \<in> F \<Longrightarrow> edges_from F g \<Longrightarrow> edges_from F (add_inst f i g)"
  by (cases i) (auto intro: edges_from_edge edges_from_fold)

lemma edges_from_func: "fn_name f \<in> F \<Longrightarrow> edges_from F g \<Longrightarrow> edges_from F (add_func f g)"
proof -
  assume f: "fn_name f \<in> F" "edges_from F g"
  then have "edges_from F (seed_node (fn_name f) g)"
    by (simp add: edges_from_def seed_node_def split: option.split)
  then show ?thesis
    unfolding add_func_def by (intro edges_from_fold edges_from_inst f(1))
qed

lemma edges_from_collect: "edges_from (fn_name ` set (mod_funcs m)) (collect_edges m)"
  unfolding collect_edges_def
  by (rule edges_from_fold [OF edges_from_func]) (auto simp: edges_from_def)

section \<open>The invariant of the search\<close>

definition search_inv :: "(string \<times> string) set \<Rightarrow> dfs_state \<Rightarrow> bool" where
  "search_inv E s \<longleftrightarrow>
     (\<forall>x. df_color s x \<in> {None, Some 1, Some 2}) \<and>
     (\<forall>x. df_color s x = Some 2 \<longrightarrow> (\<exists>d. df_memo s x = Some d \<and> deepest_from E x d))"

text \<open>A finished call leaves every coloured node as it was and no new grey one.\<close>

definition grows :: "dfs_state \<Rightarrow> dfs_state \<Rightarrow> bool" where
  "grows s t \<longleftrightarrow> (\<forall>x. df_color s x \<noteq> None \<longrightarrow> df_color t x = df_color s x) \<and>
     (\<forall>x. df_color t x = Some 1 \<longrightarrow> df_color s x = Some 1)"

definition white :: "string set \<Rightarrow> dfs_state \<Rightarrow> string set" where
  "white U s = {x \<in> U. df_color s x = None}"

definition entered_from :: "(string \<times> string) set \<Rightarrow> string \<Rightarrow> dfs_state \<Rightarrow> bool" where
  "entered_from E node s \<longleftrightarrow> (\<forall>x. df_color s x = Some 1 \<longrightarrow> (x, node) \<in> E\<^sup>*)"

fun depth_ok :: "(string \<times> string) set \<Rightarrow> dfs_state \<Rightarrow> string \<Rightarrow> (nat \<times> dfs_state) dfs_result \<Rightarrow> bool" where
  "depth_ok E s node (Done (d, t)) \<longleftrightarrow>
     search_inv E t \<and> grows s t \<and> df_color t node = Some 2 \<and> deepest_from E node d"
| "depth_ok E s node (Recursion c l) \<longleftrightarrow> (\<exists>v. (v, v) \<in> E\<^sup>+)"
| "depth_ok E s node _ \<longleftrightarrow> False"

fun callees_ok :: "(string \<times> string) set \<Rightarrow> dfs_state \<Rightarrow> string list \<Rightarrow> nat \<Rightarrow> (nat \<times> dfs_state) dfs_result \<Rightarrow> bool" where
  "callees_ok E s cs n (Done (d, t)) \<longleftrightarrow>
     search_inv E t \<and> grows s t \<and> n \<le> d \<and> (\<forall>c \<in> set cs. \<exists>e. deepest_from E c e \<and> e < d) \<and>
     (d = n \<or> (\<exists>c \<in> set cs. deepest_from E c (d - 1)))"
| "callees_ok E s cs n (Recursion c l) \<longleftrightarrow> (\<exists>v. (v, v) \<in> E\<^sup>+)"
| "callees_ok E s cs n _ \<longleftrightarrow> False"

lemma grows_refl: "grows s s"
  by (simp add: grows_def)

lemma grows_trans: "grows s t \<Longrightarrow> grows t u \<Longrightarrow> grows s u"
  unfolding grows_def by metis

lemma grows_white: "grows s t \<Longrightarrow> white U t \<subseteq> white U s"
  unfolding grows_def white_def by force

definition adj_is :: "(string \<times> string) set \<Rightarrow> graph_acc \<Rightarrow> bool" where
  "adj_is E g \<longleftrightarrow> (\<forall>x y. y \<in> set (callees_of g x) \<longleftrightarrow> (x, y) \<in> E)"

lemma search_ok:
  assumes "finite U" and "\<And>x y. (x, y) \<in> E \<Longrightarrow> y \<in> U"
  shows "search_inv E s \<Longrightarrow> entered_from E node s \<Longrightarrow> node \<in> U \<Longrightarrow> df_color s node \<noteq> Some 1 \<Longrightarrow>
      card (white U s) < k \<Longrightarrow> adj_is E g \<Longrightarrow> depth_ok E s node (dfs_depth k g node s)"
    and "search_inv E s \<Longrightarrow> entered_from E node s \<Longrightarrow> df_color s node = Some 1 \<Longrightarrow>
      \<forall>c \<in> set cs. (node, c) \<in> E \<Longrightarrow> card (white U s) < k \<Longrightarrow> adj_is E g \<Longrightarrow>
      callees_ok E s cs n (dfs_callees k g node cs n s)"
proof (induction k g node s and k g node cs n s rule: dfs_depth_dfs_callees.induct)
  case (2 k g node s)
  show ?case
  proof (cases "df_color s node = Some 2")
    case True
    then obtain d where "df_memo s node = Some d" "deepest_from E node d"
      using "2.prems"(1) by (auto simp: search_inv_def)
    then show ?thesis using "2.prems"(1) True by (simp add: grows_refl)
  next
    case False
    let ?t = "s\<lparr>df_color := (df_color s)(node \<mapsto> 1)\<rparr>"
    have w: "df_color s node = None" using "2.prems" False by (auto simp: search_inv_def)
    have "search_inv E ?t" using "2.prems"(1) by (auto simp: search_inv_def)
    moreover have "entered_from E node ?t" using "2.prems"(2) by (auto simp: entered_from_def)
    moreover have "card (white U ?t) < k"
    proof -
      have "white U ?t = white U s - {node}" "node \<in> white U s" "finite (white U s)"
        using w "2.prems"(3) assms(1) by (auto simp: white_def)
      then have "card (white U ?t) < card (white U s)" by (simp only: card_Diff1_less)
      then show ?thesis using "2.prems"(5) by simp
    qed
    moreover have "\<forall>c \<in> set (callees_of g node). (node, c) \<in> E" using "2.prems"(6) by (simp add: adj_is_def)
    ultimately have ok: "callees_ok E ?t (callees_of g node) 1 (dfs_callees k g node (callees_of g node) 1 ?t)"
      using "2.prems"(6) by (intro "2.IH") (simp_all add: False "2.prems"(4))
    show ?thesis
    proof (cases "dfs_callees k g node (callees_of g node) 1 ?t")
      case (Done p)
      obtain d t where p: "p = (d, t)" by (cases p)
      note r = ok [unfolded Done p, simplified]
      have gr: "grows ?t t" using r by simp
      have d: "deepest_from E node d"
        by (rule deepest_from_step) (use r "2.prems"(6) in \<open>auto simp: adj_is_def\<close>)
      have "grows s (t\<lparr>df_color := (df_color t)(node \<mapsto> 2), df_memo := (df_memo t)(node \<mapsto> d)\<rparr>)"
        using gr w by (auto simp: grows_def split: if_splits)
      then show ?thesis
        using Done p False "2.prems"(4) r d by (auto simp: search_inv_def)
    qed (use ok False "2.prems"(4) in auto)
  qed
next
  case (4 k g node callee cs n s)
  show ?case
  proof (cases "df_color s callee = Some 1")
    case True
    then have "(callee, node) \<in> E\<^sup>*" "(node, callee) \<in> E" using "4.prems" by (auto simp: entered_from_def)
    then have "(callee, callee) \<in> E\<^sup>+" by simp
    then show ?thesis using True by auto
  next
    case False
    have e: "(node, callee) \<in> E" using "4.prems" by simp
    have "entered_from E callee s"
      using "4.prems"(2) e unfolding entered_from_def by (meson rtrancl.rtrancl_into_rtrancl)
    then have ok: "depth_ok E s callee (dfs_depth k g callee s)"
      using "4.IH"(1) False "4.prems" assms(2) [OF e] by simp
    show ?thesis
    proof (cases "dfs_depth k g callee s")
      case (Done p)
      obtain d t where p: "p = (d, t)" by (cases p)
      note r = ok [unfolded Done p, simplified]
      have gr: "grows s t" using r by simp
      have ent: "entered_from E node t" using "4.prems"(2) gr by (auto simp: entered_from_def grows_def)
      have gy: "df_color t node = Some 1" using "4.prems"(3) gr by (auto simp: grows_def)
      have "card (white U t) \<le> card (white U s)"
        by (rule card_mono) (use assms(1) grows_white [OF gr] in \<open>auto simp: white_def\<close>)
      then have "card (white U t) < k" using "4.prems"(5) by simp
      then have rest: "callees_ok E t cs (max n (1 + d)) (dfs_callees k g node cs (max n (1 + d)) t)"
        using "4.IH"(2) [OF False Done p [symmetric]] r ent gy "4.prems" by simp
      show ?thesis
      proof (cases "dfs_callees k g node cs (max n (1 + d)) t")
        case (Done q)
        obtain d2 u where q: "q = (d2, u)" by (cases q)
        note r2 = rest [unfolded Done q, simplified]
        have "d2 = n \<or> (\<exists>c \<in> set (callee # cs). deepest_from E c (d2 - 1))"
          using r r2 by (auto simp: max_def split: if_splits)
        moreover have "grows s u" using grows_trans gr r2 by blast
        moreover have "\<forall>c \<in> set (callee # cs). \<exists>e. deepest_from E c e \<and> e < d2"
          using r r2 by auto
        ultimately show ?thesis
          using \<open>dfs_depth k g callee s = _\<close> Done p q False r2 by simp
      qed (use rest False \<open>dfs_depth k g callee s = _\<close> p in auto)
    qed (use ok False in auto)
  qed
qed (simp_all add: grows_refl)

lemma roots_ok:
  assumes "finite U" and "\<And>x y. (x, y) \<in> E \<Longrightarrow> y \<in> U" and "adj_is E g"
    and "search_inv E s" and "\<forall>x. df_color s x \<noteq> Some 1" and "set fs \<subseteq> U" and "card U < k" and "1 \<le> n"
  shows "case dfs_roots k g fs n s of
      Done d \<Rightarrow> n \<le> d \<and> (\<forall>f \<in> set fs. \<exists>e. deepest_from E f e \<and> e \<le> d) \<and>
        (d = n \<or> (\<exists>f \<in> set fs. deepest_from E f d))
    | Recursion c l \<Rightarrow> \<exists>v. (v, v) \<in> E\<^sup>+
    | _ \<Rightarrow> False"
  using assms(4-8)
proof (induction fs arbitrary: n s)
  case (Cons f fs)
  have "card (white U s) \<le> card U" by (rule card_mono) (use assms(1) in \<open>auto simp: white_def\<close>)
  then have ok: "depth_ok E s f (dfs_depth k g f s)"
    using search_ok(1) [OF assms(1,2), where s = s and node = f and k = k] Cons.prems assms(3)
    by (simp add: entered_from_def)
  show ?case
  proof (cases "dfs_depth k g f s")
    case (Done p)
    obtain d t where p: "p = (d, t)" by (cases p)
    note r = ok [unfolded Done p, simplified]
    have g: "\<forall>x. df_color t x \<noteq> Some 1" using r Cons.prems(2) by (auto simp: grows_def)
    have step: "dfs_roots k g (f # fs) n s = dfs_roots k g fs (max n d) t" using Done p by simp
    have "set fs \<subseteq> U" "1 \<le> max n d" "search_inv E t" using Cons.prems r by auto
    note ih = Cons.IH [OF this(3) g this(1) Cons.prems(4) this(2)]
    show ?thesis
    proof (cases "dfs_roots k g fs (max n d) t")
      case (Done d2)
      note r2 = ih [unfolded Done dfs_result.case]
      have "d2 = n \<or> (\<exists>h \<in> set (f # fs). deepest_from E h d2)" using r r2 by (auto simp: max_def split: if_splits)
      moreover have "\<forall>h \<in> set (f # fs). \<exists>e. deepest_from E h e \<and> e \<le> d2" using r r2 by auto
      ultimately show ?thesis unfolding step Done using r2 by simp
    qed (use ih in \<open>simp_all only: step dfs_result.case\<close>)
  qed (use ok in auto)
qed simp

lemma chain_in_chain:
  "call_chain E xs \<Longrightarrow> hd xs \<notin> F \<Longrightarrow> (\<And>x y. (x, y) \<in> E \<Longrightarrow> x \<in> F) \<Longrightarrow> length xs = 1"
  by (cases "(E, xs)" rule: call_chain.cases) auto

section \<open>The answer\<close>

text \<open>C31: the recursion check and the depth are exact. \<open>build\<close> panics exactly when some function can call
  itself through a chain of calls, and otherwise its depth is the number of functions in the longest
  call chain (1 for a module without calls), so \<open>check_depth\<close> accepts a limit exactly when no chain is
  longer. The memo lookup never fails and the search never runs out of its bound.\<close>

theorem call_depth_exact:
  "case build m of
     Done g \<Rightarrow> (\<forall>v. (v, v) \<notin> (set (cg_edges g))\<^sup>+) \<and>
       (\<forall>xs. call_chain (set (cg_edges g)) xs \<longrightarrow> length xs \<le> cg_max_depth g) \<and>
       (\<exists>xs. call_chain (set (cg_edges g)) xs \<and> length xs = cg_max_depth g) \<and>
       (\<forall>limit. check_depth g limit = Some () \<longleftrightarrow>
          (\<forall>xs. call_chain (set (cg_edges g)) xs \<longrightarrow> length xs \<le> limit))
   | Recursion c l \<Rightarrow> \<exists>v. (v, v) \<in> (set (ga_edges (collect_edges m)))\<^sup>+
   | _ \<Rightarrow> False"
proof -
  let ?g = "collect_edges m" and ?fs = "map fn_name (mod_funcs m)"
  let ?E = "set (ga_edges ?g)"
  let ?U = "set ?fs \<union> fst ` ?E \<union> snd ` ?E"
  let ?k = "Suc (2 * length (ga_edges ?g) + length (mod_funcs m))"
  let ?s = "\<lparr>df_color = Map.empty, df_memo = Map.empty\<rparr>"
  have from_fs: "x \<in> set ?fs" if "(x, y) \<in> ?E" for x y
    using edges_from_collect [of m] that by (auto simp: edges_from_def)
  have "card ?U \<le> card (set ?fs) + card (fst ` ?E) + card (snd ` ?E)"
    by (meson add_le_mono1 card_Un_le le_trans)
  also have "\<dots> \<le> length ?fs + length (ga_edges ?g) + length (ga_edges ?g)"
    by (intro add_mono card_length le_trans [OF card_image_le]) simp_all
  finally have card: "card ?U < ?k" by simp
  have adj: "adj_is ?E ?g" using adj_ok_collect [of m] by (simp add: adj_ok_def adj_is_def)
  have U: "finite ?U" "\<And>x y. (x, y) \<in> ?E \<Longrightarrow> y \<in> ?U" by force+
  have inv: "search_inv ?E ?s" by (simp add: search_inv_def)
  have ok: "case dfs_roots ?k ?g ?fs 1 ?s of
      Done d \<Rightarrow> 1 \<le> d \<and> (\<forall>f \<in> set ?fs. \<exists>e. deepest_from ?E f e \<and> e \<le> d) \<and>
        (d = 1 \<or> (\<exists>f \<in> set ?fs. deepest_from ?E f d))
    | Recursion c l \<Rightarrow> \<exists>v. (v, v) \<in> ?E\<^sup>+
    | _ \<Rightarrow> False"
    by (rule roots_ok [OF U adj inv]) (use card in auto)
  show ?thesis
  proof (cases "dfs_roots ?k ?g ?fs 1 ?s")
    case (Done d)
    note r = ok [unfolded Done dfs_result.case]
    have all: "length xs \<le> d" if c: "call_chain ?E xs" for xs
    proof (cases "hd xs \<in> set ?fs")
      case True
      then show ?thesis using r c by (fastforce simp: deepest_from_def)
    next
      case False
      then show ?thesis using chain_in_chain [OF c False from_fs] r by simp
    qed
    have ex: "\<exists>xs. call_chain ?E xs \<and> length xs = d"
    proof (cases "d = 1")
      case True
      have "call_chain ?E [[]]" by simp
      then show ?thesis using True by (intro exI [of _ "[[]]"]) simp
    qed (use r in \<open>auto simp: deepest_from_def\<close>)
    have nc: "(v, v) \<notin> ?E\<^sup>+" for v
      using cycle_chains [of v ?E d] all by fastforce
    have lim: "(d \<le> limit) \<longleftrightarrow> (\<forall>xs. call_chain ?E xs \<longrightarrow> length xs \<le> limit)" for limit
      using all ex by (meson le_trans)
    have "build m = Done \<lparr>cg_edges = ga_edges ?g, cg_max_depth = d, cg_edge_locs = ga_locs ?g\<rparr>"
      by (simp only: build_def Let_def Done dfs_result.case)
    then show ?thesis using all ex nc lim by (simp add: check_depth_def)
  qed (use ok in \<open>auto simp: build_def Let_def\<close>)
qed

definition call_inst :: "string \<Rightarrow> inst" where
  "call_inst f = Call \<lparr>call_dst = None, call_ty = None, call_func = f, call_args = [], call_callees = [], call_loc = None\<rparr>"

definition calling :: "string \<Rightarrow> string list \<Rightarrow> ir_func" where
  "calling f cs = \<lparr>fn_name = f, fn_ret = None, fn_params = [],
     fn_blocks = [\<lparr>blk_label = ''e'', blk_insts = map call_inst cs\<rparr>],
     fn_isr = False, fn_irq_priority = 0, fn_naked = False, fn_unreachable_body = False, fn_variadic = False\<rparr>"

definition three_deep :: ir_module where
  "three_deep = \<lparr>mod_globals = [], mod_funcs = [calling ''main'' [''f'', ''_delay''], calling ''f'' [''g''], calling ''g'' []],
     mod_asm = []\<rparr>"

lemma call_depth_exact_witness:
  "\<exists>g. build three_deep = Done g \<and> cg_max_depth g = 3 \<and> (\<forall>v. (v, v) \<notin> (set (cg_edges g))\<^sup>+) \<and>
     check_depth g 2 = None"
proof -
  obtain g where g: "build three_deep = Done g" "cg_max_depth g = 3"
    by (simp add: build_def three_deep_def calling_def call_inst_def collect_edges_def add_func_def add_edge_def
        seed_node_def callees_of_def is_digit_char_def Let_def numeral_eq_Suc)
  then show ?thesis using call_depth_exact [of three_deep] by (auto simp: check_depth_def)
qed

end
