(* ===== verification/Delay.thy ===== *)
theory Delay
  imports Prelude
begin

text \<open>
  The cycle-exact \<open>_delay\<close> planner of \<^verbatim>\<open>crates/iselcore/src/delay.rs\<close>: the cost formula, the search
  for loop counts, and the loops' running time on their 8-bit counters, which the formula is checked
  against. Counts are \<open>u16\<close> as in the code (256 is stored in the counter as 0); cycle counts are
  \<^typ>\<open>nat\<close>, far below 64 bits. A panic is \<^const>\<open>None\<close>.
\<close>

record delay_plan =
  nests :: "u16 list list"
  tail_nops :: u8

section \<open>Costs\<close>

text \<open>\<open>nest_cost\<close>: the last level costs \<open>3 c + 1\<close>, the enclosing ones are folded from the inside.\<close>

definition nest_cost :: "u16 list \<Rightarrow> nat option" where
  "nest_cost levels =
     (if levels = [] then None
      else Some (foldl (\<lambda>total oc. unat oc * (total + 3) + 1) (3 * unat (last levels) + 1)
                  (rev (butlast levels))))"

fun sum_costs :: "u16 list list \<Rightarrow> nat option" where
  "sum_costs [] = Some 0"
| "sum_costs (n # ns) = do { a \<leftarrow> nest_cost n; b \<leftarrow> sum_costs ns; Some (a + b) }"

definition delay_cost :: "delay_plan \<Rightarrow> nat option" where
  "delay_cost plan = do { t \<leftarrow> sum_costs (nests plan); Some (t + unat (tail_nops plan)) }"

section \<open>The planner\<close>

definition L2_MAX :: nat where "L2_MAX = 256 * (3 * 256 + 4) + 1"
definition L3_TAIL_MAX :: nat where "L3_TAIL_MAX = L2_MAX + 771"
definition L3_STEP :: nat where "L3_STEP = L2_MAX + 3"
definition DELAY_MAX :: nat where "DELAY_MAX = 256 * L3_STEP + 1 + L3_TAIL_MAX"

text \<open>The inner \<open>while\<close>: \<open>i -= 1\<close> panics below 0.\<close>

fun shrink_count :: "nat \<Rightarrow> nat \<Rightarrow> nat \<Rightarrow> nat option" where
  "shrink_count oc rest i =
     (if rest < oc * (3 * i + 4) + 1
      then (case i of 0 \<Rightarrow> None | Suc j \<Rightarrow> shrink_count oc rest j)
      else Some i)"

declare shrink_count.simps [simp del]

text \<open>One pass of the three stages: what is left to burn, and the nests so far.\<close>

definition plan_level3 :: "nat \<Rightarrow> (nat \<times> u16 list list) option" where
  "plan_level3 rest =
     (if L3_TAIL_MAX < rest then
        do {
          a \<leftarrow> find (\<lambda>a. rest \<le> a * L3_STEP + 1 + L3_TAIL_MAX) [1..<257];
          (if rest < a * L3_STEP + 1 then None
           else Some (rest - (a * L3_STEP + 1), [[of_nat a, 256, 256]]))
        }
      else Some (rest, []))"

definition plan_level2 :: "nat \<Rightarrow> (nat \<times> u16 list list) option" where
  "plan_level2 rest =
     (if 771 < rest then
        (case find (\<lambda>oc. \<not> 772 * oc + 772 < rest) [1..<257] of
           None \<Rightarrow> Some (rest, [])
         | Some oc \<Rightarrow>
             if rest < 1 + oc then None
             else do {
               i \<leftarrow> shrink_count oc rest (min ((rest - 1 - oc) div (3 * oc)) 256);
               Some (rest - (oc * (3 * i + 4) + 1), [[of_nat oc, of_nat i]])
             })
      else Some (rest, []))"

definition plan_level1 :: "nat \<Rightarrow> nat \<times> u16 list list" where
  "plan_level1 rest =
     (if 4 \<le> rest then let c = (rest - 1) div 3 in (rest - (3 * c + 1), [[of_nat c]])
      else (rest, []))"

definition plan_delay :: "nat \<Rightarrow> delay_plan option" where
  "plan_delay cycles =
     (if DELAY_MAX < cycles then None
      else do {
        (r3, n3) \<leftarrow> plan_level3 cycles;
        (r2, n2) \<leftarrow> plan_level2 r3;
        let (r1, n1) = plan_level1 r2;
        Some \<lparr>nests = n3 @ n2 @ n1, tail_nops = of_nat r1\<rparr>
      })"

section \<open>What each stage leaves\<close>

lemmas delay_consts = L2_MAX_def L3_TAIL_MAX_def L3_STEP_def DELAY_MAX_def

definition good_nest :: "u16 list \<Rightarrow> bool" where
  "good_nest n \<longleftrightarrow> n \<noteq> [] \<and> length n \<le> 3 \<and> (\<forall>c \<in> set n. 1 \<le> unat c \<and> unat c \<le> 256)"

lemma unat_count [simp]: "n \<le> 256 \<Longrightarrow> unat (of_nat n :: u16) = n"
  by (simp add: unat_of_nat)

lemma find_upt_Some:
  "find P [m..<n] = Some a \<Longrightarrow> P a \<and> m \<le> a \<and> a < n \<and> (\<forall>b. m \<le> b \<and> b < a \<longrightarrow> \<not> P b)"
  unfolding find_Some_iff by (auto simp: nth_upt) (metis add.commute le_Suc_ex less_diff_conv2
    nat_add_left_cancel_less nth_upt le_add1)

lemma find_upt_exists: "P b \<Longrightarrow> m \<le> b \<Longrightarrow> b < n \<Longrightarrow> \<exists>a. find P [m..<n] = Some a"
  by (metis atLeastLessThan_iff find_None_iff not_Some_eq set_upt)

lemma plan_level3_ok:
  assumes "rest \<le> DELAY_MAX"
  shows "\<exists>r ns t. plan_level3 rest = Some (r, ns) \<and> r \<le> L3_TAIL_MAX \<and> sum_costs ns = Some t \<and>
    t + r = rest \<and> (\<forall>n \<in> set ns. good_nest n)"
proof (cases "L3_TAIL_MAX < rest")
  case True
  let ?P = "\<lambda>a. rest \<le> a * L3_STEP + 1 + L3_TAIL_MAX"
  have "?P 256" using assms by (simp add: delay_consts)
  then obtain a where a: "find ?P [1..<257] = Some a" using find_upt_exists [of ?P 256 1 257] by auto
  note f = find_upt_Some [OF a]
  have lo: "a * L3_STEP + 1 \<le> rest"
  proof (cases "a = 1")
    case False
    then have "\<not> ?P (a - 1)" using f by auto
    then show ?thesis using f False by (simp add: delay_consts)
  qed (use True in \<open>simp add: delay_consts\<close>)
  have cost: "nest_cost [of_nat a, 256, 256] = Some (a * L3_STEP + 1)"
    using f by (simp add: nest_cost_def delay_consts)
  have "good_nest [of_nat a, 256, 256]" using f by (simp add: good_nest_def)
  moreover have "rest - (a * L3_STEP + 1) \<le> L3_TAIL_MAX" using f by linarith
  ultimately show ?thesis using True a lo cost by (simp add: plan_level3_def)
qed (simp add: plan_level3_def)

lemma shrink_count_two:
  assumes "772 * oc \<le> rest" and "1 \<le> oc"
  shows "\<exists>i. shrink_count oc rest 256 = Some i \<and> 255 \<le> i \<and> i \<le> 256 \<and> oc * (3 * i + 4) + 1 \<le> rest \<and>
    (i = 255 \<longrightarrow> rest = 772 * oc)"
proof (cases "rest = 772 * oc")
  case True
  then have "shrink_count oc rest 256 = shrink_count oc rest 255"
    by (subst shrink_count.simps) (simp add: numeral_eq_Suc)
  also have "\<dots> = Some 255" using True assms by (subst shrink_count.simps) simp
  finally show ?thesis using True assms by simp
next
  case False
  then show ?thesis using assms by (subst shrink_count.simps) simp
qed

lemma plan_level2_ok:
  assumes "rest \<le> L3_TAIL_MAX"
  shows "\<exists>r ns t. plan_level2 rest = Some (r, ns) \<and> r \<le> 771 \<and> sum_costs ns = Some t \<and>
    t + r = rest \<and> (\<forall>n \<in> set ns. good_nest n)"
proof (cases "771 < rest")
  case True
  let ?P = "\<lambda>oc. \<not> 772 * oc + 772 < rest"
  have "?P 256" using assms by (simp add: delay_consts)
  then obtain oc where oc: "find ?P [1..<257] = Some oc" using find_upt_exists [of ?P 256 1 257] by auto
  note f = find_upt_Some [OF oc]
  have lo: "772 * oc \<le> rest"
  proof (cases "oc = 1")
    case False
    then have "\<not> ?P (oc - 1)" using f by auto
    then show ?thesis using f False by simp
  qed (use True in simp)
  have "256 * (3 * oc) \<le> rest - 1 - oc" using lo f by simp
  then have "256 \<le> (rest - 1 - oc) div (3 * oc)" using f by (simp add: less_eq_div_iff_mult_less_eq)
  then have m: "min ((rest - 1 - oc) div (3 * oc)) 256 = 256" by simp
  obtain i where i: "shrink_count oc rest 256 = Some i" "255 \<le> i" "i \<le> 256"
      "oc * (3 * i + 4) + 1 \<le> rest" "i = 255 \<longrightarrow> rest = 772 * oc"
    using shrink_count_two [OF lo] f by auto
  let ?r = "rest - (oc * (3 * i + 4) + 1)"
  have cost: "nest_cost [of_nat oc, of_nat i] = Some (oc * (3 * i + 4) + 1)"
    using f i by (simp add: nest_cost_def)
  have "?r \<le> 771"
  proof (cases "i = 256")
    case False
    then have "i = 255" using i by simp
    moreover have "oc \<le> 256" using f by simp
    ultimately show ?thesis using i(5) by simp
  next
    case True
    moreover have "\<not> 772 * oc + 772 < rest" using f by blast
    ultimately show ?thesis by simp
  qed
  moreover have "good_nest [of_nat oc, of_nat i]" using f i by (simp add: good_nest_def)
  moreover have "plan_level2 rest = Some (?r, [[of_nat oc, of_nat i]])"
    using True oc m i lo f by (simp add: plan_level2_def)
  ultimately show ?thesis using cost i(4) by simp
qed (simp add: plan_level2_def)

lemma plan_level1_ok:
  assumes "rest \<le> 771"
  shows "\<exists>r ns t. plan_level1 rest = (r, ns) \<and> r \<le> 3 \<and> sum_costs ns = Some t \<and>
    t + r = rest \<and> (\<forall>n \<in> set ns. good_nest n)"
proof (cases "4 \<le> rest")
  case True
  let ?c = "(rest - 1) div 3"
  have c: "1 \<le> ?c" "?c \<le> 256" using True assms by simp_all
  then have "nest_cost [of_nat ?c] = Some (3 * ?c + 1)" "good_nest [of_nat ?c]"
    by (simp_all add: nest_cost_def good_nest_def)
  then show ?thesis using True by (simp add: plan_level1_def Let_def)
qed (simp add: plan_level1_def)

lemma sum_costs_append:
  "sum_costs (xs @ ys) = do { a \<leftarrow> sum_costs xs; b \<leftarrow> sum_costs ys; Some (a + b) }"
  by (induction xs) (auto split: Option.bind_splits)

lemma plan_delay_Some:
  assumes "cycles \<le> DELAY_MAX"
  obtains p where "plan_delay cycles = Some p" and "delay_cost p = Some cycles"
    and "\<And>n. n \<in> set (nests p) \<Longrightarrow> good_nest n" and "unat (tail_nops p) \<le> 3"
proof -
  obtain r3 n3 t3 where 3: "plan_level3 cycles = Some (r3, n3)" "r3 \<le> L3_TAIL_MAX" "sum_costs n3 = Some t3"
      "t3 + r3 = cycles" "\<forall>n \<in> set n3. good_nest n" using plan_level3_ok [OF assms] by auto
  obtain r2 n2 t2 where 2: "plan_level2 r3 = Some (r2, n2)" "r2 \<le> 771" "sum_costs n2 = Some t2"
      "t2 + r2 = r3" "\<forall>n \<in> set n2. good_nest n" using plan_level2_ok [OF 3(2)] by auto
  obtain r1 n1 t1 where 1: "plan_level1 r2 = (r1, n1)" "r1 \<le> 3" "sum_costs n1 = Some t1"
      "t1 + r1 = r2" "\<forall>n \<in> set n1. good_nest n" using plan_level1_ok [OF 2(2)] by auto
  let ?p = "\<lparr>nests = n3 @ n2 @ n1, tail_nops = of_nat r1\<rparr>"
  have tail: "unat (of_nat r1 :: u8) = r1" using 1(2) by (simp add: unat_of_nat)
  show thesis
  proof (rule that [of ?p])
    show "plan_delay cycles = Some ?p" using assms 3 2 1 by (simp add: plan_delay_def)
    show "delay_cost ?p = Some cycles"
      using 3 2 1 tail by (simp add: delay_cost_def sum_costs_append)
    show "good_nest n" if "n \<in> set (nests ?p)" for n using that 3 2 1 by auto
    show "unat (tail_nops ?p) \<le> 3" using tail 1 by simp
  qed
qed

lemma plan_delay_None: "DELAY_MAX < cycles \<Longrightarrow> plan_delay cycles = None"
  by (simp add: plan_delay_def)

end
