(* ===== verification/DelayRun.thy ===== *)
theory DelayRun
  imports Exec14 Delay
begin

text \<open>
  The counted loops of \<open>_delay\<close> on the classic core: runs that stay inside a stretch of code, what a
  step leaves alone outside interrupts, and the exact running time of a loop nest by induction on its
  levels.
\<close>

section \<open>Runs inside a stretch of code\<close>

inductive burns :: "nat set \<Rightarrow> pic14 \<Rightarrow> pic14 \<Rightarrow> bool" for R :: "nat set" where
  burns_refl: "burns R s s"
| burns_step: "unat (p14_pc s) \<in> R \<Longrightarrow> \<not> p14_halted s \<Longrightarrow> p14_step s = Some s' \<Longrightarrow> burns R s' t \<Longrightarrow>
    burns R s t"

lemma burns_trans: "burns R s t \<Longrightarrow> burns R t u \<Longrightarrow> burns R s u"
  by (induction rule: burns.induct) (auto intro: burns_step)

lemma burns_mono: "burns R s t \<Longrightarrow> R \<subseteq> S \<Longrightarrow> burns S s t"
  by (induction rule: burns.induct) (auto intro: burns.intros)

lemma burns_cycles: "burns R s t \<Longrightarrow> p14_cycles s \<le> p14_cycles t"
  by (induction rule: burns.induct) (auto dest: p14_step_cycles)

text \<open>Each step costs at least a cycle, so a cap of as many steps as cycles is never met.\<close>

lemma burns_run_until:
  assumes "burns R s t" and "p14_pc t = target" and "unat target \<notin> R"
    and "p14_cycles t \<le> p14_cycles s + n"
  shows "p14_run_until target n s = Some (Reached, t)"
  using assms
proof (induction arbitrary: n rule: burns.induct)
  case (burns_refl s)
  then show ?case by (cases n) (simp_all add: p14_run_until_def)
next
  case (burns_step s s' t)
  have lt: "p14_cycles s < p14_cycles s'" using burns_step.hyps(3) p14_step_cycles by blast
  have le: "p14_cycles s' \<le> p14_cycles t" by (rule burns_cycles [OF burns_step.hyps(4)])
  obtain m where n: "n = Suc m" using lt le burns_step.prems by (cases n) auto
  have "p14_pc s \<noteq> target" using burns_step.hyps(1) burns_step.prems by auto
  moreover have "p14_run_until target m s' = Some (Reached, t)"
    by (rule burns_step.IH) (use burns_step.prems n lt in auto)
  ultimately show ?case using burns_step.hyps n by (simp add: p14_run_until_def)
qed

section \<open>What a step leaves alone\<close>

definition timer_regs :: "nat set" where
  "timer_regs = {PIC14_TMR0, INTCON, PIC14_ADCON0, PIC14_ADRESH, PIC14_ADRESL}"

text \<open>Equal but for \<open>W\<close>, the program counter, the time, the bytes of \<open>C\<close> and what the timers count in.\<close>

definition same_but :: "nat set \<Rightarrow> pic14 \<Rightarrow> pic14 \<Rightarrow> bool" where
  "same_but C s t \<longleftrightarrow> p14_device t = p14_device s \<and> p14_prog t = p14_prog s \<and> p14_stack t = p14_stack s \<and>
     bit (p14_ram t INTCON) 7 = bit (p14_ram s INTCON) 7 \<and>
     (\<forall>x. x \<notin> C \<and> x \<notin> timer_regs \<longrightarrow> p14_ram t x = p14_ram s x)"

lemma same_but_refl: "same_but C s s"
  by (simp add: same_but_def)

lemma same_but_trans: "same_but C s t \<Longrightarrow> same_but C t u \<Longrightarrow> same_but C s u"
  by (auto simp: same_but_def)

lemma same_but_mono: "same_but C s t \<Longrightarrow> C \<subseteq> D \<Longrightarrow> same_but D s t"
  unfolding same_but_def by blast

lemma p14_add_cycles_quiet: "same_but {} s (p14_add_cycles s n)"
  by (auto simp: same_but_def timer_regs_def) (simp add: p14_add_cycles_def)

lemma p14_finish_quiet: "same_but {} s (p14_finish s n)"
  by (simp add: same_but_def)

text \<open>One instruction, with interrupts off.\<close>

lemma step_quiet:
  assumes "\<not> bit (p14_ram s INTCON) 7" and "unat (p14_pc s) < length (p14_prog s)"
    and "p14_prog s ! unat (p14_pc s) = word" and "p14_dispatch s (p14_pc s) word = Some (s1, n)"
    and "same_but C s s1" and "\<not> p14_halted s1" and "\<not> p14_halted s"
    and "unat (p14_pc s) \<in> R" and "unat n \<le> length (p14_prog s)"
  obtains t where "burns R s t" and "p14_pc t = n"
    and "p14_cycles t = p14_cycles s + cost14 word (p14_pc s) n" and "p14_w t = p14_w s1"
    and "same_but C s t" and "p14_halted t \<longleftrightarrow> unat n = length (p14_prog s)"
    and "\<And>x. x \<notin> timer_regs \<Longrightarrow> p14_ram t x = p14_ram s1 x"
proof -
  let ?c = "p14_add_cycles s1 (cost14 word (p14_pc s) n)"
  let ?t = "p14_finish ?c n"
  have "p14_step s = Some ?t"
    using assms(1-4) p14_ready_gie [of s] by (auto simp: p14_step_def p14_fetch_def)
  then have "burns R s ?t" using assms(7,8) by (blast intro: burns.intros)
  moreover have q: "same_but {} s1 ?t"
    using p14_add_cycles_quiet p14_finish_quiet by (rule same_but_trans)
  moreover have "same_but C s ?t"
    using assms(5) same_but_mono [OF q, of C] by (blast intro: same_but_trans)
  moreover have "p14_cycles s1 = p14_cycles s" "p14_prog s1 = p14_prog s"
    using p14_dispatch_frame [OF assms(4)] by simp_all
  moreover have "p14_halted ?t \<longleftrightarrow> unat n = length (p14_prog s)"
    using assms(6,9) \<open>p14_prog s1 = p14_prog s\<close> by auto
  moreover have "\<And>x. x \<notin> timer_regs \<Longrightarrow> p14_ram ?t x = p14_ram s1 x"
    using q unfolding same_but_def by blast
  ultimately show thesis by (intro that [of ?t]) simp_all
qed

section \<open>Counter bytes\<close>

definition phys_of :: "pic14 \<Rightarrow> nat \<Rightarrow> nat" where
  "phys_of s f = (case p14_banked_addr s f of Some a \<Rightarrow> a | None \<Rightarrow> f)"

lemma phys_of_eq: "f < 0x80 \<Longrightarrow> phys_of s f = f \<or> phys_of s f = f + p14_bank_base s"
  by (simp add: phys_of_def p14_banked_addr_def)

lemma phys_of_mod:
  assumes "f < 0x80"
  shows "phys_of s f mod 0x80 = f"
  using phys_of_eq [OF assms, of s] assms by (elim disjE) (simp_all add: p14_bank_base_def)

lemma phys_of_data:
  assumes "0x20 \<le> f" and "f < 0x80"
  shows "phys_of s f \<notin> timer_regs" "phys_of s f \<noteq> 3" "phys_of s f \<noteq> 0x0A"
    "phys_of s f \<noteq> PIC14_EECON1" "phys_of s f \<noteq> PIC14_EECON2"
  using phys_of_mod [OF assms(2), of s] assms(1) by (auto simp: timer_regs_def)

lemma phys_of_inj:
  assumes "f < 0x80" and "g < 0x80" and "phys_of s f = phys_of s g"
  shows "f = g"
proof -
  have "f = phys_of s f mod 0x80" by (rule phys_of_mod [OF assms(1), symmetric])
  also have "\<dots> = phys_of s g mod 0x80" by (rule arg_cong [OF assms(3)])
  also have "\<dots> = g" by (rule phys_of_mod [OF assms(2)])
  finally show ?thesis .
qed

lemma phys_of_same:
  "same_but C s t \<Longrightarrow> 3 \<notin> C \<Longrightarrow> phys_of t f = phys_of s f"
  by (auto simp: same_but_def timer_regs_def phys_of_def p14_banked_addr_def p14_bank_base_def)

lemma read_counter:
  assumes "0x20 \<le> f" and "f < 0x80"
  shows "p14_read_f s f = p14_ram s (phys_of s f)"
  using assms by (auto simp: p14_read_f_def phys_of_def split: option.splits)

lemma write_counter:
  assumes "0x20 \<le> f" and "f < 0x80"
  shows "p14_write_f s f v = p14_poke s (phys_of s f) v"
  using assms phys_of_data [OF assms, of s]
  by (auto simp: p14_write_f_def phys_of_def p14_store_def p14_ee_store_def p14_adc_store_def
      timer_regs_def split: option.splits)

lemma same_but_poke: "x \<in> C \<Longrightarrow> x \<notin> timer_regs \<Longrightarrow> same_but C s (p14_poke s x v)"
  by (auto simp: same_but_def timer_regs_def)

lemma same_but_set_w: "same_but C s (s\<lparr>p14_w := v\<rparr>)"
  by (simp add: same_but_def)

section \<open>The code of a nest\<close>

definition goto_word :: "nat \<Rightarrow> u16" where
  "goto_word k = 0x2800 OR of_nat (k mod 0x800)"

fun nest_words :: "nat \<Rightarrow> nat \<Rightarrow> u16 list \<Rightarrow> u16 list" where
  "nest_words a f [] = []"
| "nest_words a f (c # cs) =
     [0x3000 OR ucast (ucast c :: u8), 0x0080 OR of_nat f] @ nest_words (a + 2) (f + 1) cs @
     [0x0B80 OR of_nat f, goto_word (a + 2)]"

lemma length_nest_words: "length (nest_words a f cs) = 4 * length cs"
  by (induction a f cs rule: nest_words.induct) auto

fun nest_time :: "u16 list \<Rightarrow> nat" where
  "nest_time [] = 0"
| "nest_time (c # cs) = unat c * (nest_time cs + 3) + 1"

lemma nest_cost_time: "cs \<noteq> [] \<Longrightarrow> nest_cost cs = Some (nest_time cs)"
proof (induction cs rule: rev_induct)
  case (snoc c cs)
  have "nest_time (cs @ [c]) =
      foldl (\<lambda>tm oc. unat oc * (tm + 3) + 1) (3 * unat c + 1) (rev cs)"
    by (induction cs) simp_all
  then show ?case by (simp add: nest_cost_def)
qed simp

text \<open>The page the program counter high latch names.\<close>

definition page_of :: "pic14 \<Rightarrow> nat" where
  "page_of s = unat (drop_bit 3 (p14_ram s 0x0A) AND 3) * 0x800"

lemma page_target:
  "push_bit 8 (ucast (p14_ram s 0x0A) AND 0x18) OR of_nat k = (of_nat (page_of s + k) :: u16)"
  if "k < 0x800"
proof -
  let ?q = "drop_bit 3 (p14_ram s 0x0A) AND 3"
  have "push_bit 8 (ucast (p14_ram s 0x0A) AND 0x18) = (push_bit 11 (ucast ?q) :: u16)"
  proof (rule bit_word_eqI)
    fix n assume n: "n < LENGTH(16)"
    have m: "(0x18 :: u16) = push_bit 3 (mask 2)" "(3 :: u8) = mask 2" by (simp_all add: mask_eq_exp_minus_1)
    show "bit (push_bit 8 (ucast (p14_ram s 0x0A) AND 0x18) :: u16) n = bit (push_bit 11 (ucast ?q) :: u16) n"
      using n unfolding m
      by (auto simp: bit_fields possible_bit_def dest: bit_u8_less)
  qed
  also have "(ucast ?q :: u16) = of_nat (unat ?q)" by simp
  finally show ?thesis using or_eq_add [of k 11 "unat ?q"] that
    by (simp add: page_of_def)
qed

section \<open>Timed runs\<close>

text \<open>
  From \<open>s\<close>, with interrupts off, the core runs inside \<open>R\<close> for \<open>n\<close> cycles to address \<open>b\<close> and changes no
  byte outside \<open>C\<close>. It may halt only where the program ends.
\<close>

definition reaches :: "nat set \<Rightarrow> nat set \<Rightarrow> pic14 \<Rightarrow> nat \<Rightarrow> nat \<Rightarrow> pic14 \<Rightarrow> bool" where
  "reaches R C s b n t \<longleftrightarrow> burns R s t \<and> p14_pc t = of_nat b \<and> p14_cycles t = p14_cycles s + n \<and>
     same_but C s t \<and> (p14_halted t \<longrightarrow> b = length (p14_prog s))"

lemma reaches_trans:
  assumes "reaches R C s b n t" and "reaches R C t c m u"
  shows "reaches R C s c (n + m) u"
proof -
  have "p14_prog t = p14_prog s" using assms(1) by (simp add: reaches_def same_but_def)
  then show ?thesis
    using assms burns_trans [of R s t u] same_but_trans [of C s t u] by (auto simp: reaches_def)
qed

lemma reaches_mono: "reaches R C s b n t \<Longrightarrow> R \<subseteq> S \<Longrightarrow> C \<subseteq> D \<Longrightarrow> reaches S D s b n t"
  using burns_mono same_but_mono unfolding reaches_def by blast

lemma reaches_refl: "p14_pc s = of_nat b \<Longrightarrow> \<not> p14_halted s \<Longrightarrow> reaches R C s b 0 s"
  by (simp add: reaches_def burns_refl same_but_refl)

text \<open>A core ready to run the word at \<open>a\<close>.\<close>

definition at_addr :: "pic14 \<Rightarrow> nat \<Rightarrow> bool" where
  "at_addr s a \<longleftrightarrow> p14_pc s = of_nat a \<and> \<not> p14_halted s \<and> \<not> bit (p14_ram s INTCON) 7"

lemma at_addr_reached:
  assumes "reaches R C s b n t" and "at_addr s a" and "b < length (p14_prog s)"
  shows "at_addr t b"
  using assms by (auto simp: reaches_def at_addr_def same_but_def)

definition code_at :: "u16 list \<Rightarrow> nat \<Rightarrow> u16 list \<Rightarrow> bool" where
  "code_at prog a ws \<longleftrightarrow> a + length ws \<le> length prog \<and> (\<forall>i < length ws. prog ! (a + i) = ws ! i)"

lemma code_at_Cons: "code_at prog a (w # ws) \<longleftrightarrow> a < length prog \<and> prog ! a = w \<and> code_at prog (a + 1) ws"
  by (auto simp: code_at_def less_Suc_eq_0_disj)

lemma code_at_append: "code_at prog a (xs @ ys) \<longleftrightarrow> code_at prog a xs \<and> code_at prog (a + length xs) ys"
proof (induction xs arbitrary: a)
  case Nil
  then show ?case by (auto simp: code_at_def)
next
  case (Cons x xs)
  then show ?case by (simp add: code_at_Cons)
qed

lemma one_word:
  assumes "at_addr s a" and "a < 0x2000" and "a < length (p14_prog s)" and "p14_prog s ! a = word"
    and "p14_dispatch s (of_nat a) word = Some (s1, of_nat b)" and "b \<le> 0x2000"
    and "b \<le> length (p14_prog s)" and "same_but C s s1" and "\<not> p14_halted s1" and "a \<in> R"
  obtains t where "reaches R C s b (cost14 word (of_nat a) (of_nat b)) t" and "p14_w t = p14_w s1"
    and "\<And>x. x \<notin> timer_regs \<Longrightarrow> p14_ram t x = p14_ram s1 x"
proof -
  have u: "unat (of_nat a :: u16) = a" "unat (of_nat b :: u16) = b"
    using assms(2,6) by (simp_all add: unat_of_nat)
  show thesis
    by (rule step_quiet [of s word s1 "of_nat b" C R])
      (use assms u in \<open>auto simp: at_addr_def reaches_def intro!: that\<close>)
qed

lemma cost14_next: "word AND 0x3000 \<noteq> 0x2000 \<Longrightarrow> cost14 word (of_nat a) (of_nat (a + 1)) = 1"
  by (simp add: cost14_def cost14_masked_def)

section \<open>The instructions of the loops\<close>

lemma of_nat_add_1: "(of_nat a :: u16) + 1 = of_nat (a + 1)"
  by simp

lemma of_nat_add_2: "(of_nat a :: u16) + 2 = of_nat (a + 2)"
  by simp

text \<open>The class bits of the words, for the cost: the loops hold one two-cycle word, the branch back.\<close>

lemma small_class:
  assumes "drop_bit n (x :: u16) = 0" and "n \<le> 12"
  shows "x AND 0x3000 = 0"
proof (rule bit_word_eqI)
  fix i assume "i < LENGTH(16)"
  have "\<not> bit (drop_bit n x) (i - n)" by (simp add: assms(1))
  then have "n \<le> i \<Longrightarrow> \<not> bit x i" by (simp add: bit_drop_bit_eq)
  moreover have "bit (0x3000 :: u16) i \<Longrightarrow> 12 \<le> i"
  proof -
    have "(0x3000 :: u16) = push_bit 12 3" by simp
    then show "bit (0x3000 :: u16) i \<Longrightarrow> 12 \<le> i" by (simp only: bit_push_bit_iff)
  qed
  ultimately show "bit (x AND 0x3000) i = bit (0 :: u16) i" using assms(2) by (auto simp: bit_and_iff)
qed

lemma class_or: "x AND 0x3000 = 0 \<Longrightarrow> (y OR x :: u16) AND 0x3000 = y AND 0x3000"
  by (simp add: and.commute [of _ "0x3000"] bit.conj_disj_distrib)

lemma class_lit: "(0x3000 OR ucast (k :: u8) :: u16) AND 0x3000 \<noteq> 0x2000"
  using class_or [OF small_class [OF drop_small_u8 [of 8 k]], of "0x3000"] by simp

lemma class_file: "f < 128 \<Longrightarrow> (0x0080 OR of_nat f :: u16) AND 0x3000 \<noteq> 0x2000"
  "f < 128 \<Longrightarrow> (0x0B80 OR of_nat f :: u16) AND 0x3000 \<noteq> 0x2000"
  using class_or [OF small_class [OF file_fields(4)], of f "0x0080"]
    class_or [OF small_class [OF file_fields(4)], of f "0x0B80"] by simp_all

lemma class_goto: "k < 0x800 \<Longrightarrow> (0x2800 OR of_nat k :: u16) AND 0x3000 = 0x2000"
  using class_or [OF small_class [OF drop_small [of k 11]], of "0x2800"] by simp

lemma run_movlw:
  assumes "at_addr s a" and "a < 0x2000" and "code_at (p14_prog s) a ((0x3000 OR ucast (k :: u8)) # ws)" and "a \<in> R"
  obtains t where "reaches R C s (a + 1) 1 t" and "p14_w t = k"
proof -
  have d: "p14_dispatch s (of_nat a) (0x3000 OR ucast k) = Some (s\<lparr>p14_w := k\<rparr>, of_nat (a + 1))"
    by (simp only: exec_movlw of_nat_add_1)
  show thesis
    by (rule one_word [OF _ _ _ _ d, of C R])
      (use assms cost14_next [OF class_lit] that in
        \<open>auto simp: code_at_Cons at_addr_def same_but_set_w\<close>)
qed

lemma run_movwf:
  assumes "at_addr s a" and "a < 0x2000" and "code_at (p14_prog s) a ((0x0080 OR of_nat f) # ws)" and "a \<in> R"
    and f: "0x20 \<le> f" "f < 0x80"
  obtains t where "reaches R {phys_of s f} s (a + 1) 1 t" and "p14_ram t (phys_of s f) = p14_w s"
proof -
  let ?s1 = "p14_poke s (phys_of s f) (p14_w s)"
  have d: "p14_dispatch s (of_nat a) (0x0080 OR of_nat f) = Some (?s1, of_nat (a + 1))"
    using f by (simp only: exec_movwf [of f] write_counter of_nat_add_1)
  show thesis
    by (rule one_word [OF _ _ _ _ d, of "{phys_of s f}" R])
      (use assms cost14_next [OF class_file(1)] phys_of_data [OF f, of s] that in
        \<open>auto simp: code_at_Cons at_addr_def same_but_poke\<close>)
qed

text \<open>DECFSZ falls into the branch, or past it when the counter was 1.\<close>

lemma run_decfsz:
  assumes "at_addr s a" and "a + 1 < 0x2000" and "code_at (p14_prog s) a ((0x0B80 OR of_nat f) # w # ws)" and "a \<in> R"
    and f: "0x20 \<le> f" "f < 0x80" and v: "p14_ram s (phys_of s f) = v"
  obtains t where "v \<noteq> 1" and "reaches R {phys_of s f} s (a + 1) 1 t" and "p14_ram t (phys_of s f) = v - 1"
  | t where "v = 1" and "reaches R {phys_of s f} s (a + 2) 2 t"
proof -
  let ?s1 = "p14_poke s (phys_of s f) (v - 1)" and ?b = "if v = 1 then a + 2 else a + 1"
  have d: "p14_dispatch s (of_nat a) (0x0B80 OR of_nat f) = Some (?s1, of_nat ?b)"
    using f v by (simp only: exec_decfsz [of f] write_counter read_counter of_nat_add_1 of_nat_add_2
        if_distrib [of "of_nat"])
  have ne: "(of_nat (a + 2) :: u16) \<noteq> of_nat (a + 1)" by simp
  have c: "cost14 (0x0B80 OR of_nat f) (of_nat a) (of_nat ?b) = (if v = 1 then 2 else 1)"
  proof (cases "v = 1")
    case True
    then show ?thesis by (simp add: cost14_def cost14_masked_def)
  next
    case False
    then show ?thesis using cost14_next [OF class_file(2) [OF f(2)]] by simp
  qed
  obtain t where t: "reaches R {phys_of s f} s ?b (if v = 1 then 2 else 1) t"
    "\<And>x. x \<notin> timer_regs \<Longrightarrow> p14_ram t x = p14_ram ?s1 x"
    by (rule one_word [OF _ _ _ _ d, of "{phys_of s f}" R, unfolded c])
      (use assms phys_of_data [OF f, of s] in \<open>auto simp: code_at_Cons at_addr_def same_but_poke\<close>)
  show thesis using t phys_of_data [OF f, of s] that by (cases "v = 1") auto
qed

lemma run_goto:
  assumes "at_addr s a" and "a < 0x2000" and "code_at (p14_prog s) a (goto_word b # ws)" and "a \<in> R"
    and "page_of s \<le> b" and "b < page_of s + 0x800" and "b \<le> length (p14_prog s)" and "b \<le> 0x2000"
  obtains t where "reaches R C s b 2 t"
proof -
  have m: "page_of s + b mod 0x800 = b"
  proof -
    obtain r where r: "b = page_of s + r" "r < 0x800"
      using assms(5,6) by (metis add_less_cancel_left le_iff_add)
    then have "b mod 0x800 = r" by (simp add: page_of_def)
    then show ?thesis using r by simp
  qed
  have d: "p14_dispatch s (of_nat a) (goto_word b) = Some (s, of_nat b)"
    using exec_goto [of "b mod 0x800" s "of_nat a"] page_target [of "b mod 0x800" s] m
    by (simp only: goto_word_def mod_less_divisor zero_less_numeral)
  have c: "cost14 (goto_word b) (of_nat a) (of_nat b) = 2"
    by (simp add: cost14_def cost14_masked_def goto_word_def class_goto)
  show thesis
    by (rule one_word [OF _ _ _ _ d, of C R, unfolded c])
      (use assms that in \<open>auto simp: code_at_Cons at_addr_def same_but_refl\<close>)
qed

section \<open>A nest\<close>

lemma page_of_same: "same_but C s t \<Longrightarrow> 0x0A \<notin> C \<Longrightarrow> page_of t = page_of s"
  by (auto simp: same_but_def timer_regs_def page_of_def)

text \<open>What a stretch \<open>a..<e\<close> of the program at \<open>s\<close> is, for the nest starting at counter \<open>f\<close>.\<close>

definition nest_at :: "pic14 \<Rightarrow> nat \<Rightarrow> nat \<Rightarrow> u16 list \<Rightarrow> bool" where
  "nest_at s a f cs \<longleftrightarrow> code_at (p14_prog s) a (nest_words a f cs) \<and> 0x20 \<le> f \<and> f + length cs \<le> 0x80 \<and>
     (\<forall>c \<in> set cs. 1 \<le> unat c \<and> unat c \<le> 256) \<and>
     page_of s \<le> a \<and> a + 4 * length cs \<le> page_of s + 0x800"

definition counters :: "pic14 \<Rightarrow> nat \<Rightarrow> nat \<Rightarrow> nat set" where
  "counters s f n = phys_of s ` {f..<f + n}"

lemma counters_plain:
  assumes "0x20 \<le> f" and "f + n \<le> 0x80"
  shows "3 \<notin> counters s f n" "0x0A \<notin> counters s f n"
  using assms phys_of_data(2,3) [of _ s] by (auto simp: counters_def)

lemma counters_same: "same_but C s t \<Longrightarrow> 3 \<notin> C \<Longrightarrow> counters t f n = counters s f n"
  by (simp add: counters_def phys_of_same)

lemma counters_Suc: "counters s f (Suc n) = insert (phys_of s f) (counters s (f + 1) n)"
proof -
  have "{f..<f + Suc n} = insert f {f + 1..<f + 1 + n}" by auto
  then show ?thesis by (simp add: counters_def)
qed

lemma counter_fresh:
  assumes "0x20 \<le> f" and "f + 1 + n \<le> 0x80"
  shows "phys_of s f \<notin> counters s (f + 1) n"
  using assms by (auto simp: counters_def dest: phys_of_inj [rotated 2])

lemma nest_at_same:
  assumes "same_but C s t" and "0x0A \<notin> C" and "nest_at s a f cs"
  shows "nest_at t a f cs"
  using assms(3) page_of_same [OF assms(1,2)] assms(1) by (simp add: nest_at_def same_but_def)

lemma page_of_le: "page_of s \<le> 0x1800"
  by (simp add: page_of_def field_nat)

lemma nest_at_Cons:
  assumes "nest_at s a f (c # cs)"
  shows "nest_at s (a + 2) (f + 1) cs"
    and "code_at (p14_prog s) a [0x3000 OR ucast (ucast c :: u8), 0x0080 OR of_nat f]"
    and "code_at (p14_prog s) (a + 2 + 4 * length cs) [0x0B80 OR of_nat f, goto_word (a + 2)]"
    and "a + 4 + 4 * length cs \<le> length (p14_prog s)" and "a + 4 + 4 * length cs \<le> 0x2000"
    and "0x20 \<le> f" "f < 0x80" "1 \<le> unat c" "unat c \<le> 256" "page_of s \<le> a"
    and "a + 4 + 4 * length cs \<le> page_of s + 0x800"
proof -
  note n = assms [unfolded nest_at_def nest_words.simps code_at_append]
  show "nest_at s (a + 2) (f + 1) cs" "code_at (p14_prog s) a [0x3000 OR ucast (ucast c :: u8), 0x0080 OR of_nat f]"
    using n by (simp_all add: nest_at_def)
  have "code_at (p14_prog s) (a + 2 + 4 * length cs) [0x0B80 OR of_nat f, goto_word (a + 2)]"
    using n by (simp add: length_nest_words)
  then show "code_at (p14_prog s) (a + 2 + 4 * length cs) [0x0B80 OR of_nat f, goto_word (a + 2)]"
    and "a + 4 + 4 * length cs \<le> length (p14_prog s)"
    by (auto simp: code_at_def)
  show "a + 4 + 4 * length cs \<le> 0x2000" using n page_of_le [of s] by simp
  show "0x20 \<le> f" "f < 0x80" "1 \<le> unat c" "unat c \<le> 256" "page_of s \<le> a"
    "a + 4 + 4 * length cs \<le> page_of s + 0x800" using n by simp_all
qed

lemma count_byte: "1 \<le> unat c \<Longrightarrow> unat c \<le> 256 \<Longrightarrow> (ucast (c :: u16) :: u8) = of_nat (unat c)"
  by (simp add: unsigned_of_nat word_eq_iff_unsigned [where ?'a = nat] unat_of_nat unsigned_ucast_eq take_bit_eq_mod)

lemma count_is_1: "k < 256 \<Longrightarrow> (of_nat (Suc k) :: u8) = 1 \<longleftrightarrow> k = 0"
  using unat_of_nat [of "Suc k", where ?'a = 8]
  by (simp add: word_eq_iff_unsigned [where ?'a = nat] mod_Suc del: of_nat_Suc)

text \<open>The loop of one level, given that the levels inside it run in their time.\<close>

lemma level_loop:
  assumes inner: "\<And>u. at_addr u (a + 2) \<Longrightarrow> nest_at u (a + 2) (f + 1) cs \<Longrightarrow>
      \<exists>t. reaches {a + 2..<a + 2 + 4 * length cs} (counters u (f + 1) (length cs)) u
            (a + 2 + 4 * length cs) (nest_time cs) t"
    and "at_addr u (a + 2)" and "nest_at u a f (c # cs)"
    and "p14_ram u (phys_of u f) = of_nat (Suc k)" and "k < 256"
  shows "\<exists>t. reaches {a..<a + 4 + 4 * length cs} (counters u f (Suc (length cs))) u
      (a + 4 + 4 * length cs) (Suc k * (nest_time cs + 3) - 1) t"
  using assms(2-)
proof (induction k arbitrary: u rule: less_induct)
  case (less k u)
  let ?R = "{a..<a + 4 + 4 * length cs}" and ?C = "counters u f (Suc (length cs))"
    and ?d = "a + 2 + 4 * length cs"
  note at = less.prems(1) and n = less.prems(2) and v = less.prems(3) and k = less.prems(4)
  note N = nest_at_Cons [OF n]
  have fl: "f + 1 + length cs \<le> 0x80" using n by (simp add: nest_at_def)
  have plain: "3 \<notin> ?C" "0x0A \<notin> ?C" using counters_plain [of f "Suc (length cs)" u] N(6) fl by simp_all
  obtain t where t: "reaches {a + 2..<?d} (counters u (f + 1) (length cs)) u ?d (nest_time cs) t"
    using inner [OF at N(1)] by blast
  have tC: "reaches ?R ?C u ?d (nest_time cs) t"
    by (rule reaches_mono [OF t]) (auto simp: counters_Suc)
  have st: "same_but ?C u t" using tC by (simp add: reaches_def)
  have vt: "p14_ram t (phys_of t f) = of_nat (Suc k)"
  proof -
    have "same_but (counters u (f + 1) (length cs)) u t" using t by (simp add: reaches_def)
    then have "p14_ram t (phys_of u f) = p14_ram u (phys_of u f)"
      using counter_fresh [OF N(6) fl, of u] phys_of_data(1) [OF N(6,7), of u] by (simp add: same_but_def)
    then show ?thesis using v phys_of_same [OF st plain(1), of f] by simp
  qed
  have prog: "p14_prog t = p14_prog u" using st by (simp add: same_but_def)
  have att: "at_addr t ?d" using at_addr_reached [OF tC at] N(4) by simp
  have pt: "phys_of t f \<in> ?C" using phys_of_same [OF st plain(1), of f] by (simp add: counters_Suc)
  have code: "code_at (p14_prog t) ?d [0x0B80 OR of_nat f, goto_word (a + 2)]" using N(3) prog by simp
  have small: "?d + 1 < 0x2000" "?d \<in> ?R" "?d + 1 \<in> ?R" using N(5) by auto
  show ?case
  proof (rule run_decfsz [OF att small(1) code small(2) N(6,7) vt])
    fix w assume one: "of_nat (Suc k) = (1 :: u8)" and w: "reaches ?R {phys_of t f} t (?d + 2) 2 w"
    have "k = 0" using one count_is_1 [OF k] by simp
    moreover have "reaches ?R ?C t (?d + 2) 2 w" by (rule reaches_mono [OF w]) (use pt in auto)
    ultimately have "reaches ?R ?C u (?d + 2) (nest_time cs + 2) w" by (blast intro: reaches_trans [OF tC])
    moreover have "?d + 2 = a + 4 + 4 * length cs" "Suc 0 * (nest_time cs + 3) - 1 = nest_time cs + 2"
      by simp_all
    ultimately show ?thesis unfolding \<open>k = 0\<close> by (simp only:) blast
  next
    fix w assume ne: "of_nat (Suc k) \<noteq> (1 :: u8)" and w: "reaches ?R {phys_of t f} t (?d + 1) 1 w"
      and vw: "p14_ram w (phys_of t f) = of_nat (Suc k) - 1"
    obtain j where j: "k = Suc j" using ne count_is_1 [OF k] by (cases k) auto
    have wC: "reaches ?R ?C t (?d + 1) 1 w" by (rule reaches_mono [OF w]) (use pt in auto)
    note uw = reaches_trans [OF tC wC]
    have sw: "same_but ?C u w" using uw by (simp add: reaches_def)
    have pw: "p14_prog w = p14_prog u" "page_of w = page_of u"
      using sw page_of_same [OF sw plain(2)] by (simp_all add: same_but_def)
    have atw: "at_addr w (?d + 1)" using at_addr_reached [OF uw at] N(4) by simp
    have cw: "code_at (p14_prog w) (?d + 1) [goto_word (a + 2)]"
      using code prog pw by (simp add: code_at_Cons)
    obtain x where x: "reaches ?R {} w (a + 2) 2 x"
      by (rule run_goto [OF atw _ cw small(3), where C = "{}"]) (use N pw in auto)
    note ux = reaches_trans [OF uw reaches_mono [OF x subset_refl empty_subsetI]]
    have sx: "same_but ?C u x" using ux by (simp add: reaches_def)
    have p: "phys_of t f = phys_of u f" "phys_of x f = phys_of u f"
      by (rule phys_of_same [OF st plain(1)], rule phys_of_same [OF sx plain(1)])
    have "same_but {} w x" using x by (simp add: reaches_def)
    then have vx: "p14_ram x (phys_of x f) = of_nat (Suc j)"
      using vw phys_of_data(1) [OF N(6,7), of u] p j by (simp add: same_but_def)
    have atx: "at_addr x (a + 2)" using at_addr_reached [OF ux at] N(4) by simp
    obtain y where y: "reaches ?R (counters x f (Suc (length cs))) x (a + 4 + 4 * length cs)
        (Suc j * (nest_time cs + 3) - 1) y"
      using less.IH [OF _ atx nest_at_same [OF sx plain(2) n] vx] k j by auto
    have "reaches ?R ?C x (a + 4 + 4 * length cs) (Suc j * (nest_time cs + 3) - 1) y"
      using y counters_same [OF sx plain(1), of f "Suc (length cs)"] by simp
    from reaches_trans [OF ux this]
    have "reaches ?R ?C u (a + 4 + 4 * length cs)
        (nest_time cs + 1 + 2 + (Suc j * (nest_time cs + 3) - 1)) y" .
    moreover have "nest_time cs + 1 + 2 + (Suc j * (nest_time cs + 3) - 1) = Suc k * (nest_time cs + 3) - 1"
      by (simp add: j)
    ultimately show ?thesis by (simp only:) blast
  qed
qed

lemma nest_runs:
  assumes "at_addr s a" and "nest_at s a f cs"
  shows "\<exists>t. reaches {a..<a + 4 * length cs} (counters s f (length cs)) s (a + 4 * length cs) (nest_time cs) t"
  using assms
proof (induction cs arbitrary: a f s)
  case Nil
  then have "reaches {a..<a} (counters s f 0) s a 0 s" by (auto simp: at_addr_def intro: reaches_refl)
  then show ?case by auto
next
  case (Cons c cs)
  let ?R = "{a..<a + 4 + 4 * length cs}" and ?C = "counters s f (Suc (length cs))"
  note N = nest_at_Cons [OF Cons.prems(2)]
  have plain: "3 \<notin> ?C" "0x0A \<notin> ?C"
    using counters_plain [of f "Suc (length cs)" s] Cons.prems(2) by (simp_all add: nest_at_def)
  obtain t where t: "reaches ?R {} s (a + 1) 1 t" "p14_w t = ucast c"
    by (rule run_movlw [OF Cons.prems(1) _ N(2), of ?R "{}"]) (use N(5) in auto)
  have pt: "p14_prog t = p14_prog s" and ft: "phys_of t f = phys_of s f"
    using t phys_of_same [of "{}" s t f] by (simp_all add: reaches_def same_but_def)
  have att: "at_addr t (a + 1)" using at_addr_reached [OF t(1) Cons.prems(1)] N(4) by simp
  obtain u where u: "reaches ?R {phys_of t f} t (a + 1 + 1) 1 u" "p14_ram u (phys_of t f) = p14_w t"
    by (rule run_movwf [OF att, of f "[]" ?R]) (use N(2,5,6,7) pt in \<open>auto simp: code_at_Cons\<close>)
  have su: "reaches ?R ?C s (a + 2) 2 u"
    using reaches_trans [OF reaches_mono [OF t(1) subset_refl, of ?C] reaches_mono [OF u(1) subset_refl, of ?C]]
    by (simp add: ft counters_Suc numeral_2_eq_2)
  have sbu: "same_but ?C s u" using su by (simp add: reaches_def)
  obtain k where k: "unat c = Suc k" "k < 256" using N(8,9) by (cases "unat c") auto
  have "p14_ram u (phys_of u f) = of_nat (Suc k)"
    using u(2) t(2) ft phys_of_same [OF sbu plain(1), of f] count_byte [OF N(8,9)] k by simp
  then obtain v where v: "reaches ?R (counters u f (Suc (length cs))) u (a + 4 + 4 * length cs)
      (Suc k * (nest_time cs + 3) - 1) v"
    using level_loop [where u = u and f = f and c = c and k = k and a = a and cs = cs, OF Cons.IH] k at_addr_reached [OF su Cons.prems(1)] N(4)
      nest_at_same [OF sbu plain(2) Cons.prems(2)] by auto
  have "reaches ?R ?C s (a + 4 + 4 * length cs) (2 + (Suc k * (nest_time cs + 3) - 1)) v"
    by (rule reaches_trans [OF su]) (use v counters_same [OF sbu plain(1)] in simp)
  moreover have "2 + (Suc k * (nest_time cs + 3) - 1) = nest_time (c # cs)" by (simp add: k)
  moreover have "a + 4 * length (c # cs) = a + 4 + 4 * length cs" by simp
  ultimately show ?case by (simp only: length_Cons) blast
qed

section \<open>A plan\<close>

definition arrived :: "pic14 \<Rightarrow> nat \<Rightarrow> bool" where
  "arrived s a \<longleftrightarrow> p14_pc s = of_nat a \<and> (p14_halted s \<longrightarrow> a = length (p14_prog s)) \<and>
     \<not> bit (p14_ram s INTCON) 7"

lemma arrived_reached: "reaches R C s b n t \<Longrightarrow> arrived s a \<Longrightarrow> arrived t b"
  by (auto simp: reaches_def arrived_def same_but_def)

lemma arrived_at: "arrived s a \<Longrightarrow> a < length (p14_prog s) \<Longrightarrow> at_addr s a"
  by (auto simp: arrived_def at_addr_def)

lemma arrived_refl: "arrived s a \<Longrightarrow> reaches R C s a 0 s"
  by (simp add: reaches_def arrived_def burns_refl same_but_refl)

fun nests_words :: "nat \<Rightarrow> nat \<Rightarrow> u16 list list \<Rightarrow> u16 list" where
  "nests_words a f [] = []"
| "nests_words a f (n # ns) = nest_words a f n @ nests_words (a + 4 * length n) f ns"

lemma length_nests_words: "length (nests_words a f ns) = 4 * sum_list (map length ns)"
  by (induction a f ns rule: nests_words.induct) (simp_all add: length_nest_words)

lemma nests_run:
  assumes "arrived s a" and "code_at (p14_prog s) a (nests_words a f ns)" and "0x20 \<le> f" and "f + 3 \<le> 0x80"
    and "\<And>n. n \<in> set ns \<Longrightarrow> good_nest n" and "page_of s \<le> a"
    and "a + 4 * sum_list (map length ns) \<le> page_of s + 0x800" and "sum_costs ns = Some tm"
  shows "\<exists>t. reaches {a..<a + 4 * sum_list (map length ns)} (counters s f 3) s
      (a + 4 * sum_list (map length ns)) tm t"
  using assms
proof (induction ns arbitrary: a s tm)
  case Nil
  then have "reaches {a..<a} (counters s f 3) s a 0 s" by (auto intro: arrived_refl)
  then show ?case using Nil.prems by auto
next
  case (Cons n ns)
  let ?b = "a + 4 * length n" and ?e = "a + 4 * sum_list (map length (n # ns))"
  have g: "n \<noteq> []" "length n \<le> 3" "\<forall>c \<in> set n. 1 \<le> unat c \<and> unat c \<le> 256"
    using Cons.prems(5) [of n] by (simp_all add: good_nest_def)
  obtain rest where rest: "sum_costs ns = Some rest" "tm = nest_time n + rest"
    using Cons.prems(8) nest_cost_time [OF g(1)] by (auto split: Option.bind_splits)
  have code: "code_at (p14_prog s) a (nest_words a f n)" "code_at (p14_prog s) ?b (nests_words ?b f ns)"
    using Cons.prems(2) by (simp_all add: code_at_append length_nest_words)
  have "a < length (p14_prog s)"
    using code(1) g(1) by (cases n) (auto simp: code_at_Cons)
  then have at: "at_addr s a" using arrived_at Cons.prems(1) by blast
  have "nest_at s a f n" using code g Cons.prems by (simp add: nest_at_def)
  then obtain t where t: "reaches {a..<?b} (counters s f (length n)) s ?b (nest_time n) t"
    using nest_runs [OF at] by blast
  have tC: "reaches {a..<?e} (counters s f 3) s ?b (nest_time n) t"
    by (rule reaches_mono [OF t]) (use g(2) in \<open>auto simp: counters_def\<close>)
  have st: "same_but (counters s f 3) s t" using tC by (simp add: reaches_def)
  note plain = counters_plain [OF Cons.prems(3,4), of s]
  have "p14_prog t = p14_prog s" "page_of t = page_of s" "counters t f 3 = counters s f 3"
    using st page_of_same [OF st plain(2)] counters_same [OF st plain(1)] by (simp_all add: same_but_def)
  then obtain u where "reaches {?b..<?e} (counters s f 3) t ?e rest u"
    using Cons.IH [of t ?b rest] arrived_reached [OF tC Cons.prems(1)] code(2) rest(1) Cons.prems(3-)
    by (auto simp: add.assoc)
  then have "reaches {a..<?e} (counters s f 3) t ?e rest u" by (rule reaches_mono) auto
  then show ?case using reaches_trans [OF tC] rest(2) by blast
qed

lemma nops_run:
  assumes "arrived s a" and "code_at (p14_prog s) a (replicate k 0)" and "a + k \<le> 0x2000"
  shows "\<exists>t. reaches {a..<a + k} {} s (a + k) k t"
  using assms
proof (induction k arbitrary: a s)
  case 0
  then show ?case using arrived_refl [of s a "{}" "{}"] by auto
next
  case (Suc k)
  have "a < length (p14_prog s)" "p14_prog s ! a = 0" "code_at (p14_prog s) (a + 1) (replicate k 0)"
    using Suc.prems(2) by (simp_all add: code_at_Cons)
  note c = this
  have d: "p14_dispatch s (of_nat a) 0 = Some (s, of_nat (a + 1))"
    by (simp only: exec_nop of_nat_add_1)
  obtain t where t: "reaches {a..<a + Suc k} {} s (a + 1) 1 t"
    by (rule one_word [OF arrived_at [OF Suc.prems(1) c(1)] _ c(1,2) d, of "{}" "{a..<a + Suc k}"])
      (use Suc.prems c cost14_next [of 0 a] arrived_at [OF Suc.prems(1) c(1)]
        in \<open>auto simp: same_but_refl at_addr_def\<close>)
  have "p14_prog t = p14_prog s" using t by (simp add: reaches_def same_but_def)
  then obtain u where "reaches {a + 1..<a + 1 + k} {} t (a + 1 + k) k u"
    using Suc.IH [of t "a + 1"] arrived_reached [OF t Suc.prems(1)] c(3) Suc.prems(3) by auto
  then have "reaches {a..<a + Suc k} {} t (a + Suc k) k u"
    using reaches_mono [of "{a + 1..<a + 1 + k}" "{}" t "a + 1 + k" k u "{a..<a + Suc k}" "{}"] by simp
  then show ?case using reaches_trans [OF t] by fastforce
qed

text \<open>The bank pin: two BCFs of STATUS.\<close>

definition pin_words :: "u16 list" where
  "pin_words = [0x1283, 0x1303]"

lemma exec_pin:
  "p14_dispatch s pc 0x1283 = Some (p14_poke s 3 (p14_ram s 3 AND NOT 0x20), pc + 1)"
  "p14_dispatch s pc 0x1303 = Some (p14_poke s 3 (p14_ram s 3 AND NOT 0x40), pc + 1)"
proof -
  have r: "p14_read_f s 3 = p14_ram s 3" by (simp add: p14_read_f_def p14_banked_addr_def)
  have m: "(v AND 0x18) OR ((v AND NOT 0x20) AND 0xE7) = v AND NOT 0x20"
    "(v AND 0x18) OR ((v AND NOT 0x40) AND 0xE7) = v AND NOT 0x40" for v :: u8
    by (rule byte_eqI; simp add: bit_or_iff bit_and_iff bit_not_iff)+
  show "p14_dispatch s pc 0x1283 = Some (p14_poke s 3 (p14_ram s 3 AND NOT 0x20), pc + 1)"
    "p14_dispatch s pc 0x1303 = Some (p14_poke s 3 (p14_ram s 3 AND NOT 0x40), pc + 1)"
    using m [of "p14_ram s 3"] by (simp_all add: p14_dispatch_def p14_exec_bit_def r p14_write_f_def)
qed

lemma pin_run:
  assumes "arrived s a" and "code_at (p14_prog s) a pin_words" and "a + 2 \<le> 0x2000"
  shows "\<exists>t. reaches {a..<a + 2} {3} s (a + 2) 2 t \<and> p14_bank_base t = 0 \<and>
    p14_ram t 3 = p14_ram s 3 AND NOT 0x60"
proof -
  note c = assms(2) [unfolded pin_words_def code_at_Cons]
  have at: "at_addr s a" using arrived_at [OF assms(1)] c by blast
  have d: "p14_dispatch s (of_nat a) 0x1283 =
      Some (p14_poke s 3 (p14_ram s 3 AND NOT 0x20), of_nat (a + 1))"
    by (simp only: exec_pin of_nat_add_1)
  obtain t where t: "reaches {a..<a + 2} {3} s (a + 1) 1 t" "p14_ram t 3 = p14_ram s 3 AND NOT 0x20"
    by (rule one_word [OF at _ _ _ d, of "{3}" "{a..<a + 2}"])
      (use assms(3) c at cost14_next [of "0x1283" a] in \<open>auto simp: same_but_poke at_addr_def timer_regs_def\<close>)
  have pt: "p14_prog t = p14_prog s" using t by (simp add: reaches_def same_but_def)
  have att: "at_addr t (a + 1)" using at_addr_reached [OF t(1) at] c by blast
  have d2: "p14_dispatch t (of_nat (a + 1)) 0x1303 =
      Some (p14_poke t 3 (p14_ram t 3 AND NOT 0x40), of_nat (a + 2))"
    by (simp only: exec_pin of_nat_add_1) simp
  have c2: "cost14 0x1303 (of_nat (a + 1)) (of_nat (a + 2)) = 1"
    using cost14_next [of "0x1303" "a + 1"] by simp
  obtain u where u: "reaches {a..<a + 2} {3} t (a + 2) 1 u" "p14_ram u 3 = p14_ram t 3 AND NOT 0x40"
    by (rule one_word [OF att _ _ _ d2, of "{3}" "{a..<a + 2}"])
      (use assms(3) c c2 pt att in \<open>auto simp: same_but_poke at_addr_def timer_regs_def code_at_def\<close>)
  have v: "p14_ram u 3 = p14_ram s 3 AND NOT 0x60"
    unfolding u(2) t(2) by (rule byte_eqI) (simp_all add: bit_and_iff bit_not_iff)
  have "drop_bit 5 (v AND NOT 0x60) AND 3 = 0" for v :: u8
    by (rule byte_eqI) (simp_all add: bit_and_iff bit_not_iff bit_drop_bit_eq)
  then have "p14_bank_base u = 0" unfolding p14_bank_base_def v by simp
  then show ?thesis using reaches_trans [OF t(1) u(1)] v by (auto simp: numeral_2_eq_2)
qed

end
