(* ===== verification/DelayCode.thy ===== *)
theory DelayCode
  imports DelayRun AsmProps IrTokens
begin

text \<open>
  \<open>emit_delay\<close> of the classic core's instruction selector (\<^verbatim>\<open>crates/isel/src/lib.rs\<close>): the assembly
  text of a \<open>_delay(n)\<close> call, and what that text becomes in the assembler. The module counter of
  \<open>fresh_label\<close> is passed in and out.
\<close>

section \<open>The emitted text\<close>

definition fresh_label :: "nat \<Rightarrow> string" where
  "fresh_label n = ''tmp'' @ dec_digits n"

definition hex2 :: "nat \<Rightarrow> string" where
  "hex2 n = ''0x'' @ fmt_hex 2 n"

text \<open>One pass of the first inner loop (counter, label and count of a level) and of the second one.\<close>

definition delay_head :: "nat \<Rightarrow> nat \<Rightarrow> u16 \<Rightarrow> string list" where
  "delay_head cnt tmp count =
     [''    MOVLW '' @ hex2 (unat (ucast count :: u8)), ''    MOVWF '' @ hex2 cnt, fresh_label tmp @ '':'']"

definition delay_tail :: "nat \<Rightarrow> nat \<Rightarrow> string list" where
  "delay_tail cnt tmp = [''    DECFSZ '' @ hex2 cnt @ '', F'', ''    GOTO '' @ fresh_label tmp]"

definition emit_nest :: "nat \<Rightarrow> nat \<Rightarrow> u16 list \<Rightarrow> string list" where
  "emit_nest retval_lo tmp nest =
     concat (map (\<lambda>(d, count). delay_head (retval_lo + d) (tmp + d) count) (enumerate 0 nest)) @
     concat (map (\<lambda>d. delay_tail (retval_lo + d) (tmp + d)) (rev [0..<length nest]))"

fun emit_nests :: "nat \<Rightarrow> nat \<Rightarrow> u16 list list \<Rightarrow> string list \<times> nat" where
  "emit_nests retval_lo tmp [] = ([], tmp)"
| "emit_nests retval_lo tmp (n # ns) =
     (let (ls, tmp') = emit_nests retval_lo (tmp + length n) ns
      in (emit_nest retval_lo tmp n @ ls, tmp'))"

definition pin_lines :: "string list" where
  "pin_lines = [''    BCF 0x03,5'', ''    BCF 0x03,6'']"

text \<open>\<open>emit_delay\<close>: the lines and the next label number, or \<^const>\<open>None\<close> where the code panics.\<close>

definition emit_delay :: "device \<Rightarrow> nat \<Rightarrow> nat \<Rightarrow> i_call \<Rightarrow> (string list \<times> nat) option" where
  "emit_delay dev retval_lo tmp c =
     (let pinned = (common_ram dev = None) in
      if call_callees c \<noteq> [] \<or> call_dst c \<noteq> None then None
      else case map arg_val (call_args c) of
        [Const n] \<Rightarrow>
          if n < 0 then None
          else if pinned \<and> nat n < 2 then None
          else do {
            plan \<leftarrow> plan_delay (nat n - (if pinned then 2 else 0));
            (if foldr max (map length (nests plan)) 0 \<le> 3 then
               let (ls, tmp') = emit_nests retval_lo tmp (nests plan)
               in Some ((if pinned then pin_lines else []) @ ls @
                        replicate (unat (tail_nops plan)) ''    NOP'', tmp')
             else None)
          }
      | _ \<Rightarrow> None)"

section \<open>The nest, level by level\<close>

lemma enumerate_shift: "enumerate (Suc n) xs = map (\<lambda>(i, x). (Suc i, x)) (enumerate n xs)"
  by (induction xs arbitrary: n) auto

lemma emit_nest_Nil: "emit_nest r t [] = []"
  by (simp add: emit_nest_def)

lemma rev_upt_Suc: "rev [0..<Suc n] = map Suc (rev [0..<n]) @ [0]"
proof -
  have "[0..<Suc n] = 0 # map Suc [0..<n]" by (simp only: map_Suc_upt upt_conv_Cons zero_less_Suc)
  then show ?thesis by (simp only: rev.simps rev_map)
qed

lemma emit_nest_Cons:
  "emit_nest r t (c # cs) = delay_head r t c @ emit_nest (r + 1) (t + 1) cs @ delay_tail r t"
  by (simp add: emit_nest_def enumerate_shift rev_upt_Suc del: upt_Suc)
    (simp add: comp_def case_prod_unfold)

section \<open>One line in the first pass\<close>

text \<open>An instruction line: four blanks and a body that is neither a label nor a directive.\<close>

definition plain_body :: "string \<Rightarrow> bool" where
  "plain_body b \<longleftrightarrow> b \<noteq> [] \<and> hd b \<in> {CHR ''B'', CHR ''D'', CHR ''G'', CHR ''M'', CHR ''N''} \<and> \<not> is_ws (last b) \<and>
     CHR '';'' \<notin> set b \<and> CHR '':'' \<notin> set b \<and> CHR ''q'' \<notin> set b"

lemma no_semicolon: "CHR '';'' \<notin> set s \<Longrightarrow> hd (split_char (CHR '';'') s) = s"
  using split_by_word [of s "\<lambda>x. x = CHR '';''"] by (metis split_char_def list.sel(1))

lemma strip_comment_keep:
  assumes "CHR '';'' \<notin> set b" and "b \<noteq> []" and "\<not> is_ws (hd b)" and "\<not> is_ws (last b)"
  shows "strip_comment (''    '' @ b) = b" "strip_comment b = b"
proof -
  have d: "trim_start (''    '' @ b) = b"
    using assms(2,3) by (cases b) (simp_all add: trim_start_def is_ws_def)
  show "strip_comment (''    '' @ b) = b"
    using assms d by (simp add: strip_comment_def no_semicolon trim_def trim_end_by_keep del: append_Cons)
  show "strip_comment b = b" using assms by (simp add: strip_comment_def no_semicolon trim_keep)
qed

lemma not_directive: "s \<noteq> [] \<Longrightarrow> n \<noteq> [] \<Longrightarrow> hd s \<noteq> hd n \<Longrightarrow> \<not> is_directive s n"
  using strip_prefix_hd [of n s] by (auto simp: is_directive_def)

lemma pass1_instr:
  assumes "plain_body b"
  shows "pass1_lines ((''    '' @ b) # raws) st = pass1_lines raws (push_line st b)"
proof -
  have b: "b \<noteq> []" "CHR '';'' \<notin> set b" "CHR '':'' \<notin> set b" "CHR ''q'' \<notin> set b" "\<not> is_ws (last b)"
    and h: "hd b \<in> {CHR ''B'', CHR ''D'', CHR ''G'', CHR ''M'', CHR ''N''}"
    using assms by (auto simp: plain_body_def)
  have ws: "\<not> is_ws (hd b)" using h by (auto simp: is_ws_def)
  have nd: "\<not> is_directive b ''list''" "\<not> is_directive b ''radix''" "\<not> is_directive b ''end''"
    using h b(1) by (auto simp: not_directive)
  have np: "strip_prefix ''org '' b = None" "strip_prefix ''.align '' b = None"
    "strip_prefix ''.table '' b = None"
    using h b(1) by (auto simp: strip_prefix_hd)
  have nf: "find_sub '':'' b = None" "find_sub '' equ '' b = None" "strip_suffix '':'' b = None"
    using b find_sub_absent [of "CHR '':''" "'':''" b] find_sub_absent [of "CHR ''q''" "'' equ ''" b]
    by (simp_all add: strip_suffix_last)
  have "pass1_label b st = Some (push_line st b)"
    by (simp add: pass1_label_def pass1_plain_def nf np)
  then show ?thesis
    using b(1) nd np(1) by (simp add: strip_comment_keep(1) [OF b(2,1) ws b(5)] del: append_Cons)
qed

section \<open>The label line\<close>

definition label_chars :: "string \<Rightarrow> bool" where
  "label_chars l \<longleftrightarrow> l \<noteq> [] \<and> hd l = CHR ''t'' \<and>
     (\<forall>c \<in> set l. \<not> is_ws c \<and> c \<noteq> CHR '':'' \<and> c \<noteq> CHR '';'' \<and> c \<noteq> CHR '','')"

lemma pass1_label_line:
  assumes "label_chars l"
  shows "pass1_lines ((l @ '':'') # raws) st =
    pass1_lines raws (st\<lparr>p1_sym := insert_label (p1_sym st) l (p1_org st)\<rparr>)"
proof -
  have l: "l \<noteq> []" "hd l = CHR ''t''" "\<forall>c \<in> set l. \<not> is_ws c" "CHR '':'' \<notin> set l" "CHR '';'' \<notin> set l"
    using assms by (auto simp: label_chars_def)
  have s: "strip_comment (l @ '':'') = l @ '':''"
    by (rule strip_comment_keep) (use l in \<open>auto simp: is_ws_def\<close>)
  have nd: "\<not> is_directive (l @ '':'') ''list''" "\<not> is_directive (l @ '':'') ''radix''"
    "\<not> is_directive (l @ '':'') ''end''" "strip_prefix ''org '' (l @ '':'') = None"
    using l(1,2) by (simp_all add: not_directive strip_prefix_hd)
  have f: "find_sub '':'' (l @ '':'') = Some (length l)" by (rule find_sub_char [OF l(4)])
  have t: "trim l = l" by (rule trim_keep) (use l in \<open>simp_all add: is_ws_def\<close>)
  have "CHR '' '' \<notin> set l" "CHR 0x09 \<notin> set l" using l(3) by (auto simp: is_ws_def)
  then have "pass1_label (l @ '':'') st =
      Some (st\<lparr>p1_sym := insert_label (p1_sym st) l (p1_org st)\<rparr>)"
    using l(1) by (simp add: pass1_label_def f t Let_def) (simp add: trim_def trim_start_def trim_end_by_def)
  then show ?thesis using nd l(1) by (simp add: s)
qed

section \<open>One line in the encoder\<close>

lemma hex2_chars: "set (hex2 k) \<subseteq> set ''0123456789ABCDEFx''"
proof -
  have "set ''0x'' \<subseteq> set ''0123456789ABCDEFx''" "set ''0123456789ABCDEF'' \<subseteq> set ''0123456789ABCDEFx''"
    by simp_all
  then show ?thesis unfolding hex2_def set_append using fmt_hex_chars [of 2 k] by blast
qed

lemma hex2_not:
  assumes "c \<notin> set ''0123456789ABCDEFx''"
  shows "c \<notin> set (hex2 k)"
  using hex2_chars [of k] assms by blast

lemma hex2_ne [simp]: "hex2 k \<noteq> []" "hd (hex2 k) = CHR ''0''" "\<exists>r. hex2 k = CHR ''0'' # r"
  by (simp_all add: hex2_def)

lemma hex2_not_ws: "\<forall>c \<in> set (hex2 k). \<not> is_ws c"
proof
  fix c assume "c \<in> set (hex2 k)"
  then have "c \<in> set ''0123456789ABCDEFx''" using hex2_chars by blast
  then show "\<not> is_ws c" by (simp add: is_ws_def) (elim disjE; simp)
qed

lemma last_hex2: "last (hex2 k) \<noteq> CHR '',''" "\<not> is_ws (last (hex2 k))"
proof -
  have l: "last (hex2 k) \<in> set (hex2 k)" by simp
  then show "\<not> is_ws (last (hex2 k))" using hex2_not_ws by blast
  have "CHR '','' \<notin> set (hex2 k)" by (rule hex2_not) simp
  then show "last (hex2 k) \<noteq> CHR '',''" using l by metis
qed

lemma parse_hex2: "k < 2 ^ 64 \<Longrightarrow> parse_num (hex2 k) = Some k" "k < 2 ^ 64 \<Longrightarrow> parse_num_opt (hex2 k) = Some k"
  by (simp_all add: parse_num_def parse_num_opt_def hex2_def strip_prefix_def parse_fmt_hex)

lemma strip_fn_hd:
  assumes "s \<noteq> []" and "name \<noteq> []" and "lower_char (hd s) \<noteq> lower_char (hd name)"
  shows "strip_fn s name = None"
  using assms by (cases s; cases name) (auto simp: strip_fn_def to_lower_def)

lemma parse_lit_hex2:
  assumes "k < 2 ^ 64"
  shows "parse_lit tab (hex2 k) = Some k"
proof -
  have "strip_fn (hex2 k) ''LOW('' = None" "strip_fn (hex2 k) ''HIGH('' = None"
    "strip_fn (hex2 k) ''PAGE('' = None" "strip_fn (hex2 k) ''UPPER('' = None"
    by (rule strip_fn_hd; simp add: lower_char_def char_of_def bit_iff_odd)+
  then show ?thesis using parse_hex2 [OF assms] by (simp add: parse_lit_def lit_fns_def)
qed

lemma rev_cut_none: "CHR ''+'' \<notin> set s \<Longrightarrow> CHR ''-'' \<notin> set s \<Longrightarrow> rev_cut s = None"
  by (induction s) auto

lemma trim_comma:
  "trim_end_char (CHR '','') (hex2 k) = hex2 k" "trim_end_char (CHR '','') (hex2 k @ '','') = hex2 k"
proof -
  show k: "trim_end_char (CHR '','') (hex2 k) = hex2 k"
    unfolding trim_end_char_def by (rule trim_end_by_keep) (simp add: last_hex2)
  have "trim_end_char (CHR '','') (s @ '','') = trim_end_char (CHR '','') s" for s
    by (simp add: trim_end_char_def trim_end_by_def)
  then show "trim_end_char (CHR '','') (hex2 k @ '','') = hex2 k" by (simp only: k)
qed

lemma sym_value_hex2:
  assumes "k < 2 ^ 64" and "tab (hex2 k) = None"
  shows "sym_value tab (hex2 k) = Some k"
proof -
  have "CHR ''+'' \<notin> set (rev (hex2 k))" "CHR ''-'' \<notin> set (rev (hex2 k))"
    unfolding set_rev by (rule hex2_not, simp)+
  then have "rev_cut (rev (hex2 k)) = None" by (rule rev_cut_none)
  then show ?thesis using assms parse_hex2 by (simp add: sym_value_def sym_offset_def)
qed

lemma file_field_hex2:
  assumes "f < 128" and "tab (hex2 f) = None"
  shows "file_field 0x7F tab (hex2 f) = Some (of_nat f)"
    and "file_field 0x7F tab (hex2 f @ '','') = Some (of_nat f)"
proof -
  have "of_nat f AND of_nat 0x7F = (of_nat f :: u16)"
    using file_fields(5) [OF assms(1)] and_low_mask(6) [of "of_nat f :: u16"] by simp
  moreover have "sym_addr tab (hex2 f) = Some f"
    using assms sym_value_hex2 [of f tab] by (simp add: sym_addr_def trim_comma)
  ultimately show "file_field 0x7F tab (hex2 f) = Some (of_nat f)"
    "file_field 0x7F tab (hex2 f @ '','') = Some (of_nat f)"
    using assms by (simp_all add: file_field_def trim_comma Let_def)
qed

text \<open>A mnemonic and its operands, cut at the blanks.\<close>

definition no_blank :: "string \<Rightarrow> bool" where
  "no_blank w \<longleftrightarrow> w \<noteq> [] \<and> (\<forall>c \<in> set w. \<not> is_ws c)"

lemma split_two: "no_blank m \<Longrightarrow> no_blank x \<Longrightarrow> split_ws (m @ '' '' @ x) = [m, x]"
  unfolding no_blank_def by (simp add: split_ws_cons split_ws_word is_ws_space)

lemma split_three: "no_blank m \<Longrightarrow> no_blank x \<Longrightarrow> no_blank y \<Longrightarrow> split_ws (m @ '' '' @ x @ '' '' @ y) = [m, x, y]"
  using split_two [of x y] unfolding no_blank_def by (simp add: split_ws_cons is_ws_space)

lemma mnemonic_facts:
  "no_blank ''MOVLW''" "no_blank ''MOVWF''" "no_blank ''DECFSZ''" "no_blank ''GOTO''" "no_blank ''F''"
  "to_upper ''MOVLW'' = ''MOVLW''" "to_upper ''MOVWF'' = ''MOVWF''" "to_upper ''DECFSZ'' = ''DECFSZ''"
  "to_upper ''GOTO'' = ''GOTO''" "to_upper (trim ''F'') = ''F''"
  by (simp_all add: no_blank_def is_ws_def to_upper_def upper_char_def trim_def trim_start_def trim_end_by_def)

lemma no_blank_hex2: "no_blank (hex2 k)" "no_blank (hex2 k @ '','')"
  using hex2_not_ws [of k] by (simp_all add: no_blank_def is_ws_def)

lemmas enc14_tables = encode14_parts_def enc14_plain_def enc14_file_def enc14_dest_def enc14_lit_def
  enc14_bit_def operand_def Let_def

lemma enc_movlw: "encode14 tab (''MOVLW'' @ '' '' @ hex2 (unat (k :: u8))) = Some (0x3000 OR ucast k)"
proof -
  have "unat k < 2 ^ 64" using u8_less_256 [of k] by simp
  then show ?thesis
    unfolding encode14_def split_two [OF mnemonic_facts(1) no_blank_hex2(1)]
    by (simp add: mnemonic_facts enc14_tables parse_lit_hex2)
qed

lemma enc_movwf:
  assumes "f < 128" and "tab (hex2 f) = None"
  shows "encode14 tab (''MOVWF'' @ '' '' @ hex2 f) = Some (0x0080 OR of_nat f)"
  unfolding encode14_def split_two [OF mnemonic_facts(2) no_blank_hex2(1)]
  by (simp add: mnemonic_facts enc14_tables file_field_hex2 [where tab = tab, OF assms])

lemma enc_decfsz:
  assumes "f < 128" and "tab (hex2 f) = None"
  shows "encode14 tab (''DECFSZ'' @ '' '' @ (hex2 f @ '','') @ '' '' @ ''F'') = Some (0x0B80 OR of_nat f)"
proof -
  have "(0xB00 OR push_bit 7 1) OR x = (0x0B80 OR x :: u16)" for x by simp
  then show ?thesis
    unfolding encode14_def split_three [OF mnemonic_facts(3) no_blank_hex2(2) mnemonic_facts(5)]
    by (simp add: mnemonic_facts enc14_tables file_field_hex2 [where tab = tab, OF assms] dest_or_w_def)
qed

lemma enc_goto:
  assumes "no_blank l" and "tab l = Some k"
  shows "encode14 tab (''GOTO'' @ '' '' @ l) = Some (goto_word k)"
proof -
  have "of_nat k AND 0x7FF = (of_nat (k mod 0x800) :: u16)"
    unfolding and_low_mask take_bit_of_nat by (simp only: take_bit_eq_mod) simp
  then show ?thesis
    unfolding encode14_def split_two [OF mnemonic_facts(4) assms(1)]
    by (simp add: mnemonic_facts enc14_tables jump_target_def assms(2) goto_word_def)
qed

lemma enc_nop: "encode14 tab ''NOP'' = Some 0"
  by (simp add: encode14_def split_ws_word is_ws_def to_upper_def upper_char_def enc14_tables)

lemma pin_hex: "hex2 3 = ''0x03''"
  by (simp add: hex2_def fmt_hex_def hex_digits.simps hex_digit_table numeral_3_eq_3 [symmetric])

lemma enc_pin:
  assumes "tab ''0x03'' = None"
  shows "encode14 tab ''BCF 0x03,5'' = Some 0x1283" "encode14 tab ''BCF 0x03,6'' = Some 0x1303"
proof -
  have f: "file_field 0x7F tab ''0x03'' = Some 3"
    using file_field_hex2(1) [of 3 tab] assms by (simp only: pin_hex) simp
  have b: "bit_operands [''BCF'', ''0x03,5''] = Some (''0x03'', ''5'')"
    "bit_operands [''BCF'', ''0x03,6''] = Some (''0x03'', ''6'')"
    by (simp_all add: bit_operands_def split_once_def splitn2_def)
  have n: "parse_num (trim ''5'') = Some 5" "parse_num (trim ''6'') = Some 6" "trim ''0x03'' = ''0x03''"
    by (simp_all add: parse_num_def str_eval)
  have s: "split_ws ''BCF 0x03,5'' = [''BCF'', ''0x03,5'']" "split_ws ''BCF 0x03,6'' = [''BCF'', ''0x03,6'']"
    by (simp_all add: str_eval)
  show "encode14 tab ''BCF 0x03,5'' = Some 0x1283" "encode14 tab ''BCF 0x03,6'' = Some 0x1303"
    by (simp_all add: encode14_def s to_upper_def upper_char_def enc14_tables b n f)
qed

end
