(* ===== verification/DelayProps.thy ===== *)
theory DelayProps
  imports DelayCode
begin

text \<open>
  A \<open>_delay(n)\<close> call from the selector's text through the assembler to the core: the emitted lines
  assemble to the words of the planned loops, and these run for exactly \<open>n\<close> cycles.
\<close>

section \<open>The first pass over the emitted lines\<close>

fun nest_bodies :: "nat \<Rightarrow> nat \<Rightarrow> u16 list \<Rightarrow> string list" where
  "nest_bodies r t [] = []"
| "nest_bodies r t (c # cs) =
     [''MOVLW'' @ '' '' @ hex2 (unat (ucast c :: u8)), ''MOVWF'' @ '' '' @ hex2 r] @
     nest_bodies (r + 1) (t + 1) cs @
     [''DECFSZ'' @ '' '' @ (hex2 r @ '','') @ '' '' @ ''F'', ''GOTO'' @ '' '' @ fresh_label t]"

fun nest_syms :: "nat \<Rightarrow> nat \<Rightarrow> nat \<Rightarrow> symtab \<Rightarrow> symtab" where
  "nest_syms a t 0 m = m"
| "nest_syms a t (Suc n) m = nest_syms (a + 2) (t + 1) n (insert_label m (fresh_label t) (a + 2))"

definition extend :: "pass1 \<Rightarrow> string list \<Rightarrow> symtab \<Rightarrow> pass1" where
  "extend st bs m = st\<lparr>p1_lines := p1_lines st @ enumerate (p1_org st) bs, p1_sym := m,
     p1_org := p1_org st + length bs\<rparr>"

lemma extend_sel [simp]:
  "p1_lines (extend st bs m) = p1_lines st @ enumerate (p1_org st) bs" "p1_sym (extend st bs m) = m"
  "p1_org (extend st bs m) = p1_org st + length bs"
  by (simp_all add: extend_def)

lemma enumerate_append: "enumerate a (xs @ ys) = enumerate a xs @ enumerate (a + length xs) ys"
  by (induction xs arbitrary: a) simp_all

lemma extend_extend: "extend (extend st bs m) cs k = extend st (bs @ cs) k"
  by (simp add: extend_def enumerate_append add.assoc)

lemma extend_push: "push_line st b = extend st [b] (p1_sym st)"
  by (cases st) (simp add: push_line_def extend_def)

lemma extend_syms: "(extend st bs m)\<lparr>p1_sym := k\<rparr> = extend st bs k"
  by (simp add: extend_def)

lemma extend_nil [simp]: "extend st [] (p1_sym st) = st"
  by (cases st) (simp add: extend_def)

lemma digit_not: "digit_char c \<Longrightarrow> \<not> is_ws c \<and> c \<noteq> CHR '':'' \<and> c \<noteq> CHR '';'' \<and> c \<noteq> CHR '','' \<and> c \<noteq> CHR ''q''"
proof -
  assume d: "digit_char c"
  have "\<not> is_ws c"
  proof
    assume "is_ws c"
    then show False using d by (simp add: is_ws_def) (elim disjE; simp add: digit_char_def)
  qed
  then show ?thesis using d by (auto simp: digit_char_def)
qed

lemma fresh_label_chars: "label_chars (fresh_label n)"
proof -
  have "\<forall>c \<in> set (dec_digits n). \<not> is_ws c \<and> c \<noteq> CHR '':'' \<and> c \<noteq> CHR '';'' \<and> c \<noteq> CHR '',''"
    using dec_digits_chars [of n] digit_not by blast
  moreover have "\<not> is_ws (CHR ''t'')" "\<not> is_ws (CHR ''m'')" "\<not> is_ws (CHR ''p'')" by (simp_all add: is_ws_def)
  ultimately show ?thesis by (simp add: label_chars_def fresh_label_def)
qed

lemma fresh_label_inj: "fresh_label m = fresh_label n \<longleftrightarrow> m = n"
proof
  assume "fresh_label m = fresh_label n"
  then have "dec_digits m = dec_digits n" by (simp add: fresh_label_def)
  then have "digits_val 10 0 (dec_digits m) = digits_val 10 0 (dec_digits n)" by (simp only:)
  then show "m = n" by (simp only: digits_val_decimal option.inject)
qed simp

lemma fresh_label_plain: "no_blank (fresh_label n)" "hd (fresh_label n) = CHR ''t''"
  "CHR ''q'' \<notin> set (fresh_label n)" "fresh_label n \<noteq> CHR ''_'' # x"
proof -
  show "no_blank (fresh_label n)" using fresh_label_chars [of n] by (simp add: label_chars_def no_blank_def)
  have "CHR ''q'' \<notin> set (dec_digits n)" using dec_digits_chars [of n] digit_not by blast
  then show "CHR ''q'' \<notin> set (fresh_label n)" by (simp add: fresh_label_def)
qed (simp_all add: fresh_label_def)

text \<open>The bodies are instruction lines.\<close>

lemma plain_bodyI:
  assumes "hd m \<in> {CHR ''B'', CHR ''D'', CHR ''G'', CHR ''M'', CHR ''N''}" and "no_blank m" and "no_blank x"
    and "CHR '';'' \<notin> set (m @ x)" and "CHR '':'' \<notin> set (m @ x)" and "CHR ''q'' \<notin> set (m @ x)"
  shows "plain_body (m @ '' '' @ x)"
  using assms by (auto simp: plain_body_def no_blank_def)

lemma nest_plain:
  "plain_body (''MOVLW'' @ '' '' @ hex2 k)" "plain_body (''MOVWF'' @ '' '' @ hex2 k)"
  "plain_body (''DECFSZ'' @ '' '' @ (hex2 k @ '','') @ '' '' @ ''F'')"
  "plain_body (''GOTO'' @ '' '' @ fresh_label n)"
proof -
  have h: "CHR '';'' \<notin> set (hex2 k)" "CHR '':'' \<notin> set (hex2 k)" "CHR ''q'' \<notin> set (hex2 k)"
    by (rule hex2_not, simp)+
  have l: "CHR '';'' \<notin> set (fresh_label n)" "CHR '':'' \<notin> set (fresh_label n)"
    using fresh_label_chars [of n] by (auto simp: label_chars_def)
  show "plain_body (''MOVLW'' @ '' '' @ hex2 k)"
    by (rule plain_bodyI) (use h in \<open>simp_all add: mnemonic_facts no_blank_hex2\<close>)
  show "plain_body (''MOVWF'' @ '' '' @ hex2 k)"
    by (rule plain_bodyI) (use h in \<open>simp_all add: mnemonic_facts no_blank_hex2\<close>)
  show "plain_body (''GOTO'' @ '' '' @ fresh_label n)"
    by (rule plain_bodyI) (use l fresh_label_plain [of n] in \<open>simp_all add: mnemonic_facts\<close>)
  have "plain_body ((''DECFSZ'' @ '' '' @ (hex2 k @ '','')) @ '' '' @ ''F'')"
    using h by (simp add: plain_body_def is_ws_def)
  then show "plain_body (''DECFSZ'' @ '' '' @ (hex2 k @ '','') @ '' '' @ ''F'')" by (simp only: append_assoc)
qed

definition indent :: "string list \<Rightarrow> string list" where
  "indent bs = map (\<lambda>b. ''    '' @ b) bs"

lemma pass1_instrs:
  "(\<And>b. b \<in> set bs \<Longrightarrow> plain_body b) \<Longrightarrow>
     pass1_lines (indent bs @ raws) st = pass1_lines raws (extend st bs (p1_sym st))"
proof (induction bs arbitrary: st)
  case Nil
  then show ?case by (simp add: indent_def)
next
  case (Cons b bs)
  have "pass1_lines (indent (b # bs) @ raws) st = pass1_lines ((''    '' @ b) # (indent bs @ raws)) st"
    by (simp add: indent_def)
  also have "\<dots> = pass1_lines (indent bs @ raws) (push_line st b)"
    by (rule pass1_instr) (rule Cons.prems, simp)
  finally show ?case using Cons by (simp add: extend_push extend_extend)
qed

definition head_bodies :: "nat \<Rightarrow> u16 \<Rightarrow> string list" where
  "head_bodies r c = [''MOVLW'' @ '' '' @ hex2 (unat (ucast c :: u8)), ''MOVWF'' @ '' '' @ hex2 r]"

definition tail_bodies :: "nat \<Rightarrow> nat \<Rightarrow> string list" where
  "tail_bodies r t = [''DECFSZ'' @ '' '' @ (hex2 r @ '','') @ '' '' @ ''F'', ''GOTO'' @ '' '' @ fresh_label t]"

lemma nest_bodies_Cons:
  "nest_bodies r t (c # cs) = head_bodies r c @ nest_bodies (r + 1) (t + 1) cs @ tail_bodies r t"
  by (simp add: head_bodies_def tail_bodies_def)

declare nest_bodies.simps(2) [simp del]
declare nest_bodies_Cons [simp]

lemma length_bodies [simp]: "length (head_bodies r c) = 2" "length (tail_bodies r t) = 2"
  by (simp_all add: head_bodies_def tail_bodies_def)

lemma delay_head_indent: "delay_head r t c = indent (head_bodies r c) @ [fresh_label t @ '':'']"
  by (simp add: delay_head_def indent_def head_bodies_def)

lemma delay_tail_indent: "delay_tail r t = indent (tail_bodies r t)"
  by (simp add: delay_tail_def indent_def tail_bodies_def)

lemma pass1_head:
  "pass1_lines (delay_head r t c @ raws) st = pass1_lines raws (extend st (head_bodies r c)
     (insert_label (p1_sym st) (fresh_label t) (p1_org st + 2)))"
proof -
  have "plain_body b" if "b \<in> set (head_bodies r c)" for b
    using that nest_plain unfolding head_bodies_def by (auto simp only: list.set)
  then show ?thesis
    by (simp add: delay_head_indent pass1_instrs pass1_label_line [OF fresh_label_chars] extend_syms del: pass1_lines.simps)
qed

lemma pass1_tail:
  "pass1_lines (delay_tail r t @ raws) st = pass1_lines raws (extend st (tail_bodies r t) (p1_sym st))"
proof -
  have "plain_body b" if "b \<in> set (tail_bodies r t)" for b
    using that nest_plain unfolding tail_bodies_def by (auto simp only: list.set)
  then show ?thesis by (simp add: delay_tail_indent pass1_instrs)
qed

lemma length_nest_bodies: "length (nest_bodies r t cs) = 4 * length cs"
  by (induction r t cs rule: nest_bodies.induct) simp_all

lemma pass1_nest:
  "pass1_lines (emit_nest r t cs @ raws) st = pass1_lines raws
     (extend st (nest_bodies r t cs) (nest_syms (p1_org st) t (length cs) (p1_sym st)))"
proof (induction cs arbitrary: r t st raws)
  case Nil
  then show ?case by (simp add: emit_nest_Nil)
next
  case (Cons c cs)
  have "pass1_lines (emit_nest r t (c # cs) @ raws) st =
      pass1_lines (delay_head r t c @ (emit_nest (r + 1) (t + 1) cs @ (delay_tail r t @ raws))) st"
    by (simp only: emit_nest_Cons append_assoc)
  also have "\<dots> = pass1_lines raws (extend st
      (head_bodies r c @ nest_bodies (r + 1) (t + 1) cs @ tail_bodies r t)
      (nest_syms (p1_org st + 2) (t + 1) (length cs) (insert_label (p1_sym st) (fresh_label t) (p1_org st + 2))))"
    by (simp only: pass1_head Cons.IH pass1_tail extend_extend extend_sel length_bodies append_assoc)
  finally show ?case by simp
qed

section \<open>The labels\<close>

lemma insert_label_other: "x \<noteq> l \<Longrightarrow> hd x \<noteq> CHR ''_'' \<Longrightarrow> insert_label m l v x = m x"
  by (auto simp: insert_label_def Let_def)

lemma insert_label_same: "hd l \<noteq> CHR ''_'' \<Longrightarrow> insert_label m l v l = Some v"
  by (auto simp: insert_label_def Let_def)

lemma nest_syms_other:
  "(\<And>k. k < n \<Longrightarrow> x \<noteq> fresh_label (t + k)) \<Longrightarrow> hd x \<noteq> CHR ''_'' \<Longrightarrow> nest_syms a t n m x = m x"
proof (induction a t n m rule: nest_syms.induct)
  case (2 a t n m)
  have "x \<noteq> fresh_label (t + 1 + k)" if "k < n" for k using "2.prems"(1) [of "Suc k"] that by simp
  moreover have "x \<noteq> fresh_label t" using "2.prems"(1) [of 0] by simp
  ultimately show ?case using "2.IH" "2.prems"(2) by (simp add: insert_label_other)
qed simp

lemma nest_syms_label:
  "k < n \<Longrightarrow> nest_syms a t n m (fresh_label (t + k)) = Some (a + 2 * (k + 1))"
proof (induction a t n m arbitrary: k rule: nest_syms.induct)
  case (2 a t n m)
  show ?case
  proof (cases k)
    case 0
    then show ?thesis
      by (simp add: nest_syms_other fresh_label_inj fresh_label_plain insert_label_same)
  next
    case (Suc j)
    then show ?thesis using "2.IH" [of j] "2.prems" by simp
  qed
qed simp

text \<open>A sequence of nests: its instruction lines and its labels.\<close>

fun plan_bodies :: "nat \<Rightarrow> nat \<Rightarrow> u16 list list \<Rightarrow> string list" where
  "plan_bodies r t [] = []"
| "plan_bodies r t (n # ns) = nest_bodies r t n @ plan_bodies r (t + length n) ns"

fun plan_syms :: "nat \<Rightarrow> nat \<Rightarrow> u16 list list \<Rightarrow> symtab \<Rightarrow> symtab" where
  "plan_syms a t [] m = m"
| "plan_syms a t (n # ns) m = plan_syms (a + 4 * length n) (t + length n) ns (nest_syms a t (length n) m)"

fun labels_ok :: "symtab \<Rightarrow> nat \<Rightarrow> nat \<Rightarrow> u16 list list \<Rightarrow> bool" where
  "labels_ok tab a t [] = True"
| "labels_ok tab a t (n # ns) \<longleftrightarrow>
     (\<forall>k < length n. tab (fresh_label (t + k)) = Some (a + 2 * (k + 1))) \<and>
     labels_ok tab (a + 4 * length n) (t + length n) ns"

lemma length_plan_bodies: "length (plan_bodies r t ns) = 4 * sum_list (map length ns)"
  by (induction r t ns rule: plan_bodies.induct) (simp_all add: length_nest_bodies)

lemma emit_nests_next: "snd (emit_nests r t ns) = t + sum_list (map length ns)"
  by (induction r t ns rule: emit_nests.induct) (simp_all add: Let_def case_prod_unfold)

lemma pass1_nests:
  "pass1_lines (fst (emit_nests r t ns) @ raws) st = pass1_lines raws
     (extend st (plan_bodies r t ns) (plan_syms (p1_org st) t ns (p1_sym st)))"
proof (induction ns arbitrary: t st)
  case (Cons n ns)
  have "fst (emit_nests r t (n # ns)) = emit_nest r t n @ fst (emit_nests r (t + length n) ns)"
    by (simp add: Let_def case_prod_unfold)
  then show ?case
    by (simp only: append_assoc pass1_nest Cons.IH extend_extend extend_sel length_nest_bodies
        plan_bodies.simps plan_syms.simps)
qed simp

lemma plan_syms_other:
  "x \<notin> fresh_label ` {t..<t + sum_list (map length ns)} \<Longrightarrow> hd x \<noteq> CHR ''_'' \<Longrightarrow> plan_syms a t ns m x = m x"
proof (induction a t ns m rule: plan_syms.induct)
  case (2 a t n ns m)
  have "nest_syms a t (length n) m x = m x"
    by (rule nest_syms_other) (use "2.prems" in \<open>auto simp: image_iff\<close>)
  moreover have "x \<notin> fresh_label ` {t + length n..<t + length n + sum_list (map length ns)}"
    using "2.prems"(1) by (auto simp: image_iff)
  ultimately show ?case using "2.IH" "2.prems"(2) by simp
qed simp

lemma plan_syms_labels: "labels_ok (plan_syms a t ns m) a t ns"
proof (induction a t ns m rule: plan_syms.induct)
  case (2 a t n ns m)
  have "plan_syms a t (n # ns) m (fresh_label (t + k)) = Some (a + 2 * (k + 1))" if "k < length n" for k
  proof -
    have "fresh_label (t + k) \<notin> fresh_label ` {t + length n..<t + length n + sum_list (map length ns)}"
      using that by (auto simp: fresh_label_inj)
    then show ?thesis by (simp add: plan_syms_other fresh_label_plain nest_syms_label that)
  qed
  then show ?case using "2.IH" by simp
qed simp

lemma labels_ok_cong:
  "labels_ok tab a t ns \<Longrightarrow> (\<And>k. t \<le> k \<Longrightarrow> k < t + sum_list (map length ns) \<Longrightarrow> tab' (fresh_label k) = tab (fresh_label k)) \<Longrightarrow>
     labels_ok tab' a t ns"
  by (induction tab a t ns rule: labels_ok.induct) auto

section \<open>The words\<close>

lemma nest_encode:
  assumes "\<And>f. tab (hex2 f) = None" and "r + length cs \<le> 128"
    and "\<And>k. k < length cs \<Longrightarrow> tab (fresh_label (t + k)) = Some (a + 2 * (k + 1))"
  shows "map (encode14 tab) (nest_bodies r t cs) = map Some (nest_words a r cs)"
  using assms(2,3)
proof (induction cs arbitrary: a r t)
  case (Cons c cs)
  have lab: "tab (fresh_label t) = Some (a + 2)" using Cons.prems(2) [of 0] by simp
  have r: "r < 128" using Cons.prems(1) by simp
  have "tab (fresh_label (t + 1 + k)) = Some (a + 2 + 2 * (k + 1))" if "k < length cs" for k
    using Cons.prems(2) [of "Suc k"] that by simp
  then have IH: "map (encode14 tab) (nest_bodies (r + 1) (t + 1) cs) = map Some (nest_words (a + 2) (r + 1) cs)"
    using Cons.IH [of "r + 1" "t + 1" "a + 2"] Cons.prems(1) by simp
  have "map (encode14 tab) (head_bodies r c) = [Some (0x3000 OR ucast (ucast c :: u8)), Some (0x0080 OR of_nat r)]"
    unfolding head_bodies_def list.map enc_movlw enc_movwf [where tab = tab, OF r assms(1)] ..
  moreover have "map (encode14 tab) (tail_bodies r t) = [Some (0x0B80 OR of_nat r), Some (goto_word (a + 2))]"
    unfolding tail_bodies_def list.map enc_decfsz [where tab = tab, OF r assms(1)] enc_goto [where tab = tab, OF fresh_label_plain(1) lab] ..
  ultimately show ?case using IH by simp
qed simp

lemma plan_encode:
  assumes "\<And>f. tab (hex2 f) = None" and "labels_ok tab a t ns" and "\<And>n. n \<in> set ns \<Longrightarrow> r + length n \<le> 128"
  shows "map (encode14 tab) (plan_bodies r t ns) = map Some (nests_words a r ns)"
  using assms(2,3)
proof (induction ns arbitrary: a t)
  case (Cons n ns)
  have "map (encode14 tab) (nest_bodies r t n) = map Some (nest_words a r n)"
    by (rule nest_encode) (use assms(1) Cons.prems in auto)
  then show ?case using Cons by simp
qed simp

section \<open>The call in a program\<close>

text \<open>All instruction lines a call leaves in the first pass, and their words.\<close>

definition call_bodies :: "bool \<Rightarrow> nat \<Rightarrow> nat \<Rightarrow> delay_plan \<Rightarrow> string list" where
  "call_bodies pinned r t plan =
     (if pinned then [''BCF 0x03,5'', ''BCF 0x03,6''] else []) @ plan_bodies r t (nests plan) @
     replicate (unat (tail_nops plan)) ''NOP''"

definition call_words :: "bool \<Rightarrow> nat \<Rightarrow> nat \<Rightarrow> delay_plan \<Rightarrow> u16 list" where
  "call_words pinned a r plan =
     (if pinned then pin_words else []) @
     nests_words (if pinned then a + 2 else a) r (nests plan) @ replicate (unat (tail_nops plan)) 0"

lemma emit_delay_Some:
  assumes "emit_delay dev r t c = Some (ds, t')" and "map arg_val (call_args c) = [Const n]"
  obtains plan where "0 \<le> n" and "common_ram dev = None \<Longrightarrow> 2 \<le> nat n"
    and "plan_delay (nat n - (if common_ram dev = None then 2 else 0)) = Some plan"
    and "ds = (if common_ram dev = None then pin_lines else []) @ fst (emit_nests r t (nests plan)) @
      replicate (unat (tail_nops plan)) ''    NOP''"
    and "t' = t + sum_list (map length (nests plan))"
  using assms emit_nests_next [of r t] that
  by (auto simp: emit_delay_def Let_def case_prod_unfold split: if_splits Option.bind_splits)

lemma plain_nop: "plain_body ''NOP''" "plain_body ''BCF 0x03,5''" "plain_body ''BCF 0x03,6''"
  by (simp_all add: plain_body_def is_ws_def)

lemma pass1_pins:
  "pass1_lines (pin_lines @ raws) st =
     pass1_lines raws (extend st [''BCF 0x03,5'', ''BCF 0x03,6''] (p1_sym st))"
proof -
  have "pin_lines = indent [''BCF 0x03,5'', ''BCF 0x03,6'']" by (simp add: pin_lines_def indent_def)
  moreover have "plain_body b" if "b \<in> set [''BCF 0x03,5'', ''BCF 0x03,6'']" for b
    using that plain_nop unfolding list.set by blast
  ultimately show ?thesis using pass1_instrs [of "[''BCF 0x03,5'', ''BCF 0x03,6'']"] by (simp only:)
qed

lemma pass1_nops:
  "pass1_lines (replicate k ''    NOP'' @ raws) st = pass1_lines raws (extend st (replicate k ''NOP'') (p1_sym st))"
proof -
  have "replicate k ''    NOP'' = indent (replicate k ''NOP'')" by (simp add: indent_def)
  moreover have "plain_body b" if "b \<in> set (replicate k ''NOP'')" for b using that plain_nop by auto
  ultimately show ?thesis using pass1_instrs [of "replicate k ''NOP''"] by (simp only:)
qed

lemma pass1_call:
  assumes "ds = (if pinned then pin_lines else []) @ fst (emit_nests r t (nests plan)) @
      replicate (unat (tail_nops plan)) ''    NOP''"
  shows "pass1_lines (ds @ raws) st = pass1_lines raws (extend st (call_bodies pinned r t plan)
      (plan_syms (p1_org st + (if pinned then 2 else 0)) t (nests plan) (p1_sym st)))"
proof (cases pinned)
  case True
  then have "ds @ raws = pin_lines @ (fst (emit_nests r t (nests plan)) @
      (replicate (unat (tail_nops plan)) ''    NOP'' @ raws))" using assms by simp
  then show ?thesis using True
    by (simp only: pass1_pins pass1_nests pass1_nops extend_extend extend_sel call_bodies_def if_True append_assoc)
      simp
next
  case False
  then have "ds @ raws = fst (emit_nests r t (nests plan)) @
      (replicate (unat (tail_nops plan)) ''    NOP'' @ raws)" using assms by simp
  then show ?thesis using False
    by (simp only: pass1_nests pass1_nops extend_extend extend_sel call_bodies_def if_False append_assoc) simp
qed

lemma call_encode:
  assumes "\<And>f. tab (hex2 f) = None" and "labels_ok tab (a + (if pinned then 2 else 0)) t (nests plan)"
    and "\<And>n. n \<in> set (nests plan) \<Longrightarrow> good_nest n" and "r + 3 \<le> 128"
  shows "map (encode14 tab) (call_bodies pinned r t plan) = map Some (call_words pinned a r plan)"
proof -
  have len: "r + length n \<le> 128" if "n \<in> set (nests plan)" for n
    using assms(3) [OF that] assms(4) by (simp add: good_nest_def)
  have "tab ''0x03'' = None" using assms(1) [of 3] by (simp only: pin_hex)
  note pin = enc_pin [where tab = tab, OF this]
  have "map (encode14 tab) (plan_bodies r t (nests plan)) =
      map Some (nests_words (a + (if pinned then 2 else 0)) r (nests plan))"
    by (rule plan_encode) (use assms len in auto)
  then show ?thesis
    by (cases pinned) (simp_all add: call_bodies_def call_words_def pin pin_words_def enc_nop)
qed

lemma pass1_append:
  assumes "\<forall>x \<in> set xs. \<not> is_directive (strip_comment x) ''end''"
  shows "pass1_lines (xs @ zs) st = pass1_lines xs st \<bind> pass1_lines zs"
  using assms
proof (induction xs arbitrary: st)
  case (Cons x xs)
  then show ?case
    by (auto simp: Let_def split: option.split Option.bind_split)
qed simp

text \<open>The first pass only adds lines and moves the address up.\<close>

definition p1_grows :: "pass1 \<Rightarrow> pass1 \<Rightarrow> bool" where
  "p1_grows st s' \<longleftrightarrow> set (p1_lines st) \<subseteq> set (p1_lines s') \<and> p1_org st \<le> p1_org s'"

lemma p1_grows_trans: "p1_grows st s \<Longrightarrow> p1_grows s s' \<Longrightarrow> p1_grows st s'"
  by (auto simp: p1_grows_def)

lemma p1_grows_plain: "pass1_plain l st = Some s' \<Longrightarrow> p1_grows st s'"
  using align_org_ge
  by (auto simp: p1_grows_def pass1_plain_def push_line_def split: option.splits Option.bind_splits list.splits if_splits)

lemma p1_grows_label: "pass1_label l st = Some s' \<Longrightarrow> p1_grows st s'"
  using p1_grows_plain [of l st s']
  by (auto simp: pass1_label_def push_line_def Let_def p1_grows_def split: option.splits if_splits)

lemma p1_grows_lines: "pass1_lines raws st = Some p \<Longrightarrow> p1_grows st p"
proof (induction raws arbitrary: st)
  case (Cons raw raws)
  have o: "p1_grows st (st\<lparr>p1_org := a\<rparr>)" if "p1_org st \<le> a" for a using that by (simp add: p1_grows_def)
  consider s1 where "pass1_lines raws s1 = Some p" "p1_grows st s1" | "st = p"
    using Cons.prems p1_grows_label o
    by (auto simp: Let_def p1_grows_def split: if_splits option.splits Option.bind_splits)
  then show ?case
  proof cases
    case 1
    then show ?thesis using Cons.IH p1_grows_trans by blast
  qed (simp add: p1_grows_def)
qed (simp add: p1_grows_def)

lemma assembled_length:
  assumes "assemble_first_pass src = Some p" and "assemble src = Some img"
  shows "length img = p1_org p"
proof -
  have "sorted_wrt (<) (map fst (p1_lines p))" using first_pass_ok [OF assms(1)] by (simp add: p1_ok_def)
  moreover have "emit_words (\<lambda>addr line. encode14 (p1_sym p) line) (p1_lines p) (replicate (p1_org p) 0) = Some img"
    using assms by (simp add: assemble_def assemble_with_def)
  ultimately show ?thesis
    using emit_words_facts [of "\<lambda>addr line. encode14 (p1_sym p) line"] by fastforce
qed

lemma assembled_word:
  assumes "assemble_first_pass src = Some p" and "assemble src = Some img" and "(a, l) \<in> set (p1_lines p)"
  shows "a < length img" "encode14 (p1_sym p) l = Some (img ! a)"
proof -
  have "sorted_wrt (<) (map fst (p1_lines p))" using first_pass_ok [OF assms(1)] by (simp add: p1_ok_def)
  moreover have "emit_words (\<lambda>addr line. encode14 (p1_sym p) line) (p1_lines p) (replicate (p1_org p) 0) = Some img"
    using assms(1,2) by (simp add: assemble_def assemble_with_def)
  ultimately show "a < length img" "encode14 (p1_sym p) l = Some (img ! a)"
    using emit_words_facts [of "\<lambda>addr line. encode14 (p1_sym p) line"] assms(3) by fastforce+
qed

lemma assembled_code:
  assumes "assemble_first_pass src = Some p" and "assemble src = Some img"
    and "set (enumerate a bs) \<subseteq> set (p1_lines p)" and "map (encode14 (p1_sym p)) bs = map Some ws"
    and "a \<le> length img"
  shows "code_at img a ws"
proof -
  have l: "length bs = length ws" using assms(4) map_eq_imp_length_eq by blast
  have w: "a + i < length img \<and> img ! (a + i) = ws ! i" if "i < length ws" for i
  proof -
    have "(a + i, bs ! i) \<in> set (enumerate a bs)" using that l by (auto simp: in_set_enumerate_eq)
    then have "(a + i, bs ! i) \<in> set (p1_lines p)" using assms(3) by blast
    note f = assembled_word [OF assms(1,2) this]
    have "encode14 (p1_sym p) (bs ! i) = Some (ws ! i)"
      using arg_cong [OF assms(4), of "\<lambda>xs. xs ! i"] that l by simp
    then show ?thesis using f by simp
  qed
  have "a + length ws \<le> length img"
    using w [of "length ws - 1"] assms(5) by (cases "ws = []") auto
  then show ?thesis using w by (simp add: code_at_def)
qed

section \<open>Running the call\<close>

lemma plan_facts:
  assumes "plan_delay n = Some plan"
  obtains tm where "sum_costs (nests plan) = Some tm" and "tm + unat (tail_nops plan) = n"
    and "\<And>k. k \<in> set (nests plan) \<Longrightarrow> good_nest k"
proof -
  have "n \<le> DELAY_MAX" using plan_delay_None [of n] assms by (cases "DELAY_MAX < n") auto
  then obtain p where p: "plan_delay n = Some p" "delay_cost p = Some n" "\<And>k. k \<in> set (nests p) \<Longrightarrow> good_nest k"
    by (rule plan_delay_Some) (rule that, assumption+)
  then show thesis using assms that by (auto simp: delay_cost_def split: Option.bind_splits)
qed

lemma loops_run:
  assumes "arrived s a" and "code_at (p14_prog s) a (nests_words a r (nests plan) @ replicate (unat (tail_nops plan)) 0)"
    and "plan_delay n = Some plan" and "0x20 \<le> r" and "r + 3 \<le> 0x80" and "page_of s \<le> a"
    and "a + length (nests_words a r (nests plan)) + unat (tail_nops plan) \<le> page_of s + 0x800"
  shows "\<exists>t. reaches {a..<a + length (nests_words a r (nests plan)) + unat (tail_nops plan)} (counters s r 3) s
      (a + length (nests_words a r (nests plan)) + unat (tail_nops plan)) n t"
proof -
  let ?m = "a + length (nests_words a r (nests plan))" and ?k = "unat (tail_nops plan)"
  obtain tm where tm: "sum_costs (nests plan) = Some tm" "tm + ?k = n" "\<And>k. k \<in> set (nests plan) \<Longrightarrow> good_nest k"
    by (rule plan_facts [OF assms(3)]) blast
  have c: "code_at (p14_prog s) a (nests_words a r (nests plan))" "code_at (p14_prog s) ?m (replicate ?k 0)"
    using assms(2) by (simp_all add: code_at_append)
  obtain t where t: "reaches {a..<?m} (counters s r 3) s ?m tm t"
    using nests_run [OF assms(1) c(1) assms(4,5) tm(3) assms(6) _ tm(1)] assms(7) by (auto simp: length_nests_words)
  have tC: "reaches {a..<?m + ?k} (counters s r 3) s ?m tm t" by (rule reaches_mono [OF t]) auto
  have "p14_prog t = p14_prog s" using t by (simp add: reaches_def same_but_def)
  then obtain u where "reaches {?m..<?m + ?k} {} t (?m + ?k) ?k u"
    using nops_run [OF arrived_reached [OF t assms(1)], of ?k] c(2) assms(7) page_of_le [of s] by auto
  then have "reaches {a..<?m + ?k} (counters s r 3) t (?m + ?k) ?k u" by (rule reaches_mono) auto
  then show ?thesis using reaches_trans [OF tC] tm(2) by blast
qed

lemma counters_bank0: "p14_bank_base s = 0 \<Longrightarrow> counters s r 3 = {r..<r + 3}"
  by (auto simp: counters_def phys_of_def p14_banked_addr_def image_iff)

lemma call_run:
  assumes "arrived s a" and "code_at (p14_prog s) a (call_words pinned a r plan)"
    and "plan_delay (n - (if pinned then 2 else 0)) = Some plan" and "pinned \<Longrightarrow> 2 \<le> n"
    and "0x20 \<le> r" and "r + 3 \<le> 0x80" and "page_of s \<le> a"
    and "a + length (call_words pinned a r plan) \<le> page_of s + 0x800"
  shows "\<exists>t. reaches {a..<a + length (call_words pinned a r plan)}
      (if pinned then insert 3 {r..<r + 3} else counters s r 3) s (a + length (call_words pinned a r plan)) n t \<and>
    p14_ram t 3 = (if pinned then p14_ram s 3 AND NOT 0x60 else p14_ram s 3)"
proof (cases pinned)
  case False
  let ?b = "a + length (nests_words a r (nests plan)) + unat (tail_nops plan)"
  have len: "a + length (call_words pinned a r plan) = ?b" using False by (simp add: call_words_def)
  obtain t where t: "reaches {a..<?b} (counters s r 3) s ?b n t"
    using loops_run [OF assms(1), of r plan n] assms(2-8) False len by (auto simp: call_words_def)
  have "p14_ram t 3 = p14_ram s 3"
    using t counters_plain(1) [OF assms(5,6), of s] by (auto simp: reaches_def same_but_def timer_regs_def)
  then show ?thesis unfolding len using t False by auto
next
  case True
  let ?w = "nests_words (a + 2) r (nests plan)"
  let ?b = "a + 2 + length ?w + unat (tail_nops plan)"
  have len: "a + length (call_words pinned a r plan) = ?b" using True by (simp add: call_words_def pin_words_def)
  have cw: "call_words pinned a r plan = pin_words @ ?w @ replicate (unat (tail_nops plan)) 0"
    using True by (simp add: call_words_def)
  have l2: "length pin_words = 2" by (simp add: pin_words_def)
  have c: "code_at (p14_prog s) a pin_words"
    "code_at (p14_prog s) (a + 2) (?w @ replicate (unat (tail_nops plan)) 0)"
    using assms(2) unfolding cw code_at_append [of _ a pin_words] l2 by blast+
  have b: "?b \<le> page_of s + 0x800" using assms(8) len by (simp only:)
  obtain t where t: "reaches {a..<a + 2} {3} s (a + 2) 2 t" "p14_bank_base t = 0" "p14_ram t 3 = p14_ram s 3 AND NOT 0x60"
    using pin_run [OF assms(1) c(1)] b page_of_le [of s] by auto
  have st: "same_but {3} s t" using t(1) by (simp add: reaches_def)
  have pt: "p14_prog t = p14_prog s" "page_of t = page_of s"
    using st page_of_same [OF st] by (simp_all add: same_but_def)
  obtain u where u: "reaches {a + 2..<?b} (counters t r 3) t ?b (n - 2) u"
    using loops_run [OF arrived_reached [OF t(1) assms(1)], of r plan "n - 2"] assms(3,5-7) True pt c(2) b by auto
  have C: "counters t r 3 = {r..<r + 3}" by (rule counters_bank0 [OF t(2)])
  have "reaches {a..<?b} (insert 3 {r..<r + 3}) s (a + 2) 2 t" by (rule reaches_mono [OF t(1)]) auto
  moreover have "reaches {a..<?b} (insert 3 {r..<r + 3}) t ?b (n - 2) u" by (rule reaches_mono [OF u]) (auto simp: C)
  ultimately have "reaches {a..<?b} (insert 3 {r..<r + 3}) s ?b (2 + (n - 2)) u" by (rule reaches_trans)
  moreover have "2 + (n - 2) = n" using assms(4) True by simp
  moreover have "p14_ram u 3 = p14_ram t 3"
    using u assms(5) by (auto simp: reaches_def same_but_def timer_regs_def C)
  ultimately show ?thesis unfolding len using True t(3) assms(4) by auto
qed

text \<open>C32: a \<open>_delay(n)\<close> call burns exactly \<open>n\<close> cycles. Let \<open>emit_delay\<close> accept a call with the constant
  argument \<open>n\<close> and let its lines stand anywhere in an assembly text that assembles, in a page of their
  own choice, with their labels not redefined further on and no symbol spelled like a hex number. A
  classic core that reaches the first of them with interrupts off and PCLATH naming that page reaches
  the address after the last one exactly \<open>n\<close> cycles later. The return stack is as it was, and so is
  every register but the three counters, what the timers and the converter count in, and, on a
  device without common RAM, the bank bits, which then select bank 0.\<close>

theorem delay_burns_exactly:
  assumes emit: "emit_delay dev r tmp c = Some (ds, tmp')" and arg: "map arg_val (call_args c) = [Const n]"
    and r: "0x20 \<le> r" "r + 3 \<le> 0x80"
    and src: "str_lines src = xs @ ds @ ys" "\<forall>x \<in> set xs. \<not> is_directive (strip_comment x) ''end''"
    and passes: "pass1_lines xs \<lparr>p1_lines = [], p1_sym = Map.empty, p1_org = 0\<rparr> = Some st0"
      "pass1_lines ds st0 = Some st1" "assemble_first_pass src = Some p"
    and labels: "\<forall>k. tmp \<le> k \<and> k < tmp' \<longrightarrow> p1_sym p (fresh_label k) = p1_sym st1 (fresh_label k)"
    and nums: "\<forall>f. p1_sym p (hex2 f) = None"
    and img: "assemble src = Some img"
    and core: "p14_device s = dev" "p14_prog s = img" "p14_pc s = of_nat (p1_org st0)" "\<not> p14_halted s"
      "\<not> bit (p14_ram s INTCON) 7"
    and page: "page_of s \<le> p1_org st0" "p1_org st1 \<le> page_of s + 0x800"
  shows "\<exists>t. (\<forall>m \<ge> nat n. p14_run_until (of_nat (p1_org st1)) m s = Some (Reached, t)) \<and>
    p14_cycles t = p14_cycles s + nat n \<and> p14_stack t = p14_stack s \<and>
    p14_ram t 3 = (if common_ram dev = None then p14_ram s 3 AND NOT 0x60 else p14_ram s 3) \<and>
    (\<forall>x. x \<noteq> 3 \<and> x \<notin> timer_regs \<and>
       x \<notin> (if common_ram dev = None then {r..<r + 3} else phys_of s ` {r..<r + 3}) \<longrightarrow>
       p14_ram t x = p14_ram s x)"
proof -
  define pinned where "pinned \<longleftrightarrow> common_ram dev = None"
  let ?a = "p1_org st0" and ?p = "if pinned then 2 else (0 :: nat)"
  obtain plan where pl: "pinned \<Longrightarrow> 2 \<le> nat n" "plan_delay (nat n - ?p) = Some plan"
    "ds = (if pinned then pin_lines else []) @ fst (emit_nests r tmp (nests plan)) @
      replicate (unat (tail_nops plan)) ''    NOP''" "tmp' = tmp + sum_list (map length (nests plan))"
    by (rule emit_delay_Some [OF emit arg]) (auto simp: pinned_def)
  let ?bs = "call_bodies pinned r tmp plan" and ?ws = "call_words pinned ?a r plan"
  obtain g: "\<And>k. k \<in> set (nests plan) \<Longrightarrow> good_nest k" by (rule plan_facts [OF pl(2)]) blast
  have st1: "st1 = extend st0 ?bs (plan_syms (?a + ?p) tmp (nests plan) (p1_sym st0))"
    using passes(2) pass1_call [OF pl(3), of "[]" st0] by simp
  have "pass1_lines (xs @ ds @ ys) \<lparr>p1_lines = [], p1_sym = Map.empty, p1_org = 0\<rparr> = Some p"
    using passes(3) src(1) by (simp add: assemble_first_pass_def)
  then have "pass1_lines ys st1 = Some p"
    using passes(1) pass1_append [OF src(2)] pass1_call [OF pl(3), of ys st0] st1 by simp
  then have grows: "p1_grows st1 p" by (rule p1_grows_lines)
  have "labels_ok (p1_sym st1) (?a + ?p) tmp (nests plan)" by (simp add: st1 plan_syms_labels)
  then have "labels_ok (p1_sym p) (?a + ?p) tmp (nests plan)"
    by (rule labels_ok_cong) (use labels pl(4) in auto)
  then have enc: "map (encode14 (p1_sym p)) ?bs = map Some ?ws"
    by (intro call_encode) (use nums g r in auto)
  have len: "length ?bs = length ?ws" using enc map_eq_imp_length_eq by blast
  have "set (enumerate ?a ?bs) \<subseteq> set (p1_lines p)" "?a \<le> length img"
    using grows assembled_length [OF passes(3) img] by (auto simp: p1_grows_def st1)
  then have "code_at img ?a ?ws" by (intro assembled_code [OF passes(3) img _ enc])
  moreover have b: "p1_org st1 = ?a + length ?ws" by (simp add: st1 len)
  moreover have "arrived s ?a" using core by (simp add: arrived_def)
  ultimately obtain t where t: "reaches {?a..<p1_org st1} (if pinned then insert 3 {r..<r + 3} else counters s r 3)
      s (p1_org st1) (nat n) t" "p14_ram t 3 = (if pinned then p14_ram s 3 AND NOT 0x60 else p14_ram s 3)"
    using call_run [of s ?a pinned r plan "nat n"] pl(1,2) r page core(2) by auto
  have u: "unat (of_nat (p1_org st1) :: u16) = p1_org st1" using page page_of_le [of s] by (simp add: unat_of_nat)
  have "\<forall>m \<ge> nat n. p14_run_until (of_nat (p1_org st1)) m s = Some (Reached, t)"
    using t(1) u burns_run_until [of "{?a..<p1_org st1}" s t] by (auto simp: reaches_def)
  then show ?thesis
    using t by (auto simp: reaches_def same_but_def pinned_def counters_def)
qed

text \<open>The call \<open>_delay(4)\<close> alone in a program: its lines, the first pass, the words.\<close>

definition delay4 :: i_call where
  "delay4 = \<lparr>call_dst = None, call_ty = None, call_func = ''_delay'',
     call_args = [\<lparr>arg_ty = Some I16, arg_val = Const 4, arg_byval = None, arg_sret = False\<rparr>],
     call_callees = [], call_loc = None\<rparr>"

definition ds4 :: "string list" where
  "ds4 = [''    MOVLW 0x01'', ''    MOVWF 0x71'', ''tmp0:'', ''    DECFSZ 0x71, F'', ''    GOTO tmp0'']"

definition src4 :: string where
  "src4 = ''    MOVLW 0x01'' @ [CHR 0x0A] @ ''    MOVWF 0x71'' @ [CHR 0x0A] @ ''tmp0:'' @ [CHR 0x0A] @
     ''    DECFSZ 0x71, F'' @ [CHR 0x0A] @ ''    GOTO tmp0''"

definition sym4 :: symtab where
  "sym4 = [''tmp0'' \<mapsto> 2, ''_tmp0'' \<mapsto> 2]"

definition st4 :: pass1 where
  "st4 = \<lparr>p1_lines = [(0, ''MOVLW 0x01''), (1, ''MOVWF 0x71''), (2, ''DECFSZ 0x71, F''), (3, ''GOTO tmp0'')],
     p1_sym = sym4, p1_org = 4\<rparr>"

lemma delay4_lines: "emit_delay (dev\<lparr>common_ram := Some w\<rparr>) 0x71 0 delay4 = Some (ds4, 1)"
  by (simp add: emit_delay_def delay4_def plan_delay_def plan_level1_def plan_level2_def plan_level3_def
      delay_consts Let_def)
    (simp add: ds4_def emit_nest_def delay_head_def delay_tail_def hex2_def fmt_hex_def hex_digits.simps
      dec_digits.simps hex_digit_table fresh_label_def)

lemma delay4_pass: "pass1_lines ds4 \<lparr>p1_lines = [], p1_sym = Map.empty, p1_org = 0\<rparr> = Some st4"
  by (simp add: ds4_def asm_eval Let_def st4_def sym4_def numeral_2_eq_2)

lemma delay4_source: "str_lines src4 = [] @ ds4 @ []"
  by (simp add: src4_def ds4_def str_eval)

lemma delay4_first: "assemble_first_pass src4 = Some st4"
  using delay4_pass delay4_source by (simp add: assemble_first_pass_def)

lemma delay4_words:
  "encode14 sym4 ''MOVLW 0x01'' = Some 0x3001" "encode14 sym4 ''MOVWF 0x71'' = Some 0xF1"
  "encode14 sym4 ''DECFSZ 0x71, F'' = Some 0x0BF1" "encode14 sym4 ''GOTO tmp0'' = Some 0x2802"
  by (simp_all add: encode14_def enc14_tables asm_eval file_field_def sym_addr_def sym_value_def
      sym_offset_def sym4_def dest_or_w_def jump_target_def)

lemma delay4_assemble: "assemble src4 = Some [0x3001, 0xF1, 0x0BF1, 0x2802]"
  by (simp add: assemble_def assemble_with_def delay4_first) (simp add: st4_def delay4_words numeral_eq_Suc)

lemma delay_burns_exactly_witness:
  "\<forall>dev. \<exists>t. p14_run_until 4 4 (p14_with_device (dev\<lparr>common_ram := Some (0x70, 0x7F)\<rparr>)
     [0x3001, 0xF1, 0x0BF1, 0x2802]) = Some (Reached, t) \<and> p14_cycles t = 4"
proof
  fix dev :: device
  let ?d = "dev\<lparr>common_ram := Some (0x70, 0x7F)\<rparr>" and ?img = "[0x3001, 0xF1, 0x0BF1, 0x2802] :: u16 list"
  let ?s = "p14_with_device ?d ?img"
  have "map arg_val (call_args delay4) = [Const 4]" by (simp add: delay4_def)
  note burnt = delay_burns_exactly [where s = ?s,
      OF delay4_lines [of "(0x70, 0x7F)" dev] this _ _ delay4_source _ pass1_lines.simps(1) delay4_pass delay4_first _ _ delay4_assemble]
  have "\<not> bit (p14_ram ?s INTCON) 7" "p14_ram ?s 0x0A = 0" "p14_cycles ?s = 0"
    by (simp_all add: p14_with_device_def apply_por_def pic14_por_def)
  moreover have "sym4 (hex2 f) = None" for f
  proof -
    obtain r where "hex2 f = CHR ''0'' # r" using hex2_ne(3) by blast
    then show ?thesis by (simp add: sym4_def)
  qed
  ultimately show "\<exists>t. p14_run_until 4 4 ?s = Some (Reached, t) \<and> p14_cycles t = 4"
    using burnt by (auto simp: st4_def page_of_def p14_with_device_def)
qed

end
