(* ===== verification/Banking.thy ===== *)
theory Banking
  imports Device Ir IrText IrParse
begin

text \<open>
  Bank-select insertion, \<^verbatim>\<open>crates/banking/src/lib.rs\<close>: the recognizers of bank operations and banked
  operands, the analysis of the banks a call returns in and a label is reached in, and the scan that
  inserts the selects. A panic is \<^const>\<open>None\<close>. The recursion of \<open>func_exit_bank\<close> and \<open>walk_region\<close>
  ends only on a call graph without cycles, so the two are one \<^theory_text>\<open>partial_function\<close>. A map of the
  code whose iteration order matters is an association list in that order.
\<close>

section \<open>Tokens\<close>

definition strip_punct :: "string \<Rightarrow> string" where
  "strip_punct = trim_end_by (\<lambda>c. c = CHR '','' \<or> c = CHR '';'' \<or> c = CHR '')'')"

definition line_toks :: "string \<Rightarrow> string list" where
  "line_toks line = split_ws (trim_start line)"

definition tok1 :: "string list \<Rightarrow> string" where
  "tok1 toks = (if 1 < length toks then toks ! 1 else [])"

definition ends_colon :: "string \<Rightarrow> bool" where
  "ends_colon s \<longleftrightarrow> strip_suffix '':'' s \<noteq> None"

definition hex_u16 :: "string \<Rightarrow> u16 option" where
  "hex_u16 s = map_option of_nat (parse_below 65536 16 s)"

section \<open>Bank operations and banked operands\<close>

definition LITERAL_OPS :: "string list" where
  "LITERAL_OPS = [''MOVLW'', ''ADDLW'', ''ANDLW'', ''IORLW'', ''XORLW'', ''SUBLW'', ''RETLW'']"

definition SKIP_OPS :: "string list" where
  "SKIP_OPS = [''BTFSC'', ''BTFSS'', ''INCFSZ'', ''DECFSZ'']"

definition STATUS_ADDR :: u16 where "STATUS_ADDR = 0x03"

text \<open>The register and bit tokens, with the comma attached to either or inside the only operand.\<close>

definition reg_bit :: "string list \<Rightarrow> string \<times> string" where
  "reg_bit toks =
     (if 2 < length toks then (strip_punct (tok1 toks), strip_punct (toks ! 2))
      else let t = tok1 toks in
        case find_sub '','' t of
          Some i \<Rightarrow> (trim (take i t), strip_punct (drop (i + 1) t))
        | None \<Rightarrow> (strip_punct t, []))"

definition is_status :: "string \<Rightarrow> bool" where
  "is_status reg \<longleftrightarrow> reg = ''STATUS'' \<or>
     (case strip_prefix ''0x'' reg of None \<Rightarrow> False | Some h \<Rightarrow> hex_u16 h = Some STATUS_ADDR)"

text \<open>\<open>bank_op_effect\<close>: no bank operation, one with an unknown effect (\<open>Some None\<close>), or the bank.\<close>

definition bank_op_effect :: "device \<Rightarrow> string \<Rightarrow> string list \<Rightarrow> u8 option option" where
  "bank_op_effect dev mne toks =
     (let (reg, b) = reg_bit toks in
      if dev_core dev = Pic14e then
        (if mne = ''MOVLB'' then
           let k = strip_punct (tok1 toks);
               h = (case strip_prefix ''0x'' k of Some r \<Rightarrow> r | None \<Rightarrow> k);
               v = (case parse_below (2 ^ 32) 16 h of Some n \<Rightarrow> n | None \<Rightarrow> 0)
           in Some (Some (of_nat (min v 0x1F)))
         else None)
      else if mne = ''MOVWF'' \<and> is_status reg then Some None
      else if (mne = ''BCF'' \<or> mne = ''BSF'') \<and> is_status reg then
        (if b = ''5'' then Some (Some (if mne = ''BSF'' then 1 else 0))
         else if b = ''6'' then Some (Some (if mne = ''BSF'' then 2 else 0))
         else None)
      else None)"

definition operand_addr :: "string list \<Rightarrow> u16 option" where
  "operand_addr toks =
     (if 1 < length toks then
        do { h \<leftarrow> strip_prefix ''0x'' (strip_punct (toks ! 1)); hex_u16 h }
      else None)"

definition operand_bank :: "device \<Rightarrow> string \<Rightarrow> string list \<Rightarrow> u8 option option" where
  "operand_bank dev mne toks =
     (if mne \<in> set LITERAL_OPS then Some None
      else case operand_addr toks of None \<Rightarrow> Some None | Some v \<Rightarrow> bank_of dev v)"

section \<open>Sets of banks\<close>

type_synonym bank_set = u32

definition bs_unknown :: bank_set where "bs_unknown = 0xFFFFFFFF"

definition bs_single :: "u8 \<Rightarrow> bank_set" where "bs_single b = push_bit (unat b) 1"

text \<open>\<open>trailing_zeros\<close>, and \<open>count_ones() == 1\<close>.\<close>

definition single_bank :: "bank_set \<Rightarrow> u8" where
  "single_bank s = of_nat (length (takeWhile (\<lambda>i. \<not> bit s i) [0..<32]))"

definition is_single :: "bank_set \<Rightarrow> bool" where
  "is_single s \<longleftrightarrow> length (filter (bit s) [0..<32]) = 1"

section \<open>Function regions\<close>

text \<open>\<open>rsplit_once("_L")\<close>: what follows the last occurrence.\<close>

fun after_last :: "string \<Rightarrow> string \<Rightarrow> string option" where
  "after_last p [] = None"
| "after_last p (c # cs) =
     (case after_last p cs of
        Some r \<Rightarrow> Some r
      | None \<Rightarrow> if starts_with p (c # cs) then Some (drop (length p) (c # cs)) else None)"

definition all_digits :: "string \<Rightarrow> bool" where
  "all_digits s \<longleftrightarrow> s \<noteq> [] \<and> list_all (\<lambda>c. c \<in> set ''0123456789'') s"

definition is_internal_label :: "string \<Rightarrow> bool" where
  "is_internal_label name \<longleftrightarrow>
     (case strip_prefix ''tmp'' name of Some r \<Rightarrow> all_digits r | None \<Rightarrow> False) \<or>
     (case after_last ''_L'' name of Some r \<Rightarrow> all_digits r | None \<Rightarrow> False)"

definition targets_of :: "string \<Rightarrow> string list \<Rightarrow> string list" where
  "targets_of mne ls =
     concat (map (\<lambda>l. case line_toks l of a # t # _ \<Rightarrow> if a = mne then [strip_punct t] else [] | _ \<Rightarrow> []) ls)"

definition label_defs :: "string list \<Rightarrow> (nat \<times> string) list" where
  "label_defs ls =
     concat (map (\<lambda>(i, l). let t = trim_start l in
        if starts_with '';'' t then []
        else (case strip_suffix '':'' t of Some name \<Rightarrow> [(i, name)] | None \<Rightarrow> [])) (enumerate 0 ls))"

type_synonym regions = "(string \<times> string list) list"

fun set_region :: "string \<Rightarrow> string list \<Rightarrow> regions \<Rightarrow> regions" where
  "set_region k v [] = [(k, v)]"
| "set_region k v ((k', v') # rs) = (if k = k' then (k, v) # rs else (k', v') # set_region k v rs)"

fun cut_regions :: "string list \<Rightarrow> (nat \<times> string) list \<Rightarrow> regions \<Rightarrow> regions" where
  "cut_regions ls [] rs = rs"
| "cut_regions ls ((s, name) # os) rs =
     (let e = (case os of [] \<Rightarrow> length ls | (i, _) # _ \<Rightarrow> i)
      in cut_regions ls os (set_region name (take (e - s) (drop s ls)) rs))"

definition function_regions :: "string list \<Rightarrow> string list \<times> regions" where
  "function_regions ls =
     (let call_targets = targets_of ''CALL'' ls;
          defs = label_defs ls;
          first_ct = find (\<lambda>(i, n). n \<in> set call_targets) defs;
          inner_goto = (case defs of [] \<Rightarrow> [] | (fl, _) # _ \<Rightarrow> targets_of ''GOTO'' (drop fl ls));
          openers = filter (\<lambda>(i, n). n \<in> set call_targets \<or>
             ((case first_ct of None \<Rightarrow> False | Some (f, _) \<Rightarrow> i < f) \<and>
              \<not> is_internal_label n \<and> n \<notin> set inner_goto)) defs
      in (call_targets, cut_regions ls openers []))"

section \<open>The walk over a region\<close>

definition asm_start :: string where "asm_start = ''; --- asm start ---''"
definition asm_end :: string where "asm_end = ''; --- asm end ---''"

definition is_marker :: "string \<Rightarrow> bool" where
  "is_marker line \<longleftrightarrow> starts_with asm_start (trim_start line) \<or> starts_with asm_end (trim_start line)"

text \<open>\<open>label_idx\<close>: a later definition of the same name wins.\<close>

definition label_idx :: "string list \<Rightarrow> string \<Rightarrow> nat option" where
  "label_idx region name =
     map_of (rev (concat (map (\<lambda>(i, l). case strip_suffix '':'' (trim_start l) of
        Some n \<Rightarrow> [(n, i)] | None \<Rightarrow> []) (enumerate 0 region)))) name"

fun asm_inside_from :: "bool \<Rightarrow> string list \<Rightarrow> bool list" where
  "asm_inside_from b [] = []"
| "asm_inside_from b (l # ls) =
     (if starts_with asm_start (trim_start l) then False # asm_inside_from True ls
      else if starts_with asm_end (trim_start l) then False # asm_inside_from False ls
      else b # asm_inside_from b ls)"

definition asm_inside :: "string list \<Rightarrow> nat \<Rightarrow> bool" where
  "asm_inside region i = (asm_inside_from False region ! i)"

definition is_dot_directive :: "string \<Rightarrow> bool" where
  "is_dot_directive mne \<longleftrightarrow> mne = ''org'' \<or> mne = ''end'' \<or> starts_with ''.'' mne"

text \<open>The label lines right after a skip, and the index of the first other line.\<close>

fun skip_labels :: "string list \<Rightarrow> string list" where
  "skip_labels [] = []"
| "skip_labels (l # ls) =
     (case strip_suffix '':'' (trim_start l) of Some n \<Rightarrow> n # skip_labels ls | None \<Rightarrow> [])"

text \<open>
  What one line does to the walk: join \<open>banks\<close> into the named labels and push the listed work (the
  last pushed first), leave the region, or call.
\<close>

datatype walk_act =
    Step "string list" bank_set "(nat \<times> bank_set) list"
  | Leave bank_set
  | Callee string

definition walk_line :: "device \<Rightarrow> string list \<Rightarrow> nat \<Rightarrow> bank_set \<Rightarrow> walk_act option" where
  "walk_line dev region i banks =
     (let line = region ! i; toks = line_toks line in
      if is_marker line \<or> asm_inside region i then Some (Step [] banks [(i + 1, bs_unknown)])
      else case toks of [] \<Rightarrow> Some (Step [] banks [(i + 1, banks)])
      | mne # _ \<Rightarrow>
        if ends_colon mne then Some (Step [trim_end_char (CHR '':'') mne] banks [(i + 1, banks)])
        else if is_dot_directive mne then Some (Step [] banks [(i + 1, banks)])
        else if mne = ''RETURN'' \<or> mne = ''RETLW'' \<or> mne = ''RETFIE'' then Some (Leave banks)
        else if mne = ''GOTO'' then
          (if 1 < length toks then
             (case label_idx region (strip_punct (toks ! 1)) of
                Some ti \<Rightarrow> Some (Step [] banks [(ti, banks)]) | None \<Rightarrow> Some (Leave bs_unknown))
           else Some (Step [] banks []))
        else if mne = ''CALL'' then
          (if 1 < length toks then Some (Callee (strip_punct (toks ! 1))) else Some (Step [] banks []))
        else if mne \<in> set SKIP_OPS then do {
          ob \<leftarrow> operand_bank dev mne toks;
          let b1 = (case ob of Some b \<Rightarrow> bs_single b | None \<Rightarrow> banks);
          let names = skip_labels (drop (i + 1) region);
          let j = i + 1 + length names;
          Some (Step names b1 [(j, b1), (j + 1, b1)]) }
        else (case bank_op_effect dev mne toks of
            Some eff \<Rightarrow> Some (Step [] banks [(i + 1, case eff of Some b \<Rightarrow> bs_single b | None \<Rightarrow> bs_unknown)])
          | None \<Rightarrow> do {
              ob \<leftarrow> operand_bank dev mne toks;
              Some (Step [] banks [(i + 1, case ob of Some b \<Rightarrow> bs_single b | None \<Rightarrow> banks)]) }))"

type_synonym exit_memo = "string \<times> bank_set \<Rightarrow> bank_set option"
type_synonym label_banks = "string \<Rightarrow> bank_set option"

definition join_label :: "bank_set \<Rightarrow> string \<Rightarrow> label_banks \<Rightarrow> label_banks" where
  "join_label banks name labels =
     labels(name \<mapsto> (case labels name of Some b \<Rightarrow> b | None \<Rightarrow> 0) OR banks)"

text \<open>The state of the work loop: its stack, what it has seen, and the two maps it shares.\<close>

record walk_state =
  wk_work :: "(nat \<times> bank_set) list"
  wk_visited :: "(nat \<times> bank_set) set"
  wk_exits :: bank_set
  wk_memo :: exit_memo
  wk_labels :: label_banks

definition walk_start :: "bank_set \<Rightarrow> exit_memo \<Rightarrow> label_banks \<Rightarrow> walk_state" where
  "walk_start entry memo labels =
     \<lparr>wk_work = [(0, entry)], wk_visited = {}, wk_exits = 0, wk_memo = memo, wk_labels = labels\<rparr>"

definition wk_push :: "(nat \<times> bank_set) list \<Rightarrow> walk_state \<Rightarrow> walk_state" where
  "wk_push ps st = st\<lparr>wk_work := ps @ wk_work st\<rparr>"

definition wk_exit :: "bank_set \<Rightarrow> walk_state \<Rightarrow> walk_state" where
  "wk_exit b st = st\<lparr>wk_exits := wk_exits st OR b\<rparr>"

text \<open>One turn of the loop, up to the walk of a callee that the memo does not hold.\<close>

datatype walk_next =
    Done bank_set
  | Continue walk_state
  | Enter string "string list" bank_set nat walk_state

definition walk_turn :: "device \<Rightarrow> regions \<Rightarrow> string list \<Rightarrow> walk_state \<Rightarrow> walk_next option" where
  "walk_turn dev regions region st =
     (case wk_work st of [] \<Rightarrow> Some (Done (wk_exits st))
      | (i, banks) # rest \<Rightarrow>
        (if (i, banks) \<in> wk_visited st then Some (Continue (st\<lparr>wk_work := rest\<rparr>))
         else let s1 = st\<lparr>wk_work := rest, wk_visited := insert (i, banks) (wk_visited st)\<rparr> in
           if length region \<le> i then Some (Continue (wk_exit bs_unknown s1))
           else do {
             act \<leftarrow> walk_line dev region i banks;
             Some (case act of
                 Step names b ps \<Rightarrow>
                   Continue (wk_push ps (s1\<lparr>wk_labels := fold (join_label b) names (wk_labels s1)\<rparr>))
               | Leave b \<Rightarrow> Continue (wk_exit b s1)
               | Callee f \<Rightarrow>
                   (case wk_memo s1 (f, banks) of
                      Some v \<Rightarrow> Continue (wk_push [(i + 1, v)] s1)
                    | None \<Rightarrow>
                        (case map_of regions f of
                           None \<Rightarrow> Continue (wk_push [(i + 1, bs_unknown)] s1)
                         | Some r \<Rightarrow> Enter f r banks i s1))) }))"

text \<open>What the caller resumes with: the callee's exit memoized and pushed after the call.\<close>

definition walk_resume :: "string \<Rightarrow> bank_set \<Rightarrow> nat \<Rightarrow> walk_state \<Rightarrow> bank_set \<times> exit_memo \<times> label_banks \<Rightarrow> walk_state" where
  "walk_resume f banks i st res =
     (case res of (v, memo, labels) \<Rightarrow>
        wk_push [(i + 1, v)] (st\<lparr>wk_memo := memo((f, banks) \<mapsto> v), wk_labels := labels\<rparr>))"

partial_function (option) walk_loop ::
  "device \<Rightarrow> regions \<Rightarrow> string list \<Rightarrow> walk_state \<Rightarrow> (bank_set \<times> exit_memo \<times> label_banks) option" where
  "walk_loop dev regions region st =
     Option.bind (walk_turn dev regions region st) (\<lambda>n. case n of
         Done b \<Rightarrow> Some (b, wk_memo st, wk_labels st)
       | Continue st' \<Rightarrow> walk_loop dev regions region st'
       | Enter f r banks i st' \<Rightarrow>
           Option.bind (walk_loop dev regions r (walk_start banks (wk_memo st') (wk_labels st')))
             (\<lambda>res. walk_loop dev regions region (walk_resume f banks i st' res)))"

definition walk_region ::
  "device \<Rightarrow> regions \<Rightarrow> string list \<Rightarrow> bank_set \<Rightarrow> exit_memo \<Rightarrow> label_banks \<Rightarrow>
   (bank_set \<times> exit_memo \<times> label_banks) option" where
  "walk_region dev regions region entry memo labels = walk_loop dev regions region (walk_start entry memo labels)"

definition func_exit_bank ::
  "device \<Rightarrow> regions \<Rightarrow> string \<Rightarrow> bank_set \<Rightarrow> exit_memo \<Rightarrow> label_banks \<Rightarrow>
   (bank_set \<times> exit_memo \<times> label_banks) option" where
  "func_exit_bank dev regions f entry memo labels =
     (case memo (f, entry) of
        Some v \<Rightarrow> Some (v, memo, labels)
      | None \<Rightarrow> (case map_of regions f of
          None \<Rightarrow> Some (bs_unknown, memo, labels)
        | Some r \<Rightarrow> do {
            (v, memo', labels') \<leftarrow> walk_region dev regions r entry memo labels;
            Some (v, memo'((f, entry) \<mapsto> v), labels') }))"

section \<open>What is known before the scan\<close>

fun all_bank0 :: "device \<Rightarrow> string list \<Rightarrow> bool option" where
  "all_bank0 dev [] = Some True"
| "all_bank0 dev (l # ls) =
     (case line_toks l of [] \<Rightarrow> all_bank0 dev ls
      | mne # _ \<Rightarrow>
        let toks = line_toks l in
        if bank_op_effect dev mne toks \<noteq> None then Some False
        else if is_dot_directive mne then all_bank0 dev ls
        else do {
          ob \<leftarrow> operand_bank dev mne toks;
          (if ob \<noteq> None \<and> ob \<noteq> Some 0 then Some False else all_bank0 dev ls) })"

definition is_bank0_only :: "device \<Rightarrow> string \<Rightarrow> bool option" where
  "is_bank0_only dev asm =
     (if contains_sub asm_start asm \<or> contains_sub asm_end asm then Some False
      else all_bank0 dev (str_lines asm))"

definition region_has_computed_jump :: "string list \<Rightarrow> bool" where
  "region_has_computed_jump region \<longleftrightarrow>
     list_ex (\<lambda>l. starts_with ''.table'' (trim_start l) \<or>
       (case split_ws (trim_start l) of m # op # _ \<Rightarrow> m = ''MOVWF'' \<and> strip_punct op = ''PCL'' | _ \<Rightarrow> False)) region"

fun label_walks :: "device \<Rightarrow> regions \<Rightarrow> regions \<Rightarrow> exit_memo \<Rightarrow> label_banks \<Rightarrow> (exit_memo \<times> label_banks) option" where
  "label_walks dev all [] memo labels = Some (memo, labels)"
| "label_walks dev all ((_, r) # rs) memo labels =
     (if region_has_computed_jump r then label_walks dev all rs memo labels
      else do {
        (_, memo', labels') \<leftarrow> walk_region dev all r bs_unknown memo labels;
        label_walks dev all rs memo' labels' })"

definition label_provable_banks :: "device \<Rightarrow> regions \<Rightarrow> exit_memo \<Rightarrow> (exit_memo \<times> label_banks) option" where
  "label_provable_banks dev rs memo = label_walks dev rs rs memo Map.empty"

section \<open>The scan\<close>

text \<open>The facts of the program the scan consults.\<close>

record bank_facts =
  bf_dev :: device
  bf_bank0_only :: bool
  bf_regions :: regions
  bf_label_bank :: label_banks

record scan_state =
  sc_known :: bool
  sc_cur :: u8
  sc_in_asm :: bool
  sc_memo :: exit_memo

text \<open>\<open>emit_banksel\<close> and \<open>emit_movlb\<close>: the select lines.\<close>

definition banksel_bit :: "u8 \<Rightarrow> u8 \<Rightarrow> bool \<Rightarrow> string \<times> u8 \<Rightarrow> string list" where
  "banksel_bit cur bank full p =
     (case p of (b, m) \<Rightarrow>
        if full \<or> (cur AND m \<noteq> 0) \<noteq> (bank AND m \<noteq> 0)
        then [''    '' @ (if bank AND m \<noteq> 0 then ''BSF'' else ''BCF'') @ '' STATUS, '' @ b] else [])"

definition emit_banksel :: "u8 \<Rightarrow> u8 \<Rightarrow> bool \<Rightarrow> string list" where
  "emit_banksel cur bank full = concat (map (banksel_bit cur bank full) [(''5'', 1), (''6'', 2)])"

definition emit_movlb :: "u8 \<Rightarrow> string list" where
  "emit_movlb bank = [''    MOVLB 0x'' @ fmt_hex 2 (unat bank)]"

definition replacen1 :: "string \<Rightarrow> string \<Rightarrow> string \<Rightarrow> string" where
  "replacen1 pat rep s =
     (case find_sub pat s of None \<Rightarrow> s | Some i \<Rightarrow> take i s @ rep @ drop (i + length pat) s)"

definition hex_u16_str :: "u16 \<Rightarrow> string" where "hex_u16_str v = ''0x'' @ fmt_hex 2 (unat v)"

text \<open>The arms of the scan, each to its new state, the inserted lines and the line itself.\<close>

definition scan_label :: "bank_facts \<Rightarrow> string \<Rightarrow> scan_state \<Rightarrow> scan_state" where
  "scan_label bf name st =
     (case bf_label_bank bf name of
        Some s \<Rightarrow> if is_single s then st\<lparr>sc_known := True, sc_cur := single_bank s\<rparr>
                  else st\<lparr>sc_known := bf_bank0_only bf\<rparr>
      | None \<Rightarrow> st\<lparr>sc_known := bf_bank0_only bf\<rparr>)"

definition scan_call :: "bank_facts \<Rightarrow> string list \<Rightarrow> scan_state \<Rightarrow> scan_state option" where
  "scan_call bf toks st =
     (if bf_bank0_only bf then Some (st\<lparr>sc_known := True\<rparr>)
      else if 1 < length toks then do {
        (eb, memo, _) \<leftarrow> func_exit_bank (bf_dev bf) (bf_regions bf) (strip_punct (toks ! 1))
            (if sc_known st then bs_single (sc_cur st) else bs_unknown) (sc_memo st) Map.empty;
        Some (if is_single eb then st\<lparr>sc_memo := memo, sc_known := True, sc_cur := single_bank eb\<rparr>
              else st\<lparr>sc_memo := memo, sc_known := False\<rparr>) }
      else Some (st\<lparr>sc_known := False\<rparr>))"

definition scan_operand :: "device \<Rightarrow> string \<Rightarrow> u16 \<Rightarrow> scan_state \<Rightarrow> (scan_state \<times> string list \<times> string) option" where
  "scan_operand dev line v st =
     do {
       ob \<leftarrow> bank_of dev v;
       Some (case ob of
           None \<Rightarrow> (st, [], line)
         | Some bank \<Rightarrow>
             let sel = \<not> sc_known st \<or> bank \<noteq> sc_cur st;
                 pre = (if \<not> sel then []
                        else if dev_core dev = Pic14e then emit_movlb bank
                        else emit_banksel (sc_cur st) bank (\<not> sc_known st));
                 st' = (if sel then st\<lparr>sc_known := True, sc_cur := bank\<rparr> else st);
                 w = v AND 0x7F
             in (st', pre, if w \<noteq> v then replacen1 (hex_u16_str v) (hex_u16_str w) line else line)) }"

definition scan_line :: "bank_facts \<Rightarrow> string \<Rightarrow> scan_state \<Rightarrow> (scan_state \<times> string list \<times> string) option" where
  "scan_line bf line st =
     (let t = trim_start line; toks = line_toks line in
      if starts_with asm_start t then Some (st\<lparr>sc_in_asm := True, sc_known := False\<rparr>, [], line)
      else if starts_with asm_end t then Some (st\<lparr>sc_in_asm := False, sc_known := False\<rparr>, [], line)
      else if sc_in_asm st then Some (st, [], line)
      else case toks of [] \<Rightarrow> Some (st, [], line)
      | mne # _ \<Rightarrow>
        if ends_colon mne then Some (scan_label bf (trim_end_char (CHR '':'') mne) st, [], line)
        else if mne = ''CALL'' then do { st' \<leftarrow> scan_call bf toks st; Some (st', [], line) }
        else if is_dot_directive mne then Some (st, [], line)
        else (case bank_op_effect (bf_dev bf) mne toks of
            Some (Some b) \<Rightarrow> Some (st\<lparr>sc_cur := b, sc_known := True\<rparr>, [], line)
          | Some None \<Rightarrow> Some (st\<lparr>sc_known := False\<rparr>, [], line)
          | None \<Rightarrow>
            if mne \<in> set LITERAL_OPS then Some (st, [], line)
            else (case operand_addr toks of
                None \<Rightarrow> Some (st, [], line)
              | Some v \<Rightarrow> scan_operand (bf_dev bf) line v st)))"

text \<open>The loop; the \<open>loc\<close> of an inserted line is that of the line it precedes.\<close>

fun scan_lines :: "bank_facts \<Rightarrow> (string \<times> 'l) list \<Rightarrow> scan_state \<Rightarrow> (scan_state \<times> (string \<times> 'l) list) option" where
  "scan_lines bf [] st = Some (st, [])"
| "scan_lines bf ((line, loc) # ls) st =
     do {
       (st1, pre, line') \<leftarrow> scan_line bf line st;
       (st2, out) \<leftarrow> scan_lines bf ls st1;
       Some (st2, map (\<lambda>l. (l, loc)) (pre @ [line']) @ out) }"

definition scan_init :: "exit_memo \<Rightarrow> scan_state" where
  "scan_init memo = \<lparr>sc_known = True, sc_cur = 0, sc_in_asm = False, sc_memo = memo\<rparr>"

definition assign_banks_with_locs ::
  "device \<Rightarrow> string \<Rightarrow> src_loc option list \<Rightarrow> (string \<times> src_loc option list) option" where
  "assign_banks_with_locs dev asm locs =
     (if dev_core dev = PicBaseline then None
      else do {
        b0 \<leftarrow> is_bank0_only dev asm;
        let ls = str_lines asm;
        let rs = snd (function_regions ls);
        (memo, labels) \<leftarrow> label_provable_banks dev rs Map.empty;
        let tagged = map (\<lambda>(i, l). (l, if i < length locs then locs ! i else None)) (enumerate 0 ls);
        (_, out) \<leftarrow> scan_lines \<lparr>bf_dev = dev, bf_bank0_only = b0, bf_regions = rs, bf_label_bank = labels\<rparr>
            tagged (scan_init memo);
        Some (unlines (map fst out), map snd out) })"

definition assign_banks :: "device \<Rightarrow> string \<Rightarrow> string option" where
  "assign_banks dev asm = map_option fst (assign_banks_with_locs dev asm [])"

end
