(* ===== verification/BankingProps.thy ===== *)
theory BankingProps
  imports Banking DelayCode
begin

text \<open>
  What bank-select insertion guarantees between two labels or calls: the bank register always holds the
  bank of the register an executed instruction names. The bank register's behaviour is stated on the
  assembly text; the last section ties the selects to the words and steps of the classic core.
\<close>

section \<open>What a line does to the bank register\<close>

definition mne_of :: "string \<Rightarrow> string" where
  "mne_of line = (case line_toks line of [] \<Rightarrow> [] | m # _ \<Rightarrow> m)"

definition line_effect :: "device \<Rightarrow> string \<Rightarrow> u8 option option" where
  "line_effect dev line = bank_op_effect dev (mne_of line) (line_toks line)"

text \<open>An instruction that stores into STATUS: it may leave any bank selected.\<close>

definition stores_status :: "string \<Rightarrow> bool" where
  "stores_status line \<longleftrightarrow>
     (let (reg, b) = reg_bit (line_toks line) in
      is_status reg \<and> (mne_of line \<in> {''MOVWF'', ''CLRF''} \<or>
        mne_of line \<notin> {''BCF'', ''BSF'', ''BTFSC'', ''BTFSS''} \<and> to_upper b = ''F''))"

definition rp_bit :: "string \<Rightarrow> u8 option" where
  "rp_bit line = (let (reg, b) = reg_bit (line_toks line) in
     if is_status reg then (if b = ''5'' then Some 1 else if b = ''6'' then Some 2 else None) else None)"

definition bank_after :: "device \<Rightarrow> string \<Rightarrow> u8 \<Rightarrow> u8 set" where
  "bank_after dev line b =
     (if dev_core dev = Pic14e then
        (case line_effect dev line of Some (Some k) \<Rightarrow> {k} | _ \<Rightarrow> {b})
      else if stores_status line then {0, 1, 2, 3}
      else (case rp_bit line of None \<Rightarrow> {b}
        | Some m \<Rightarrow> if mne_of line = ''BSF'' then {b OR m}
                    else if mne_of line = ''BCF'' then {b AND NOT m} else {b}))"

definition is_skip :: "string \<Rightarrow> bool" where
  "is_skip line \<longleftrightarrow> mne_of line \<in> set SKIP_OPS"

text \<open>Executions of straight-line text: every line executed, with the bank it executes in.\<close>

inductive bank_run ::
  "device \<Rightarrow> (string \<times> 'l) list \<Rightarrow> u8 \<Rightarrow> (string \<times> 'l \<times> u8) list \<Rightarrow> u8 \<Rightarrow> bool" for dev where
  run_end: "bank_run dev [] b [] b"
| run_line: "b' \<in> bank_after dev l b \<Longrightarrow> bank_run dev ls b' tr c \<Longrightarrow>
    bank_run dev ((l, t) # ls) b ((l, t, b) # tr) c"
| run_skip: "is_skip l \<Longrightarrow> b' \<in> bank_after dev l b \<Longrightarrow> bank_run dev ls b' tr c \<Longrightarrow>
    bank_run dev ((l, t) # x # ls) b ((l, t, b) # tr) c"

inductive_cases run_endE: "bank_run dev [] b tr c"
inductive_cases run_lineE: "bank_run dev ((l, t) # ls) b tr c"

section \<open>Lines of a segment\<close>

definition accesses :: "device \<Rightarrow> string \<Rightarrow> u16 \<Rightarrow> bool" where
  "accesses dev line v \<longleftrightarrow> line_effect dev line = None \<and> mne_of line \<notin> set LITERAL_OPS \<and>
     operand_addr (line_toks line) = Some v"

text \<open>An instruction with a register operand, spelled the way the selectors spell it.\<close>

definition access_form :: "string \<Rightarrow> u16 \<Rightarrow> string \<Rightarrow> string \<Rightarrow> bool" where
  "access_form mne v rest line \<longleftrightarrow> line = ''    '' @ mne @ '' '' @ hex_u16_str v @ rest \<and>
     no_blank mne \<and> CHR ''0'' \<notin> set mne \<and> (rest = [] \<or> (\<exists>r. rest = '', '' @ r \<and> no_blank r))"

definition nbanks :: "device \<Rightarrow> u8" where
  "nbanks dev = (if dev_core dev = Pic14e then 32 else 4)"

text \<open>
  A line the straight-line property is about: an instruction, not a label, call, directive or marker, with
  no bank select of its own; if it names a register, it names one of a bank the core has, and if it
  stores into STATUS it is MOVWF STATUS.
\<close>

definition segment_line :: "device \<Rightarrow> string \<Rightarrow> bool" where
  "segment_line dev line \<longleftrightarrow> \<not> is_marker line \<and> line_toks line \<noteq> [] \<and> \<not> ends_colon (mne_of line) \<and>
     mne_of line \<noteq> ''CALL'' \<and> \<not> is_dot_directive (mne_of line) \<and>
     (line_effect dev line = Some None \<or> line_effect dev line = None \<and> \<not> stores_status line) \<and>
     (\<forall>v. accesses dev line v \<longrightarrow> (\<exists>rest. access_form (mne_of line) v rest line) \<and>
        (case bank_of dev v of None \<Rightarrow> False | Some None \<Rightarrow> True
         | Some (Some k) \<Rightarrow> k < nbanks dev \<and> v AND 0x7F \<noteq> 3))"

section \<open>Text of an access\<close>

lemma hex_u16_str_hex2: "hex_u16_str v = hex2 (unat v)"
  by (simp add: hex_u16_str_def hex2_def)

lemma strip_punct_hex2: "strip_punct (hex2 k) = hex2 k" "strip_punct (hex2 k @ '','') = hex2 k"
proof -
  have l: "last (hex2 k) \<in> set (hex2 k)" by simp
  have n: "CHR '','' \<notin> set (hex2 k)" "CHR '';'' \<notin> set (hex2 k)" "CHR '')'' \<notin> set (hex2 k)"
    by (rule hex2_not, simp)+
  have e: "last (hex2 k) \<noteq> CHR '',''" "last (hex2 k) \<noteq> CHR '';''" "last (hex2 k) \<noteq> CHR '')''"
    using l n by metis+
  show k: "strip_punct (hex2 k) = hex2 k" unfolding strip_punct_def by (rule trim_end_by_keep) (simp add: e)
  have "strip_punct (x @ '','') = strip_punct x" for x by (simp add: strip_punct_def trim_end_by_def)
  then show "strip_punct (hex2 k @ '','') = hex2 k" by (simp only: k)
qed

lemma hex_u16_hex2: "strip_prefix ''0x'' (hex2 (unat v)) = Some (fmt_hex 2 (unat v))"
  "hex_u16 (fmt_hex 2 (unat v)) = Some v"
proof -
  show "strip_prefix ''0x'' (hex2 (unat v)) = Some (fmt_hex 2 (unat v))" by (simp add: hex2_def)
  have "unat v < 2 ^ 64" using u16_less_65536 [of v] by simp
  then show "hex_u16 (fmt_hex 2 (unat v)) = Some v"
    using u16_less_65536 [of v] by (simp add: hex_u16_def parse_below_def parse_fmt_hex)
qed

lemma trim_start_indent:
  assumes "no_blank m"
  shows "trim_start (''    '' @ m @ x) = m @ x"
  using assms by (cases m) (auto simp: trim_start_def no_blank_def is_ws_def)

lemma toks_form:
  assumes "access_form m v rest line"
  shows "line_toks line = (if rest = [] then [m, hex2 (unat v)] else [m, hex2 (unat v) @ '','', drop 2 rest])"
proof (cases "rest = []")
  case True
  then have "line = ''    '' @ m @ '' '' @ hex2 (unat v)" "no_blank m"
    using assms by (auto simp: access_form_def hex_u16_str_hex2)
  then have "line_toks line = [m, hex2 (unat v)]"
    unfolding line_toks_def using trim_start_indent [of m "'' '' @ hex2 (unat v)"] split_two [of m, OF _ no_blank_hex2(1)]
    by (simp only: )
  then show ?thesis by (simp add: True)
next
  case False
  then obtain r where r: "rest = '', '' @ r" "no_blank r" using assms by (auto simp: access_form_def)
  then have l: "line = ''    '' @ m @ '' '' @ (hex2 (unat v) @ '','') @ '' '' @ r" "no_blank m"
    using assms by (auto simp: access_form_def hex_u16_str_hex2)
  then have "line_toks line = [m, hex2 (unat v) @ '','', r]"
    unfolding line_toks_def using trim_start_indent [of m "'' '' @ (hex2 (unat v) @ '','') @ '' '' @ r"]
      split_three [of m, OF _ no_blank_hex2(2) r(2)]
    by (simp only: )
  then show ?thesis by (simp add: r(1))
qed

lemma form_facts:
  assumes "access_form m v rest line"
  shows "mne_of line = m" "operand_addr (line_toks line) = Some v"
    and "fst (reg_bit (line_toks line)) = hex2 (unat v)"
proof -
  note t = toks_form [OF assms]
  show "mne_of line = m" by (simp add: mne_of_def t)
  show "operand_addr (line_toks line) = Some v"
    by (simp add: t operand_addr_def strip_punct_hex2 hex_u16_hex2)
  have "find_sub '','' (hex2 (unat v)) = None"
    by (rule find_sub_absent [of "CHR '',''"]) (simp, rule hex2_not, simp)
  then show "fst (reg_bit (line_toks line)) = hex2 (unat v)"
    by (simp add: t reg_bit_def tok1_def strip_punct_hex2)
qed

lemma is_status_hex2: "is_status (hex2 (unat (v :: u16))) \<longleftrightarrow> v = 3"
proof -
  have "hex2 (unat v) \<noteq> ''STATUS''" 
  proof -
    obtain r where "hex2 (unat v) = CHR ''0'' # r" using hex2_ne(3) by blast
    then show ?thesis by simp
  qed
  then show ?thesis by (simp add: is_status_def hex_u16_hex2 STATUS_ADDR_def)
qed

lemma replaced_form:
  assumes "access_form m v rest line"
  shows "access_form m w rest (replacen1 (hex_u16_str v) (hex_u16_str w) line)"
proof -
  let ?p = "''    '' @ m @ '' ''"
  have l: "line = ?p @ hex_u16_str v @ rest" "CHR ''0'' \<notin> set m" using assms by (auto simp: access_form_def)
  have "CHR ''0'' \<notin> set ?p" using l(2) by simp
  then have "find_sub (hex_u16_str v) line = Some (length ?p)"
    unfolding l(1) by (intro find_sub_skip) (simp_all add: hex_u16_str_hex2)
  then have "replacen1 (hex_u16_str v) (hex_u16_str w) line = ?p @ hex_u16_str w @ rest"
    by (simp add: replacen1_def l(1))
  then show ?thesis using assms by (simp add: access_form_def)
qed

section \<open>The selects\<close>

lemma u8_below_4:
  assumes "(b :: u8) < 4"
  shows "b \<in> {0, 1, 2, 3}"
proof -
  have "unat b < 4" using assms by (simp add: word_less_nat_alt)
  then have "unat b \<in> {0, 1, 2, 3}" by auto
  then have "(of_nat (unat b) :: u8) \<in> {0, 1, 2, 3}" by (elim insertE emptyE) simp_all
  then show ?thesis by simp
qed

definition select_bit :: "u8 \<Rightarrow> u8 \<Rightarrow> bool \<Rightarrow> u8 \<Rightarrow> u8 \<Rightarrow> u8" where
  "select_bit cur bank full m b =
     (if full \<or> (cur AND m \<noteq> 0) \<noteq> (bank AND m \<noteq> 0)
      then (if bank AND m \<noteq> 0 then b OR m else b AND NOT m) else b)"

lemma select_bits:
  assumes "b < 4" and "bank < 4" and "\<not> full \<Longrightarrow> b = cur"
  shows "select_bit cur bank full 2 (select_bit cur bank full 1 b) = bank"
proof -
  have e: "b \<in> {0, 1, 2, 3}" "bank \<in> {0, 1, 2, 3}" using u8_below_4 assms(1,2) by blast+
  show ?thesis
  proof (cases full)
    case True
    then show ?thesis using e by (elim insertE emptyE; simp add: select_bit_def)
  next
    case False
    then have "cur = b" using assms(3) by simp
    then show ?thesis using e False by (elim insertE emptyE; simp add: select_bit_def)
  qed
qed

text \<open>The four select lines of the classic core, and MOVLB.\<close>

lemma select_toks:
  "line_toks ''    BSF STATUS, 5'' = [''BSF'', ''STATUS,'', ''5'']" "line_toks ''    BCF STATUS, 5'' = [''BCF'', ''STATUS,'', ''5'']"
  "line_toks ''    BSF STATUS, 6'' = [''BSF'', ''STATUS,'', ''6'']" "line_toks ''    BCF STATUS, 6'' = [''BCF'', ''STATUS,'', ''6'']"
  by (simp_all add: line_toks_def str_eval)

lemma select_reg_bit:
  "reg_bit [m, ''STATUS,'', ''5''] = (''STATUS'', ''5'')" "reg_bit [m, ''STATUS,'', ''6''] = (''STATUS'', ''6'')"
  by (simp_all add: reg_bit_def tok1_def strip_punct_def trim_end_by_def)

definition select_line :: "bool \<Rightarrow> string \<Rightarrow> string" where
  "select_line on b = ''    '' @ (if on then ''BSF'' else ''BCF'') @ '' STATUS, '' @ b"

lemma select_line_facts:
  assumes "dev_core dev \<noteq> Pic14e" and "(b, m) \<in> {(''5'', 1 :: u8), (''6'', 2)}"
  shows "bank_after dev (select_line on b) x = {if on then x OR m else x AND NOT m}"
    and "\<not> is_skip (select_line on b)" and "line_effect dev (select_line on b) \<noteq> None"
  using assms
  by (cases on; auto simp: select_line_def bank_after_def line_effect_def bank_op_effect_def mne_of_def select_toks
      select_reg_bit stores_status_def rp_bit_def is_status_def is_skip_def SKIP_OPS_def)+

lemma movlb_facts:
  fixes bank :: u8
  assumes "dev_core dev = Pic14e" and "bank < 32"
  shows "bank_after dev (''    MOVLB 0x'' @ fmt_hex 2 (unat bank)) x = {bank}"
    and "\<not> is_skip (''    MOVLB 0x'' @ fmt_hex 2 (unat bank))"
    and "line_effect dev (''    MOVLB 0x'' @ fmt_hex 2 (unat bank)) \<noteq> None"
proof -
  let ?l = "''    MOVLB 0x'' @ fmt_hex 2 (unat bank)"
  have nb: "no_blank ''MOVLB''" by (simp add: no_blank_def is_ws_def)
  have "?l = ''    '' @ ''MOVLB'' @ '' '' @ hex2 (unat bank)" by (simp add: hex2_def)
  then have t: "line_toks ?l = [''MOVLB'', hex2 (unat bank)]"
    using trim_start_indent [OF nb, of "'' '' @ hex2 (unat bank)"] split_two [OF nb no_blank_hex2(1)]
    unfolding line_toks_def by (simp only: )
  have n: "unat bank < 32" using assms(2) by (simp add: word_less_nat_alt)
  have s: "strip_prefix ''0x'' (hex2 (unat bank)) = Some (fmt_hex 2 (unat bank))" by (simp add: hex2_def)
  have p: "parse_below (2 ^ 32) 16 (fmt_hex 2 (unat bank)) = Some (unat bank)"
    using n by (simp add: parse_below_def parse_fmt_hex)
  have m: "mne_of ?l = ''MOVLB''" unfolding mne_of_def t by simp
  have e: "line_effect dev ?l = Some (Some bank)"
    unfolding line_effect_def t m using assms(1) n p s
    by (simp add: bank_op_effect_def tok1_def strip_punct_hex2 case_prod_unfold)
  show "bank_after dev ?l x = {bank}" unfolding bank_after_def e using assms(1) by simp
  show "\<not> is_skip ?l" unfolding is_skip_def m by (simp add: SKIP_OPS_def)
  show "line_effect dev ?l \<noteq> None" unfolding e by simp
qed

lemma run_one:
  assumes "bank_run dev ((l, t) # ls) b tr c" and "\<not> is_skip l" and "bank_after dev l b = {b'}"
  obtains tr' where "tr = (l, t, b) # tr'" and "bank_run dev ls b' tr' c"
  using assms by (auto elim: run_lineE)

lemma run_select_bit:
  assumes "bank_run dev (map (\<lambda>l. (l, t)) (banksel_bit cur bank full (n, m)) @ ls) b tr c"
    and "dev_core dev \<noteq> Pic14e" and "(n, m) \<in> {(''5'', 1 :: u8), (''6'', 2)}"
  obtains pre tr' where "tr = pre @ tr'" and "\<forall>(l, t, x) \<in> set pre. line_effect dev l \<noteq> None"
    and "bank_run dev ls (select_bit cur bank full m b) tr' c"
proof (cases "full \<or> (cur AND m \<noteq> 0) \<noteq> (bank AND m \<noteq> 0)")
  case True
  let ?l = "select_line (bank AND m \<noteq> 0) n"
  note f = select_line_facts [OF assms(2,3), of "bank AND m \<noteq> 0"]
  have "bank_run dev ((?l, t) # ls) b tr c" using assms(1) True by (simp add: banksel_bit_def select_line_def)
  then obtain tr' where r: "tr = (?l, t, b) # tr'"
    "bank_run dev ls (if bank AND m \<noteq> 0 then b OR m else b AND NOT m) tr' c"
    by (rule run_one [OF _ f(2) f(1)])
  show thesis by (rule that [of "[(?l, t, b)]" tr']) (use r f(3) True in \<open>simp_all add: select_bit_def\<close>)
next
  case False
  then show thesis using assms(1) that [of "[]" tr] by (simp add: banksel_bit_def select_bit_def)
qed

definition selects :: "device \<Rightarrow> scan_state \<Rightarrow> u8 \<Rightarrow> string list" where
  "selects dev st bank = (if dev_core dev = Pic14e then emit_movlb bank
     else emit_banksel (sc_cur st) bank (\<not> sc_known st))"

text \<open>Whatever bank is selected before, the selects leave the wanted one.\<close>

lemma run_selects:
  assumes "bank_run dev (map (\<lambda>l. (l, t)) (selects dev st bank) @ ls) b tr c"
    and "sc_known st \<Longrightarrow> b = sc_cur st" and "b < nbanks dev" and "bank < nbanks dev"
  obtains pre tr' where "tr = pre @ tr'" and "\<forall>(l, t, x) \<in> set pre. line_effect dev l \<noteq> None"
    and "bank_run dev ls bank tr' c"
proof (cases "dev_core dev = Pic14e")
  case True
  let ?l = "''    MOVLB 0x'' @ fmt_hex 2 (unat bank)"
  have lt: "bank < 32" using assms(4) True by (simp add: nbanks_def)
  note f = movlb_facts [OF True lt]
  have "bank_run dev ((?l, t) # ls) b tr c" using assms(1) True by (simp add: selects_def emit_movlb_def)
  then obtain tr' where r: "tr = (?l, t, b) # tr'" "bank_run dev ls bank tr' c"
    by (rule run_one [OF _ f(2) f(1)])
  show thesis by (rule that [of "[(?l, t, b)]" tr']) (use r f(3) in simp_all)
next
  case False
  let ?cur = "sc_cur st" and ?full = "\<not> sc_known st"
  let ?b1 = "select_bit ?cur bank ?full 1 b"
  let ?b2 = "select_bit ?cur bank ?full 2 ?b1"
  have "bank_run dev (map (\<lambda>l. (l, t)) (banksel_bit ?cur bank ?full (''5'', 1)) @
      (map (\<lambda>l. (l, t)) (banksel_bit ?cur bank ?full (''6'', 2)) @ ls)) b tr c"
    using assms(1) False by (simp add: selects_def emit_banksel_def)
  then obtain p1 t1 where 1: "tr = p1 @ t1" "\<forall>(l, t, x) \<in> set p1. line_effect dev l \<noteq> None"
      "bank_run dev (map (\<lambda>l. (l, t)) (banksel_bit ?cur bank ?full (''6'', 2)) @ ls) ?b1 t1 c"
    by (rule run_select_bit [OF _ False]) simp
  obtain p2 t2 where 2: "t1 = p2 @ t2" "\<forall>(l, t, x) \<in> set p2. line_effect dev l \<noteq> None"
      "bank_run dev ls ?b2 t2 c"
    by (rule run_select_bit [OF 1(3) False]) simp
  have "?b2 = bank"
    by (rule select_bits) (use assms False in \<open>simp_all add: nbanks_def\<close>)
  then have r: "bank_run dev ls bank t2 c" using 2(3) by (simp only:)
  have "\<forall>(l, t, x) \<in> set (p1 @ p2). line_effect dev l \<noteq> None" using 1(2) 2(2) by (simp only: set_append ball_Un)
  then show thesis by (rule that [OF _ _ r, of "p1 @ p2", rotated]) (simp only: 1(1) 2(1) append_assoc)
qed

section \<open>One line of the scan\<close>

lemma scan_plain:
  assumes "segment_line dev line" and "\<not> sc_in_asm st" and "bf_dev bf = dev"
  shows "scan_line bf line st =
    (case line_effect dev line of Some _ \<Rightarrow> Some (st\<lparr>sc_known := False\<rparr>, [], line)
     | None \<Rightarrow> if mne_of line \<in> set LITERAL_OPS then Some (st, [], line)
              else (case operand_addr (line_toks line) of None \<Rightarrow> Some (st, [], line)
                    | Some v \<Rightarrow> scan_operand dev line v st))"
proof -
  obtain m ms where t: "line_toks line = m # ms" using assms(1) by (cases "line_toks line") (auto simp: segment_line_def)
  then have m: "mne_of line = m" by (simp add: mne_of_def)
  have "\<not> starts_with asm_start (trim_start line)" "\<not> starts_with asm_end (trim_start line)"
    "\<not> ends_colon m" "m \<noteq> ''CALL''" "\<not> is_dot_directive m" "line_effect dev line = Some None \<or> line_effect dev line = None"
    using assms(1) m by (auto simp: segment_line_def is_marker_def)
  then show ?thesis
    using assms(2,3) by (auto simp: scan_line_def Let_def t m line_effect_def split: option.splits)
qed

text \<open>The three things a segment line can be to the scan.\<close>

lemma scan_cases:
  assumes "segment_line dev line" and "\<not> sc_in_asm st" and "bf_dev bf = dev"
    and "scan_line bf line st = Some (st', pre, line')"
  obtains (quiet) "pre = []" and "line' = line" and "st' = st" and "line_effect dev line = None"
      and "\<And>v. accesses dev line v \<Longrightarrow> bank_of dev v = Some None"
  | (status) "pre = []" and "line' = line" and "\<not> sc_known st'" and "\<not> sc_in_asm st'" and "line_effect dev line = Some None"
  | (banked) v k rest where "access_form (mne_of line) v rest line" and "accesses dev line v" and "bank_of dev v = Some (Some k)"
      and "sc_known st'" and "sc_cur st' = k" and "\<not> sc_in_asm st'" and "k < nbanks dev" and "v AND 0x7F \<noteq> 3"
      and "access_form (mne_of line) (v AND 0x7F) rest line'"
      and "pre = selects dev st k \<or> pre = [] \<and> sc_known st \<and> sc_cur st = k"
proof (cases "line_effect dev line")
  case (Some e)
  then have "e = None" using assms(1) by (auto simp: segment_line_def)
  then show thesis using status Some assms(2,4) scan_plain [OF assms(1-3)] by auto
next
  case None
  show thesis
  proof (cases "mne_of line \<notin> set LITERAL_OPS \<and> operand_addr (line_toks line) \<noteq> None")
    case False
    then show thesis using quiet None assms(4) scan_plain [OF assms(1-3)] by (auto simp: accesses_def split: if_splits)
  next
    case True
    then obtain v where v: "accesses dev line v" "operand_addr (line_toks line) = Some v" "mne_of line \<notin> set LITERAL_OPS"
      using None by (auto simp: accesses_def)
    have sc: "scan_operand dev line v st = Some (st', pre, line')"
      using assms(4) scan_plain [OF assms(1-3)] None v by simp
    obtain rest where f: "access_form (mne_of line) v rest line" using assms(1) v(1) by (auto simp: segment_line_def)
    show thesis
    proof (cases "bank_of dev v")
      case (Some ob)
      show thesis
      proof (cases ob)
        case None
        have "\<And>u. accesses dev line u \<Longrightarrow> u = v" using v(2) by (simp add: accesses_def)
        then show thesis using quiet sc Some None \<open>line_effect dev line = None\<close> by (auto simp: scan_operand_def)
      next
        case k: (Some k)
        have b: "k < nbanks dev" "v AND 0x7F \<noteq> 3" using assms(1) v(1) Some k by (auto simp: segment_line_def)
        have r: "access_form (mne_of line) (v AND 0x7F) rest
            (if v AND 0x7F \<noteq> v then replacen1 (hex_u16_str v) (hex_u16_str (v AND 0x7F)) line else line)"
          using replaced_form [OF f, of "v AND 0x7F"] f by auto
        show thesis
        proof (cases "sc_known st \<and> k = sc_cur st")
          case True
          then have "st' = st" "pre = []"
            "line' = (if v AND 0x7F \<noteq> v then replacen1 (hex_u16_str v) (hex_u16_str (v AND 0x7F)) line else line)"
            using sc Some k by (simp_all add: scan_operand_def Let_def)
          then show thesis using banked [OF f v(1) _ _ _ _ b] Some k True assms(2) r by simp
        next
          case False
          then have "st' = st\<lparr>sc_known := True, sc_cur := k\<rparr>" "pre = selects dev st k"
            "line' = (if v AND 0x7F \<noteq> v then replacen1 (hex_u16_str v) (hex_u16_str (v AND 0x7F)) line else line)"
            using sc Some k by (auto simp: scan_operand_def Let_def selects_def)
          then show thesis using banked [OF f v(1) _ _ _ _ b] Some k assms(2) r by simp
        qed
      qed
    qed (use sc in \<open>simp add: scan_operand_def\<close>)
  qed
qed

lemma effect_none_keeps:
  assumes "line_effect dev l = None" and "\<not> stores_status l"
  shows "bank_after dev l b = {b}"
proof (cases "dev_core dev = Pic14e")
  case True
  then show ?thesis using assms by (simp add: bank_after_def)
next
  case False
  then show ?thesis using assms
    by (auto simp: bank_after_def rp_bit_def line_effect_def bank_op_effect_def case_prod_unfold Let_def split: if_splits)
qed

lemma banked_line:
  assumes "access_form m w rest l'" and "w \<noteq> 3" and "accesses dev l v" and "mne_of l = m"
  shows "line_effect dev l' = None" "\<not> stores_status l'" "accesses dev l' w" "mne_of l' = m"
proof -
  note f = form_facts [OF assms(1)]
  show m: "mne_of l' = m" by (rule f(1))
  have ns: "\<not> is_status (fst (reg_bit (line_toks l')))" by (simp add: f(3) is_status_hex2 assms(2))
  show "\<not> stores_status l'" using ns by (simp add: stores_status_def case_prod_unfold)
  have "dev_core dev = Pic14e \<Longrightarrow> m \<noteq> ''MOVLB''"
    using assms(3,4) by (auto simp: accesses_def line_effect_def bank_op_effect_def Let_def case_prod_unfold)
  then show e: "line_effect dev l' = None"
    using ns by (auto simp: line_effect_def bank_op_effect_def m Let_def case_prod_unfold)
  show "accesses dev l' w" using assms(3,4) e m f(2) by (simp add: accesses_def)
qed

lemma status_below:
  assumes "segment_line dev l" and "line_effect dev l = Some None" and "x \<in> bank_after dev l b" and "b < nbanks dev"
  shows "x < nbanks dev"
proof -
  have c: "dev_core dev \<noteq> Pic14e" "mne_of l = ''MOVWF''" "is_status (fst (reg_bit (line_toks l)))"
    using assms(2) by (auto simp: line_effect_def bank_op_effect_def Let_def case_prod_unfold split: if_splits)
  then have "x \<in> {0, 1, 2, 3}" using assms(3) by (auto simp: bank_after_def stores_status_def case_prod_unfold)
  then show ?thesis using c by (auto simp: nbanks_def)
qed

text \<open>The line after a skip brings no select and changes nothing the scan tracks.\<close>

fun steady :: "bank_facts \<Rightarrow> string list \<Rightarrow> scan_state \<Rightarrow> bool" where
  "steady bf [] st \<longleftrightarrow> True"
| "steady bf (l # ls) st \<longleftrightarrow>
     (case scan_line bf l st of None \<Rightarrow> False
      | Some (st1, _, _) \<Rightarrow>
          (is_skip l \<longrightarrow> (case ls of [] \<Rightarrow> True
             | x # _ \<Rightarrow> (case scan_line bf x st1 of Some (st2, pre, _) \<Rightarrow> pre = [] \<and> st2 = st1 | None \<Rightarrow> False))) \<and>
          steady bf ls st1)"

text \<open>What is to hold of an executed line: its register is the one the source line names.\<close>

definition reaches_named :: "device \<Rightarrow> string \<times> string \<times> u8 \<Rightarrow> bool" where
  "reaches_named dev e = (case e of (l, src, x) \<Rightarrow>
     \<forall>w. accesses dev l w \<longrightarrow> (\<exists>v. accesses dev src v \<and>
       (case bank_of dev v of None \<Rightarrow> False | Some None \<Rightarrow> w = v | Some (Some k) \<Rightarrow> x = k \<and> w = v AND 0x7F)))"

lemma named_select: "line_effect dev l \<noteq> None \<Longrightarrow> reaches_named dev (l, src, x)"
  unfolding reaches_named_def accesses_def by auto

lemma scan_lines_Cons:
  assumes "scan_lines bf (map (\<lambda>l. (l, l)) (l # ls)) st = Some (st', out)"
  obtains st1 pre l' out1 where "scan_line bf l st = Some (st1, pre, l')"
    and "scan_lines bf (map (\<lambda>l. (l, l)) ls) st1 = Some (st', out1)"
    and "out = map (\<lambda>x. (x, l)) pre @ (l', l) # out1"
  using assms by (auto split: Option.bind_splits prod.splits)

text \<open>One source line: its selects run, then the line itself, which stands in the right bank.\<close>

lemma run_source_line:
  assumes seg: "segment_line dev l" and "\<not> sc_in_asm st" and dev: "bf_dev bf = dev"
    and sc: "scan_line bf l st = Some (st1, pre, l')"
    and run: "bank_run dev (map (\<lambda>x. (x, l)) pre @ (l', l) # out1) b tr c"
    and b: "sc_known st \<Longrightarrow> b = sc_cur st" "b < nbanks dev"
  obtains p tr1 x where "tr = p @ tr1" and "\<forall>e \<in> set p. reaches_named dev e"
    and "bank_run dev ((l', l) # out1) x tr1 c" and "reaches_named dev (l', l, x)" and "mne_of l' = mne_of l"
    and "\<not> sc_in_asm st1"
    and "\<And>y. y \<in> bank_after dev l' x \<Longrightarrow> y < nbanks dev \<and> (sc_known st1 \<longrightarrow> y = sc_cur st1)"
  using seg assms(2) dev sc
proof (cases rule: scan_cases)
  case quiet
  have k: "bank_after dev l b = {b}" using seg quiet(4) by (intro effect_none_keeps) (auto simp: segment_line_def)
  have "reaches_named dev (l, l, b)" using quiet(5) by (auto simp: reaches_named_def)
  then show thesis using that [of "[]" tr b] run quiet k b assms(2) by auto
next
  case status
  have "reaches_named dev (l, l, b)" using status(5) by (intro named_select) simp
  then show thesis using that [of "[]" tr b] run status status_below [OF seg status(5) _ b(2)] by auto
next
  case (banked v k rest)
  note B = banked_line [OF banked(9,8,2) refl]
  have keep: "bank_after dev l' x = {x}" for x using B(1,2) by (rule effect_none_keeps)
  have named: "reaches_named dev (l', l, k)" using banked(2,3) B(3) by (auto simp: reaches_named_def accesses_def)
  obtain p tr1 where r: "tr = p @ tr1" "\<forall>(l, t, x) \<in> set p. line_effect dev l \<noteq> None"
      "bank_run dev ((l', l) # out1) k tr1 c"
  proof (cases "pre = selects dev st k")
    case True
    then have "bank_run dev (map (\<lambda>x. (x, l)) (selects dev st k) @ (l', l) # out1) b tr c" using run by simp
    from run_selects [OF this b banked(7)] show thesis using that by blast
  next
    case False
    then have "pre = []" "b = k" using banked(10) b by auto
    then show thesis using that [of "[]" tr] run by simp
  qed
  have "\<forall>e \<in> set p. reaches_named dev e" using r(2) named_select by fastforce
  then show thesis using that [of p tr1 k] r named banked B(4) keep by auto
qed

text \<open>C33: between labels and calls, bank selection is right. Take a segment of instruction lines (no label,
  call, directive, marker or hand-written select, operands spelled as the selectors spell them, no line
  after a skip that needs a select), any state of the scan and any facts about the rest of the program,
  and let the scan return the segment with its selects. Execute the result from any bank, that being the
  tracked one if the scan believes it knows it, with each skip taken or not and STATUS stores leaving any
  bank. Then every executed access runs with the bank of the register its source line names selected,
  and names that register's low seven bits; and if the scan still claims to know the bank at the end, it
  is right.\<close>

theorem bank_scan_sound:
  assumes "\<forall>l \<in> set lines. segment_line dev l" and "\<not> sc_in_asm st" and "bf_dev bf = dev" and "steady bf lines st"
    and "scan_lines bf (map (\<lambda>l. (l, l)) lines) st = Some (st', out)"
    and "bank_run dev out b tr c" and "b < nbanks dev" and "sc_known st \<Longrightarrow> b = sc_cur st"
  shows "(\<forall>e \<in> set tr. reaches_named dev e) \<and> c < nbanks dev \<and> (sc_known st' \<longrightarrow> c = sc_cur st')"
  using assms
proof (induction lines arbitrary: st out b tr rule: length_induct)
  case (1 lines)
  show ?case
  proof (cases lines)
    case Nil
    then show ?thesis using "1.prems" by (auto elim: run_endE)
  next
    case (Cons l ls)
    obtain st1 pre l' out1 where s: "scan_line bf l st = Some (st1, pre, l')"
        "scan_lines bf (map (\<lambda>l. (l, l)) ls) st1 = Some (st', out1)"
        "out = map (\<lambda>x. (x, l)) pre @ (l', l) # out1"
      using "1.prems"(5) unfolding Cons by (rule scan_lines_Cons)
    have seg: "segment_line dev l" "\<forall>l \<in> set ls. segment_line dev l" using "1.prems"(1) Cons by auto
    have std: "steady bf ls st1" using "1.prems"(4) s(1) by (simp add: Cons)
    obtain p tr1 x where r: "tr = p @ tr1" "\<forall>e \<in> set p. reaches_named dev e"
        "bank_run dev ((l', l) # out1) x tr1 c" "reaches_named dev (l', l, x)" "mne_of l' = mne_of l" "\<not> sc_in_asm st1"
        "\<And>y. y \<in> bank_after dev l' x \<Longrightarrow> y < nbanks dev \<and> (sc_known st1 \<longrightarrow> y = sc_cur st1)"
      by (rule run_source_line [OF seg(1) "1.prems"(2,3) s(1) "1.prems"(6) [unfolded s(3)] "1.prems"(8,7)]) blast+
    from r(3) consider (line) y tr2 where "tr1 = (l', l, x) # tr2" "y \<in> bank_after dev l' x" "bank_run dev out1 y tr2 c"
      | (skip) y out2 tr2 e where "tr1 = (l', l, x) # tr2" "is_skip l'" "y \<in> bank_after dev l' x" "out1 = e # out2"
          "bank_run dev out2 y tr2 c"
      by (rule run_lineE) blast+
    then show ?thesis
    proof cases
      case (line y tr2)
      have "(\<forall>e \<in> set tr2. reaches_named dev e) \<and> c < nbanks dev \<and> (sc_known st' \<longrightarrow> c = sc_cur st')"
        using "1.IH" [rule_format, of ls st1 out1 y tr2] seg(2) r(6) "1.prems"(3) std s(2) line r(7) [OF line(2)] Cons by auto
      then show ?thesis using r(1,2,4) line(1) by auto
    next
      case (skip y out2 tr2 e)
      obtain z zs where ls: "ls = z # zs" using s(2) skip(4) by (cases ls) auto
      obtain st2 pre2 z' out3 where t: "scan_line bf z st1 = Some (st2, pre2, z')"
          "scan_lines bf (map (\<lambda>l. (l, l)) zs) st2 = Some (st', out3)"
          "out1 = map (\<lambda>x. (x, z)) pre2 @ (z', z) # out3"
        using s(2) unfolding ls by (rule scan_lines_Cons)
      have "is_skip l" using skip(2) r(5) by (simp add: is_skip_def)
      then have "pre2 = []" "st2 = st1" "steady bf zs st1"
        using "1.prems"(4) s(1) std t(1) by (simp_all add: Cons ls)
      then have "(\<forall>e \<in> set tr2. reaches_named dev e) \<and> c < nbanks dev \<and> (sc_known st' \<longrightarrow> c = sc_cur st')"
        using "1.IH" [rule_format, of zs st1 out3 y tr2] seg(2) r(6) "1.prems"(3) t skip r(7) [OF skip(3)] Cons ls by auto
      then show ?thesis using r(1,2,4) skip(1) by auto
    qed
  qed
qed

lemma bank_scan_sound_witness:
  "\<exists>st' out. scan_lines \<lparr>bf_dev = p16f877a, bf_bank0_only = False, bf_regions = [], bf_label_bank = Map.empty\<rparr>
       [(''    MOVWF 0xA1'', ''    MOVWF 0xA1'')] (scan_init Map.empty) = Some (st', out) \<and>
     out = [(''    BSF STATUS, 5'', ''    MOVWF 0xA1''), (''    MOVWF 0x21'', ''    MOVWF 0xA1'')] \<and>
     (\<exists>tr c. bank_run p16f877a out 0 tr c \<and> c = 1 \<and> (\<forall>e \<in> set tr. reaches_named p16f877a e))"
proof -
  let ?bf = "\<lparr>bf_dev = p16f877a, bf_bank0_only = False, bf_regions = [], bf_label_bank = Map.empty\<rparr>"
  let ?l = "''    MOVWF 0xA1''" and ?st = "scan_init Map.empty"
  let ?st1 = "?st\<lparr>sc_cur := 1\<rparr>" and ?o = "[(''    BSF STATUS, 5'', ?l), (''    MOVWF 0x21'', ?l)]"
  have x: "hex2 0xA1 = ''0xA1''" "hex2 0x21 = ''0x21''"
    by (simp_all add: hex2_def fmt_hex_def hex_digits.simps hex_digit_table)
  have f: "access_form ''MOVWF'' 0xA1 [] ?l" "access_form ''MOVWF'' 0x21 [] ''    MOVWF 0x21''"
    by (simp_all add: access_form_def hex_u16_str_hex2 x no_blank_def is_ws_def)
  note F = form_facts [OF f(1)] form_facts [OF f(2)]
  have t: "line_toks ?l = [''MOVWF'', ''0xA1'']" "line_toks ''    MOVWF 0x21'' = [''MOVWF'', ''0x21'']"
    using toks_form [OF f(1)] toks_form [OF f(2)] by (simp_all add: x)
  have b: "bank_of p16f877a 0xA1 = Some (Some 1)"
    by (simp add: bank_of_def p16f877a_def in_window_def word_le_nat_alt)
  have core: "dev_core p16f877a = Pic14" by (simp add: p16f877a_def)
  have e: "line_effect p16f877a ?l = None" "\<not> stores_status ?l" "line_effect p16f877a ''    MOVWF 0x21'' = None"
    "\<not> stores_status ''    MOVWF 0x21''"
    using F by (simp_all add: line_effect_def bank_op_effect_def stores_status_def case_prod_unfold is_status_hex2
        [of "0xA1", simplified] is_status_hex2 [of "0x21", simplified] p16f877a_def)
  have seg: "segment_line p16f877a ?l"
    using f(1) b F e
    by (auto simp: segment_line_def is_marker_def asm_start_def asm_end_def starts_with_def t ends_colon_def
        is_dot_directive_def accesses_def nbanks_def p16f877a_def trim_start_def is_ws_def strip_suffix_def)
  have r: "replacen1 (hex_u16_str 0xA1) (hex_u16_str 0x21) ?l = ''    MOVWF 0x21''"
    by (simp add: replacen1_def hex_u16_str_hex2 x starts_with_def)
  have op: "scan_operand p16f877a ?l 0xA1 ?st = Some (?st1, [''    BSF STATUS, 5''], ''    MOVWF 0x21'')"
    using r by (simp add: scan_operand_def b scan_init_def emit_banksel_def banksel_bit_def core Let_def)
  have sc: "scan_line ?bf ?l ?st = Some (?st1, [''    BSF STATUS, 5''], ''    MOVWF 0x21'')"
    using scan_plain [OF seg, of ?st ?bf] e F op by (simp add: scan_init_def LITERAL_OPS_def)
  then have out: "scan_lines ?bf (map (\<lambda>l. (l, l)) [?l]) ?st = Some (?st1, ?o)" by simp
  have sel: "''    BSF STATUS, 5'' = select_line True ''5''" by (simp add: select_line_def)
  have "bank_after p16f877a (select_line True ''5'') 0 = {1}"
    using select_line_facts(1) [of p16f877a "''5''" 1 True 0] by (simp add: core)
  then have run: "bank_run p16f877a ?o 0 [(''    BSF STATUS, 5'', ?l, 0), (''    MOVWF 0x21'', ?l, 1)] 1"
    unfolding sel using effect_none_keeps [OF e(3,4), of 1]
    by (intro run_line [where b' = 1] run_end) auto
  have "\<forall>e \<in> set [(''    BSF STATUS, 5'', ?l, 0 :: u8), (''    MOVWF 0x21'', ?l, 1)]. reaches_named p16f877a e"
    using bank_scan_sound [OF _ _ _ _ out run] seg sc by (simp add: scan_init_def nbanks_def core)
  then show ?thesis using out run by auto
qed

section \<open>The selects on the core\<close>

text \<open>The banks of the device table lie in the pages the core's bank bits select.\<close>

definition paged :: "device \<Rightarrow> bool" where
  "paged dev \<longleftrightarrow> (\<forall>i < length (ram_banks dev). i * 0x80 \<le> unat (fst (ram_banks dev ! i)) \<and>
     fst (ram_banks dev ! i) \<le> snd (ram_banks dev ! i) \<and>
     unat (snd (ram_banks dev ! i)) < (i + 1) * 0x80)"

lemma bank_of_page:
  assumes "paged dev" and "bank_of dev v = Some (Some k)" and "unat v < 0x200" and "dev_core dev = Pic14"
  shows "unat k = unat v div 0x80"
proof (cases "bank_index 0 (ram_banks dev) v")
  case (Some i)
  note b = bank_index_Some [OF Some]
  have "i * 0x80 \<le> unat v" "unat v < (i + 1) * 0x80"
    using assms(1) b by (auto simp: paged_def word_le_nat_alt dest!: spec [of _ i])
  then have i: "i = unat v div 0x80" by (simp add: div_nat_eqI)
  then have "i < 4" using assms(3) by simp
  moreover have "k = of_nat i" using assms(2) Some by (auto simp: bank_of_def split: if_splits)
  ultimately show ?thesis using i by (simp add: unat_of_nat)
next
  case None
  then obtain g where g: "gpr_start dev = Some g"
    using assms(2) by (auto simp: bank_of_def split: if_splits Option.bind_splits)
  show ?thesis
  proof (cases "v < g")
    case True
    have "k = 0" using assms(2) None g True by (auto simp: bank_of_def Let_def split: if_splits)
    moreover have "unat v < 0x80"
    proof -
      obtain e bs where "ram_banks dev = (g, e) # bs" using g by (auto simp: gpr_start_def split: list.splits)
      then have "g \<le> e" "unat e < 0x80" using assms(1) by (auto simp: paged_def dest!: spec [of _ 0])
      then show ?thesis using True by (simp add: word_le_nat_alt word_less_nat_alt)
    qed
    ultimately show ?thesis by simp
  next
    case False
    then have "k = ucast (drop_bit 7 v)"
      using assms(2,4) None g by (auto simp: bank_of_def split: if_splits)
    then show ?thesis using assms(3) by (simp add: unsigned_ucast_eq field_nat take_bit_eq_mod)
  qed
qed

lemma and_low7: "unat (v AND 0x7F :: u16) = unat v mod 0x80"
  by (simp add: field_nat)

text \<open>The words of the four selects, and what they do to the bank bits.\<close>

definition select_word :: "bool \<Rightarrow> string \<Rightarrow> u16" where
  "select_word on b = (if on then 0x1400 else 0x1000) OR (if b = ''5'' then 0x283 else 0x303)"

lemma encode_select:
  assumes "tab ''STATUS'' = Some 3" and "b \<in> {''5'', ''6''}"
  shows "encode14 tab (select_line on b) = Some (select_word on b)"
proof -
  have f: "file_field 0x7F tab ''STATUS'' = Some 3"
    using assms(1) by (simp add: file_field_def trim_end_char_def trim_end_by_def)
  have t: "split_ws (select_line on b) = [if on then ''BSF'' else ''BCF'', ''STATUS,'', b]"
    using assms(2) by (cases on) (auto simp: select_line_def str_eval)
  have o: "bit_operands [m, ''STATUS,'', b] = Some (''STATUS'', '' '' @ b)" for m
    using assms(2) by (auto simp: bit_operands_def split_once_def splitn2_def)
  have n: "parse_num (trim ('' '' @ ''5'')) = Some 5" "parse_num (trim ('' '' @ ''6'')) = Some 6" "trim ''STATUS'' = ''STATUS''"
    by (simp_all add: parse_num_def str_eval)
  show ?thesis using assms(2) n
    unfolding encode14_def t
    by (cases on) (auto simp: to_upper_def upper_char_def enc14_tables o f select_word_def)
qed

lemma exec_select:
  assumes "b \<in> {''5'', ''6''}"
  shows "p14_dispatch s pc (select_word on b) = Some (p14_poke s 3 (if on then p14_ram s 3 OR (if b = ''5'' then 0x20 else 0x40)
      else p14_ram s 3 AND NOT (if b = ''5'' then 0x20 else 0x40)), pc + 1)"
proof -
  have r: "p14_read_f s 3 = p14_ram s 3" by (simp add: p14_read_f_def p14_banked_addr_def)
  have m: "(v AND 0x18) OR ((v AND NOT 0x20) AND 0xE7) = v AND NOT 0x20"
    "(v AND 0x18) OR ((v AND NOT 0x40) AND 0xE7) = v AND NOT 0x40"
    "(v AND 0x18) OR ((v OR 0x20) AND 0xE7) = v OR 0x20"
    "(v AND 0x18) OR ((v OR 0x40) AND 0xE7) = v OR 0x40" for v :: u8
    by (rule byte_eqI; simp add: bit_or_iff bit_and_iff bit_not_iff)+
  show ?thesis using assms m [of "p14_ram s 3"]
    by (cases on) (auto simp: select_word_def p14_dispatch_def p14_exec_bit_def r p14_write_f_def)
qed

text \<open>Words executed one after the other.\<close>

fun exec_words :: "u16 list \<Rightarrow> pic14 \<Rightarrow> pic14 option" where
  "exec_words [] s = Some s"
| "exec_words (w # ws) s =
     do { (t, n) \<leftarrow> p14_dispatch s (p14_pc s) w; exec_words ws (t\<lparr>p14_pc := n\<rparr>) }"

lemma exec_words_append: "exec_words (xs @ ys) s = exec_words xs s \<bind> exec_words ys"
  by (induction xs arbitrary: s) (auto split: Option.bind_split)

definition only_status :: "pic14 \<Rightarrow> pic14 \<Rightarrow> bool" where
  "only_status s t \<longleftrightarrow> p14_device t = p14_device s \<and> (\<forall>x. x \<noteq> 3 \<longrightarrow> p14_ram t x = p14_ram s x)"

lemma bank_bits:
  "drop_bit 5 (r OR 0x20) AND 3 = (drop_bit 5 r AND 3) OR (1 :: u8)" "drop_bit 5 (r OR 0x40) AND 3 = (drop_bit 5 r AND 3) OR (2 :: u8)"
  "drop_bit 5 (r AND NOT 0x20) AND 3 = (drop_bit 5 r AND 3) AND NOT (1 :: u8)"
  "drop_bit 5 (r AND NOT 0x40) AND 3 = (drop_bit 5 r AND 3) AND NOT (2 :: u8)"
  by (rule byte_eqI; simp add: bit_or_iff bit_and_iff bit_not_iff bit_drop_bit_eq)+

lemma exec_select_bit:
  assumes "tab ''STATUS'' = Some 3" and "(n, m) \<in> {(''5'', 1 :: u8), (''6'', 2)}"
  shows "\<exists>ws t. map (encode14 tab) (banksel_bit cur bank full (n, m)) = map Some ws \<and> exec_words ws s = Some t \<and>
    p14_bank t = select_bit cur bank full m (p14_bank s) \<and> only_status s t"
proof (cases "full \<or> (cur AND m \<noteq> 0) \<noteq> (bank AND m \<noteq> 0)")
  case True
  let ?on = "bank AND m \<noteq> 0"
  have n: "n \<in> {''5'', ''6''}" using assms(2) by auto
  have e: "encode14 tab (select_line ?on n) = Some (select_word ?on n)" by (rule encode_select [where tab = tab, OF assms(1) n])
  have l: "banksel_bit cur bank full (n, m) = [select_line ?on n]" using True by (simp add: banksel_bit_def select_line_def)
  let ?t = "(p14_poke s 3 (if ?on then p14_ram s 3 OR (if n = ''5'' then 0x20 else 0x40)
      else p14_ram s 3 AND NOT (if n = ''5'' then 0x20 else 0x40)))\<lparr>p14_pc := p14_pc s + 1\<rparr>"
  have x: "exec_words [select_word ?on n] s = Some ?t" by (simp add: exec_select [OF n])
  have "p14_bank ?t = select_bit cur bank full m (p14_bank s)"
    using assms(2) True bank_bits [of "p14_ram s 3"] by (auto simp: p14_bank_def select_bit_def)
  moreover have "only_status s ?t" by (simp add: only_status_def)
  ultimately show ?thesis using x e unfolding l by (intro exI [of _ "[select_word ?on n]"] exI [of _ ?t]) simp
next
  case False
  then show ?thesis by (auto simp: banksel_bit_def select_bit_def only_status_def intro!: exI [of _ "[]"])
qed

text \<open>C34: a select reaches the register the device table means. On a classic part whose RAM banks lie in
  the core's pages, let \<open>bank_of\<close> give the bank of an address \<open>v\<close> that is not one of the mirrored
  registers and whose low seven bits are not common RAM. The lines \<open>emit_banksel\<close> writes (all of them, or
  those that differ from the bank the core is in) assemble, and the core that executes them has that
  bank selected, forms exactly the address \<open>v\<close> from the low seven bits an instruction carries, and has
  changed no register but STATUS.\<close>

theorem select_reaches_register:
  assumes "dev_core dev = Pic14" and "paged dev" and "bank_of dev v = Some (Some k)" and "unat v < 0x200"
    and "unat (v AND 0x7F) \<notin> {0, 2, 3, 4, 0x0A, 0x0B}" and "\<not> in_window_nat (common_ram dev) (unat (v AND 0x7F))"
    and "\<not> in_window_nat (fixed_retval dev) (unat (v AND 0x7F))"
    and "tab ''STATUS'' = Some 3" and "p14_device s = dev" and "\<not> full \<Longrightarrow> p14_bank s = cur"
  shows "\<exists>ws t. map (encode14 tab) (emit_banksel cur k full) = map Some ws \<and> exec_words ws s = Some t \<and>
    p14_bank t = k \<and> p14_banked_addr t (unat (v AND 0x7F)) = Some (unat v) \<and>
    (\<forall>x. x \<noteq> 3 \<longrightarrow> p14_ram t x = p14_ram s x)"
proof -
  obtain w1 t1 where 1: "map (encode14 tab) (banksel_bit cur k full (''5'', 1)) = map Some w1" "exec_words w1 s = Some t1"
      "p14_bank t1 = select_bit cur k full 1 (p14_bank s)" "only_status s t1"
    using exec_select_bit [where tab = tab, OF assms(8), of "''5''" 1] by blast
  obtain w2 t2 where 2: "map (encode14 tab) (banksel_bit cur k full (''6'', 2)) = map Some w2" "exec_words w2 t1 = Some t2"
      "p14_bank t2 = select_bit cur k full 2 (p14_bank t1)" "only_status t1 t2"
    using exec_select_bit [where tab = tab, OF assms(8), of "''6''" 2] by blast
  have page: "unat k = unat v div 0x80" by (rule bank_of_page [OF assms(2,3,4,1)])
  have "unat (p14_bank s) < 4" by (simp add: p14_bank_def field_nat)
  then have b: "p14_bank t2 = k"
    using select_bits [of "p14_bank s" k full cur] assms(4,10) page by (simp add: 1(3) 2(3) word_less_nat_alt)
  have o: "only_status s t2" using 1(4) 2(4) by (simp add: only_status_def)
  have "p14_bank_base t2 = unat v div 0x80 * 0x80"
    using b page by (simp add: p14_bank_base_def p14_bank_def [symmetric])
  moreover have "unat (v AND 0x7F) + unat v div 0x80 * 0x80 = unat v" by (simp add: and_low7)
  ultimately have "p14_banked_addr t2 (unat (v AND 0x7F)) = Some (unat v)"
    using assms(5-7,9) o by (simp add: p14_banked_addr_def only_status_def)
  moreover have "map (encode14 tab) (emit_banksel cur k full) = map Some (w1 @ w2)"
    using 1(1) 2(1) by (simp add: emit_banksel_def)
  moreover have "exec_words (w1 @ w2) s = Some t2" using 1(2) 2(2) by (simp add: exec_words_append)
  ultimately show ?thesis using b o unfolding only_status_def by blast
qed

lemma select_reaches_register_witness:
  "\<forall>prog. \<exists>t. exec_words [0x1683, 0x1703] (p14_with_device p16f877a prog) = Some t \<and> p14_banked_addr t 0x20 = Some 0x1A0"
proof
  fix prog
  have b: "bank_of p16f877a 0x1A0 = Some (Some 3)"
    by (simp add: bank_of_def p16f877a_def in_window_def word_le_nat_alt)
  have p: "paged p16f877a" by (auto simp: paged_def p16f877a_def word_le_nat_alt less_Suc_eq)
  have c: "dev_core p16f877a = Pic14" "common_ram p16f877a = Some (0x70, 0x7F)" "fixed_retval p16f877a = None"
    by (simp_all add: p16f877a_def)
  have e: "emit_banksel 0 3 True = [select_line True ''5'', select_line True ''6'']"
    by (simp add: emit_banksel_def banksel_bit_def select_line_def)
  have m: "map (encode14 [''STATUS'' \<mapsto> 3]) (emit_banksel 0 3 True) = map Some [0x1683, 0x1703]"
    unfolding e by (simp add: encode_select) (simp add: select_word_def)
  obtain ws t where "map (encode14 [''STATUS'' \<mapsto> 3]) (emit_banksel 0 3 True) = map Some ws"
      "exec_words ws (p14_with_device p16f877a prog) = Some t" "p14_banked_addr t (unat (0x1A0 AND 0x7F :: u16)) = Some (unat (0x1A0 :: u16))"
    using select_reaches_register [OF c(1) p b, where tab = "[''STATUS'' \<mapsto> 3]" and full = True and cur = 0 and
        s = "p14_with_device p16f877a prog"] by (auto simp: c in_window_nat_def p14_with_device_def)
  moreover have "ws = [0x1683, 0x1703]" using calculation(1) m by (metis list.inj_map_strong option.inject)
  ultimately show "\<exists>t. exec_words [0x1683, 0x1703] (p14_with_device p16f877a prog) = Some t \<and> p14_banked_addr t 0x20 = Some 0x1A0"
    by auto
qed

text \<open>Two behaviours of the scan its callers must know: it puts selects between a skip and the skipped
  instruction, and it takes one bank bit for the whole bank.\<close>

lemma select_under_skip:
  "map_option snd (scan_lines \<lparr>bf_dev = p16f877a, bf_bank0_only = False, bf_regions = [], bf_label_bank = Map.empty\<rparr>
     [(''    BTFSC 0x20, 0'', ()), (''    CLRF 0xA0'', ())] (scan_init Map.empty)) =
   Some [(''    BTFSC 0x20, 0'', ()), (''    BSF STATUS, 5'', ()), (''    CLRF 0x20'', ())]"
proof -
  have b: "bank_of p16f877a 0x20 = Some (Some 0)" "bank_of p16f877a 0xA0 = Some (Some 1)" and c: "dev_core p16f877a = Pic14"
    by (simp_all add: bank_of_def p16f877a_def in_window_def word_le_nat_alt)
  have t: "line_toks ''    BTFSC 0x20, 0'' = [''BTFSC'', ''0x20,'', ''0'']" "line_toks ''    CLRF 0xA0'' = [''CLRF'', ''0xA0'']"
    by (simp_all add: line_toks_def str_eval)
  have r: "replacen1 (hex_u16_str 0xA0) (hex_u16_str 0x20) ''    CLRF 0xA0'' = ''    CLRF 0x20''"
    by (simp add: replacen1_def hex_u16_str_def fmt_hex_def hex_digits.simps hex_digit_table starts_with_def)
  have o: "operand_addr [''BTFSC'', ''0x20,'', ''0''] = Some 0x20" "operand_addr [''CLRF'', ''0xA0''] = Some 0xA0"
    by (simp_all add: operand_addr_def strip_punct_def hex_u16_def parse_below_def str_eval)
  have m: "\<not> starts_with asm_start (trim_start ''    BTFSC 0x20, 0'')" "\<not> starts_with asm_end (trim_start ''    BTFSC 0x20, 0'')"
    "\<not> starts_with asm_start (trim_start ''    CLRF 0xA0'')" "\<not> starts_with asm_end (trim_start ''    CLRF 0xA0'')"
    by (simp_all add: asm_start_def asm_end_def str_eval)
  have n: "\<not> ends_colon ''BTFSC''" "\<not> ends_colon ''CLRF''" "\<not> is_dot_directive ''BTFSC''" "\<not> is_dot_directive ''CLRF''"
    by (simp_all add: ends_colon_def is_dot_directive_def str_eval)
  show ?thesis
    by (simp add: scan_line_def m t n o scan_init_def bank_op_effect_def case_prod_unfold c LITERAL_OPS_def
        scan_operand_def b Let_def emit_banksel_def banksel_bit_def r)
qed

lemma one_bit_is_the_bank:
  "bank_op_effect p16f877a ''BSF'' [''BSF'', ''STATUS,'', ''6''] = Some (Some 2)"
  "bank_after p16f877a ''    BSF STATUS, 6'' 1 = {3}"
proof -
  show "bank_op_effect p16f877a ''BSF'' [''BSF'', ''STATUS,'', ''6''] = Some (Some 2)"
    by (simp add: bank_op_effect_def select_reg_bit is_status_def p16f877a_def)
  show "bank_after p16f877a ''    BSF STATUS, 6'' 1 = {3}"
    using select_line_facts(1) [of p16f877a "''6''" 2 True 1] by (simp add: p16f877a_def select_line_def)
qed

end
