(* ===== verification/Encode18.thy ===== *)
theory Encode18
  imports Asm
begin

text \<open>
  The instruction encoder of the 16-bit core in \<^verbatim>\<open>crates/asm/src/lib.rs\<close> (\<open>encode_pic18\<close>): a line at
  a byte address to one or two words. Symbols are byte addresses here, so the branch fields halve them.
  Word distances are \<^typ>\<open>int\<close>; the code computes them in \<open>i32\<close>, the same below two to the thirty-first.
\<close>

section \<open>Operands\<close>

definition file_addr :: "symtab \<Rightarrow> string \<Rightarrow> nat option" where
  "file_addr tab rest =
     (let tok = trim (hd (split_char (CHR '','') rest))
      in if CHR ''('' \<in> set tok then parse_lit tab tok else sym_addr tab tok)"

definition parse_f_field :: "symtab \<Rightarrow> string \<Rightarrow> u16 option" where
  "parse_f_field tab rest = map_option (\<lambda>v. of_nat (v AND 0xFF)) (file_addr tab rest)"

definition parse_a_bit :: "string \<Rightarrow> u16 option" where
  "parse_a_bit s = (if to_upper s = ''A'' then Some 0 else if to_upper s = ''B'' then Some 1 else None)"

definition parse_a_bit_opt :: "string list \<Rightarrow> nat \<Rightarrow> nat \<Rightarrow> u16 option" where
  "parse_a_bit_opt ops idx f =
     (if idx < length ops then parse_a_bit (ops ! idx)
      else Some (if f < 0x60 \<or> 0xF60 \<le> f then 0 else 1))"

definition parse_d_bit :: "string \<Rightarrow> u16 option" where
  "parse_d_bit s = (if to_upper s = ''W'' then Some 0 else if to_upper s = ''F'' then Some 1 else None)"

text \<open>\<open>ops[i]\<close>, a panic past the end.\<close>

definition op_at :: "string list \<Rightarrow> nat \<Rightarrow> string option" where
  "op_at ops i = (if i < length ops then Some (ops ! i) else None)"

section \<open>The groups of mnemonics with one encoding\<close>

definition enc18_dest :: "(string \<times> u16) list" where
  "enc18_dest =
     [(''ADDWF'', 0x2400), (''ADDWFC'', 0x2000), (''ANDWF'', 0x1400), (''COMF'', 0x1C00),
      (''DECF'', 0x0400), (''DECFSZ'', 0x2C00), (''DCFSNZ'', 0x4C00), (''INCF'', 0x2800),
      (''INCFSZ'', 0x3C00), (''INFSNZ'', 0x4800), (''IORWF'', 0x1000), (''MOVF'', 0x5000),
      (''RLCF'', 0x3400), (''RLNCF'', 0x4400), (''RRCF'', 0x3000), (''RRNCF'', 0x4000),
      (''SUBFWB'', 0x5400), (''SUBWF'', 0x5C00), (''SUBWFB'', 0x5800), (''SWAPF'', 0x3800),
      (''XORWF'', 0x1800)]"

definition enc18_file :: "(string \<times> u16) list" where
  "enc18_file =
     [(''CLRF'', 0x6A00), (''CPFSEQ'', 0x6200), (''CPFSGT'', 0x6400), (''CPFSLT'', 0x6000),
      (''MOVWF'', 0x6E00), (''MULWF'', 0x0200), (''NEGF'', 0x6C00), (''SETF'', 0x6800),
      (''TSTFSZ'', 0x6600)]"

definition enc18_bit :: "(string \<times> u16) list" where
  "enc18_bit =
     [(''BCF'', 0x9000), (''BSF'', 0x8000), (''BTFSC'', 0xB000), (''BTFSS'', 0xA000), (''BTG'', 0x7000)]"

definition enc18_lit :: "(string \<times> u16) list" where
  "enc18_lit =
     [(''SUBLW'', 0x0800), (''IORLW'', 0x0900), (''XORLW'', 0x0A00), (''ANDLW'', 0x0B00),
      (''RETLW'', 0x0C00), (''MULLW'', 0x0D00), (''MOVLW'', 0x0E00), (''ADDLW'', 0x0F00)]"

definition enc18_plain :: "(string \<times> u16) list" where
  "enc18_plain =
     [(''NOP'', 0x0000), (''CLRWDT'', 0x0004), (''TBLRD*'', 0x0008), (''TBLRD*+'', 0x0009),
      (''TBLRD*-'', 0x000A), (''TBLRD+*'', 0x000B), (''TBLWT*'', 0x000C), (''TBLWT*+'', 0x000D),
      (''TBLWT*-'', 0x000E), (''TBLWT+*'', 0x000F), (''PUSH'', 0x0005), (''POP'', 0x0006),
      (''DAW'', 0x0007), (''SLEEP'', 0x0003), (''RESET'', 0x00FF)]"

definition enc18_cond :: "(string \<times> u16) list" where
  "enc18_cond =
     [(''BZ'', 0xE000), (''BNZ'', 0xE100), (''BC'', 0xE200), (''BNC'', 0xE300), (''BOV'', 0xE400),
      (''BNOV'', 0xE500), (''BN'', 0xE600), (''BNN'', 0xE700)]"

section \<open>The arms with two words or a distance\<close>

definition word_offset :: "nat \<Rightarrow> nat \<Rightarrow> int" where
  "word_offset target addr = int (target div 2) - (int (addr div 2) + 1)"

definition enc18_branch :: "u16 \<Rightarrow> nat \<Rightarrow> nat \<Rightarrow> u16 list option" where
  "enc18_branch w target addr =
     (let n = word_offset target addr
      in if - 128 \<le> n \<and> n \<le> 127 then Some [w OR (of_int n AND 0xFF)] else None)"

definition enc18_bra :: "u16 \<Rightarrow> nat \<Rightarrow> nat \<Rightarrow> u16 list option" where
  "enc18_bra w target addr =
     (let n = word_offset target addr
      in if - 1024 \<le> n \<and> n \<le> 1023 then Some [w OR (of_int n AND 0x7FF)] else None)"

definition far_words :: "u16 \<Rightarrow> nat \<Rightarrow> u16 list" where
  "far_words w target =
     (let k = target div 2
      in [w OR of_nat (k AND 0xFF), 0xF000 OR of_nat (drop_bit 8 k AND 0xFFF)])"

definition enc18_call :: "symtab \<Rightarrow> string list \<Rightarrow> u16 list option" where
  "enc18_call tab ops =
     do {
       (label, s) \<leftarrow> (case ops of
           [l] \<Rightarrow> Some (l, 0 :: u16)
         | [l, f] \<Rightarrow> if to_upper f = ''FAST'' then Some (l, 1) else None
         | _ \<Rightarrow> None);
       target \<leftarrow> tab label;
       Some (far_words (0xEC00 OR push_bit 8 s) target)
     }"

definition enc18_lfsr :: "symtab \<Rightarrow> string list \<Rightarrow> u16 list option" where
  "enc18_lfsr tab ops =
     do {
       o0 \<leftarrow> op_at ops 0;
       n \<leftarrow> from_str_radix 10 o0;
       (if n \<le> 2 then do {
          o1 \<leftarrow> op_at ops 1;
          v \<leftarrow> parse_lit tab o1;
          (let k = of_nat (v AND 0xFFF) :: u16
           in Some [(0xEE00 OR push_bit 4 (of_nat n)) OR drop_bit 8 k, 0xF000 OR (k AND 0xFF)])
        } else None)
     }"

definition enc18_movff :: "symtab \<Rightarrow> string list \<Rightarrow> u16 list option" where
  "enc18_movff tab ops =
     do {
       o0 \<leftarrow> op_at ops 0;
       s \<leftarrow> parse_lit tab o0;
       o1 \<leftarrow> op_at ops 1;
       d \<leftarrow> parse_lit tab o1;
       Some [0xC000 OR of_nat (s AND 0xFFF), 0xF000 OR of_nat (d AND 0xFFF)]
     }"

section \<open>One line\<close>

definition split_mne :: "string \<Rightarrow> string \<times> string" where
  "split_mne line =
     (case splitn2 is_ws line of (m, r) \<Rightarrow>
        (to_upper m, case r of Some t \<Rightarrow> trim t | None \<Rightarrow> []))"

definition encode18_parts :: "nat \<Rightarrow> symtab \<Rightarrow> string \<Rightarrow> string \<Rightarrow> string list \<Rightarrow> u16 list option" where
  "encode18_parts addr tab mne rest ops =
     (case map_of enc18_plain mne of Some w \<Rightarrow> Some [w] | None \<Rightarrow>
      case map_of enc18_dest mne of Some w \<Rightarrow>
        do { f \<leftarrow> parse_f_field tab rest;
             o1 \<leftarrow> op_at ops 1;
             d \<leftarrow> parse_d_bit o1;
             fa \<leftarrow> file_addr tab rest;
             a \<leftarrow> parse_a_bit_opt ops 2 fa;
             Some [((w OR push_bit 9 d) OR push_bit 8 a) OR f] } | None \<Rightarrow>
      case map_of enc18_file mne of Some w \<Rightarrow>
        do { f \<leftarrow> parse_f_field tab rest;
             fa \<leftarrow> file_addr tab rest;
             a \<leftarrow> parse_a_bit_opt ops 1 fa;
             Some [(w OR push_bit 8 a) OR f] } | None \<Rightarrow>
      case map_of enc18_bit mne of Some w \<Rightarrow>
        do { f \<leftarrow> parse_f_field tab rest;
             o1 \<leftarrow> op_at ops 1;
             b \<leftarrow> from_str_radix 10 o1;
             (if b \<le> 7 then do {
                fa \<leftarrow> file_addr tab rest;
                a \<leftarrow> parse_a_bit_opt ops 2 fa;
                Some [((w OR push_bit 9 (of_nat b)) OR push_bit 8 a) OR f] } else None) } | None \<Rightarrow>
      case map_of enc18_lit mne of Some w \<Rightarrow>
        do { k \<leftarrow> parse_lit tab rest; Some [w OR of_nat (k AND 0xFF)] } | None \<Rightarrow>
      case map_of enc18_cond mne of Some w \<Rightarrow>
        do { target \<leftarrow> tab rest; enc18_branch w target addr } | None \<Rightarrow>
      if mne = ''RETFIE'' then Some [if to_upper rest = ''FAST'' then 0x0011 else 0x0010]
      else if mne = ''RETURN'' then Some [if to_upper rest = ''FAST'' then 0x0013 else 0x0012]
      else if mne = ''MOVLB'' then do { k \<leftarrow> parse_lit tab rest; Some [0x0100 OR of_nat (k AND 0xF)] }
      else if mne = ''BANKSEL'' then do { v \<leftarrow> tab rest; Some [0x0100 OR of_nat (drop_bit 8 v AND 0xF)] }
      else if mne = ''BRA'' then do { target \<leftarrow> tab rest; enc18_bra 0xD000 target addr }
      else if mne = ''RCALL'' then do { target \<leftarrow> tab rest; enc18_bra 0xD800 target addr }
      else if mne = ''GOTO'' then do { target \<leftarrow> tab rest; Some (far_words 0xEF00 target) }
      else if mne = ''CALL'' then enc18_call tab ops
      else if mne = ''LFSR'' then enc18_lfsr tab ops
      else if mne = ''MOVFF'' then enc18_movff tab ops
      else None)"

definition encode_pic18 :: "nat \<Rightarrow> string \<Rightarrow> symtab \<Rightarrow> u16 list option" where
  "encode_pic18 addr line tab =
     (case split_mne line of (mne, rest) \<Rightarrow>
        encode18_parts addr tab mne rest (map trim (split_char (CHR '','') rest)))"

end
