(* ===== verification/Asm18.thy ===== *)
theory Asm18
  imports Encode18
begin

text \<open>
  The assembler of the 16-bit core (\<open>assemble_pic18_impl\<close> of \<^verbatim>\<open>crates/asm/src/lib.rs\<close>): the source as
  a stream of entries, its layout in byte addresses, the expansion of branches out of range and the
  padding of computed-jump tables, repeated until neither finds work, and the words of the result.
  A stream entry is a line with the caller's debug location; a panic is \<^const>\<open>None\<close>.
\<close>

type_synonym stream = "(string \<times> nat option) list"

section \<open>Reading the source\<close>

definition entry_lines :: "string \<Rightarrow> nat option \<Rightarrow> stream" where
  "entry_lines line loc =
     (case find_sub '' equ '' line of
        Some eq \<Rightarrow> [(''equ '' @ take eq line @ '' '' @ trim (drop (eq + 5) line), loc)]
      | None \<Rightarrow>
     (case find_sub '':'' line of
        Some colon \<Rightarrow>
          let label = trim (take colon line); rest = trim (drop (colon + 1) line)
          in if label \<noteq> [] \<and> CHR '' '' \<notin> set label \<and> CHR 0x09 \<notin> set label then
               (label @ '':'', None) # (if rest = [] then [] else [(rest, loc)])
             else [(line, loc)]
      | None \<Rightarrow> [(line, loc)]))"

text \<open>The locations run beside the raw lines; past their end a line has none.\<close>

fun read_stream :: "string list \<Rightarrow> nat option list \<Rightarrow> stream" where
  "read_stream [] locs = []"
| "read_stream (raw # raws) locs =
     (let line = strip_comment raw; loc = (case locs of [] \<Rightarrow> None | l # _ \<Rightarrow> l) in
      if line = [] \<or> is_directive line ''list'' \<or> is_directive line ''radix'' then
        read_stream raws (tl locs)
      else if is_directive line ''end'' then []
      else entry_lines line loc @ read_stream raws (tl locs))"

section \<open>Entries and their addresses\<close>

text \<open>
  The tests every walk over the stream makes, in its order. No two of the prefixes can hold of one
  line, so the walks that make them in another order agree.
\<close>

datatype entry =
    ELabel string
  | EEqu string
  | EOrg string
  | EDb "string list"
  | ETable string
  | EAlign
  | EInstr string

definition entry_of :: "string \<Rightarrow> entry" where
  "entry_of line =
     (if strip_suffix '':'' line \<noteq> None then ELabel (trim_end_char (CHR '':'') line)
      else case strip_prefix ''equ '' line of Some r \<Rightarrow> EEqu r | None \<Rightarrow>
      case strip_prefix ''org '' line of Some r \<Rightarrow> EOrg r | None \<Rightarrow>
      if starts_with ''db '' (to_lower line) then
        EDb (filter (\<lambda>t. t \<noteq> []) (map trim (split_char (CHR '','') (drop 3 line))))
      else case strip_prefix ''.pcltbl '' line of Some r \<Rightarrow> ETable r | None \<Rightarrow>
      if starts_with ''.pclalign'' line then EAlign else EInstr line)"

definition instruction_words_pic18 :: "string \<Rightarrow> nat" where
  "instruction_words_pic18 line =
     (case split_ws line of
        m # _ \<Rightarrow> if to_upper m \<in> {''GOTO'', ''CALL'', ''LFSR'', ''MOVFF''} then 2 else 1
      | [] \<Rightarrow> 1)"

definition next_addr :: "entry \<Rightarrow> nat \<Rightarrow> nat option" where
  "next_addr e org =
     (case e of
        EOrg r \<Rightarrow> parse_num (trim r)
      | EDb toks \<Rightarrow> Some (org + length toks)
      | EInstr line \<Rightarrow> Some (org + instruction_words_pic18 line * 2)
      | _ \<Rightarrow> Some org)"

definition define_entry :: "entry \<Rightarrow> nat \<Rightarrow> symtab \<Rightarrow> symtab option" where
  "define_entry e org tab =
     (case e of
        ELabel l \<Rightarrow> Some (insert_label tab l org)
      | EEqu rest \<Rightarrow>
          (case splitn2 is_ws rest of (name, v) \<Rightarrow>
             do { n \<leftarrow> parse_num (trim (case v of Some t \<Rightarrow> t | None \<Rightarrow> []));
                  Some (insert_label tab name n) })
      | _ \<Rightarrow> Some tab)"

fun resolve_from :: "string list \<Rightarrow> symtab \<Rightarrow> nat \<Rightarrow> (symtab \<times> nat) option" where
  "resolve_from [] tab org = Some (tab, org)"
| "resolve_from (l # ls) tab org =
     do { tab1 \<leftarrow> define_entry (entry_of l) org tab;
          org1 \<leftarrow> next_addr (entry_of l) org;
          resolve_from ls tab1 org1 }"

definition resolve_labels :: "string list \<Rightarrow> (symtab \<times> nat) option" where
  "resolve_labels ls = resolve_from ls Map.empty 0"

text \<open>\<open>layout_addrs\<close>: each instruction and each data byte with its byte address.\<close>

definition db_bytes :: "nat \<Rightarrow> string list \<Rightarrow> (nat \<times> string) list" where
  "db_bytes org toks = zip [org..<org + length toks] toks"

fun layout_from :: "string list \<Rightarrow> nat \<Rightarrow> ((nat \<times> string) list \<times> (nat \<times> string) list) option" where
  "layout_from [] org = Some ([], [])"
| "layout_from (l # ls) org =
     do { org1 \<leftarrow> next_addr (entry_of l) org;
          (ins, ds) \<leftarrow> layout_from ls org1;
          (case entry_of l of
             EDb toks \<Rightarrow> Some (ins, db_bytes org toks @ ds)
           | EInstr line \<Rightarrow> Some ((org, line) # ins, ds)
           | _ \<Rightarrow> Some (ins, ds)) }"

definition layout_addrs :: "string list \<Rightarrow> ((nat \<times> string) list \<times> (nat \<times> string) list) option" where
  "layout_addrs ls = layout_from ls 0"

section \<open>Branches out of range\<close>

definition invert_cond :: "string \<Rightarrow> string option" where
  "invert_cond mne =
     map_of [(''BZ'', ''BNZ''), (''BNZ'', ''BZ''), (''BC'', ''BNC''), (''BNC'', ''BC''),
             (''BOV'', ''BNOV''), (''BNOV'', ''BOV''), (''BN'', ''BNN''), (''BNN'', ''BN'')] mne"

definition is_cond :: "string \<Rightarrow> bool" where
  "is_cond mne \<longleftrightarrow> mne \<in> {''BZ'', ''BNZ'', ''BC'', ''BNC'', ''BOV'', ''BNOV'', ''BN'', ''BNN''}"

definition is_bra :: "string \<Rightarrow> bool" where
  "is_bra mne \<longleftrightarrow> mne = ''BRA'' \<or> mne = ''RCALL''"

definition branch_in_range :: "string \<Rightarrow> int \<Rightarrow> bool" where
  "branch_in_range mne off =
     (if is_bra mne then - 1024 \<le> off \<and> off \<le> 1023 else - 128 \<le> off \<and> off \<le> 127)"

text \<open>
  The first instruction that is a branch to a label out of its range: its index among the
  instructions, its mnemonic and its label. The outer \<^const>\<open>None\<close> is an undefined label.
\<close>

fun first_far :: "symtab \<Rightarrow> nat \<Rightarrow> (nat \<times> string) list \<Rightarrow> (nat \<times> string \<times> string) option option" where
  "first_far tab i [] = Some None"
| "first_far tab i ((addr, line) # ins) =
     (case split_mne line of (mne, rest) \<Rightarrow>
        if \<not> is_cond mne \<and> \<not> is_bra mne then first_far tab (Suc i) ins
        else do {
          target \<leftarrow> tab rest;
          (if branch_in_range mne (word_offset target addr) then first_far tab (Suc i) ins
           else Some (Some (i, mne, rest))) })"

text \<open>The stream index of the \<open>i\<close>-th instruction: past the end when there is none.\<close>

fun instr_index :: "string list \<Rightarrow> nat \<Rightarrow> nat" where
  "instr_index [] i = 0"
| "instr_index (l # ls) i =
     (case entry_of l of
        EInstr _ \<Rightarrow> (case i of 0 \<Rightarrow> 0 | Suc j \<Rightarrow> Suc (instr_index ls j))
      | _ \<Rightarrow> Suc (instr_index ls i))"

definition far_skip :: "nat \<Rightarrow> string" where
  "far_skip serial = ''__far_skip'' @ dec_digits serial"

definition expand_branch :: "stream \<Rightarrow> nat \<Rightarrow> nat \<Rightarrow> string \<Rightarrow> string \<Rightarrow> (stream \<times> nat) option" where
  "expand_branch st serial li mne target =
     (if length st \<le> li then None
      else
        let loc = snd (st ! li) in
        if is_bra mne then
          Some (st[li := ((if mne = ''RCALL'' then ''CALL '' else ''GOTO '') @ target, loc)], serial)
        else do {
          inv \<leftarrow> invert_cond mne;
          Some (take li st @
                [(inv @ '' '' @ far_skip serial, loc), (''BRA '' @ target, loc), (far_skip serial @ '':'', None)] @
                drop (li + 1) st, serial + 1) })"

section \<open>Computed-jump tables\<close>

record page_walk =
  pw_addr :: nat
  pw_align :: "(nat \<times> nat) option"
  pw_instr :: "(nat \<times> string) option"

definition is_dispatch :: "string \<Rightarrow> bool" where
  "is_dispatch line =
     (case (case split_once is_ws line of Some p \<Rightarrow> p | None \<Rightarrow> (line, [])) of
        (mne, opnd) \<Rightarrow> to_upper mne = ''ADDWF'' \<and> starts_with ''0xFF9'' opnd)"

text \<open>
  One \<open>.pcltbl\<close> mark: nothing to do, or the words of padding and the entry to put them after. The outer
  \<^const>\<open>None\<close> is any of its panics.
\<close>

definition table_pad :: "symtab \<Rightarrow> page_walk \<Rightarrow> string \<Rightarrow> (nat \<times> nat) option option" where
  "table_pad tab pw rest =
     do {
       (daddr, dtext) \<leftarrow> pw_instr pw;
       (if \<not> is_dispatch dtext then None else
        let ws = split_ws rest; label = operand 0 ws in
        do {
          span \<leftarrow> parse_num (operand 1 ws);
          (if 0x100 < span then None else do {
             table \<leftarrow> tab label;
             (if table \<noteq> daddr + 2 then None
              else if table AND 0xFF00 \<noteq> (daddr + 2) AND 0xFF00 \<or> 0x100 < (table AND 0xFF) + span then do {
                (ai, aaddr) \<leftarrow> pw_align pw;
                (let pad = (0x100 - (aaddr AND 0xFF)) div 2
                 in if aaddr AND 0xFF = 0 \<or> pad = 0 then None else Some (Some (ai, pad))) }
              else Some None) }) }) }"

definition page_step :: "entry \<Rightarrow> nat \<Rightarrow> page_walk \<Rightarrow> page_walk option" where
  "page_step e li pw =
     (case e of
        EAlign \<Rightarrow> Some (pw\<lparr>pw_align := Some (li, pw_addr pw)\<rparr>)
      | EInstr line \<Rightarrow>
          Some (pw\<lparr>pw_instr := Some (pw_addr pw, line), pw_addr := pw_addr pw + instruction_words_pic18 line * 2\<rparr>)
      | _ \<Rightarrow> do { a \<leftarrow> next_addr e (pw_addr pw); Some (pw\<lparr>pw_addr := a\<rparr>) })"

fun page_check :: "symtab \<Rightarrow> nat \<Rightarrow> page_walk \<Rightarrow> string list \<Rightarrow> (nat \<times> nat) option option" where
  "page_check tab li pw [] = Some None"
| "page_check tab li pw (l # ls) =
     (case entry_of l of
        ETable rest \<Rightarrow> do {
          r \<leftarrow> table_pad tab pw rest;
          (case r of Some fix \<Rightarrow> Some (Some fix) | None \<Rightarrow> page_check tab (Suc li) pw ls) }
      | e \<Rightarrow> do { pw1 \<leftarrow> page_step e li pw; page_check tab (Suc li) pw1 ls })"

definition pad_after :: "stream \<Rightarrow> nat \<Rightarrow> nat \<Rightarrow> stream" where
  "pad_after st ai pad = take (ai + 1) st @ replicate pad (''NOP'', None) @ drop (ai + 1) st"

section \<open>Rounds to a fixpoint\<close>

text \<open>One turn of the loop: a panic, no change, or the changed stream with the next serial number.\<close>

definition asm18_round :: "stream \<Rightarrow> nat \<Rightarrow> (stream \<times> nat) option option" where
  "asm18_round st serial =
     (let ls = map fst st in
      do {
        (tab, tot) \<leftarrow> resolve_labels ls;
        (ins, ds) \<leftarrow> layout_addrs ls;
        far \<leftarrow> first_far tab 0 ins;
        (case far of
           Some (i, mne, target) \<Rightarrow>
             do { r \<leftarrow> expand_branch st serial (instr_index ls i) mne target; Some (Some r) }
         | None \<Rightarrow> do {
             fix \<leftarrow> page_check tab 0 \<lparr>pw_addr = 0, pw_align = None, pw_instr = None\<rparr> ls;
             (case fix of
                Some (ai, pad) \<Rightarrow> Some (Some (pad_after st ai pad, serial))
              | None \<Rightarrow> Some None) }) })"

text \<open>The loop; \<^const>\<open>None\<close> would be a loop that never ends, \<open>Some None\<close> is a panic.\<close>

partial_function (option) asm18_fixpoint :: "stream \<Rightarrow> nat \<Rightarrow> stream option option" where
  "asm18_fixpoint st serial =
     (case asm18_round st serial of
        None \<Rightarrow> Some None
      | Some None \<Rightarrow> Some (Some st)
      | Some (Some (st1, serial1)) \<Rightarrow> asm18_fixpoint st1 serial1)"

section \<open>The words and the debug rows\<close>

fun emit18 :: "symtab \<Rightarrow> (nat \<times> string) list \<Rightarrow> u16 list \<Rightarrow> u16 list option" where
  "emit18 tab [] out = Some out"
| "emit18 tab ((addr, line) # ins) out =
     do { ws \<leftarrow> encode_pic18 addr line tab;
          (if addr div 2 < length out \<and> (length ws = 2 \<longrightarrow> addr div 2 + 1 < length out) then
             let out1 = out[addr div 2 := ws ! 0]
             in emit18 tab ins (if length ws = 2 then out1[addr div 2 + 1 := ws ! 1] else out1)
           else None) }"

fun emit_db :: "symtab \<Rightarrow> (nat \<times> string) list \<Rightarrow> u16 list \<Rightarrow> u16 list option" where
  "emit_db tab [] out = Some out"
| "emit_db tab ((addr, tok) # ds) out =
     do { v \<leftarrow> parse_lit tab tok;
          (if addr div 2 < length out then
             emit_db tab ds
               (out[addr div 2 := out ! (addr div 2) OR push_bit (addr mod 2 * 8) (of_nat (v AND 0xFF))])
           else None) }"

fun debug_rows :: "stream \<Rightarrow> nat \<Rightarrow> (nat \<times> u16) list option" where
  "debug_rows [] org = Some []"
| "debug_rows ((l, loc) # st) org =
     do { org1 \<leftarrow> next_addr (entry_of l) org;
          rows \<leftarrow> debug_rows st org1;
          (case entry_of l of
             EDb _ \<Rightarrow> Some ((case loc of Some row \<Rightarrow> [(row, of_nat org)] | None \<Rightarrow> []) @ rows)
           | EInstr _ \<Rightarrow> Some ((case loc of Some row \<Rightarrow> [(row, of_nat org)] | None \<Rightarrow> []) @ rows)
           | _ \<Rightarrow> Some rows) }"

definition finish18 :: "stream \<Rightarrow> (u16 list \<times> (nat \<times> u16) list) option" where
  "finish18 st =
     do {
       (tab, tot) \<leftarrow> resolve_labels (map fst st);
       (ins, ds) \<leftarrow> layout_addrs (map fst st);
       out1 \<leftarrow> emit18 tab ins (replicate ((tot + 1) div 2) 0);
       out2 \<leftarrow> emit_db tab ds out1;
       rows \<leftarrow> debug_rows st 0;
       Some (out2, rows)
     }"

definition assemble_pic18_with_locs ::
    "string \<Rightarrow> nat option list \<Rightarrow> (u16 list \<times> (nat \<times> u16) list) option option" where
  "assemble_pic18_with_locs src locs =
     (case asm18_fixpoint (read_stream (str_lines src) locs) 0 of
        None \<Rightarrow> None
      | Some None \<Rightarrow> Some None
      | Some (Some st) \<Rightarrow> Some (finish18 st))"

definition assemble_pic18 :: "string \<Rightarrow> u16 list option option" where
  "assemble_pic18 src = map_option (map_option fst) (assemble_pic18_with_locs src [])"

end
