(* ===== verification/Asm18Facts.thy ===== *)
theory Asm18Facts
  imports Asm18
begin

text \<open>
  The layout of a stream of entries: where an instruction of the layout stands in the stream, that the
  label walk and the address walk agree, and the lines the branch expansion writes.
\<close>

section \<open>Walks over the stream\<close>

fun addr_after :: "string list \<Rightarrow> nat \<Rightarrow> nat option" where
  "addr_after [] org = Some org"
| "addr_after (l # ls) org = do { o1 \<leftarrow> next_addr (entry_of l) org; addr_after ls o1 }"

lemma addr_after_append: "addr_after (xs @ ys) org = do { a \<leftarrow> addr_after xs org; addr_after ys a }"
  by (induction xs arbitrary: org) (simp_all split: Option.bind_splits)

lemma resolve_append:
  "resolve_from (xs @ ys) tab org =
     do { (tab1, a) \<leftarrow> resolve_from xs tab org; resolve_from ys tab1 a }"
  by (induction xs arbitrary: tab org) (auto split: Option.bind_splits)

lemma resolve_addr: "resolve_from xs tab org = Some (tab1, a) \<Longrightarrow> addr_after xs org = Some a"
  by (induction xs arbitrary: tab org) (auto split: Option.bind_splits)

text \<open>The \<open>i\<close>-th instruction of the layout, found in the stream.\<close>

lemma layout_at:
  assumes "layout_from ls org = Some (ins, ds)" and "i < length ins"
  obtains pre post where "ls = pre @ snd (ins ! i) # post" and "instr_index ls i = length pre"
    and "entry_of (snd (ins ! i)) = EInstr (snd (ins ! i))" and "addr_after pre org = Some (fst (ins ! i))"
  using assms
proof (induction ls arbitrary: org ins ds i thesis)
  case Nil
  then show ?case by simp
next
  case (Cons l ls)
  obtain o1 ins1 ds1 where n: "next_addr (entry_of l) org = Some o1" and lay: "layout_from ls o1 = Some (ins1, ds1)"
    using Cons.prems(2) by (auto split: Option.bind_splits)
  show ?case
  proof (cases "\<exists>x. entry_of l = EInstr x")
    case True
    then have e: "entry_of l = EInstr l" by (auto simp: entry_of_def split: if_splits option.splits)
    then have ieq: "ins = (org, l) # ins1" using Cons.prems(2) n lay by simp
    show ?thesis
    proof (cases i)
      case 0
      then show ?thesis using Cons.prems(1) [of "[]" ls] e ieq by simp
    next
      case (Suc j)
      then have "j < length ins1" using Cons.prems(3) ieq by simp
      from Cons.IH [OF _ lay this] obtain pre post where "ls = pre @ snd (ins1 ! j) # post"
        "instr_index ls j = length pre" "entry_of (snd (ins1 ! j)) = EInstr (snd (ins1 ! j))"
        "addr_after pre o1 = Some (fst (ins1 ! j))" by blast
      then show ?thesis using Cons.prems(1) [of "l # pre" post] Suc ieq e n by simp
    qed
  next
    case False
    then have "ins = ins1" using Cons.prems(2) n lay by (auto split: entry.splits)
    moreover have "instr_index (l # ls) i = Suc (instr_index ls i)" using False by (simp split: entry.splits)
    moreover have "i < length ins1" using Cons.prems(3) \<open>ins = ins1\<close> by simp
    note Cons.IH [OF _ lay this]
    ultimately show ?thesis using Cons.prems(1) n by (metis append_Cons addr_after.simps(2) bind.bind_lunit length_Cons)
  qed
qed

lemma first_far_some:
  assumes "first_far tab i ins = Some (Some (j, mne, rest))"
  obtains k target where "j = i + k" and "k < length ins" and "split_mne (snd (ins ! k)) = (mne, rest)"
    and "is_cond mne \<or> is_bra mne" and "tab rest = Some target"
    and "\<not> branch_in_range mne (word_offset target (fst (ins ! k)))"
  using assms
proof (induction ins arbitrary: i thesis)
  case Nil
  then show ?case by simp
next
  case (Cons x xs)
  obtain addr line where x: "x = (addr, line)" by (cases x)
  obtain m r where s: "split_mne line = (m, r)" by (cases "split_mne line")
  let ?here = "(is_cond m \<or> is_bra m) \<and> (\<exists>t. tab r = Some t \<and> \<not> branch_in_range m (word_offset t addr))"
  show ?case
  proof (cases ?here)
    case True
    then have "j = i \<and> mne = m \<and> rest = r" using Cons.prems(2) x s by (auto split: if_splits)
    then show ?thesis using True Cons.prems(1) [of 0] x s by auto
  next
    case False
    then have "first_far tab (Suc i) xs = Some (Some (j, mne, rest))"
      using Cons.prems(2) x s by (auto split: if_splits Option.bind_splits)
    from Cons.IH [OF _ this] obtain k t where "j = Suc i + k" "k < length xs" "split_mne (snd (xs ! k)) = (mne, rest)"
      "is_cond mne \<or> is_bra mne" "tab rest = Some t" "\<not> branch_in_range mne (word_offset t (fst (xs ! k)))"
      by blast
    then show ?thesis using Cons.prems(1) [of "Suc k" t] x by simp
  qed
qed

lemma first_far_none:
  assumes "first_far tab i ins = Some None" and "k < length ins" and "split_mne (snd (ins ! k)) = (mne, rest)"
    and "is_cond mne \<or> is_bra mne"
  obtains target where "tab rest = Some target" and "branch_in_range mne (word_offset target (fst (ins ! k)))"
  using assms
proof (induction ins arbitrary: i k thesis)
  case Nil
  then show ?case by simp
next
  case (Cons x xs)
  show ?case
  proof (cases k)
    case 0
    then show ?thesis using Cons.prems by (cases x) (auto split: if_splits Option.bind_splits)
  next
    case (Suc n)
    have "first_far tab (Suc i) xs = Some None"
      using Cons.prems(2) by (cases x) (auto split: if_splits Option.bind_splits prod.splits)
    then show ?thesis using Cons.IH [where i = "Suc i" and k = n] Cons.prems Suc by auto
  qed
qed

end
