(* ===== verification/Asm18Ends.thy ===== *)
theory Asm18Ends
  imports Asm18Facts
begin

text \<open>
  The branch expansion of the 16-bit core's assembler ends: a branch it has written is always in range,
  and every expansion replaces a branch of the source.
\<close>

section \<open>Lines and their entries\<close>

lemma strip_suffix_colon: "strip_suffix '':'' l = None \<longleftrightarrow> l = [] \<or> last l \<noteq> CHR '':''"
  by (cases l rule: rev_cases) (auto simp: strip_suffix_def strip_prefix_def)

lemma lower_char_cases: "lower_char c = d \<Longrightarrow> c = d \<or> c = upper_char d"
  by (cases "65 \<le> (of_char c :: nat) \<and> of_char c \<le> (90 :: nat)")
    (auto simp: lower_char_def upper_char_def Let_def take_bit_eq_mod)

lemma entry_instr:
  assumes "l \<noteq> []" and "hd l \<notin> set ''eodD.''" and "last l \<noteq> CHR '':''"
  shows "entry_of l = EInstr l"
proof -
  have "strip_prefix ''equ '' l = None" "strip_prefix ''org '' l = None" "strip_prefix ''.pcltbl '' l = None"
    using assms by (auto intro!: strip_prefix_hd)
  moreover have "\<not> starts_with ''db '' (to_lower l)"
  proof
    assume "starts_with ''db '' (to_lower l)"
    then have "lower_char (hd l) = CHR ''d''" using assms(1) by (cases l) (simp_all add: starts_with_def to_lower_def)
    then have "hd l = CHR ''d'' \<or> hd l = upper_char (CHR ''d'')" by (rule lower_char_cases)
    moreover have "upper_char (CHR ''d'') = CHR ''D''" by (simp add: upper_char_def char_of_def bit_iff_odd)
    ultimately show False using assms(2) by auto
  qed
  moreover have "\<not> starts_with ''.pclalign'' l" using assms by (cases l) (auto simp: starts_with_def)
  ultimately show ?thesis using assms by (simp add: entry_of_def strip_suffix_colon)
qed

lemma dec_digits_set: "set (dec_digits n) \<subseteq> set ''0123456789''"
proof (induction n rule: dec_digits.induct)
  case (1 n)
  have d: "set [hex_digit k] \<subseteq> set ''0123456789''" if "k < 10" for k
  proof -
    have "k \<in> {0, Suc 0, 2, 3, 4, 5, 6, 7, 8, 9}" using that by auto
    then show ?thesis by (elim insertE) (simp_all add: hex_digit_table)
  qed
  show ?case
  proof (cases "n < 10")
    case True
    then show ?thesis using d [OF True] by (simp only: dec_digits.simps [of n] if_True)
  next
    case False
    then show ?thesis using 1 d [of "n mod 10"]
      by (simp only: dec_digits.simps [of n] if_False set_append Un_subset_iff) simp
  qed
qed

lemma dec_digits_ne: "dec_digits n \<noteq> []"
  by (subst dec_digits.simps) simp

lemma dec_digits_inj: "dec_digits m = dec_digits n \<Longrightarrow> m = n"
  by (metis digits_val_decimal option.inject)

lemma far_skip_inj [simp]: "far_skip m = far_skip n \<longleftrightarrow> m = n"
  by (simp only: far_skip_def same_append_eq) (rule iffI, erule dec_digits_inj, erule arg_cong)

lemma far_skip_chars: "set (far_skip n) \<subseteq> set ''_farskip0123456789''"
proof -
  have "set ''0123456789'' \<subseteq> set ''_farskip0123456789''" "set ''__far_skip'' \<subseteq> set ''_farskip0123456789''"
    by simp_all
  then show ?thesis unfolding far_skip_def set_append
    by (intro Un_least) (assumption, rule subset_trans [OF dec_digits_set])
qed

lemma far_skip_last: "far_skip n \<noteq> []" "last (far_skip n) \<in> set ''0123456789''"
proof -
  have "last (far_skip n) = last (dec_digits n)" using dec_digits_ne by (simp add: far_skip_def)
  moreover have "last (dec_digits n) \<in> set (dec_digits n)" using dec_digits_ne by simp
  ultimately show "last (far_skip n) \<in> set ''0123456789''"
    by (simp only:) (erule subsetD [OF dec_digits_set])
qed (simp add: far_skip_def)

lemma far_skip_plain:
  "\<forall>c \<in> set (far_skip n). \<not> is_ws c" "last (far_skip n) \<noteq> CHR '':''" "trim (far_skip n) = far_skip n"
proof -
  show ws: "\<forall>c \<in> set (far_skip n). \<not> is_ws c"
  proof
    fix c assume "c \<in> set (far_skip n)"
    then have c: "c \<in> set ''_farskip0123456789''" by (rule subsetD [OF far_skip_chars])
    have "\<forall>c \<in> set ''_farskip0123456789''. \<not> is_ws c" by (simp add: is_ws_def)
    from bspec [OF this c] show "\<not> is_ws c" .
  qed
  have "CHR '':'' \<notin> set ''0123456789''" by simp
  then show "last (far_skip n) \<noteq> CHR '':''" using far_skip_last(2) [of n] by metis
  show "trim (far_skip n) = far_skip n"
    using ws far_skip_last(1) [of n] by (intro trim_keep) simp_all
qed

lemma trim_end_once: "s \<noteq> [] \<Longrightarrow> last s \<noteq> c \<Longrightarrow> trim_end_char c (s @ [c]) = s"
  by (cases s rule: rev_cases) (simp_all add: trim_end_char_def trim_end_by_def)

lemma entry_far_skip [simp]: "entry_of (far_skip n @ '':'') = ELabel (far_skip n)"
  using far_skip_plain(2) [of n] far_skip_last(1) [of n]
  by (simp add: entry_of_def strip_suffix_colon trim_end_once)

section \<open>What an expansion writes\<close>

lemma split_mne_join: "\<forall>c \<in> set m. \<not> is_ws c \<Longrightarrow> split_mne (m @ '' '' @ r) = (to_upper m, trim r)"
  by (simp add: split_mne_def splitn2_def is_ws_space)

lemma blank_free: "\<forall>c \<in> set ''BNZCOVRAGTLP''. \<not> is_ws c"
  by (simp add: is_ws_def)

lemma split_mne_bra: "split_mne (''BRA '' @ t) = (''BRA'', trim t)"
  and split_mne_goto: "split_mne (''GOTO '' @ t) = (''GOTO'', trim t)"
  and split_mne_call: "split_mne (''CALL '' @ t) = (''CALL'', trim t)"
  and split_mne_nop: "split_mne ''NOP'' = (''NOP'', [])"
proof -
  have u: "to_upper ''BRA'' = ''BRA''" "to_upper ''GOTO'' = ''GOTO''" "to_upper ''CALL'' = ''CALL''" "to_upper ''NOP'' = ''NOP''"
    by code_simp+
  show "split_mne (''BRA '' @ t) = (''BRA'', trim t)"
    using split_mne_join [of "''BRA''" t] u blank_free by simp
  show "split_mne (''GOTO '' @ t) = (''GOTO'', trim t)"
    using split_mne_join [of "''GOTO''" t] u blank_free by simp
  show "split_mne (''CALL '' @ t) = (''CALL'', trim t)"
    using split_mne_join [of "''CALL''" t] u blank_free by simp
  show "split_mne ''NOP'' = (''NOP'', [])"
    using u blank_free by (simp add: split_mne_def splitn2_def)
qed

definition is_hop :: "string \<Rightarrow> bool" where
  "is_hop m \<longleftrightarrow> (\<exists>t. m = ''BRA '' @ t) \<or> (\<exists>t. m = ''GOTO '' @ t)"

text \<open>A line that starts like an instruction is one, unless it ends in a colon.\<close>

lemma entry_plain:
  assumes "m \<noteq> []" and "hd m \<notin> set ''eodD.:''"
  shows "entry_of m = EInstr m \<or> (\<exists>x. entry_of m = ELabel x \<and> hd x = hd m)"
proof (cases "last m = CHR '':''")
  case False
  then show ?thesis using assms by (simp add: entry_instr)
next
  case True
  obtain c t where m: "m = c # t" using assms(1) by (cases m) auto
  have "entry_of m = ELabel (trim_end_char (CHR '':'') m)"
    using True assms(1) by (simp add: entry_of_def strip_suffix_colon)
  moreover have "hd (trim_end_char (CHR '':'') m) = hd m"
    using assms(2) m by (simp add: trim_end_char_def trim_end_by_def dropWhile_append)
  ultimately show ?thesis by blast
qed

lemma hop_entry:
  assumes "is_hop m"
  obtains "entry_of m = EInstr m" | x where "entry_of m = ELabel x" "hd x \<noteq> CHR ''_''"
  using assms entry_plain [of m] by (auto simp: is_hop_def)

lemma far_skip_hd: "hd (far_skip n) = CHR ''_''"
  by (simp add: far_skip_def)

definition cond_skip :: "string \<Rightarrow> nat \<Rightarrow> bool" where
  "cond_skip l n \<longleftrightarrow> entry_of l = EInstr l \<and> is_cond (fst (split_mne l)) \<and> snd (split_mne l) = far_skip n"

lemma hop_not_cond: "is_hop m \<Longrightarrow> \<not> is_cond (fst (split_mne m))"
  by (auto simp: is_hop_def split_mne_bra [simplified] split_mne_goto [simplified] is_cond_def)

lemma invert_cond_some: "invert_cond m = Some iv \<Longrightarrow> is_cond m \<and> is_cond iv"
  by (auto simp: invert_cond_def is_cond_def split: if_splits)

lemma cond_chars:
  assumes "is_cond m"
  shows "m \<noteq> [] \<and> hd m = CHR ''B'' \<and> list_all (\<lambda>c. \<not> is_ws c) m \<and> to_upper m = m" (is "?P m")
proof -
  have "list_all ?P [''BZ'', ''BNZ'', ''BC'', ''BNC'', ''BOV'', ''BNOV'', ''BN'', ''BNN'']"
    by code_simp
  moreover have "m \<in> set [''BZ'', ''BNZ'', ''BC'', ''BNC'', ''BOV'', ''BNOV'', ''BN'', ''BNN'']"
    using assms by (simp only: is_cond_def set_simps)
  ultimately show ?thesis unfolding list_all_iff by (rule bspec)
qed

lemma inverted_line:
  assumes "is_cond iv"
  shows "split_mne (iv @ '' '' @ far_skip n) = (iv, far_skip n)"
    and "entry_of (iv @ '' '' @ far_skip n) = EInstr (iv @ '' '' @ far_skip n)"
proof -
  have "\<forall>c \<in> set iv. \<not> is_ws c" "to_upper iv = iv"
    using cond_chars [OF assms] unfolding list_all_iff by blast+
  then show "split_mne (iv @ '' '' @ far_skip n) = (iv, far_skip n)"
    using split_mne_join [of iv "far_skip n"] far_skip_plain(3) by simp
  show "entry_of (iv @ '' '' @ far_skip n) = EInstr (iv @ '' '' @ far_skip n)"
    using cond_chars [OF assms] far_skip_plain(2) [of n] far_skip_last(1) [of n] by (intro entry_instr) auto
qed

section \<open>The invariant of the rounds\<close>

text \<open>Every branch to a skip label stands two lines before it, with a hop between.\<close>

fun skips_ok :: "string list \<Rightarrow> bool" where
  "skips_ok [] = True"
| "skips_ok (l # ls) =
     ((\<forall>n. cond_skip l n \<longrightarrow> (\<exists>m rest. ls = m # (far_skip n @ '':'') # rest \<and> is_hop m)) \<and> skips_ok ls)"

definition skip_defs :: "nat \<Rightarrow> string list \<Rightarrow> nat" where
  "skip_defs n ls = length (filter (\<lambda>l. entry_of l = ELabel (far_skip n)) ls)"

lemma skip_defs_simps [simp]:
  "skip_defs n [] = 0"
  "skip_defs n (l # ls) = (if entry_of l = ELabel (far_skip n) then 1 else 0) + skip_defs n ls"
  "skip_defs n (xs @ ys) = skip_defs n xs + skip_defs n ys"
  by (simp_all add: skip_defs_def)

definition equ_free :: "string list \<Rightarrow> bool" where
  "equ_free ls \<longleftrightarrow> (\<forall>l \<in> set ls. \<forall>r n. entry_of l = EEqu r \<longrightarrow> fst (splitn2 is_ws r) \<noteq> far_skip n)"

lemma equ_free_simps [simp]:
  "equ_free []" "equ_free (xs @ ys) \<longleftrightarrow> equ_free xs \<and> equ_free ys"
  "equ_free (l # ls) \<longleftrightarrow> (\<forall>r n. entry_of l = EEqu r \<longrightarrow> fst (splitn2 is_ws r) \<noteq> far_skip n) \<and> equ_free ls"
  by (auto simp: equ_free_def)

definition skip_inv :: "string list \<Rightarrow> nat \<Rightarrow> bool" where
  "skip_inv ls serial \<longleftrightarrow>
     skips_ok ls \<and> (\<forall>n. skip_defs n ls \<le> (if n < serial then 1 else 0)) \<and> equ_free ls"

lemma skips_ok_tail: "skips_ok (xs @ ys) \<Longrightarrow> skips_ok ys"
  by (induction xs) auto

text \<open>An edit at a line that is neither a skip label nor, if a hop, replaced by another line.\<close>

lemma skips_ok_edit:
  assumes "skips_ok (pre @ l # post)" and "skips_ok (new @ post)"
    and "\<And>n. l \<noteq> far_skip n @ '':''" and "is_hop l \<Longrightarrow> \<exists>l1. new = [l1] \<and> is_hop l1"
  shows "skips_ok (pre @ new @ post)"
  using assms(1)
proof (induction pre)
  case (Cons x xs)
  have "\<exists>m rest. xs @ new @ post = m # (far_skip n @ '':'') # rest \<and> is_hop m" if c: "cond_skip x n" for n
  proof -
    obtain m rest where m: "xs @ l # post = m # (far_skip n @ '':'') # rest" "is_hop m"
      using Cons.prems c by auto
    show ?thesis
    proof (cases xs)
      case Nil
      then show ?thesis using m assms(4) by auto
    next
      case (Cons y ys)
      then show ?thesis using m assms(3) [of n] by (cases ys) auto
    qed
  qed
  then show ?case using Cons by auto
qed (use assms(2) in simp)

lemma resolve_defined:
  assumes "resolve_from ls tab org = Some (tab1, a)" and "tab (far_skip n) = Some v"
    and "skip_defs n ls = 0" and "equ_free ls"
  shows "tab1 (far_skip n) = Some v"
  using assms
proof (induction ls arbitrary: tab org)
  case (Cons l ls)
  obtain tab2 o2 where d: "define_entry (entry_of l) org tab = Some tab2"
    and r: "resolve_from ls tab2 o2 = Some (tab1, a)"
    using Cons.prems(1) by (auto split: Option.bind_splits)
  have "tab2 (far_skip n) = Some v"
  proof (cases "entry_of l")
    case (ELabel x)
    then have "x \<noteq> far_skip n" using Cons.prems(3) by auto
    then show ?thesis using d ELabel Cons.prems(2)
      by (auto simp: define_entry_def insert_label_def Let_def split: if_splits)
  next
    case (EEqu r)
    then have "fst (splitn2 is_ws r) \<noteq> far_skip n" using Cons.prems(4) by (auto simp: equ_free_def)
    then show ?thesis using d EEqu Cons.prems(2)
      by (auto simp: define_entry_def insert_label_def Let_def split: if_splits Option.bind_splits prod.splits)
  qed (use d Cons.prems(2) in \<open>auto simp: define_entry_def\<close>)
  then show ?case using Cons.IH [OF r] Cons.prems by (auto simp: equ_free_def split: if_splits)
qed simp

lemma words_one_two: "instruction_words_pic18 l = 1 \<or> instruction_words_pic18 l = 2"
  by (auto simp: instruction_words_pic18_def split: list.splits)

lemma hop_walk:
  assumes "is_hop m" and "resolve_from (m # ls) tab a = Some r"
  obtains tab1 a1 where "resolve_from ls tab1 a1 = Some r" and "a \<le> a1" and "a1 \<le> a + 4"
  using assms(1)
proof (cases rule: hop_entry)
  case 1
  then show ?thesis
    using assms(2) that [of tab "a + instruction_words_pic18 m * 2"] words_one_two [of m]
    by (auto simp: define_entry_def next_addr_def)
next
  case (2 x)
  then show ?thesis using assms(2) that [of "insert_label tab x a" a]
    by (auto simp: define_entry_def next_addr_def)
qed

text \<open>A branch the expansion wrote reaches its skip label.\<close>

lemma skip_reached:
  assumes iv: "skip_inv (pre @ c # post) serial" and res: "resolve_labels (pre @ c # post) = Some (tab, tot)"
    and c: "cond_skip c n" and a: "addr_after pre 0 = Some a"
  obtains t where "tab (far_skip n) = Some t" and "a + 2 \<le> t" and "t \<le> a + 8"
proof -
  obtain m rest where post: "post = m # (far_skip n @ '':'') # rest" and m: "is_hop m"
    using iv c skips_ok_tail [of pre "c # post"] by (auto simp: skip_inv_def)
  have "skip_defs n (pre @ c # post) \<le> 1" using iv by (auto simp: skip_inv_def split: if_splits)
  then have none: "skip_defs n rest = 0" using post by simp
  have equ: "equ_free rest" using iv post by (simp add: skip_inv_def)
  obtain tab0 where "resolve_from (c # post) tab0 a = Some (tab, tot)"
    using res a resolve_addr [of pre Map.empty 0]
    by (auto simp: resolve_labels_def resolve_append split: Option.bind_splits)
  then have "resolve_from (m # (far_skip n @ '':'') # rest) tab0 (a + instruction_words_pic18 c * 2) = Some (tab, tot)"
    using c post by (simp add: cond_skip_def define_entry_def next_addr_def)
  from hop_walk [OF m this] obtain tab1 a1 where
    r: "resolve_from ((far_skip n @ '':'') # rest) tab1 a1 = Some (tab, tot)"
    and b: "a + instruction_words_pic18 c * 2 \<le> a1" "a1 \<le> a + instruction_words_pic18 c * 2 + 4" .
  have "insert_label tab1 (far_skip n) a1 (far_skip n) = Some a1"
    by (simp add: insert_label_def Let_def starts_with_def far_skip_def)
  moreover have "resolve_from rest (insert_label tab1 (far_skip n) a1) a1 = Some (tab, tot)"
    using r by (simp add: define_entry_def next_addr_def)
  ultimately have "tab (far_skip n) = Some a1" using resolve_defined none equ by blast
  then show thesis using that b words_one_two [of c] by auto
qed

section \<open>The measure of the rounds\<close>

definition branch_weight :: "string \<Rightarrow> nat" where
  "branch_weight l =
     (if entry_of l = EInstr l then
        (if is_cond (fst (split_mne l)) then (if \<exists>n. snd (split_mne l) = far_skip n then 0 else 2)
         else if is_bra (fst (split_mne l)) then 1 else 0)
      else 0)"

definition stream_weight :: "string list \<Rightarrow> nat" where
  "stream_weight ls = sum_list (map branch_weight ls)"

definition no_tables :: "string list \<Rightarrow> bool" where
  "no_tables ls \<longleftrightarrow> (\<forall>l \<in> set ls. \<forall>r. entry_of l \<noteq> ETable r)"

lemma page_check_no_tables:
  "no_tables ls \<Longrightarrow> page_check tab li pw ls = Some None \<or> page_check tab li pw ls = None"
proof (induction ls arbitrary: li pw)
  case (Cons l ls)
  have IH: "page_check tab li pw ls = Some None \<or> page_check tab li pw ls = None" for li pw
    using Cons by (simp add: no_tables_def)
  have "page_check tab li pw (l # ls) = do { pw1 \<leftarrow> page_step (entry_of l) li pw; page_check tab (Suc li) pw1 ls }"
    using Cons.prems by (cases "entry_of l") (auto simp: no_tables_def)
  then show ?case using IH by (auto split: Option.bind_splits)
qed simp

text \<open>One far branch, replaced: the lines before and after it are kept.\<close>

lemma expand_lines:
  assumes "expand_branch st serial (length pre) mne target = Some (st1, serial1)"
    and "map fst st = pre @ l # post"
  obtains (bra) far where "is_bra mne" "far = ''GOTO '' \<or> far = ''CALL ''" "mne \<noteq> ''RCALL'' \<longrightarrow> far = ''GOTO ''"
      "map fst st1 = pre @ (far @ target) # post" "serial1 = serial"
    | (cond) iv where "\<not> is_bra mne" "is_cond iv" "invert_cond mne = Some iv" "serial1 = Suc serial"
      "map fst st1 =
        pre @ [iv @ '' '' @ far_skip serial, ''BRA '' @ target, far_skip serial @ '':''] @ post"
proof (cases "is_bra mne")
  case True
  then show ?thesis using assms bra [of "if mne = ''RCALL'' then ''CALL '' else ''GOTO ''"]
    by (auto simp: expand_branch_def Let_def map_update list_update_append split: if_splits)
next
  case False
  have "take (length pre) (map fst st) = pre" "drop (length pre + 1) (map fst st) = post"
    using assms(2) by simp_all
  then show ?thesis using assms(1) False cond invert_cond_some
    by (auto simp: expand_branch_def Let_def take_map [symmetric] drop_map [symmetric] split: if_splits Option.bind_splits)
qed

lemma far_line:
  assumes "far = ''GOTO '' \<or> far = ''CALL '' \<or> far = ''BRA ''"
  shows "entry_of (far @ t) \<noteq> ELabel (far_skip n)" "entry_of (far @ t) \<noteq> EEqu r" "entry_of (far @ t) \<noteq> ETable r"
    "\<not> cond_skip (far @ t) n" "branch_weight (far @ t) \<le> (if far = ''BRA '' then 1 else 0)"
proof -
  have "far @ t \<noteq> []" "hd (far @ t) \<notin> set ''eodD.:''" "hd (far @ t) \<noteq> CHR ''_''" using assms by auto
  then have "entry_of (far @ t) = EInstr (far @ t) \<or> (\<exists>x. entry_of (far @ t) = ELabel x \<and> hd x \<noteq> CHR ''_'')"
    using entry_plain [of "far @ t"] by metis
  then show "entry_of (far @ t) \<noteq> ELabel (far_skip n)" "entry_of (far @ t) \<noteq> EEqu r" "entry_of (far @ t) \<noteq> ETable r"
    using far_skip_hd [of n] by auto
  have m: "fst (split_mne (far @ t)) \<in> {''GOTO'', ''CALL'', ''BRA''}" "fst (split_mne (far @ t)) = ''BRA'' \<longleftrightarrow> far = ''BRA ''"
    using assms split_mne_bra [of t] split_mne_goto [of t] split_mne_call [of t] by (elim disjE; simp)+
  then have nc: "\<not> is_cond (fst (split_mne (far @ t)))" and bra: "is_bra (fst (split_mne (far @ t))) \<longleftrightarrow> far = ''BRA ''"
    by (auto simp: is_cond_def is_bra_def)
  then show "\<not> cond_skip (far @ t) n" "branch_weight (far @ t) \<le> (if far = ''BRA '' then 1 else 0)"
    by (simp add: cond_skip_def) (simp only: branch_weight_def nc bra if_False if_cancel, simp)
qed

lemma entry_instr_same: "entry_of l = EInstr x \<Longrightarrow> x = l"
  by (auto simp: entry_of_def split: if_splits option.splits)

lemma hop_branch: "is_hop l \<Longrightarrow> is_bra (fst (split_mne l)) \<Longrightarrow> fst (split_mne l) = ''BRA''"
  by (auto simp: is_hop_def is_bra_def split_mne_goto [simplified] split_mne_bra [simplified])

lemma expand_keeps:
  assumes iv: "skip_inv (pre @ l # post) serial" "no_tables (pre @ l # post)"
    and l: "entry_of l = EInstr l" "split_mne l = (mne, target)" "is_cond mne \<or> is_bra mne" "\<And>n. \<not> cond_skip l n"
    and st: "map fst st = pre @ l # post"
    and ex: "expand_branch st serial (length pre) mne target = Some (st1, serial1)"
  shows "skip_inv (map fst st1) serial1 \<and> no_tables (map fst st1) \<and>
    stream_weight (map fst st1) < stream_weight (map fst st)"
proof -
  have ok: "skips_ok (pre @ l # post)" "skips_ok post" using iv skips_ok_tail [of "pre @ [l]" post] by (simp_all add: skip_inv_def)
  have nl: "l \<noteq> far_skip n @ '':''" for n using l(1) entry_far_skip [of n] by auto
  have defs: "skip_defs n pre + skip_defs n post \<le> (if n < serial then 1 else 0)" for n
    using iv(1) l(1) by (auto simp: skip_inv_def dest: spec [of _ n])
  show ?thesis using ex st
  proof (cases rule: expand_lines)
    case (bra far)
    have far: "far = ''GOTO '' \<or> far = ''CALL '' \<or> far = ''BRA ''" using bra by auto
    note f = far_line [OF far, of target]
    have "is_hop (far @ target)" if "is_hop l"
      using hop_branch [OF that] l(2) bra by (auto simp: is_hop_def)
    then have "skips_ok (pre @ [far @ target] @ post)"
      by (intro skips_ok_edit [OF ok(1) _ nl]) (use ok(2) f in auto)
    moreover have "branch_weight l = 1" using l bra by (auto simp: branch_weight_def is_bra_def is_cond_def)
    moreover have "branch_weight (far @ target) = 0" using f(5) bra(2) by auto
    moreover have "skip_defs n (pre @ [far @ target] @ post) \<le> (if n < serial then 1 else 0)" for n
      using defs [of n] f(1) by simp
    moreover have "equ_free (pre @ [far @ target] @ post)" "no_tables (pre @ [far @ target] @ post)"
      using f(2,3) iv by (auto simp: skip_inv_def no_tables_def)
    ultimately show ?thesis using bra(4,5) by (simp add: skip_inv_def stream_weight_def st)
  next
    case (cond iv')
    define c b l1 where "c = iv' @ '' '' @ far_skip serial" and "b = ''BRA '' @ target" and "l1 = far_skip serial @ '':''"
    note defs_c = this
    have c: "entry_of c = EInstr c" "split_mne c = (iv', far_skip serial)"
      using inverted_line [OF cond(2)] by (simp_all add: defs_c)
    have l1: "entry_of l1 = ELabel (far_skip serial)" by (simp add: defs_c)
    note b = far_line [of "''BRA ''" target, simplified, folded defs_c(2) [simplified]]
    have "is_hop b" by (simp add: defs_c is_hop_def)
    then have "skips_ok (c # b # l1 # post)"
      using ok(2) c b(4) l1 by (auto simp: cond_skip_def defs_c(3))
    moreover have "\<not> is_hop l" using hop_not_cond [of l] l cond(1) by auto
    ultimately have "skips_ok (pre @ [c, b, l1] @ post)"
      using skips_ok_edit [OF ok(1) _ nl, of "[c, b, l1]"] by simp
    moreover have "branch_weight l = 2"
      using l cond(1) by (auto simp: branch_weight_def cond_skip_def)
    moreover have "branch_weight c = 0" "branch_weight l1 = 0" "branch_weight b \<le> 1"
      using c l1 cond(2) b(5) by (auto simp: branch_weight_def)
    moreover have "map fst st1 = pre @ [c, b, l1] @ post" using cond by (simp add: defs_c)
    moreover have "skip_defs n (pre @ [c, b, l1] @ post) \<le> (if n < Suc serial then 1 else 0)" for n
      using defs [of n] c(1) b(1) l1 by (cases "n = serial") (auto split: if_splits)
    moreover have "equ_free (pre @ [c, b, l1] @ post)" "no_tables (pre @ [c, b, l1] @ post)"
      using c(1) b(2,3) l1 iv by (auto simp: skip_inv_def no_tables_def)
    ultimately show ?thesis using cond(4) by (simp add: skip_inv_def stream_weight_def st)
  qed
qed

section \<open>The rounds end\<close>

lemma round_keeps:
  assumes iv: "skip_inv (map fst st) serial" "no_tables (map fst st)"
    and r: "asm18_round st serial = Some (Some (st1, serial1))"
  shows "skip_inv (map fst st1) serial1 \<and> no_tables (map fst st1) \<and>
    stream_weight (map fst st1) < stream_weight (map fst st)"
proof -
  obtain tab tot ins ds far where res: "resolve_labels (map fst st) = Some (tab, tot)"
    and lay: "layout_addrs (map fst st) = Some (ins, ds)" and ff: "first_far tab 0 ins = Some far"
    using r by (auto simp: asm18_round_def Let_def split: Option.bind_splits)
  have "far \<noteq> None"
    using r res lay ff page_check_no_tables [OF iv(2), of tab 0 "\<lparr>pw_addr = 0, pw_align = None, pw_instr = None\<rparr>"]
    by (auto simp: asm18_round_def Let_def split: Option.bind_splits option.splits)
  then obtain i mne target where far: "far = Some (i, mne, target)" by (cases far) auto
  then have ex: "expand_branch st serial (instr_index (map fst st) i) mne target = Some (st1, serial1)"
    using r res lay ff by (auto simp: asm18_round_def Let_def split: Option.bind_splits)
  obtain t where i: "i < length ins" and sm: "split_mne (snd (ins ! i)) = (mne, target)"
    and br: "is_cond mne \<or> is_bra mne" and t: "tab target = Some t"
    and out: "\<not> branch_in_range mne (word_offset t (fst (ins ! i)))"
    using first_far_some [OF ff [unfolded far]] by auto
  obtain pre post where ls: "map fst st = pre @ snd (ins ! i) # post" and li: "instr_index (map fst st) i = length pre"
    and l: "entry_of (snd (ins ! i)) = EInstr (snd (ins ! i))" and a: "addr_after pre 0 = Some (fst (ins ! i))"
    using layout_at [OF lay [unfolded layout_addrs_def] i] by blast
  have "\<not> cond_skip (snd (ins ! i)) n" for n
  proof
    assume cs: "cond_skip (snd (ins ! i)) n"
    then have m: "is_cond mne" "target = far_skip n" using sm by (auto simp: cond_skip_def)
    obtain t1 where t1: "tab (far_skip n) = Some t1" "fst (ins ! i) + 2 \<le> t1" "t1 \<le> fst (ins ! i) + 8"
      using skip_reached [OF iv(1) [unfolded ls] res [unfolded ls] cs a] .
    then have "t = t1" using t m by simp
    then have "0 \<le> word_offset t (fst (ins ! i))" "word_offset t (fst (ins ! i)) \<le> 3"
      using t1 by (auto simp: word_offset_def)
    then show False using out by (auto simp: branch_in_range_def split: if_splits)
  qed
  then show ?thesis using expand_keeps [OF _ _ l sm br _ ls ex [unfolded li]] iv ls by simp
qed

lemma fixpoint_ends:
  assumes "skip_inv (map fst st) serial" and "no_tables (map fst st)"
  shows "\<exists>r. asm18_fixpoint st serial = Some r"
  using assms
proof (induction "stream_weight (map fst st)" arbitrary: st serial rule: less_induct)
  case less
  show ?case
  proof (cases "asm18_round st serial")
    case None
    then show ?thesis by (subst asm18_fixpoint.simps) simp
  next
    case (Some r)
    show ?thesis
    proof (cases r)
      case None
      then show ?thesis using Some by (subst asm18_fixpoint.simps) simp
    next
      case s1: (Some p)
      obtain st1 serial1 where "p = (st1, serial1)" by (cases p)
      then have "asm18_round st serial = Some (Some (st1, serial1))" using Some s1 by simp
      with round_keeps [OF less.prems this] less.hyps show ?thesis
        by (subst asm18_fixpoint.simps) simp
    qed
  qed
qed

end
