(* ===== verification/Asm18Source.thy ===== *)
theory Asm18Source
  imports Asm18Ends "HOL-Library.Sublist"
begin

text \<open>
  From the source text to the stream: a text without a word has no entry with it, so a source that
  neither uses the reserved skip labels nor the page directive starts the rounds in their invariant.
\<close>

lemma starts_with_prefix: "starts_with p s \<longleftrightarrow> prefix p s"
  by (metis append_eq_conv_conj append_take_drop_id prefix_def starts_with_def take_is_prefix)

lemma contains_sublist: "contains_sub p s \<longleftrightarrow> sublist p s"
proof (induction s)
  case (Cons x xs)
  then show ?case by (auto simp: contains_sub_def starts_with_prefix sublist_Cons_right)
qed (simp add: contains_sub_def)

lemma sublist_trans: "sublist a b \<Longrightarrow> sublist b c \<Longrightarrow> sublist a c"
  by (rule sublist_order.order.trans)

section \<open>Pieces of a text\<close>

lemma sublist_takeWhile: "sublist (takeWhile P s) s"
  using takeWhile_is_prefix by blast

lemma sublist_dropWhile: "sublist (dropWhile P s) s"
  by (simp add: suffix_dropWhile suffix_imp_sublist)

lemma sublist_trim: "sublist (trim s) s"
proof -
  have "sublist (rev (dropWhile is_ws (rev (trim_start s)))) (rev (rev (trim_start s)))"
    unfolding sublist_rev by (rule sublist_dropWhile)
  then have "sublist (trim s) (trim_start s)" by (simp add: trim_def trim_end_by_def)
  moreover have "sublist (trim_start s) s" by (simp add: trim_start_def sublist_dropWhile)
  ultimately show ?thesis by (rule sublist_trans)
qed

lemma sublist_split: "w \<in> set (split_by P s) \<Longrightarrow> sublist w s"
proof (induction s arbitrary: w)
  case (Cons x xs)
  show ?case
  proof (cases "P x")
    case True
    then show ?thesis using Cons by (auto simp: sublist_Cons_right)
  next
    case False
    obtain u us where u: "split_by P xs = u # us" using split_by_nonempty [of P xs] by (cases "split_by P xs") auto
    have "prefix u xs" using u
    proof (induction xs arbitrary: u us)
      case (Cons y ys)
      then show ?case by (auto split: if_splits list.splits)
    qed simp
    then show ?thesis using Cons False u by (auto simp: sublist_Cons_right)
  qed
qed simp

lemma sublist_lines: "l \<in> set (str_lines s) \<Longrightarrow> sublist l s"
proof -
  assume l: "l \<in> set (str_lines s)"
  have cr: "sublist (strip_cr w) w" for w
  proof (cases "strip_suffix [CHR 0x0D] w")
    case (Some t)
    then have "w = t @ [CHR 0x0D]"
      by (cases w rule: rev_cases) (auto simp: strip_suffix_def strip_prefix_def split: if_splits)
    then show ?thesis using Some by (simp add: strip_cr_def)
  qed (simp add: strip_cr_def)
  obtain w where "w \<in> set (split_char (CHR 0x0A) s)" "l = strip_cr w \<or> l = w"
    using l last_in_set [OF split_by_nonempty, of "\<lambda>x. x = CHR 0x0A" s]
    by (auto simp: str_lines_def Let_def split_char_def split: if_splits dest: in_set_butlastD)
  then show ?thesis using cr sublist_split sublist_trans unfolding split_char_def by blast
qed

lemma sublist_comment: "sublist (strip_comment raw) raw"
proof -
  have "sublist (hd (split_char (CHR '';'') raw)) raw"
    unfolding split_char_def by (rule sublist_split [OF hd_in_set [OF split_by_nonempty]])
  then show ?thesis using sublist_trim sublist_trans unfolding strip_comment_def by blast
qed

text \<open>A word without the separator cannot straddle it.\<close>

lemma sublist_around:
  assumes "sublist p (a @ c # b)" and "c \<notin> set p"
  shows "sublist p a \<or> sublist p b"
proof -
  obtain x y where xy: "a @ c # b = x @ p @ y" using assms(1) by (auto simp: sublist_def)
  show ?thesis
  proof (cases "length x \<le> length a")
    case True
    then obtain u where u: "a = x @ u" "p @ y = u @ c # b"
      using xy by (metis (no_types, lifting) append_eq_append_conv_if append_take_drop_id append_eq_append_conv2 le_add1 length_append nle_le same_append_eq self_append_conv)
    show ?thesis
    proof (cases "length p \<le> length u")
      case True
      then have "prefix p u" using u(2) by (metis append_eq_append_conv_if prefix_def take_is_prefix)
      then obtain r where "u = p @ r" by (auto simp: prefix_def)
      then show ?thesis using u(1) by (auto simp: sublist_def)
    next
      case False
      then have "p = u @ take (length p - length u) (c # b)" using u(2)
        by (metis (no_types, lifting) append_eq_conv_conj linorder_linear take_all_iff take_append)
      then have "c \<in> set p" using False by (cases "length p - length u") auto
      then show ?thesis using assms(2) by simp
    qed
  next
    case False
    then have "drop (length a + 1) (a @ c # b) = drop (length a + 1) x @ p @ y" using xy by simp
    then have "b = drop (length a + 1) x @ p @ y" by simp
    then show ?thesis by (auto simp: sublist_def)
  qed
qed

definition word_free :: "string \<Rightarrow> string \<Rightarrow> bool" where
  "word_free p s \<longleftrightarrow> \<not> contains_sub p s"

lemma word_free_sublist: "word_free p s \<Longrightarrow> sublist t s \<Longrightarrow> word_free p t"
  unfolding word_free_def contains_sublist using sublist_trans by blast

lemma entry_lines_free:
  assumes "word_free p line" and "CHR '' '' \<notin> set p" and "CHR '':'' \<notin> set p" and "\<not> sublist p ''equ''"
    and "(l, loc1) \<in> set (entry_lines line loc)"
  shows "word_free p l"
proof (cases "find_sub '' equ '' line")
  case (Some eq)
  let ?a = "take eq line" and ?v = "trim (drop (eq + 5) line)"
  have l: "l = ''equ'' @ CHR '' '' # (?a @ CHR '' '' # ?v)" using assms(5) Some by (simp add: entry_lines_def)
  have "sublist ?a line" "sublist ?v line"
    using sublist_trim [of "drop (eq + 5) line"] sublist_trans by (auto simp: sublist_drop)
  then have "word_free p ?a" "word_free p ?v" using assms(1) word_free_sublist by blast+
  then show ?thesis using sublist_around [of p "''equ''"] sublist_around [of p ?a] assms(2,4) l
    unfolding word_free_def contains_sublist by blast
next
  case None
  show ?thesis
  proof (cases "find_sub '':'' line")
    case None': None
    then show ?thesis using assms(1,5) None by (simp add: entry_lines_def)
  next
    case (Some colon)
    let ?a = "trim (take colon line)" and ?v = "trim (drop (colon + 1) line)"
    have s: "sublist ?a line" "sublist ?v line"
      using sublist_trim [of "drop (colon + 1) line"] sublist_trim [of "take colon line"] sublist_trans
      by (meson sublist_drop sublist_take)+
    consider "l = ?a @ [CHR '':'']" | "l = ?v" | "l = line"
      using assms(5) None Some by (auto simp: entry_lines_def Let_def split: if_splits)
    then show ?thesis
    proof cases
      case 1
      have "\<not> sublist p []" using assms(4) by (cases p) auto
      then show ?thesis
        using sublist_around [of p ?a "CHR '':''" "[]"] assms(1,3) s(1) word_free_sublist 1
        unfolding word_free_def contains_sublist by blast
    qed (use assms(1) s word_free_sublist in blast)+
  qed
qed

lemma read_stream_free:
  assumes "CHR '' '' \<notin> set p" and "CHR '':'' \<notin> set p" and "\<not> sublist p ''equ''"
    and "\<forall>raw \<in> set raws. word_free p raw" and "(l, loc) \<in> set (read_stream raws locs)"
  shows "word_free p l"
  using assms(4,5)
proof (induction raws arbitrary: locs)
  case (Cons raw raws)
  have "word_free p (strip_comment raw)" using Cons.prems(1) sublist_comment word_free_sublist by auto
  note entry_lines_free [OF this assms(1,2,3)]
  then show ?case using Cons by (auto simp: Let_def split: if_splits list.splits)
qed simp

lemma source_free:
  assumes "\<not> contains_sub p src" and "CHR '' '' \<notin> set p" and "CHR '':'' \<notin> set p" and "\<not> sublist p ''equ''"
    and "l \<in> set (map fst (read_stream (str_lines src) locs))"
  shows "\<not> sublist p l"
proof -
  have "\<forall>raw \<in> set (str_lines src). word_free p raw"
    using assms(1) sublist_lines word_free_sublist unfolding word_free_def by blast
  then show ?thesis using read_stream_free [OF assms(2,3,4)] assms(5)
    by (auto simp: word_free_def contains_sublist)
qed

end
