(* ===== verification/Asm18Props.thy ===== *)
theory Asm18Props
  imports Asm18Source
begin

text \<open>
  What the 16-bit core's assembler guarantees: its rounds end on every source without computed-jump
  tables, and with a table they need not.
\<close>

section \<open>The rounds end\<close>

lemma far_skip_sub: "sublist ''__far_skip'' (far_skip n)"
  unfolding far_skip_def by (rule prefix_imp_sublist) simp

lemma mention_cond: "cond_skip l n \<Longrightarrow> sublist ''__far_skip'' l"
proof -
  assume c: "cond_skip l n"
  have r: "snd (split_mne l) = (case dropWhile (\<lambda>x. \<not> is_ws x) l of [] \<Rightarrow> [] | _ # r \<Rightarrow> trim r)"
    by (cases "dropWhile (\<lambda>x. \<not> is_ws x) l") (simp_all add: split_mne_def splitn2_def del: dropWhile_eq_Nil_conv)
  have "sublist (snd (split_mne l)) l"
  proof (cases "dropWhile (\<lambda>x. \<not> is_ws x) l")
    case Nil
    show ?thesis unfolding r Nil by simp
  next
    case (Cons x t)
    have "sublist (x # t) l" using sublist_dropWhile [of "\<lambda>x. \<not> is_ws x" l] unfolding Cons .
    moreover have "sublist (trim t) (x # t)" using sublist_trim [of t] by (simp add: sublist_Cons_right)
    ultimately show ?thesis unfolding r Cons list.case using sublist_trans by blast
  qed
  then have "sublist (far_skip n) l" using c by (simp add: cond_skip_def)
  then show ?thesis by (rule sublist_trans [OF far_skip_sub])
qed

lemma mention_label: "entry_of l = ELabel (far_skip n) \<Longrightarrow> sublist ''__far_skip'' l"
proof -
  assume "entry_of l = ELabel (far_skip n)"
  then have e: "far_skip n = trim_end_char (CHR '':'') l" by (auto simp: entry_of_def split: if_splits option.splits)
  have "sublist (rev (dropWhile (\<lambda>x. x = CHR '':'') (rev l))) (rev (rev l))"
    unfolding sublist_rev by (rule sublist_dropWhile)
  then have "sublist (far_skip n) l" by (simp add: e trim_end_char_def trim_end_by_def)
  then show ?thesis by (rule sublist_trans [OF far_skip_sub])
qed

lemma mention_equ: "entry_of l = EEqu r \<Longrightarrow> fst (splitn2 is_ws r) = far_skip n \<Longrightarrow> sublist ''__far_skip'' l"
proof -
  assume e: "entry_of l = EEqu r" and f: "fst (splitn2 is_ws r) = far_skip n"
  have "sublist r l" using e by (auto simp: entry_of_def strip_prefix_def sublist_drop split: if_splits option.splits)
  moreover have "sublist (far_skip n) r" using f sublist_takeWhile [of "\<lambda>x. \<not> is_ws x" r] by (simp add: splitn2_def)
  ultimately have "sublist (far_skip n) l" by (rule sublist_trans [rotated])
  then show ?thesis by (rule sublist_trans [OF far_skip_sub])
qed

lemma mention_table: "entry_of l = ETable r \<Longrightarrow> sublist ''.pcltbl'' l"
proof -
  assume "entry_of l = ETable r"
  then have "take (length ''.pcltbl '') l = ''.pcltbl ''"
    by (auto simp: entry_of_def strip_prefix_def split: if_splits option.splits)
  then have "prefix ''.pcltbl '' l" using take_is_prefix by metis
  then have "prefix ''.pcltbl'' l" using prefix_order.order_trans [of "''.pcltbl''" "''.pcltbl ''" l] by simp
  then show ?thesis by (rule prefix_imp_sublist)
qed

lemma fresh_invariant:
  assumes "\<forall>l \<in> set ls. \<not> sublist ''__far_skip'' l"
  shows "skip_inv ls 0"
proof -
  have "skips_ok ls" using assms mention_cond by (induction ls) auto
  moreover have "skip_defs n ls = 0" for n using assms mention_label by (induction ls) auto
  moreover have "equ_free ls" using assms mention_equ unfolding equ_free_def by blast
  ultimately show ?thesis by (simp add: skip_inv_def)
qed

text \<open>C35: The PIC18 assembler returns. Its loop expands one branch out of range or pads one table per turn
  until neither is left; on every source text that has no computed-jump table and does not use the
  reserved \<open>__far_skip\<close> names, the loop ends, in a result or in a panic: a branch it wrote itself always
  reaches its skip label, so each turn consumes a branch of the source.
\<close>

theorem asm18_ends:
  assumes "\<not> contains_sub ''__far_skip'' src" and "\<not> contains_sub ''.pcltbl'' src"
  shows "\<exists>r. assemble_pic18_with_locs src locs = Some r"
proof -
  let ?st = "read_stream (str_lines src) locs"
  have "\<forall>l \<in> set (map fst ?st). \<not> sublist ''__far_skip'' l"
    using source_free [OF assms(1)] by (simp add: sublist_code)
  then have "skip_inv (map fst ?st) 0" by (rule fresh_invariant)
  moreover have "\<forall>l \<in> set (map fst ?st). \<not> sublist ''.pcltbl'' l"
    using source_free [OF assms(2)] by (simp add: sublist_code)
  then have "no_tables (map fst ?st)" using mention_table unfolding no_tables_def by blast
  ultimately obtain r where "asm18_fixpoint ?st 0 = Some r" using fixpoint_ends by blast
  then show ?thesis by (simp add: assemble_pic18_with_locs_def split: option.splits)
qed

lemma asm18_ends_witness:
  "\<exists>r. assemble_pic18_with_locs
     (''  BZ far'' @ [CHR 0x0A] @ ''  org 0x0400'' @ [CHR 0x0A] @ ''far: BRA far'') [Some 7] = Some r"
  by (rule asm18_ends) code_simp+

section \<open>The padding need not end\<close>

lemma resolve_nops: "resolve_from (replicate n ''NOP'' @ ls) tab org = resolve_from ls tab (org + 2 * n)"
proof (induction n arbitrary: org)
  case (Suc n)
  have "entry_of ''NOP'' = EInstr ''NOP''" "instruction_words_pic18 ''NOP'' = 1" by code_simp+
  then show ?case using Suc by (simp add: define_entry_def next_addr_def)
qed simp

lemma layout_nops:
  "layout_from ls (org + 2 * n) = Some (ins, ds) \<Longrightarrow>
   layout_from (replicate n ''NOP'' @ ls) org = Some (map (\<lambda>j. (org + 2 * j, ''NOP'')) [0..<n] @ ins, ds)"
proof (induction n arbitrary: org)
  case (Suc n)
  have "entry_of ''NOP'' = EInstr ''NOP''" "instruction_words_pic18 ''NOP'' = 1" by code_simp+
  moreover have "layout_from (replicate n ''NOP'' @ ls) (org + 2) =
      Some (map (\<lambda>j. (org + 2 + 2 * j, ''NOP'')) [0..<n] @ ins, ds)"
    using Suc by (simp add: algebra_simps)
  ultimately show ?case by (simp add: next_addr_def map_upt_Suc del: upt_Suc)
qed simp

lemma first_far_nops: "first_far tab i (map (\<lambda>j. (f j, ''NOP'')) [0..<n] @ ins) = first_far tab (i + n) ins"
proof (induction n arbitrary: i f)
  case (Suc n)
  have "split_mne ''NOP'' = (''NOP'', [])" "\<not> is_cond ''NOP''" "\<not> is_bra ''NOP''" by code_simp+
  then show ?case using Suc [of "Suc i" "\<lambda>j. f (Suc j)"] by (simp add: map_upt_Suc del: upt_Suc)
qed simp

lemma page_check_nops:
  obtains pw1 where "page_check tab li pw (replicate n ''NOP'' @ ls) = page_check tab (li + n) pw1 ls"
    and "pw_addr pw1 = pw_addr pw + 2 * n" and "pw_align pw1 = pw_align pw"
proof (induction n arbitrary: li pw thesis)
  case (Suc n)
  have e: "entry_of ''NOP'' = EInstr ''NOP''" "instruction_words_pic18 ''NOP'' = 1" by code_simp+
  let ?pw = "pw\<lparr>pw_instr := Some (pw_addr pw, ''NOP''), pw_addr := pw_addr pw + 2\<rparr>"
  obtain pw1 where "page_check tab (Suc li) ?pw (replicate n ''NOP'' @ ls) = page_check tab (Suc li + n) pw1 ls"
    "pw_addr pw1 = pw_addr ?pw + 2 * n" "pw_align pw1 = pw_align ?pw"
    by (rule Suc.IH)
  then show ?case using Suc.prems [of pw1] e by (simp add: page_step_def)
qed simp

text \<open>A table of a whole page behind its dispatch, anchored in mid-page and already padded \<open>k\<close> times.\<close>

definition padded :: "nat \<Rightarrow> stream" where
  "padded k =
     [(''org 0x80'', None), (''.pclalign'', None)] @ replicate (64 * k) (''NOP'', None) @
     [(''ADDWF 0xFF9,F,A'', None), (''t:'', None), (''.pcltbl t 256'', None)]"

lemma padded_entries:
  "entry_of ''org 0x80'' = EOrg ''0x80''" "entry_of ''.pclalign'' = EAlign"
  "entry_of ''ADDWF 0xFF9,F,A'' = EInstr ''ADDWF 0xFF9,F,A''" "entry_of ''t:'' = ELabel ''t''"
  "entry_of ''.pcltbl t 256'' = ETable ''t 256''" "instruction_words_pic18 ''ADDWF 0xFF9,F,A'' = 1"
  "split_mne ''ADDWF 0xFF9,F,A'' = (''ADDWF'', ''0xFF9,F,A'')" "is_dispatch ''ADDWF 0xFF9,F,A''"
  "split_ws ''t 256'' = [''t'', ''256'']" "\<not> is_cond ''ADDWF''" "\<not> is_bra ''ADDWF''"
  by code_simp+

lemma padded_numbers: "parse_num (trim ''0x80'') = Some 128" "parse_num ''256'' = Some 256"
  by (simp_all add: parse_num_def str_eval)

lemma padded_round: "asm18_round (padded k) s = Some (Some (padded (Suc k), s))"
proof -
  let ?ls = "map fst (padded k)" and ?tail = "[''ADDWF 0xFF9,F,A'', ''t:'', ''.pcltbl t 256'']"
  let ?o = "128 + 2 * (64 * k)" and ?pw = "\<lparr>pw_addr = 0, pw_align = None, pw_instr = None\<rparr>"
  let ?tab = "insert_label Map.empty ''t'' (?o + 2)"
  have ls: "?ls = ''org 0x80'' # ''.pclalign'' # replicate (64 * k) ''NOP'' @ ?tail"
    by (simp add: padded_def map_replicate_const)
  have tab: "resolve_labels ?ls = Some (?tab, ?o + 2)"
    unfolding ls resolve_labels_def
    by (simp add: padded_entries padded_numbers define_entry_def next_addr_def resolve_nops)
  have "layout_from ?tail ?o = Some ([(?o, ''ADDWF 0xFF9,F,A'')], [])"
    by (simp add: padded_entries padded_numbers next_addr_def)
  from layout_nops [OF this] have lay:
    "layout_addrs ?ls = Some (map (\<lambda>j. (128 + 2 * j, ''NOP'')) [0..<64 * k] @ [(?o, ''ADDWF 0xFF9,F,A'')], [])"
    unfolding ls layout_addrs_def by (simp add: padded_entries padded_numbers next_addr_def)
  have far: "first_far ?tab 0 (map (\<lambda>j. (128 + 2 * j, ''NOP'')) [0..<64 * k] @ [(?o, ''ADDWF 0xFF9,F,A'')]) = Some None"
    unfolding first_far_nops by (simp add: padded_entries padded_numbers)
  obtain pw1 where pw1: "page_check ?tab 2 (?pw\<lparr>pw_addr := 128, pw_align := Some (1, 128)\<rparr>)
      (replicate (64 * k) ''NOP'' @ ?tail) = page_check ?tab (2 + 64 * k) pw1 ?tail"
    "pw_addr pw1 = ?o" "pw_align pw1 = Some (1, 128)"
    by (rule page_check_nops [of ?tab 2 "?pw\<lparr>pw_addr := 128, pw_align := Some (1, 128)\<rparr>" "64 * k" ?tail]) simp
  have "(?o + 2) mod 256 \<noteq> 0" by presburger
  then have "256 < ((?o + 2) AND 0xFF) + 256" by (simp add: nat_and_ff)
  then have "page_check ?tab (2 + 64 * k) pw1 ?tail = Some (Some (1, 64))"
    using pw1(2,3)
    by (simp add: padded_entries padded_numbers page_step_def next_addr_def table_pad_def operand_def insert_label_def Let_def nat_and_ff)
  then have "page_check ?tab 0 ?pw ?ls = Some (Some (1, 64))"
    unfolding ls using pw1(1) by (simp add: padded_entries padded_numbers page_step_def next_addr_def numeral_2_eq_2)
  moreover have "pad_after (padded k) 1 64 = padded (Suc k)"
    by (simp add: pad_after_def padded_def replicate_add [symmetric] numeral_2_eq_2)
  ultimately show ?thesis using tab lay far by (simp add: asm18_round_def Let_def)
qed

lemma padded_never_ends:
  assumes y: "asm18_fixpoint st s = Some y"
  shows "\<forall>k. st \<noteq> padded k"
proof (rule asm18_fixpoint.raw_induct [where P = "\<lambda>st s y. \<forall>k. st \<noteq> padded k", OF _ y])
  fix f st s y
  assume IH: "\<And>st s y. f st s = Some y \<Longrightarrow> \<forall>k. st \<noteq> padded k"
    and e: "(case asm18_round st s of None \<Rightarrow> Some None | Some None \<Rightarrow> Some (Some st)
      | Some (Some (st1, serial1)) \<Rightarrow> f st1 serial1) = Some y"
  show "\<forall>k. st \<noteq> padded k"
  proof (rule allI, rule notI)
    fix k assume "st = padded k"
    then have "f (padded (Suc k)) s = Some y" using e by (simp add: padded_round)
    from IH [OF this] show False by blast
  qed
qed

lemma padded_diverges: "asm18_fixpoint (padded k) s = None"
  using padded_never_ends by (cases "asm18_fixpoint (padded k) s") auto

text \<open>C36: The padding of computed-jump tables need not end. The marked NOPs go after the anchor, so the
  anchor's own address never reaches the page boundary the guard against padding forever tests for: a
  table of 256 bytes behind its dispatch, anchored at address 0x80, is padded again in every turn, and
  the assembler does not return on this five-line source.
\<close>

theorem asm18_padding_diverges:
  "assemble_pic18_with_locs
     (''org 0x80'' @ [CHR 0x0A] @ ''.pclalign'' @ [CHR 0x0A] @ ''ADDWF 0xFF9,F,A'' @ [CHR 0x0A] @
      ''t:'' @ [CHR 0x0A] @ ''.pcltbl t 256'' @ [CHR 0x0A]) [] = None"
proof -
  have "read_stream (str_lines
     (''org 0x80'' @ [CHR 0x0A] @ ''.pclalign'' @ [CHR 0x0A] @ ''ADDWF 0xFF9,F,A'' @ [CHR 0x0A] @
      ''t:'' @ [CHR 0x0A] @ ''.pcltbl t 256'' @ [CHR 0x0A])) [] = padded 0"
    by code_simp
  then show ?thesis using padded_diverges [of 0 0] by (simp only: assemble_pic18_with_locs_def option.case)
qed

end
