(* ===== verification/Asm18Run.thy ===== *)
theory Asm18Run
  imports Asm18Ends Sim18Facts
begin

text \<open>
  The words of the 16-bit core's assembler on the core: in a layout whose addresses only grow, each
  instruction's words stand at its address, and a branch of the finished stream goes to its label.
\<close>

section \<open>The words stand where the layout put them\<close>

text \<open>Addresses stay even and no \<open>org\<close> goes back.\<close>

fun tidy :: "string list \<Rightarrow> nat \<Rightarrow> bool" where
  "tidy [] org = True"
| "tidy (l # ls) org =
     (case next_addr (entry_of l) org of
        None \<Rightarrow> True
      | Some o1 \<Rightarrow> org \<le> o1 \<and> even o1 \<and> tidy ls o1)"

definition apart :: "nat \<times> string \<Rightarrow> nat \<Rightarrow> bool" where
  "apart = (\<lambda>(a, l) d. d div 2 < a div 2 \<or> a div 2 + instruction_words_pic18 l \<le> d div 2)"

fun spaced :: "(nat \<times> string) list \<Rightarrow> bool" where
  "spaced [] = True"
| "spaced ((a, l) # ins) =
     ((\<forall>(b, m) \<in> set ins. a div 2 + instruction_words_pic18 l \<le> b div 2) \<and> spaced ins)"

lemma layout_Cons:
  assumes "layout_from (l # ls) org = Some (ins, ds)"
  obtains o1 ins1 ds1 where "next_addr (entry_of l) org = Some o1" and "layout_from ls o1 = Some (ins1, ds1)"
    and "ins = (if entry_of l = EInstr l then (org, l) # ins1 else ins1)"
    and "ds = (case entry_of l of EDb toks \<Rightarrow> db_bytes org toks | _ \<Rightarrow> []) @ ds1"
proof -
  obtain o1 ins1 ds1 where n: "next_addr (entry_of l) org = Some o1" and lay: "layout_from ls o1 = Some (ins1, ds1)"
    using assms by (auto split: Option.bind_splits)
  have "ins = (if entry_of l = EInstr l then (org, l) # ins1 else ins1)"
    "ds = (case entry_of l of EDb toks \<Rightarrow> db_bytes org toks | _ \<Rightarrow> []) @ ds1"
    using assms n lay by (cases "entry_of l"; auto dest: entry_instr_same)+
  then show thesis using that n lay by blast
qed

lemma layout_tidy:
  assumes "layout_from ls org = Some (ins, ds)" and "tidy ls org" and "even org"
  shows "(\<forall>(a, l) \<in> set ins. org div 2 \<le> a div 2 \<and> even a) \<and> (\<forall>(d, t) \<in> set ds. org div 2 \<le> d div 2) \<and>
    spaced ins \<and> (\<forall>x \<in> set ins. \<forall>(d, t) \<in> set ds. apart x d)"
  using assms
proof (induction ls arbitrary: org ins ds)
  case (Cons l ls)
  obtain o1 ins1 ds1 where n: "next_addr (entry_of l) org = Some o1" and lay: "layout_from ls o1 = Some (ins1, ds1)"
    and ins: "ins = (if entry_of l = EInstr l then (org, l) # ins1 else ins1)"
    and ds: "ds = (case entry_of l of EDb toks \<Rightarrow> db_bytes org toks | _ \<Rightarrow> []) @ ds1"
    using layout_Cons [OF Cons.prems(1)] by blast
  have o1: "org \<le> o1" "even o1" "tidy ls o1" using Cons.prems(2) n by simp_all
  note IH = Cons.IH [OF lay o1(3,2)]
  have le: "org div 2 \<le> o1 div 2" using o1(1) by (rule div_le_mono)
  consider (instr) "entry_of l = EInstr l" | (db) toks where "entry_of l = EDb toks"
    | (other) "entry_of l \<noteq> EInstr l" "\<And>toks. entry_of l \<noteq> EDb toks" by blast
  then show ?case
  proof cases
    case instr
    then have "ds = ds1" using ds by simp
    moreover have "o1 div 2 = org div 2 + instruction_words_pic18 l" using n instr Cons.prems(3) by (auto simp: next_addr_def)
    ultimately show ?thesis using IH ins instr Cons.prems(3) le by (fastforce simp: apart_def)
  next
    case (db toks)
    have o1: "o1 = org + length toks" using n db by (simp add: next_addr_def)
    have same: "ins = ins1" "ds = db_bytes org toks @ ds1" using ins ds db by simp_all
    have d: "org \<le> d \<and> d < o1" if "(d, t) \<in> set (db_bytes org toks)" for d t
      using that o1 by (auto simp: db_bytes_def dest: set_zip_leftD)
    then have "org div 2 \<le> d div 2 \<and> d div 2 < o1 div 2" if "(d, t) \<in> set (db_bytes org toks)" for d t
      using that \<open>even o1\<close> Cons.prems(3) by (metis div_le_mono div_less_mono even_iff_mod_2_eq_zero less_mult_imp_div_less linorder_not_less dvd_div_mult_self)
    then show ?thesis using IH same le by (fastforce simp: apart_def)
  next
    case other
    then have "ins = ins1" "ds = ds1" using ins ds by (auto split: entry.splits)
    then show ?thesis using IH le by fastforce
  qed
qed simp

lemmas enc18_tables = enc18_plain_def enc18_dest_def enc18_file_def enc18_bit_def enc18_lit_def enc18_cond_def

lemma table_one_word:
  assumes "mne \<in> {''GOTO'', ''CALL'', ''LFSR'', ''MOVFF''}"
  shows "map_of enc18_plain mne = None \<and> map_of enc18_dest mne = None \<and> map_of enc18_file mne = None \<and>
   map_of enc18_bit mne = None \<and> map_of enc18_lit mne = None \<and> map_of enc18_cond mne = None" (is "?P mne")
proof -
  have "list_all ?P [''GOTO'', ''CALL'', ''LFSR'', ''MOVFF'']" by code_simp
  moreover have "mne \<in> set [''GOTO'', ''CALL'', ''LFSR'', ''MOVFF'']" using assms by (simp only: set_simps)
  ultimately show ?thesis unfolding list_all_iff by (rule bspec)
qed

text \<open>Every arm but the four of the two-word forms gives one word.\<close>

definition one_word :: "u16 list option \<Rightarrow> bool" where
  "one_word r \<longleftrightarrow> (\<forall>ws. r = Some ws \<longrightarrow> length ws = 1)"

lemma one_word_intros:
  "one_word None" "one_word (Some [w])"
  "(\<And>x. one_word (f x)) \<Longrightarrow> one_word (Option.bind m f)"
  "(c \<Longrightarrow> one_word r) \<Longrightarrow> (\<not> c \<Longrightarrow> one_word s) \<Longrightarrow> one_word (if c then r else s)"
  "one_word r \<Longrightarrow> (\<And>x. one_word (g x)) \<Longrightarrow> one_word (case opt of None \<Rightarrow> r | Some x \<Rightarrow> g x)"
  by (auto simp: one_word_def split: Option.bind_splits option.splits)

lemma encode_one_word:
  assumes "mne \<notin> {''GOTO'', ''CALL'', ''LFSR'', ''MOVFF''}"
  shows "one_word (encode18_parts addr tab mne rest ops)"
  unfolding encode18_parts_def enc18_branch_def enc18_bra_def Let_def
  by (intro one_word_intros) (use assms in simp_all)

lemma encode_parts_length:
  assumes "encode18_parts addr tab mne rest ops = Some ws"
  shows "length ws = (if mne \<in> {''GOTO'', ''CALL'', ''LFSR'', ''MOVFF''} then 2 else 1)"
proof (cases "mne \<in> {''GOTO'', ''CALL'', ''LFSR'', ''MOVFF''}")
  case True
  then show ?thesis using assms table_one_word [OF True]
    by (auto simp: encode18_parts_def far_words_def Let_def enc18_call_def enc18_lfsr_def enc18_movff_def
        split: Option.bind_splits if_splits)
next
  case False
  then show ?thesis using assms encode_one_word [OF False] by (simp add: one_word_def)
qed

lemma empty_mnemonic: "encode18_parts addr tab [] rest ops = None"
  by (simp add: encode18_parts_def enc18_tables)

lemma mnemonic_word:
  assumes "fst (split_mne line) \<noteq> []"
  obtains m ms where "split_ws line = m # ms" and "to_upper m = fst (split_mne line)"
proof -
  let ?m = "takeWhile (\<lambda>x. \<not> is_ws x) line"
  have m: "fst (split_mne line) = to_upper ?m" by (simp add: split_mne_def splitn2_def)
  then have ne: "?m \<noteq> []" using assms by (auto simp: to_upper_def)
  have nb: "\<forall>x \<in> set ?m. \<not> is_ws x" by (auto dest: set_takeWhileD)
  show thesis
  proof (cases "dropWhile (\<lambda>x. \<not> is_ws x) line")
    case Nil
    then have "line = ?m" using takeWhile_dropWhile_id [of "\<lambda>x. \<not> is_ws x" line] by (metis append_Nil2)
    then show ?thesis using that [of ?m "[]"] split_ws_word [OF nb ne] m by simp
  next
    case (Cons x r)
    then have "line = ?m @ x # r" using takeWhile_dropWhile_id [of "\<lambda>x. \<not> is_ws x" line] by simp
    moreover have "is_ws x" using Cons by (metis dropWhile_eq_Cons_conv)
    ultimately have "split_ws line = ?m # split_ws r" using split_ws_cons [OF nb ne] by metis
    then show ?thesis using that m by simp
  qed
qed

lemma encode_length:
  assumes "encode_pic18 addr line tab = Some ws"
  shows "length ws = instruction_words_pic18 line"
proof -
  obtain mne rest where s: "split_mne line = (mne, rest)" by (cases "split_mne line")
  have e: "encode18_parts addr tab mne rest (map trim (split_char (CHR '','') rest)) = Some ws"
    using assms s by (simp add: encode_pic18_def)
  then have "mne \<noteq> []" using empty_mnemonic by auto
  then obtain m ms where "split_ws line = m # ms" "to_upper m = mne" using mnemonic_word [of line] s by auto
  then show ?thesis using encode_parts_length [OF e] by (simp add: instruction_words_pic18_def)
qed

text \<open>Storing the encoded words.\<close>

lemma two_updates: "Suc k < length xs \<Longrightarrow> xs[k := v, Suc k := w] = take k xs @ [v, w] @ drop (k + 2) xs"
proof (induction k arbitrary: xs)
  case 0
  then show ?case by (cases xs; cases "tl xs") auto
next
  case (Suc k)
  then show ?case by (cases xs) auto
qed

lemma emit18_Cons:
  assumes "emit18 tab ((a, l) # ins) out = Some out1"
  obtains ws where "encode_pic18 a l tab = Some ws" and "length ws = instruction_words_pic18 l"
    and "a div 2 + length ws \<le> length out"
    and "emit18 tab ins (take (a div 2) out @ ws @ drop (a div 2 + length ws) out) = Some out1"
proof -
  obtain ws where ws: "encode_pic18 a l tab = Some ws" using assms by (auto split: Option.bind_splits)
  have n: "length ws = instruction_words_pic18 l" using encode_length [OF ws] .
  have bound: "a div 2 + length ws \<le> length out"
    using assms ws n words_one_two [of l] by (auto split: if_splits)
  consider w where "ws = [w]" | v w where "ws = [v, w]"
    using n words_one_two [of l] by (metis (no_types, opaque_lifting) One_nat_def length_0_conv length_Suc_conv numeral_2_eq_2)
  then have "emit18 tab ins (take (a div 2) out @ ws @ drop (a div 2 + length ws) out) = Some out1"
  proof cases
    case 1
    then show ?thesis using assms ws bound by (simp add: upd_conv_take_nth_drop split: if_splits)
  next
    case 2
    have "out[a div 2 := v, a div 2 + 1 := w] = take (a div 2) out @ [v, w] @ drop (a div 2 + 2) out"
      using bound 2 two_updates [of "a div 2" out v w] by simp
    then show ?thesis using assms ws bound 2 by (simp add: Let_def split: if_splits)
  qed
  then show thesis using that ws n bound by blast
qed

lemma emit18_keeps:
  assumes "emit18 tab ins out = Some out1" and "\<forall>(b, m) \<in> set ins. i < b div 2"
  shows "out1 ! i = out ! i \<and> length out1 = length out"
  using assms
proof (induction ins arbitrary: out)
  case (Cons x ins)
  obtain a l where x: "x = (a, l)" by (cases x)
  obtain ws where b: "a div 2 + length ws \<le> length out"
    and r: "emit18 tab ins (take (a div 2) out @ ws @ drop (a div 2 + length ws) out) = Some out1"
    using emit18_Cons Cons.prems(1) x by metis
  have "i < a div 2" using Cons.prems(2) x by auto
  then show ?case using Cons.IH [OF r] Cons.prems(2) b by (auto simp: nth_append)
qed simp

lemma emit18_length: "emit18 tab ins out = Some out1 \<Longrightarrow> length out1 = length out"
proof (induction ins arbitrary: out)
  case (Cons x ins)
  obtain a l where x: "x = (a, l)" by (cases x)
  obtain ws where "a div 2 + length ws \<le> length out"
    and r: "emit18 tab ins (take (a div 2) out @ ws @ drop (a div 2 + length ws) out) = Some out1"
    using emit18_Cons Cons.prems(1) x by metis
  then show ?case using Cons.IH [OF r] by simp
qed simp

lemma emit18_lands:
  assumes "emit18 tab ins out = Some out1" and "spaced ins" and "(a, l) \<in> set ins"
  shows "\<exists>ws. encode_pic18 a l tab = Some ws \<and> length ws = instruction_words_pic18 l \<and>
    a div 2 + length ws \<le> length out1 \<and> (\<forall>j < length ws. out1 ! (a div 2 + j) = ws ! j)"
  using assms
proof (induction ins arbitrary: out)
  case (Cons x ins)
  obtain b m where x: "x = (b, m)" by (cases x)
  obtain ws where ws: "encode_pic18 b m tab = Some ws" "length ws = instruction_words_pic18 m"
    and bound: "b div 2 + length ws \<le> length out"
    and r: "emit18 tab ins (take (b div 2) out @ ws @ drop (b div 2 + length ws) out) = Some out1"
    using emit18_Cons Cons.prems(1) x by metis
  show ?case
  proof (cases "(a, l) = x")
    case True
    have "\<forall>(c, n) \<in> set ins. b div 2 + j < c div 2" if "j < length ws" for j
      using Cons.prems(2) x that ws(2) by fastforce
    then have keep: "out1 ! (b div 2 + j) = ws ! j" if "j < length ws" for j
      using emit18_keeps [OF r, of "b div 2 + j"] that bound by (auto simp: nth_append)
    have "0 < length ws" using ws(2) words_one_two [of m] by auto
    then show ?thesis using True x ws bound keep emit18_length [OF Cons.prems(1)] by auto
  next
    case False
    then show ?thesis using Cons.IH [OF r] Cons.prems(2,3) x by auto
  qed
qed simp

lemma emit_db_keeps:
  assumes "emit_db tab ds out = Some out1" and "\<forall>(d, t) \<in> set ds. d div 2 \<noteq> i"
  shows "out1 ! i = out ! i \<and> length out1 = length out"
  using assms
proof (induction ds arbitrary: out)
  case (Cons x ds)
  then show ?case by (cases x) (fastforce split: Option.bind_splits if_splits)
qed simp

end
