(* ===== verification/Asm18Lands.thy ===== *)
theory Asm18Lands
  imports Asm18Run
begin

section \<open>Branch words on the core\<close>

text \<open>When a branch is taken, on the status byte: carry, zero, overflow and sign in bits 0, 2, 3, 4.\<close>

definition branch_taken :: "string \<Rightarrow> u8 \<Rightarrow> bool" where
  "branch_taken mne status =
     (if mne = ''BRA'' then True
      else if mne = ''BZ'' then bit status 2 else if mne = ''BNZ'' then \<not> bit status 2
      else if mne = ''BC'' then bit status 0 else if mne = ''BNC'' then \<not> bit status 0
      else if mne = ''BOV'' then bit status 3 else if mne = ''BNOV'' then \<not> bit status 3
      else if mne = ''BN'' then bit status 4 else \<not> bit status 4)"

lemma cond_code:
  assumes "is_cond mne"
  obtains cc where "cc < 8" and "map_of enc18_cond mne = Some (0xE000 OR of_nat (cc * 256))"
    and "map_of enc18_plain mne = None" "map_of enc18_dest mne = None" "map_of enc18_file mne = None"
      "map_of enc18_bit mne = None" "map_of enc18_lit mne = None"
    and "\<And>status. branch_taken mne status =
      (if cc = 0 then bit status 2 else if cc = 1 then \<not> bit status 2
       else if cc = 2 then bit status 0 else if cc = 3 then \<not> bit status 0
       else if cc = 4 then bit status 3 else if cc = 5 then \<not> bit status 3
       else if cc = 6 then bit status 4 else \<not> bit status 4)"
proof -
  have "list_all (\<lambda>(mne, cc). map_of enc18_cond mne = Some (0xE000 OR of_nat (cc * 256)) \<and>
      map_of enc18_plain mne = None \<and> map_of enc18_dest mne = None \<and> map_of enc18_file mne = None \<and>
      map_of enc18_bit mne = None \<and> map_of enc18_lit mne = None)
    (zip [''BZ'', ''BNZ'', ''BC'', ''BNC'', ''BOV'', ''BNOV'', ''BN'', ''BNN''] [0..<8])"
    by code_simp
  then have t: "map_of enc18_cond mne = Some (0xE000 OR of_nat (cc * 256)) \<and>
      map_of enc18_plain mne = None \<and> map_of enc18_dest mne = None \<and> map_of enc18_file mne = None \<and>
      map_of enc18_bit mne = None \<and> map_of enc18_lit mne = None"
    if "(mne, cc) \<in> set (zip [''BZ'', ''BNZ'', ''BC'', ''BNC'', ''BOV'', ''BNOV'', ''BN'', ''BNN''] [0..<8])" for mne cc
    using that unfolding list_all_iff by blast
  have up: "[0..<8] = [0, 1, 2, 3, 4, 5, 6, 7 :: nat]" by (simp add: upt_rec)
  note pair = t [unfolded up zip_Cons_Cons zip.simps set_simps]
  show thesis using assms unfolding is_cond_def
  proof (elim insertE emptyE)
    assume m: "mne = ''BZ''" then show thesis using pair [of mne 0] by (intro that [of 0]) (simp_all add: branch_taken_def)
  next
    assume m: "mne = ''BNZ''" then show thesis using pair [of mne 1] by (intro that [of 1]) (simp_all add: branch_taken_def)
  next
    assume m: "mne = ''BC''" then show thesis using pair [of mne 2] by (intro that [of 2]) (simp_all add: branch_taken_def)
  next
    assume m: "mne = ''BNC''" then show thesis using pair [of mne 3] by (intro that [of 3]) (simp_all add: branch_taken_def)
  next
    assume m: "mne = ''BOV''" then show thesis using pair [of mne 4] by (intro that [of 4]) (simp_all add: branch_taken_def)
  next
    assume m: "mne = ''BNOV''" then show thesis using pair [of mne 5] by (intro that [of 5]) (simp_all add: branch_taken_def)
  next
    assume m: "mne = ''BN''" then show thesis using pair [of mne 6] by (intro that [of 6]) (simp_all add: branch_taken_def)
  next
    assume m: "mne = ''BNN''" then show thesis using pair [of mne 7] by (intro that [of 7]) (simp_all add: branch_taken_def)
  qed
qed

lemma low_bits: "of_int n AND 0xFF = (of_nat (nat (n mod 256)) :: u16)" "of_int n AND 0x7FF = (of_nat (nat (n mod 2048)) :: u16)"
proof -
  have "of_int n AND mask k = (of_int (take_bit k n) :: u16)" for k
    by (simp add: take_bit_eq_mask [symmetric] take_bit_of_int)
  from this [of 8] this [of 11]
  show "of_int n AND 0xFF = (of_nat (nat (n mod 256)) :: u16)" "of_int n AND 0x7FF = (of_nat (nat (n mod 2048)) :: u16)"
    by (simp_all add: mask_eq_exp_minus_1 take_bit_eq_mod of_nat_nat)
qed

lemma cond_word:
  assumes "cc < 8" and "m < 256"
  shows "(0xE000 OR of_nat (cc * 256)) OR of_nat m = (of_nat (0xE000 + cc * 256 + m) :: u16)"
proof -
  have "push_bit 8 (of_nat (0xE0 + cc)) OR of_nat m = (of_nat ((0xE0 + cc) * 2 ^ 8 + m) :: u16)"
    using assms by (intro or_eq_add) simp
  moreover have "push_bit 11 (of_nat 0x1C) OR of_nat (cc * 256) = (of_nat (0x1C * 2 ^ 11 + cc * 256) :: u16)"
    using assms by (intro or_eq_add) simp
  ultimately show ?thesis by (simp add: push_bit_eq_mult algebra_simps)
qed

lemma bra_word18: "m < 2048 \<Longrightarrow> 0xD000 OR of_nat m = (of_nat (0xD000 + m) :: u16)"
  using or_eq_add [of m 11 "0x1A", where 'a = 16] by (simp add: push_bit_eq_mult)

lemma signed_byte:
  assumes "- 128 \<le> n" and "n \<le> 127"
  shows "(scast (of_nat (nat (n mod 256)) :: u8) :: u32) = of_int n"
proof -
  have "(of_int (take_bit 8 n) :: u8) = take_bit 8 (of_int n)" by (simp only: take_bit_of_int)
  also have "\<dots> = of_int n" by (rule take_bit_word_eq_self) simp
  finally have "(of_nat (nat (n mod 256)) :: u8) = of_int n" by (simp add: of_nat_nat take_bit_eq_mod)
  moreover have "sint (of_int n :: u8) = n"
    using assms by (simp add: signed_of_int signed_take_bit_int_eq_self)
  ultimately show ?thesis by (simp add: scast_eq)
qed

lemma branch_target_word:
  assumes "a < 2 ^ 32"
  shows "p18_branch_target (of_nat a) (of_int (word_offset t a)) = of_nat (t div 2 * 2)"
proof -
  have "drop_bit 1 (of_nat a :: u32) = of_nat (a div 2)"
    using assms by (intro word_unat_eq_iff [THEN iffD2]) (simp add: unat_drop_bit_div unat_of_nat take_bit_eq_mod)
  moreover have "(of_nat (a div 2) :: u32) + 1 + of_int (word_offset t a) = of_nat (t div 2)"
    by (simp add: word_offset_def)
  ultimately show ?thesis by (simp add: p18_branch_target_def)
qed

lemma dispatch_cond:
  assumes "0xE000 \<le> unat w" and "unat w \<le> 0xE7FF"
  shows "p18_dispatch s pc w = Some (p18_exec_cond_branch s pc w)"
proof -
  have ne: "w \<noteq> of_nat k" if "k < 0xE000" for k
    using assms that by (auto simp: unat_of_nat)
  have "w \<noteq> 0" "w \<noteq> 3" "w \<noteq> 4" "w \<noteq> 5" "w \<noteq> 6" "w \<noteq> 7" "w \<noteq> 0xFF"
    using ne [of 0] ne [of 3] ne [of 4] ne [of 5] ne [of 6] ne [of 7] ne [of "0xFF"] by simp_all
  moreover have "0xE000 \<le> w" "w \<le> 0xE7FF" "\<not> w \<le> 0x0FFF" "\<not> w \<le> 0x6FFF" "\<not> w \<le> 0xBFFF"
    using assms by (simp_all add: word_le_nat_alt)
  ultimately show ?thesis by (simp add: p18_dispatch_def)
qed

lemma dispatch_bra:
  assumes "0xD000 \<le> unat w" and "unat w \<le> 0xDFFF"
  shows "p18_dispatch s pc w = p18_exec_bra_rcall s pc w"
proof -
  have ne: "w \<noteq> of_nat k" if "k < 0xD000" for k
    using assms that by (auto simp: unat_of_nat)
  have "w \<noteq> 0" "w \<noteq> 3" "w \<noteq> 4" "w \<noteq> 5" "w \<noteq> 6" "w \<noteq> 7" "w \<noteq> 0xFF"
    using ne [of 0] ne [of 3] ne [of 4] ne [of 5] ne [of 6] ne [of 7] ne [of "0xFF"] by simp_all
  moreover have "0xD000 \<le> w" "w \<le> 0xDFFF" "\<not> w \<le> 0x0FFF" "\<not> w \<le> 0x6FFF" "\<not> w \<le> 0xBFFF" "\<not> 0xE000 \<le> w"
    using assms by (simp_all add: word_le_nat_alt)
  ultimately show ?thesis by (simp add: p18_dispatch_def)
qed

text \<open>One conditional branch word, fetched and executed.\<close>

lemma exec_cond:
  assumes mne: "is_cond mne" and range: "- 128 \<le> n" "n \<le> 127" and w: "map_of enc18_cond mne = Some b"
  shows "p18_dispatch s pc (b OR (of_int n AND 0xFF)) =
    Some (if branch_taken mne (p18_ram s STATUS18)
          then (s\<lparr>p18_jump_target := Some (p18_branch_target pc (of_int n))\<rparr>, p18_branch_target pc (of_int n))
          else (s, pc + 2))"
proof -
  obtain cc where cc: "cc < 8" and b: "b = 0xE000 OR of_nat (cc * 256)"
    and taken: "\<And>status. branch_taken mne status =
      (if cc = 0 then bit status 2 else if cc = 1 then \<not> bit status 2
       else if cc = 2 then bit status 0 else if cc = 3 then \<not> bit status 0
       else if cc = 4 then bit status 3 else if cc = 5 then \<not> bit status 3
       else if cc = 6 then bit status 4 else \<not> bit status 4)"
    using cond_code [OF mne] w by auto
  define m where "m = nat (n mod 256)"
  have m: "m < 256" by (simp add: m_def nat_less_iff)
  let ?w = "b OR (of_int n AND 0xFF) :: u16"
  have word: "?w = of_nat (0xE000 + cc * 256 + m)"
    unfolding b low_bits m_def [symmetric] by (rule cond_word [OF cc m])
  then have u: "unat ?w = 0xE000 + cc * 256 + m"
    using cc m by (simp only: unat_of_nat) simp
  have big: "0xE000 \<le> ?w" "?w \<le> 0xE7FF" using u cc m by (simp_all add: word_le_nat_alt)
  have split: "0xE000 + cc * 256 + m = m + (cc + 28 * 8) * 256" by simp
  have "(m + (cc + 28 * 8) * 256) div 2 ^ 8 = cc + 28 * 8" using m by simp
  moreover have "(cc + 28 * 8) mod 8 = cc" using cc by (simp only: mod_mult_self1 mod_less)
  ultimately have "unat (drop_bit 8 ?w AND 7) = cc" by (simp only: field_nat u split)
  then have ccw: "drop_bit 8 ?w AND 7 = of_nat cc" using cc by (metis of_nat_unat ucast_id)
  have "unat (?w AND 0xFF) = m" unfolding field_nat u split using m by (simp only: mod_mult_self1 mod_less)
  then have "?w AND 0xFF = of_nat m" by (metis of_nat_unat ucast_id)
  then have low: "(ucast (?w AND 0xFF) :: u8) = of_nat m" using m by (simp add: unsigned_of_nat take_bit_nat_eq_self)
  have signed: "scast (ucast (?w AND 0xFF) :: u8) = (of_int n :: u32)"
    unfolding low m_def by (rule signed_byte [OF range])
  have cases8: "cc \<in> {0, 1, 2, 3, 4, 5, 6, 7}" using cc by auto
  have "p18_exec_cond_branch s pc ?w =
      (if branch_taken mne (p18_ram s STATUS18)
          then (s\<lparr>p18_jump_target := Some (p18_branch_target pc (of_int n))\<rparr>, p18_branch_target pc (of_int n))
          else (s, pc + 2))"
    unfolding p18_exec_cond_branch_def Let_def signed ccw taken
    using cases8 by (elim insertE emptyE) (simp_all add: mask_simps)
  moreover have "p18_dispatch s pc ?w = Some (p18_exec_cond_branch s pc ?w)"
    using cc m by (intro dispatch_cond) (subst u, simp)+
  ultimately show ?thesis by simp
qed

text \<open>The unconditional relative branch.\<close>

lemma signed_eleven:
  assumes "- 1024 \<le> n" and "n \<le> 1023" and "m = nat (n mod 2048)"
  shows "(if 1024 \<le> m then of_nat m - 0x800 else of_nat m) = (of_int n :: u32)"
proof (cases "0 \<le> n")
  case True
  then have "m = nat n" "\<not> 1024 \<le> m" using assms by auto
  then show ?thesis using True by simp
next
  case False
  have "n mod 2048 = (n + 2048) mod 2048" by (rule mod_add_self2 [symmetric])
  also have "\<dots> = n + 2048" using False assms(1) by (intro mod_pos_pos_trivial) simp_all
  finally have "n mod 2048 = n + 2048" .
  then have "int m = n + 2048" "1024 \<le> m" using assms False by auto
  have "of_nat m = (of_int (int m) :: u32)" by simp
  then have "of_nat m - 0x800 = (of_int n :: u32)" unfolding \<open>int m = n + 2048\<close> by simp
  then show ?thesis using \<open>1024 \<le> m\<close> by simp
qed

lemma and_exp_even: "w AND 2 ^ k = 0 \<longleftrightarrow> even (unat w div 2 ^ k)" for w :: "'a::len word"
  by (simp add: and_exp_eq_0_iff_not_bit) (metis bit_iff_odd bit_unsigned_iff bit_imp_possible_bit possible_bit_nat)

lemma exec_bra:
  assumes range: "- 1024 \<le> n" "n \<le> 1023"
  shows "p18_dispatch s pc (0xD000 OR (of_int n AND 0x7FF)) =
    Some (s\<lparr>p18_jump_target := Some (p18_branch_target pc (of_int n))\<rparr>, p18_branch_target pc (of_int n))"
proof -
  define m where "m = nat (n mod 2048)"
  have m: "m < 2048" by (simp add: m_def nat_less_iff)
  let ?w = "0xD000 OR (of_int n AND 0x7FF) :: u16"
  have "?w = of_nat (0xD000 + m)" unfolding low_bits m_def [symmetric] by (rule bra_word18 [OF m])
  then have u: "unat ?w = 0xD000 + m" using m by (simp only: unat_of_nat) simp
  have split: "0xD000 + m = m + 26 * 2048" by simp
  have raw: "unat (?w AND 0x7FF) = m" unfolding field_nat u split using m by (simp only: mod_mult_self1 mod_less)
  have "(?w AND 0x7FF) AND 0x400 = 0 \<longleftrightarrow> even (m div 1024)"
    using and_exp_even [of "?w AND 0x7FF" 10] raw by simp
  moreover have "even (m div 1024) \<longleftrightarrow> \<not> 1024 \<le> m" 
    using m div_nat_eqI [of 1024 1 m] by (cases "1024 \<le> m") simp_all
  ultimately have sign: "(?w AND 0x7FF) AND 0x400 \<noteq> 0 \<longleftrightarrow> 1024 \<le> m" by simp
  have "(m + 26 * 2048) div 2048 = 26" using m by (simp only: div_mult_self1 div_less)
  then have push: "?w AND 0x0800 = 0" using and_exp_even [of ?w 11] u unfolding split by simp
  have "?w AND 0x7FF = of_nat m" using raw by (metis of_nat_unat ucast_id)
  then have "ucast (?w AND 0x7FF) = (of_nat m :: u32)" using m by (simp add: unsigned_of_nat take_bit_nat_eq_self)
  then have "(if (?w AND 0x7FF) AND 0x400 \<noteq> 0 then ucast (?w AND 0x7FF) - 0x800 else ucast (?w AND 0x7FF)) = (of_int n :: u32)"
    unfolding sign using signed_eleven [OF range m_def] by (simp only:)
  then have "p18_exec_bra_rcall s pc ?w =
      Some (s\<lparr>p18_jump_target := Some (p18_branch_target pc (of_int n))\<rparr>, p18_branch_target pc (of_int n))"
    by (simp only: p18_exec_bra_rcall_def Let_def push) simp
  moreover have "p18_dispatch s pc ?w = p18_exec_bra_rcall s pc ?w"
    using m by (intro dispatch_bra) (subst u, simp)+
  ultimately show ?thesis by simp
qed

section \<open>A branch of the finished stream goes to its label\<close>

lemma fixpoint_settled:
  assumes "asm18_fixpoint st serial = Some r"
  shows "\<forall>st1. r = Some st1 \<longrightarrow> (\<exists>serial1. asm18_round st1 serial1 = Some None)"
proof (rule asm18_fixpoint.raw_induct [where P = "\<lambda>st serial r. \<forall>st1. r = Some st1 \<longrightarrow> (\<exists>serial1. asm18_round st1 serial1 = Some None)", OF _ assms])
  fix f st s y
  assume IH: "\<And>st s y. f st s = Some y \<Longrightarrow> \<forall>st1. y = Some st1 \<longrightarrow> (\<exists>serial1. asm18_round st1 serial1 = Some None)"
    and e: "(case asm18_round st s of None \<Rightarrow> Some None | Some None \<Rightarrow> Some (Some st)
      | Some (Some (st1, serial1)) \<Rightarrow> f st1 serial1) = Some y"
  show "\<forall>st1. y = Some st1 \<longrightarrow> (\<exists>serial1. asm18_round st1 serial1 = Some None)"
    using e IH by (fastforce split: option.splits)
qed

lemma settled_branches:
  assumes "asm18_round st serial = Some None" and "layout_addrs (map fst st) = Some (ins, ds)"
    and "resolve_labels (map fst st) = Some (tab, tot)" and "(a, line) \<in> set ins"
    and "split_mne line = (mne, label)" and "is_cond mne \<or> is_bra mne"
  obtains t where "tab label = Some t" and "branch_in_range mne (word_offset t a)"
proof -
  have "first_far tab 0 ins = Some None"
    using assms(1,2,3) by (auto simp: asm18_round_def Let_def split: Option.bind_splits option.splits)
  moreover obtain k where "k < length ins" "ins ! k = (a, line)" using assms(4) by (metis in_set_conv_nth)
  ultimately show thesis using first_far_none [of tab 0 ins k mne label] assms(5,6) that by auto
qed

text \<open>The words of a finished stream hold every instruction's encoding at its address.\<close>

lemma finished_words:
  assumes "finish18 st = Some (words, rows)" and "tidy (map fst st) 0"
    and "layout_addrs (map fst st) = Some (ins, ds)" and "resolve_labels (map fst st) = Some (tab, tot)"
    and "(a, line) \<in> set ins"
  obtains ws where "encode_pic18 a line tab = Some ws" and "length ws = instruction_words_pic18 line"
    and "a div 2 + length ws \<le> length words" and "\<And>j. j < length ws \<Longrightarrow> words ! (a div 2 + j) = ws ! j"
proof -
  obtain out1 where e: "emit18 tab ins (replicate ((tot + 1) div 2) 0) = Some out1" and d: "emit_db tab ds out1 = Some words"
    using assms(1,3,4) by (auto simp: finish18_def split: Option.bind_splits)
  have t: "spaced ins" "\<forall>x \<in> set ins. \<forall>(d, t) \<in> set ds. apart x d"
    using layout_tidy [of "map fst st" 0 ins ds] assms(2,3) by (simp_all add: layout_addrs_def)
  obtain ws where ws: "encode_pic18 a line tab = Some ws" "length ws = instruction_words_pic18 line"
    "a div 2 + length ws \<le> length out1" "\<forall>j < length ws. out1 ! (a div 2 + j) = ws ! j"
    using emit18_lands [OF e t(1) assms(5)] by blast
  have "words ! (a div 2 + j) = ws ! j \<and> length words = length out1" if "j < length ws" for j
  proof -
    have "\<forall>(d, t) \<in> set ds. d div 2 \<noteq> a div 2 + j"
      using t(2) assms(5) that ws(2) by (fastforce simp: apart_def)
    then show ?thesis using emit_db_keeps [OF d] ws(4) that by auto
  qed
  moreover have "0 < length ws" using ws(2) words_one_two [of line] by auto
  ultimately show thesis using that ws by metis
qed

lemma encode_bra: "encode18_parts a tab ''BRA'' rest ops = do { t \<leftarrow> tab rest; enc18_bra 0xD000 t a }"
proof -
  have "map_of enc18_plain ''BRA'' = None \<and> map_of enc18_dest ''BRA'' = None \<and> map_of enc18_file ''BRA'' = None \<and>
      map_of enc18_bit ''BRA'' = None \<and> map_of enc18_lit ''BRA'' = None \<and> map_of enc18_cond ''BRA'' = None"
    by code_simp
  then show ?thesis by (simp add: encode18_parts_def)
qed

text \<open>The encoding of a branch in range, and what the core does with it.\<close>

lemma branch_executes:
  assumes "is_cond mne \<or> mne = ''BRA''" and "branch_in_range mne (word_offset t a)"
    and "tab label = Some t" and "split_mne line = (mne, label)" and "a < 2 ^ 32"
  obtains w where "encode_pic18 a line tab = Some [w]"
    and "\<And>s. p18_jump_target s = None \<Longrightarrow> \<exists>s1 nxt. p18_dispatch s (of_nat a) w = Some (s1, nxt) \<and>
      p18_pc (p18_finish s1 w (of_nat a) nxt) =
        (if branch_taken mne (p18_ram s STATUS18) then of_nat (t div 2 * 2) else of_nat (a + 2))"
proof (cases "is_cond mne")
  case True
  then obtain b where b: "map_of enc18_cond mne = Some b" and none: "map_of enc18_plain mne = None"
    "map_of enc18_dest mne = None" "map_of enc18_file mne = None" "map_of enc18_bit mne = None" "map_of enc18_lit mne = None"
    using cond_code [OF True] by auto
  let ?n = "word_offset t a"
  have "\<not> is_bra mne" using True by (auto simp: is_cond_def is_bra_def)
  then have n: "- 128 \<le> ?n" "?n \<le> 127" using assms(2) by (simp_all add: branch_in_range_def)
  have enc: "encode_pic18 a line tab = Some [b OR (of_int ?n AND 0xFF)]"
    using assms(3,4) b none n by (simp add: encode_pic18_def encode18_parts_def enc18_branch_def Let_def)
  show thesis
    using that [OF enc] exec_cond [OF True n b] branch_target_word [OF assms(5)] by simp
next
  case False
  then have m: "mne = ''BRA''" using assms(1) by simp
  let ?n = "word_offset t a"
  have n: "- 1024 \<le> ?n" "?n \<le> 1023" using assms(2) m by (simp_all add: branch_in_range_def is_bra_def)
  have enc: "encode_pic18 a line tab = Some [0xD000 OR (of_int ?n AND 0x7FF)]"
    using assms(3,4) m n by (simp add: encode_pic18_def encode_bra enc18_bra_def Let_def)
  show thesis
    using that [OF enc] exec_bra [OF n] branch_target_word [OF assms(5)] m by (simp add: branch_taken_def)
qed

text \<open>C37: Branches land on their labels. In the finished stream of a PIC18 source every relative branch is in
  range, and when the assembled words are the program of the simulator's core, one step from a branch's
  address goes to its label's address exactly when the condition holds of the status byte, and to the
  next instruction otherwise. The layout must be tidy: no \<open>org\<close> back and no odd run of data bytes
  before an instruction, which the assembler does not check.
\<close>

theorem asm18_branch_lands:
  assumes "asm18_fixpoint (read_stream (str_lines src) locs) 0 = Some (Some st)"
    and "finish18 st = Some (words, rows)" and "tidy (map fst st) 0"
    and "resolve_labels (map fst st) = Some (tab, tot)" and "layout_addrs (map fst st) = Some (ins, ds)"
    and "(a, line) \<in> set ins" and "split_mne line = (mne, label)" and "is_cond mne \<or> mne = ''BRA''" and "a < 2 ^ 32"
    and "p18_prog s = words" and "p18_pc s = of_nat a" and "p18_jump_target s = None"
    and "\<not> p18_interrupt_ready s" and "\<not> p18_interrupt_ready_lo s"
  shows "\<exists>t s1. tab label = Some t \<and> p18_step s = Some s1 \<and>
    p18_pc s1 = (if branch_taken mne (p18_ram s STATUS18) then of_nat (t div 2 * 2) else of_nat (a + 2))"
proof -
  obtain serial where settled: "asm18_round st serial = Some None" using fixpoint_settled [OF assms(1)] by blast
  have "is_cond mne \<or> is_bra mne" using assms(8) by (auto simp: is_bra_def)
  from settled_branches [OF settled assms(5,4,6,7) this]
  obtain t where t: "tab label = Some t" and range: "branch_in_range mne (word_offset t a)" .
  obtain w where enc: "encode_pic18 a line tab = Some [w]"
    and run: "\<And>s. p18_jump_target s = None \<Longrightarrow> \<exists>s1 nxt. p18_dispatch s (of_nat a) w = Some (s1, nxt) \<and>
      p18_pc (p18_finish s1 w (of_nat a) nxt) =
        (if branch_taken mne (p18_ram s STATUS18) then of_nat (t div 2 * 2) else of_nat (a + 2))"
    using branch_executes [where tab = tab, OF assms(8) range t assms(7,9)] by blast
  obtain ws where "encode_pic18 a line tab = Some ws" "a div 2 + length ws \<le> length words"
    "\<And>j. j < length ws \<Longrightarrow> words ! (a div 2 + j) = ws ! j"
    using finished_words [OF assms(2,3,5,4,6)] by metis
  then have "p18_word_at s (a div 2) = Some w" using enc assms(10) by (force simp: p18_word_at_def)
  moreover have "unat (p18_pc s) = a" using assms(9,11) by (simp add: unat_of_nat take_bit_nat_eq_self)
  ultimately have "\<exists>s1. p18_step s = Some s1 \<and>
      p18_pc s1 = (if branch_taken mne (p18_ram s STATUS18) then of_nat (t div 2 * 2) else of_nat (a + 2))"
    using run [OF assms(12)] assms(11,13,14) by (auto simp: p18_step_def)
  then show ?thesis using t by blast
qed

text \<open>A program of two branches, laid out by the model and run from its first word.\<close>

definition two_branches :: string where
  "two_branches = ''  BZ far'' @ [CHR 0x0A] @ ''far: BRA far''"

lemma two_branches_stream:
  "read_stream (str_lines two_branches) [] = [(''BZ far'', None), (''far:'', None), (''BRA far'', None)]"
  by code_simp

lemma asm18_branch_lands_witness:
  "\<exists>t s1. insert_label Map.empty ''far'' 2 ''far'' = Some t \<and> p18_step (p18_new [0xE000, 0xD7FF]) = Some s1 \<and>
     p18_pc s1 = (if branch_taken ''BZ'' (p18_ram (p18_new [0xE000, 0xD7FF]) STATUS18)
       then of_nat (t div 2 * 2) else of_nat (0 + 2))"
proof (rule asm18_branch_lands [where src = two_branches and locs = "[]" and rows = "[]" and tot = 4 and ds = "[]"
      and st = "[(''BZ far'', None), (''far:'', None), (''BRA far'', None)]"
      and ins = "[(0, ''BZ far''), (2, ''BRA far'')]" and line = "''BZ far''" and mne = "''BZ''"
      and label = "''far''" and tab = "insert_label Map.empty ''far'' 2" and words = "[0xE000, 0xD7FF]" and a = 0])
  have "asm18_round [(''BZ far'', None), (''far:'', None), (''BRA far'', None)] 0 = Some None" by code_simp
  then show "asm18_fixpoint (read_stream (str_lines two_branches) []) 0 =
      Some (Some [(''BZ far'', None), (''far:'', None), (''BRA far'', None)])"
    unfolding two_branches_stream by (subst asm18_fixpoint.simps) simp
  show "resolve_labels (map fst [(''BZ far'', None), (''far:'', None), (''BRA far'', None)]) =
      Some (insert_label Map.empty ''far'' 2, 4)"
  proof -
    have "entry_of ''BZ far'' = EInstr ''BZ far''" "entry_of ''far:'' = ELabel ''far''"
      "entry_of ''BRA far'' = EInstr ''BRA far''" "instruction_words_pic18 ''BZ far'' = 1"
      "instruction_words_pic18 ''BRA far'' = 1" by code_simp+
    then show ?thesis by (simp add: resolve_labels_def define_entry_def next_addr_def numeral_2_eq_2)
  qed
  show "finish18 [(''BZ far'', None), (''far:'', None), (''BRA far'', None)] = Some ([0xE000, 0xD7FF], [])"
    by code_simp
  show "tidy (map fst [(''BZ far'', None), (''far:'', None), (''BRA far'', None)]) 0" by code_simp
  show "layout_addrs (map fst [(''BZ far'', None), (''far:'', None), (''BRA far'', None)]) =
      Some ([(0, ''BZ far''), (2, ''BRA far'')], [])" by code_simp
  show "split_mne ''BZ far'' = (''BZ'', ''far'')" by code_simp
qed (simp_all add: is_cond_def p18_new_def p18_interrupt_ready_def p18_interrupt_ready_lo_def Let_def pic18_por_def)

text \<open>
  What tidy excludes: after one data byte \<open>MOVLW 0x02\<close> is laid out at address 1, in the word the data
  byte is then ORed into, and assembles to \<open>MOVLW 0x03\<close>.
\<close>

lemma odd_data_corrupts: "finish18 [(''db 1'', None), (''MOVLW 0x02'', None)] = Some ([0x0E03, 0], [])"
proof -
  have e: "entry_of ''db 1'' = EDb [''1'']" "entry_of ''MOVLW 0x02'' = EInstr ''MOVLW 0x02''"
    "instruction_words_pic18 ''MOVLW 0x02'' = 1" "split_mne ''MOVLW 0x02'' = (''MOVLW'', ''0x02'')"
    "map_of enc18_plain ''MOVLW'' = None \<and> map_of enc18_dest ''MOVLW'' = None \<and> map_of enc18_file ''MOVLW'' = None \<and>
      map_of enc18_bit ''MOVLW'' = None \<and> map_of enc18_lit ''MOVLW'' = Some 0x0E00" by code_simp+
  have n: "parse_lit tab ''1'' = Some 1" "parse_lit tab ''0x02'' = Some 2" for tab
    by (simp_all add: asm_eval)
  show ?thesis
    by (simp add: finish18_def resolve_labels_def layout_addrs_def define_entry_def next_addr_def db_bytes_def
        encode_pic18_def encode18_parts_def e n)
qed

end
