(* ===== verification/Schedule.thy ===== *)
theory Schedule
  imports Banking
begin

text \<open>
  The instruction scheduler of \<^verbatim>\<open>crates/schedule/src/lib.rs\<close>: the classification of every line of the
  listing, the straight-line regions between barriers, the two reorders and the pass. The bank query of
  the classification can panic (\<^const>\<open>None\<close>). The restarting loop of \<open>phase2\<close> is a
  \<^theory_text>\<open>partial_function\<close>. An empty list of locations is the text-only path of the code.
\<close>

section \<open>Lines\<close>

record insn =
  i_line :: string
  i_mne :: string
  i_bank :: "u8 option"
  reads_w :: bool
  writes_w :: bool
  reads_flags :: bool
  writes_flags :: bool
  i_addr :: "u16 option"
  reads_file :: bool
  writes_file :: bool
  is_skip :: bool
  touches_sfr :: bool
  is_skip_target :: bool

datatype sched_line =
    SLabel string
  | SCall string
  | STerminator string
  | SAsmBarrier string
  | SInAsm string
  | SDirective string
  | SBlank
  | SOpaque string
  | SInsn insn

definition line_raw :: "sched_line \<Rightarrow> string" where
  "line_raw l =
     (case l of
        SLabel t \<Rightarrow> t | SCall t \<Rightarrow> t | STerminator t \<Rightarrow> t | SAsmBarrier t \<Rightarrow> t | SInAsm t \<Rightarrow> t
      | SDirective t \<Rightarrow> t | SOpaque t \<Rightarrow> t | SBlank \<Rightarrow> [] | SInsn i \<Rightarrow> i_line i)"

definition is_barrier :: "sched_line \<Rightarrow> bool" where
  "is_barrier l = (case l of SInsn i \<Rightarrow> touches_sfr i | _ \<Rightarrow> True)"

section \<open>Classification\<close>

definition TERMINATORS :: "string list" where
  "TERMINATORS = [''GOTO'', ''RETURN'', ''RETLW'', ''RETFIE'']"

definition DEST_SELECTABLE :: "string list" where
  "DEST_SELECTABLE =
     [''ADDWF'', ''ANDWF'', ''COMF'', ''DECF'', ''INCF'', ''IORWF'', ''MOVF'', ''RLF'', ''RRF'', ''SUBWF'',
      ''SWAPF'', ''XORWF'']"

definition DEST_SELECTABLE_READS_W :: "string list" where
  "DEST_SELECTABLE_READS_W = [''ADDWF'', ''ANDWF'', ''IORWF'', ''SUBWF'', ''XORWF'']"

definition DEST_SELECTABLE_SETS_FLAGS :: "string list" where
  "DEST_SELECTABLE_SETS_FLAGS =
     [''ADDWF'', ''ANDWF'', ''COMF'', ''DECF'', ''INCF'', ''IORWF'', ''MOVF'', ''RLF'', ''RRF'', ''SUBWF'', ''XORWF'']"

definition targets_status :: "string list \<Rightarrow> bool" where
  "targets_status toks =
     (let t = tok1 toks;
          r = (if 2 < length toks then t
               else (case find_sub '','' t of Some i \<Rightarrow> take i t | None \<Rightarrow> t));
          reg = trim (strip_punct r)
      in reg = ''STATUS'' \<or>
         (case strip_prefix ''0x'' reg of None \<Rightarrow> False | Some h \<Rightarrow> hex_u16 h = Some 0x03))"

definition literal_addr :: "string list \<Rightarrow> u16 option" where
  "literal_addr toks =
     (if 1 < length toks then
        do { h \<leftarrow> strip_prefix ''0x'' (strip_punct (toks ! 1)); hex_u16 h }
      else None)"

definition is_non_gpr_access :: "device \<Rightarrow> u16 option \<Rightarrow> bool \<Rightarrow> bool \<Rightarrow> bool" where
  "is_non_gpr_access dev addr rd wr =
     (if \<not> (rd \<or> wr) then False
      else case addr of
        None \<Rightarrow> False
      | Some a \<Rightarrow>
          \<not> (list_ex (\<lambda>w. in_window (Some w) a) (ram_banks dev) \<or> in_window (common_ram dev) a \<or>
             in_window (fixed_retval dev) a))"

definition dest_is_file :: "string list \<Rightarrow> bool" where
  "dest_is_file toks \<longleftrightarrow> toks \<noteq> [] \<and> trim_end_char (CHR '';'') (last toks) = ''F''"

definition base_insn ::
    "device \<Rightarrow> string \<Rightarrow> string \<Rightarrow> string list \<Rightarrow> u8 option \<Rightarrow> bool \<Rightarrow> bool \<Rightarrow> bool \<Rightarrow> bool \<Rightarrow> bool \<Rightarrow> bool \<Rightarrow> sched_line" where
  "base_insn dev line mne toks bank rw ww rfl wfl rd wr =
     SInsn \<lparr>i_line = line, i_mne = mne, i_bank = bank, reads_w = rw, writes_w = ww, reads_flags = rfl,
            writes_flags = wfl, i_addr = literal_addr toks, reads_file = rd, writes_file = wr,
            is_skip = (mne \<in> set SKIP_OPS),
            touches_sfr = is_non_gpr_access dev (literal_addr toks) rd wr, is_skip_target = False\<rparr>"

definition classify_insn :: "device \<Rightarrow> string \<Rightarrow> string \<Rightarrow> string list \<Rightarrow> sched_line option" where
  "classify_insn dev line mne toks =
     do {
       bank \<leftarrow> operand_bank dev mne toks;
       (let base = base_insn dev line mne toks bank; to_file = dest_is_file toks; flags = targets_status toks in
        Some (if mne \<in> set DEST_SELECTABLE then
                base (mne \<in> set DEST_SELECTABLE_READS_W) (\<not> to_file) False
                  (mne \<in> set DEST_SELECTABLE_SETS_FLAGS) True to_file
              else if mne = ''CLRF'' then base False False False True False True
              else if mne = ''CLRW'' then base False True False True False False
              else if mne = ''MOVWF'' then base True False False False False True
              else if mne = ''NOP'' then base False False False False False False
              else if mne = ''DECFSZ'' \<or> mne = ''INCFSZ'' then base False (\<not> to_file) False False True to_file
              else if mne = ''BCF'' \<or> mne = ''BSF'' then base False False flags flags (\<not> flags) (\<not> flags)
              else if mne = ''BTFSC'' \<or> mne = ''BTFSS'' then base False False flags False (\<not> flags) False
              else if mne \<in> {''ADDLW'', ''SUBLW'', ''ANDLW'', ''IORLW'', ''XORLW''} then
                base True True False True False False
              else if mne = ''MOVLW'' then base False True False False False False
              else SOpaque line))
     }"

text \<open>One line outside inline assembly, and the lines with the flag that is set between the markers.\<close>

definition classify_line :: "device \<Rightarrow> string \<Rightarrow> sched_line option" where
  "classify_line dev line =
     (let toks = line_toks line in
      case toks of
        [] \<Rightarrow> Some SBlank
      | mne # _ \<Rightarrow>
          if ends_colon mne then Some (SLabel line)
          else if mne = ''org'' \<or> mne = ''end'' \<or> starts_with ''.'' mne then Some (SDirective line)
          else if mne = ''CALL'' then Some (SCall line)
          else if mne \<in> set TERMINATORS then Some (STerminator line)
          else classify_insn dev line mne toks)"

fun classify_lines :: "device \<Rightarrow> bool \<Rightarrow> string list \<Rightarrow> sched_line list option" where
  "classify_lines dev in_asm [] = Some []"
| "classify_lines dev in_asm (line # ls) =
     (let t = trim_start line in
      if starts_with ''; --- asm start ---'' t then
        map_option ((#) (SAsmBarrier line)) (classify_lines dev True ls)
      else if starts_with ''; --- asm end ---'' t then
        map_option ((#) (SAsmBarrier line)) (classify_lines dev False ls)
      else if in_asm then map_option ((#) (SInAsm line)) (classify_lines dev in_asm ls)
      else do { l \<leftarrow> classify_line dev line; r \<leftarrow> classify_lines dev in_asm ls; Some (l # r) })"

definition skips_next :: "sched_line \<Rightarrow> bool" where
  "skips_next l = (case l of SInsn i \<Rightarrow> is_skip i | _ \<Rightarrow> False)"

definition mark_target :: "sched_line \<Rightarrow> sched_line" where
  "mark_target l = (case l of SInsn i \<Rightarrow> SInsn (i\<lparr>is_skip_target := True\<rparr>) | _ \<Rightarrow> l)"

text \<open>The second pass: a line after a skip is its target (the mark itself changes no skip).\<close>

fun mark_targets :: "bool \<Rightarrow> sched_line list \<Rightarrow> sched_line list" where
  "mark_targets after_skip [] = []"
| "mark_targets after_skip (l # ls) =
     (if after_skip then mark_target l else l) # mark_targets (skips_next l) ls"

definition classify :: "device \<Rightarrow> string \<Rightarrow> sched_line list option" where
  "classify dev asm = map_option (mark_targets False) (classify_lines dev False (str_lines asm))"

section \<open>Regions\<close>

fun runs_from :: "nat \<Rightarrow> nat option \<Rightarrow> sched_line list \<Rightarrow> (nat \<times> nat) list" where
  "runs_from i start [] = (case start of Some s \<Rightarrow> [(s, i)] | None \<Rightarrow> [])"
| "runs_from i start (l # ls) =
     (if is_barrier l then
        (case start of Some s \<Rightarrow> [(s, i)] | None \<Rightarrow> []) @ runs_from (Suc i) None ls
      else runs_from (Suc i) (case start of None \<Rightarrow> Some i | Some s \<Rightarrow> Some s) ls)"

definition regions_of :: "sched_line list \<Rightarrow> (nat \<times> nat) list" where
  "regions_of ls = runs_from 0 None ls"

section \<open>Phase 1: an excursion of one instruction\<close>

definition is_move_candidate :: "insn \<Rightarrow> bool" where
  "is_move_candidate cur \<longleftrightarrow>
     i_bank cur \<noteq> None \<and> \<not> is_skip cur \<and> \<not> is_skip_target cur \<and> \<not> reads_flags cur \<and>
     \<not> writes_flags cur \<and> \<not> reads_w cur \<and> \<not> writes_w cur"

definition file_collision :: "insn \<Rightarrow> insn \<Rightarrow> bool" where
  "file_collision a b \<longleftrightarrow> i_addr a \<noteq> None \<and> i_addr a = i_addr b"

definition swap_at :: "nat \<Rightarrow> 'a list \<Rightarrow> 'a list" where
  "swap_at i xs = xs[i := xs ! Suc i, Suc i := xs ! i]"

definition can_sink :: "sched_line list \<Rightarrow> nat \<Rightarrow> bool" where
  "can_sink ls i =
     (case (ls ! i, ls ! (i + 1)) of
        (SInsn cur, SInsn nxt) \<Rightarrow> \<not> is_skip nxt \<and> \<not> file_collision cur nxt
      | _ \<Rightarrow> False)"

definition can_hoist :: "sched_line list \<Rightarrow> nat \<Rightarrow> bool" where
  "can_hoist ls i =
     (case (ls ! (i - 1), ls ! i) of
        (SInsn prev, SInsn cur) \<Rightarrow> \<not> is_skip_target prev \<and> \<not> file_collision cur prev
      | _ \<Rightarrow> False)"

definition excursion :: "sched_line list \<Rightarrow> nat \<Rightarrow> bool" where
  "excursion ls i =
     (case (ls ! (i - 1), ls ! i, ls ! (i + 1)) of
        (SInsn prev, SInsn cur, SInsn nxt) \<Rightarrow>
          is_move_candidate cur \<and> i_bank prev \<noteq> None \<and> i_bank prev = i_bank nxt \<and> i_bank prev \<noteq> i_bank cur
      | _ \<Rightarrow> False)"

type_synonym 'l sched_state = "sched_line list \<times> 'l option list \<times> nat"

definition swap_locs :: "nat \<Rightarrow> 'l option list \<Rightarrow> 'l option list" where
  "swap_locs i locs = (if locs = [] then locs else swap_at i locs)"

definition phase1_step :: "nat \<Rightarrow> 'l sched_state \<Rightarrow> 'l sched_state" where
  "phase1_step i st =
     (case st of (ls, locs, n) \<Rightarrow>
        if \<not> excursion ls i then st
        else if can_sink ls i then (swap_at i ls, swap_locs i locs, n + 1)
        else if can_hoist ls i then (swap_at (i - 1) ls, swap_locs (i - 1) locs, n + 1)
        else st)"

definition phase1_region :: "nat \<times> nat \<Rightarrow> 'l sched_state \<Rightarrow> 'l sched_state" where
  "phase1_region = (\<lambda>(s, e) st. if e - s < 3 then st else fold phase1_step [s + 1..<e - 1] st)"

definition phase1_with_locs :: "sched_line list \<Rightarrow> 'l option list \<Rightarrow> 'l sched_state" where
  "phase1_with_locs ls locs = fold phase1_region (regions_of ls) (ls, locs, 0)"

definition phase1 :: "sched_line list \<Rightarrow> sched_line list \<times> nat" where
  "phase1 ls = (case phase1_with_locs ls ([] :: unit option list) of (ls', _, n) \<Rightarrow> (ls', n))"

section \<open>Phase 2: a bundle behind an excursion\<close>

definition is_movlw_producer :: "insn \<Rightarrow> bool" where
  "is_movlw_producer i \<longleftrightarrow>
     i_mne i = ''MOVLW'' \<and> writes_w i \<and> \<not> reads_w i \<and> \<not> reads_flags i \<and> \<not> writes_flags i \<and>
     \<not> is_skip i \<and> \<not> is_skip_target i"

definition is_movwf_consumer :: "insn \<Rightarrow> bool" where
  "is_movwf_consumer i \<longleftrightarrow>
     i_mne i = ''MOVWF'' \<and> reads_w i \<and> \<not> writes_w i \<and> writes_file i \<and> \<not> reads_file i \<and>
     \<not> is_skip i \<and> \<not> is_skip_target i \<and> i_bank i \<noteq> None"

fun run_start :: "sched_line list \<Rightarrow> nat \<Rightarrow> nat \<Rightarrow> u8 \<Rightarrow> nat" where
  "run_start ls rstart 0 bank = 0"
| "run_start ls rstart (Suc e) bank =
     (if Suc e \<le> rstart then Suc e
      else case ls ! e of
        SInsn p \<Rightarrow> if i_bank p = Some bank then run_start ls rstart e bank else Suc e
      | _ \<Rightarrow> Suc e)"

definition find_dead_w_gap :: "sched_line list \<Rightarrow> nat \<Rightarrow> nat \<Rightarrow> nat option" where
  "find_dead_w_gap ls s e =
     find (\<lambda>k. case ls ! k of SInsn y \<Rightarrow> \<not> reads_w y | _ \<Rightarrow> False) [s + 1..<e]"

definition excursion_bank :: "sched_line list \<Rightarrow> nat \<Rightarrow> u8 option" where
  "excursion_bank ls i =
     (case (ls ! (i - 1), ls ! i) of
        (SInsn prev, SInsn cur) \<Rightarrow>
          if i_bank prev \<noteq> None \<and> i_bank prev \<noteq> i_bank cur \<and> \<not> is_move_candidate cur \<and>
             \<not> is_skip cur \<and> \<not> is_skip_target cur
          then i_bank prev else None
      | _ \<Rightarrow> None)"

definition line_addr :: "sched_line \<Rightarrow> u16 option" where
  "line_addr l = (case l of SInsn i \<Rightarrow> i_addr i | _ \<Rightarrow> None)"

definition bundle_ok :: "sched_line list \<Rightarrow> nat \<Rightarrow> u8 \<Rightarrow> bool" where
  "bundle_ok ls i bank =
     (case (ls ! (i + 1), ls ! (i + 2)) of
        (SInsn p, SInsn m) \<Rightarrow> is_movlw_producer p \<and> is_movwf_consumer m \<and> i_bank m = Some bank
      | _ \<Rightarrow> False)"

definition after_ok :: "sched_line list \<Rightarrow> nat \<Rightarrow> nat \<Rightarrow> bool" where
  "after_ok ls rend i \<longleftrightarrow> rend \<le> i + 3 \<or> (case ls ! (i + 3) of SInsn a \<Rightarrow> \<not> reads_w a | _ \<Rightarrow> False)"

text \<open>The body of the loop over one region: the gap the bundle behind line \<open>i\<close> goes to.\<close>

definition splice_gap :: "sched_line list \<Rightarrow> nat \<times> nat \<Rightarrow> nat \<Rightarrow> nat option" where
  "splice_gap ls region i =
     (case region of (rs, re) \<Rightarrow>
        do {
          bank \<leftarrow> excursion_bank ls i;
          (let m = line_addr (ls ! (i + 2)) in
           if \<not> bundle_ok ls i bank \<or> \<not> after_ok ls re i then None
           else if m \<noteq> None \<and> m = line_addr (ls ! i) then None
           else do {
             gap \<leftarrow> find_dead_w_gap ls (run_start ls rs i bank) i;
             (if m \<noteq> None \<and> (case (ls ! (gap - 1), ls ! gap) of
                    (SInsn x, SInsn y) \<Rightarrow> m = i_addr x \<or> m = i_addr y | _ \<Rightarrow> False)
              then None else Some gap) })
        })"

fun first_splice :: "sched_line list \<Rightarrow> (nat \<times> nat) list \<Rightarrow> (nat \<times> nat) option" where
  "first_splice ls [] = None"
| "first_splice ls ((rs, re) # regions) =
     (case (if re - rs < 4 then None
            else find (\<lambda>i. splice_gap ls (rs, re) i \<noteq> None) [rs + 1..<re - 2]) of
        Some i \<Rightarrow> Some (i, the (splice_gap ls (rs, re) i))
      | None \<Rightarrow> first_splice ls regions)"

definition move_pair :: "nat \<Rightarrow> nat \<Rightarrow> 'a list \<Rightarrow> 'a list" where
  "move_pair i gap xs =
     take gap xs @ [xs ! (i + 1), xs ! (i + 2)] @ drop gap (take (i + 1) xs) @ drop (i + 3) xs"

partial_function (option) phase2_loop :: "'l sched_state \<Rightarrow> 'l sched_state option" where
  "phase2_loop st =
     (case st of (ls, locs, n) \<Rightarrow>
        (case first_splice ls (regions_of ls) of
           None \<Rightarrow> Some st
         | Some (i, gap) \<Rightarrow>
             phase2_loop (move_pair i gap ls, if locs = [] then locs else move_pair i gap locs, n + 1)))"

definition phase2_with_locs :: "sched_line list \<Rightarrow> 'l option list \<Rightarrow> 'l sched_state option" where
  "phase2_with_locs ls locs = phase2_loop (ls, locs, 0)"

definition phase2 :: "sched_line list \<Rightarrow> (sched_line list \<times> nat) option" where
  "phase2 ls = map_option (\<lambda>(ls', _, n). (ls', n)) (phase2_with_locs ls ([] :: unit option list))"

section \<open>The pass\<close>

text \<open>The outer \<^const>\<open>None\<close> is a loop that does not end, the inner one a panic of the classification.\<close>

definition schedule_with_locs ::
    "device \<Rightarrow> string \<Rightarrow> 'l option list \<Rightarrow> (string \<times> 'l option list) option option" where
  "schedule_with_locs dev asm locs =
     (case classify dev asm of
        None \<Rightarrow> Some None
      | Some ls \<Rightarrow>
          (case phase1_with_locs ls locs of (ls1, locs1, n1) \<Rightarrow>
             (case phase2_with_locs ls1 locs1 of
                None \<Rightarrow> None
              | Some (ls2, locs2, n2) \<Rightarrow>
                  Some (Some (join_with [CHR 0x0A] (map line_raw ls2) @ (if strip_suffix [CHR 0x0A] asm \<noteq> None then [CHR 0x0A] else []),
                    locs2)))))"

definition schedule :: "device \<Rightarrow> string \<Rightarrow> string option option" where
  "schedule dev asm = map_option (map_option fst) (schedule_with_locs dev asm ([] :: unit option list))"

end
