(* ===== verification/SchedFacts.thy ===== *)
theory SchedFacts
  imports Schedule "HOL-Library.Multiset"
begin

text \<open>
  The lemmas of the scheduler: regions are the maximal runs between barriers, what the classification
  says of a line, and the interface \<open>listing_machine\<close> between the two: a machine on which a move
  candidate commutes with a banked neighbour runs every region the same after a permitted swap. Its
  interpretation executes the lines on W, the flags and one cell for each register address.
\<close>

section \<open>Regions\<close>

text \<open>A region is a maximal run of lines that are no barrier.\<close>

definition is_region :: "sched_line list \<Rightarrow> nat \<times> nat \<Rightarrow> bool" where
  "is_region ls r \<longleftrightarrow> fst r < snd r \<and> snd r \<le> length ls \<and>
     (\<forall>j. fst r \<le> j \<and> j < snd r \<longrightarrow> \<not> is_barrier (ls ! j)) \<and>
     (fst r = 0 \<or> is_barrier (ls ! (fst r - 1))) \<and> (snd r = length ls \<or> is_barrier (ls ! snd r))"

definition open_region :: "sched_line list \<Rightarrow> nat \<Rightarrow> nat option \<Rightarrow> bool" where
  "open_region ls n start \<longleftrightarrow>
     (case start of
        None \<Rightarrow> n = 0 \<or> is_barrier (ls ! (n - 1))
      | Some s \<Rightarrow> s < n \<and> (\<forall>j. s \<le> j \<and> j < n \<longrightarrow> \<not> is_barrier (ls ! j)) \<and> (s = 0 \<or> is_barrier (ls ! (s - 1))))"

lemma runs_from_regions:
  assumes "open_region ls n start" and "xs = drop n ls" and "n \<le> length ls"
    and "r \<in> set (runs_from n start xs)"
  shows "is_region ls r"
  using assms
proof (induction n start xs rule: runs_from.induct)
  case (1 i start)
  then have "i = length ls" by simp
  with 1 show ?case by (auto simp: is_region_def open_region_def split: option.splits)
next
  case (2 i start l xs)
  have i: "i < length ls" using 2(4) by (metis drop_all list.distinct(1) not_le)
  have l: "ls ! i = l" and xs: "xs = drop (Suc i) ls"
    using 2(4) i by (metis nth_via_drop) (metis 2(4) Cons_nth_drop_Suc i list.inject)
  show ?case
  proof (cases "is_barrier l")
    case True
    have o: "open_region ls (Suc i) None" using True l by (simp add: open_region_def)
    consider "r \<in> set (runs_from (Suc i) None xs)" | s where "start = Some s" "r = (s, i)"
      using 2(6) True by (auto split: option.splits)
    then show ?thesis
    proof cases
      case 1 then show ?thesis using 2(1) [OF True o xs] i by simp
    next
      case 2 then show ?thesis using \<open>open_region ls i start\<close> i l True
        by (auto simp: is_region_def open_region_def)
    qed
  next
    case False
    have "open_region ls (Suc i) (case start of None \<Rightarrow> Some i | Some s \<Rightarrow> Some s)"
      using 2(3) False l by (auto simp: open_region_def less_Suc_eq split: option.splits)
    then show ?thesis using 2(2) [OF False _ xs] 2(6) False i by simp
  qed
qed

lemma regions_of_regions: "r \<in> set (regions_of ls) \<Longrightarrow> is_region ls r"
  unfolding regions_of_def by (rule runs_from_regions [of ls 0 None ls]) (simp_all add: open_region_def)

lemma runs_from_barriers:
  "map is_barrier xs = map is_barrier ys \<Longrightarrow> runs_from n start xs = runs_from n start ys"
proof (induction xs arbitrary: ys n start)
  case (Cons x xs)
  then obtain y zs where "ys = y # zs" "is_barrier x = is_barrier y" "map is_barrier xs = map is_barrier zs"
    by (cases ys) auto
  then show ?case using Cons.IH by simp
qed simp

lemma regions_of_barriers: "map is_barrier xs = map is_barrier ys \<Longrightarrow> regions_of xs = regions_of ys"
  unfolding regions_of_def by (rule runs_from_barriers)

text \<open>Two regions with a common line are the same.\<close>

lemma region_unique:
  assumes a: "is_region ls a" and b: "is_region ls b" and i: "fst a \<le> i" "i < snd a" "fst b \<le> i" "i < snd b"
  shows "a = b"
proof -
  have le: "fst y \<le> fst x" if x: "is_region ls x" and y: "is_region ls y"
    and i: "fst x \<le> i" "i < snd x" "fst y \<le> i" for x y
  proof (rule ccontr)
    assume n: "\<not> fst y \<le> fst x"
    then have "is_barrier (ls ! (fst y - 1))" using y by (simp add: is_region_def)
    moreover have "fst x \<le> fst y - 1" "fst y - 1 < snd x" using n i by arith+
    ultimately show False using x by (simp add: is_region_def)
  qed
  have re: "snd x \<le> snd y" if x: "is_region ls x" and y: "is_region ls y"
    and i: "fst x \<le> i" "i < snd y" for x y
  proof (rule ccontr)
    assume n: "\<not> snd x \<le> snd y"
    moreover have "snd x \<le> length ls" using x by (simp add: is_region_def)
    ultimately have "is_barrier (ls ! snd y)" using y by (simp add: is_region_def)
    moreover have "fst x \<le> snd y" "snd y < snd x" using n i by arith+
    ultimately show False using x by (simp add: is_region_def)
  qed
  show ?thesis
    using le [OF a b] le [OF b a] re [OF a b] re [OF b a] i by (simp add: prod_eq_iff)
qed

section \<open>Swaps\<close>

lemma swap_at_length [simp]: "length (swap_at i xs) = length xs"
  by (simp add: swap_at_def)

lemma swap_at_nth:
  "Suc i < length xs \<Longrightarrow> j < length xs \<Longrightarrow>
   swap_at i xs ! j = (if j = i then xs ! Suc i else if j = Suc i then xs ! i else xs ! j)"
  by (simp add: swap_at_def nth_list_update)

lemma swap_at_append: "swap_at (length A) (A @ x # y # B) = A @ y # x # B"
  by (simp add: swap_at_def nth_append list_update_append)

lemma swap_at_mset: "Suc i < length xs \<Longrightarrow> mset (swap_at i xs) = mset xs"
  unfolding swap_at_def by (rule mset_swap) simp_all

definition segment :: "nat \<times> nat \<Rightarrow> 'a list \<Rightarrow> 'a list" where
  "segment r xs = drop (fst r) (take (snd r) xs)"

lemma segment_split:
  assumes "fst r \<le> i" and "Suc i < snd r" and "snd r \<le> length xs"
  obtains A B where "segment r xs = A @ xs ! i # xs ! Suc i # B"
    and "segment r (swap_at i xs) = A @ xs ! Suc i # xs ! i # B"
    and "A = drop (fst r) (take i xs)"
proof
  let ?A = "drop (fst r) (take i xs)" and ?B = "drop (Suc (Suc i)) (take (snd r) xs)"
  have *: "drop a (take b zs) = drop a (take i zs) @ zs ! i # zs ! Suc i # drop (Suc (Suc i)) (take b zs)"
    if ab: "a \<le> i" "Suc i < b" "b \<le> length zs" for a b and zs :: "'a list"
  proof -
    let ?t = "take b zs"
    have t: "take i ?t = take i zs" "length ?t = b" "?t ! i = zs ! i" "?t ! Suc i = zs ! Suc i"
      using ab by simp_all
    have d: "drop i ?t = zs ! i # zs ! Suc i # drop (Suc (Suc i)) ?t"
      using Cons_nth_drop_Suc [of i ?t] Cons_nth_drop_Suc [of "Suc i" ?t] t ab by simp
    have "drop a ?t = drop a (take i ?t @ drop i ?t)" by (simp only: append_take_drop_id)
    also have "\<dots> = drop a (take i zs) @ drop i ?t" using ab by (simp add: drop_append t)
    finally show ?thesis by (simp only: d)
  qed
  show "segment r xs = ?A @ xs ! i # xs ! Suc i # ?B"
    unfolding segment_def using assms by (intro *)
  have t: "take i (swap_at i xs) = take i xs"
    by (simp add: swap_at_def)
  have d: "drop (Suc (Suc i)) (take (snd r) (swap_at i xs)) = ?B"
    by (simp add: swap_at_def take_update_swap)
  show "segment r (swap_at i xs) = ?A @ xs ! Suc i # xs ! i # ?B"
    unfolding segment_def using * [of "fst r" "snd r" "swap_at i xs"] assms
    by (simp add: t d swap_at_nth)
qed simp

lemma segment_other:
  assumes "Suc i < fst r \<or> snd r \<le> i"
  shows "segment r (swap_at i xs) = segment r xs"
  using assms by (auto simp: segment_def swap_at_def take_update_swap list_update_beyond)

section \<open>What the classification says\<close>

text \<open>An instruction of the classification, with or without the mark of the second pass.\<close>

definition genuine :: "device \<Rightarrow> insn \<Rightarrow> bool" where
  "genuine dev i \<longleftrightarrow>
     classify_insn dev (i_line i) (i_mne i) (line_toks (i_line i)) = Some (SInsn (i\<lparr>is_skip_target := False\<rparr>))"

definition lines_genuine :: "device \<Rightarrow> sched_line list \<Rightarrow> bool" where
  "lines_genuine dev ls \<longleftrightarrow> (\<forall>i. SInsn i \<in> set ls \<longrightarrow> genuine dev i)"

text \<open>Exactly the instruction after a skip carries the mark.\<close>

definition marked :: "sched_line \<Rightarrow> bool" where
  "marked l = (case l of SInsn i \<Rightarrow> is_skip_target i | _ \<Rightarrow> False)"

definition is_insn :: "sched_line \<Rightarrow> bool" where
  "is_insn l = (case l of SInsn _ \<Rightarrow> True | _ \<Rightarrow> False)"

definition marks_ok :: "sched_line list \<Rightarrow> bool" where
  "marks_ok ls \<longleftrightarrow> (\<forall>j. Suc j < length ls \<and> is_insn (ls ! Suc j) \<longrightarrow> marked (ls ! Suc j) = skips_next (ls ! j))"

text \<open>The rows of the table an instruction can come from: the effects, read as the arguments of \<open>base_insn\<close>.\<close>

lemma classify_insn_row:
  assumes "classify_insn dev line mne toks = Some (SInsn i)"
  obtains bank rw ww rfl wfl rd wr where "operand_bank dev mne toks = Some bank"
    and "base_insn dev line mne toks bank rw ww rfl wfl rd wr = SInsn i"
proof -
  obtain bank where b: "operand_bank dev mne toks = Some bank"
    using assms by (auto simp: classify_insn_def bind_eq_Some_conv)
  define B where "B = base_insn dev line mne toks bank"
  define P where "P l \<longleftrightarrow> (\<forall>i. l = SInsn i \<longrightarrow> (\<exists>rw ww rfl wfl rd wr. B rw ww rfl wfl rd wr = SInsn i))" for l
  have P1: "P (B rw ww rfl wfl rd wr)" for rw ww rfl wfl rd wr unfolding P_def by blast
  have P2: "P (SOpaque line)" by (simp add: P_def)
  have P3: "P x \<Longrightarrow> P y \<Longrightarrow> P (if b then x else y)" for b x y by simp
  have "P (SInsn i)"
    using assms unfolding classify_insn_def b Let_def bind.bind_lunit option.inject B_def [symmetric]
    by (rule subst) (intro P1 P2 P3)
  then have "\<exists>rw ww rfl wfl rd wr. base_insn dev line mne toks bank rw ww rfl wfl rd wr = SInsn i"
    by (simp add: P_def B_def)
  with b that show ?thesis by blast
qed

lemma classify_insn_genuine:
  assumes "classify_insn dev line mne (line_toks line) = Some (SInsn i)"
  shows "genuine dev i \<and> \<not> is_skip_target i"
proof -
  obtain bank rw ww rfl wfl rd wr
    where "base_insn dev line mne (line_toks line) bank rw ww rfl wfl rd wr = SInsn i"
    by (rule classify_insn_row [OF assms])
  then have "i_line i = line" "i_mne i = mne" "\<not> is_skip_target i" by (auto simp: base_insn_def)
  then show ?thesis using assms by (simp add: genuine_def)
qed

lemma classify_lines_genuine:
  "classify_lines dev b xs = Some ls \<Longrightarrow> SInsn i \<in> set ls \<Longrightarrow> genuine dev i \<and> \<not> is_skip_target i"
proof (induction xs arbitrary: b ls)
  case (Cons line xs)
  have c: "classify_line dev line = Some (SInsn i) \<Longrightarrow> genuine dev i \<and> \<not> is_skip_target i"
    using classify_insn_genuine [of dev line "hd (line_toks line)" i]
    by (auto simp: classify_line_def Let_def split: list.splits if_split_asm)
  show ?case using Cons.prems c by (auto simp: Let_def bind_eq_Some_conv split: if_split_asm dest: Cons.IH)
qed simp

lemma mark_target_genuine: "mark_target l = SInsn i \<Longrightarrow> \<exists>j. l = SInsn j \<and> i = j\<lparr>is_skip_target := True\<rparr>"
  by (auto simp: mark_target_def split: sched_line.splits)

lemma mark_targets_insn:
  "SInsn i \<in> set (mark_targets b ls) \<Longrightarrow> \<exists>j. SInsn j \<in> set ls \<and> (i = j \<or> i = j\<lparr>is_skip_target := True\<rparr>)"
  by (induction b ls rule: mark_targets.induct)
    (auto split: if_split_asm dest!: mark_target_genuine [OF sym] intro: mark_target_genuine)

lemma genuine_marked [simp]: "genuine dev (j\<lparr>is_skip_target := b\<rparr>) = genuine dev j"
  by (simp add: genuine_def)

lemma classify_genuine: "classify dev asm = Some ls \<Longrightarrow> lines_genuine dev ls"
  by (fastforce simp: classify_def lines_genuine_def dest!: mark_targets_insn classify_lines_genuine)

lemma mark_targets_length [simp]: "length (mark_targets b ls) = length ls"
  by (induction b ls rule: mark_targets.induct) simp_all

lemma mark_target_simps [simp]: "skips_next (mark_target l) = skips_next l"
  "is_insn (mark_target l) = is_insn l" "is_insn l \<Longrightarrow> marked (mark_target l)"
  by (cases l; simp add: mark_target_def skips_next_def is_insn_def marked_def)+

lemma mark_targets_nth:
  "j < length ls \<Longrightarrow> mark_targets b ls ! j =
     (if (if j = 0 then b else skips_next (ls ! (j - 1))) then mark_target (ls ! j) else ls ! j)"
  by (induction b ls arbitrary: j rule: mark_targets.induct) (auto simp: nth_Cons' )

lemma classify_marks:
  assumes "classify dev asm = Some ls"
  shows "marks_ok ls"
proof -
  obtain ms where m: "classify_lines dev False (str_lines asm) = Some ms" "ls = mark_targets False ms"
    using assms by (auto simp: classify_def)
  have "\<not> marked l" if "l \<in> set ms" for l
    using that classify_lines_genuine [OF m(1)] by (auto simp: marked_def split: sched_line.splits)
  then show ?thesis by (auto simp: marks_ok_def m(2) mark_targets_nth split: if_split_asm)
qed

section \<open>The interface to a machine\<close>

text \<open>A run over lines: whether the next line is skipped, and the machine's state. Only instructions act.\<close>

definition run_line :: "(insn \<Rightarrow> 's \<Rightarrow> 's) \<Rightarrow> (insn \<Rightarrow> 's \<Rightarrow> bool) \<Rightarrow> sched_line \<Rightarrow> bool \<times> 's \<Rightarrow> bool \<times> 's" where
  "run_line exec skips l st =
     (if fst st then (False, snd st)
      else case l of SInsn i \<Rightarrow> (skips i (snd st), exec i (snd st)) | _ \<Rightarrow> (False, snd st))"

definition run_lines :: "(insn \<Rightarrow> 's \<Rightarrow> 's) \<Rightarrow> (insn \<Rightarrow> 's \<Rightarrow> bool) \<Rightarrow> sched_line list \<Rightarrow> bool \<times> 's \<Rightarrow> bool \<times> 's" where
  "run_lines exec skips ls = fold (run_line exec skips) ls"

text \<open>A region is entered with a skip pending only behind a skip that is itself a barrier.\<close>

definition enters :: "sched_line list \<Rightarrow> nat \<times> nat \<Rightarrow> bool \<Rightarrow> bool" where
  "enters ls r sk \<longleftrightarrow> (sk \<longrightarrow> 0 < fst r \<and> skips_next (ls ! (fst r - 1)))"

text \<open>
  The same listing up to the order inside regions: barriers stay where they are, marks still follow
  skips, and every region is a permutation that runs the same.
\<close>

definition same_listing ::
    "(insn \<Rightarrow> bool) \<Rightarrow> (insn \<Rightarrow> 's \<Rightarrow> 's) \<Rightarrow> (insn \<Rightarrow> 's \<Rightarrow> bool) \<Rightarrow> sched_line list \<Rightarrow> sched_line list \<Rightarrow> bool" where
  "same_listing good exec skips ls ls' \<longleftrightarrow>
     map is_barrier ls' = map is_barrier ls \<and> (\<forall>j < length ls. is_barrier (ls ! j) \<longrightarrow> ls' ! j = ls ! j) \<and>
     marks_ok ls' \<and> (\<forall>i. SInsn i \<in> set ls' \<longrightarrow> good i) \<and>
     (\<forall>r \<in> set (regions_of ls). mset (segment r ls') = mset (segment r ls) \<and>
        (\<forall>sk s. enters ls r sk \<longrightarrow>
           run_lines exec skips (segment r ls') (sk, s) = run_lines exec skips (segment r ls) (sk, s)))"

locale listing_machine =
  fixes good :: "insn \<Rightarrow> bool" and exec :: "insn \<Rightarrow> 's \<Rightarrow> 's" and skips :: "insn \<Rightarrow> 's \<Rightarrow> bool"
  assumes commute: "good c \<Longrightarrow> good n \<Longrightarrow> is_move_candidate c \<Longrightarrow> i_bank n \<noteq> None \<Longrightarrow>
      \<not> file_collision c n \<Longrightarrow> exec c (exec n s) = exec n (exec c s)"
    and no_skip: "\<not> is_skip i \<Longrightarrow> \<not> skips i s"
begin

lemma run_pending:
  assumes "fst (run_lines exec skips A (sk, s))"
  shows "A = [] \<and> sk \<or> A \<noteq> [] \<and> skips_next (last A)"
  using assms
  by (cases A rule: rev_cases)
    (auto simp: run_lines_def run_line_def skips_next_def split: if_split_asm sched_line.splits intro: no_skip [THEN notE])

lemma run_swapped:
  assumes "\<not> fst (run_lines exec skips A st)" and "\<not> is_skip x" and "\<not> is_skip y"
    and "\<And>s. exec x (exec y s) = exec y (exec x s)"
  shows "run_lines exec skips (A @ SInsn y # SInsn x # B) st = run_lines exec skips (A @ SInsn x # SInsn y # B) st"
  using assms by (simp add: run_lines_def run_line_def no_skip)

lemma swap_same:
  assumes same: "same_listing good exec skips ls0 ls" and r: "r \<in> set (regions_of ls0)"
    and i: "fst r \<le> i" "Suc i < snd r" and xy: "ls ! i = SInsn x" "ls ! Suc i = SInsn y"
    and ns: "\<not> is_skip x" "\<not> is_skip y" "\<not> is_skip_target x" "\<not> is_skip_target y"
    and com: "\<And>s. exec x (exec y s) = exec y (exec x s)"
  shows "same_listing good exec skips ls0 (swap_at i ls)"
proof -
  have reg: "is_region ls0 r" using r by (rule regions_of_regions)
  have mb: "map is_barrier ls = map is_barrier ls0" and mk: "marks_ok ls" using same by (simp_all add: same_listing_def)
  have len: "length ls = length ls0" using mb by (rule map_eq_imp_length_eq)
  have bar: "is_barrier (ls ! j) = is_barrier (ls0 ! j)" if "j < length ls0" for j
    using mb that len by (metis nth_map)
  have il: "Suc i < length ls" and rl: "snd r \<le> length ls" using i reg len by (simp_all add: is_region_def)
  have nb: "\<not> is_barrier (ls ! i)" "\<not> is_barrier (ls ! Suc i)" using reg i il len bar by (simp_all add: is_region_def)
  have entry: "\<not> fst (run_lines exec skips (drop (fst r) (take i ls)) (sk, s))" if e: "enters ls0 r sk" for sk s
  proof
    assume p: "fst (run_lines exec skips (drop (fst r) (take i ls)) (sk, s))"
    have "0 < i \<and> skips_next (ls ! (i - 1))"
    proof (cases "fst r = i")
      case True
      then have "0 < i" "skips_next (ls0 ! (i - 1))" using run_pending [OF p] e by (auto simp: enters_def)
      moreover have "ls ! (i - 1) = ls0 ! (i - 1)"
        using same reg True \<open>0 < i\<close> il len by (simp add: same_listing_def is_region_def)
      ultimately show ?thesis by simp
    next
      case False
      then have "last (drop (fst r) (take i ls)) = ls ! (i - 1)" using i il by (simp add: last_conv_nth)
      then show ?thesis using run_pending [OF p] False i il by auto
    qed
    then have "marked (ls ! i)"
      using mk [unfolded marks_ok_def, rule_format, of "i - 1"] il xy by (simp add: is_insn_def)
    then show False using xy ns by (simp add: marked_def)
  qed
  have "mset (segment q (swap_at i ls)) = mset (segment q ls) \<and> (\<forall>sk s. enters ls0 q sk \<longrightarrow>
      run_lines exec skips (segment q (swap_at i ls)) (sk, s) = run_lines exec skips (segment q ls) (sk, s))"
    if q: "q \<in> set (regions_of ls0)" for q
  proof (cases "q = r")
    case True
    obtain A B where "segment r ls = A @ ls ! i # ls ! Suc i # B"
      and "segment r (swap_at i ls) = A @ ls ! Suc i # ls ! i # B" and "A = drop (fst r) (take i ls)"
      using segment_split [OF i rl] .
    then show ?thesis using True run_swapped [OF entry _ _ com] ns by (simp add: xy)
  next
    case False
    have "is_region ls0 q" using q by (rule regions_of_regions)
    then have "Suc i < fst q \<or> snd q \<le> i"
      using False region_unique [OF reg, of q i] region_unique [OF reg, of q "Suc i"] i
      by (force simp: is_region_def)
    then show ?thesis by (simp add: segment_other)
  qed
  moreover have "map is_barrier (swap_at i ls) = map is_barrier ls"
    using il nb by (intro nth_equalityI) (simp_all add: swap_at_nth)
  moreover have "swap_at i ls ! j = ls ! j" if "j < length ls" "is_barrier (ls ! j)" for j
    using il nb that by (auto simp: swap_at_nth)
  moreover have "marks_ok (swap_at i ls)"
    unfolding marks_ok_def
  proof (intro allI impI, elim conjE)
    fix j assume j: "Suc j < length (swap_at i ls)" and ins: "is_insn (swap_at i ls ! Suc j)"
    have u: "\<not> marked (ls ! i)" "\<not> marked (ls ! Suc i)" "\<not> skips_next (ls ! i)" "\<not> skips_next (ls ! Suc i)"
      using xy ns by (simp_all add: marked_def skips_next_def)
    have m: "is_insn (ls ! Suc k) \<Longrightarrow> Suc k < length ls \<Longrightarrow> marked (ls ! Suc k) = skips_next (ls ! k)" for k
      using mk by (simp add: marks_ok_def)
    show "marked (swap_at i ls ! Suc j) = skips_next (swap_at i ls ! j)"
    proof (cases "Suc j = i")
      case True
      then have "\<not> skips_next (ls ! j)" using m [of j] u xy il by (simp add: is_insn_def)
      then show ?thesis using True il u by (simp add: swap_at_nth)
    next
      case False
      then show ?thesis using j ins u il m [of j] by (auto simp: swap_at_nth)
    qed
  qed
  moreover have "set (swap_at i ls) = set ls" using swap_at_mset [OF il] by (metis set_mset_mset)
  ultimately show ?thesis using same bar len by (auto simp: same_listing_def)
qed

end

end
