(* ===== verification/SchedPhase1.thy ===== *)
theory SchedPhase1
  imports SchedFacts
begin

text \<open>
  The first reorder of the scheduler keeps every region's effect: \<open>phase1\<close> inside the interface, the
  machine that executes the listing's lines, and its interpretation.
\<close>

section \<open>Phase 1 inside the interface\<close>

lemma excursion_lines:
  assumes "excursion ls i"
  obtains p c n where "ls ! (i - 1) = SInsn p" "ls ! i = SInsn c" "ls ! Suc i = SInsn n"
    "is_move_candidate c" "i_bank p \<noteq> None" "i_bank n \<noteq> None"
  using assms that by (simp add: excursion_def split: sched_line.splits) (metis option.distinct(1))

context listing_machine
begin

lemma step_same:
  assumes same: "same_listing good exec skips ls0 ls" and r: "r \<in> set (regions_of ls0)"
    and i: "fst r < i" "Suc i < snd r"
  shows "same_listing good exec skips ls0 (fst (phase1_step i (ls, locs, n)))"
proof (cases "excursion ls i")
  case False
  then show ?thesis using same by (simp add: phase1_step_def)
next
  case True
  obtain p c q where l: "ls ! (i - 1) = SInsn p" "ls ! i = SInsn c" "ls ! Suc i = SInsn q"
    and cand: "is_move_candidate c" and b: "i_bank p \<noteq> None" "i_bank q \<noteq> None"
    using excursion_lines [OF True] .
  have len: "length ls = length ls0" and mk: "marks_ok ls"
    using same by (auto simp: same_listing_def dest: map_eq_imp_length_eq)
  have il: "Suc i < length ls" and i1: "Suc (i - 1) = i" using i regions_of_regions [OF r] len by (simp_all add: is_region_def)
  have good: "good p" "good c" "good q"
    using same l il nth_mem [of "i - 1" ls] nth_mem [of i ls] nth_mem [of "Suc i" ls] by (auto simp: same_listing_def)
  have ci: "\<not> is_skip c" "\<not> is_skip_target c" using cand by (simp_all add: is_move_candidate_def)
  have mq: "\<not> is_skip_target q" and mp: "\<not> is_skip p"
    using mk [unfolded marks_ok_def, rule_format, of i] mk [unfolded marks_ok_def, rule_format, of "i - 1"] l il i1 ci
    by (simp_all add: is_insn_def marked_def skips_next_def)
  consider "can_sink ls i" | "\<not> can_sink ls i" "can_hoist ls i" | "\<not> can_sink ls i" "\<not> can_hoist ls i" by blast
  then show ?thesis
  proof cases
    case 1
    then have nc: "\<not> is_skip q" "\<not> file_collision c q" using l by (simp_all add: can_sink_def)
    have "same_listing good exec skips ls0 (swap_at i ls)"
      by (rule swap_same [OF same r _ i(2) l(2,3) ci(1) nc(1) ci(2) mq commute [OF good(2,3) cand b(2) nc(2)]])
        (use i in simp)
    then show ?thesis using 1 True by (simp add: phase1_step_def)
  next
    case 2
    then have nc: "\<not> is_skip_target p" "\<not> file_collision c p" using l by (simp_all add: can_hoist_def)
    have "same_listing good exec skips ls0 (swap_at (i - 1) ls)"
      by (rule swap_same [OF same r _ _ l(1) _ mp ci(1) nc(1) ci(2) commute [OF good(2,1) cand b(1) nc(2), symmetric]])
        (use i i1 l in simp_all)
    then show ?thesis using 2 True by (simp add: phase1_step_def)
  next
    case 3
    then show ?thesis using same by (simp add: phase1_step_def)
  qed
qed

lemma steps_same:
  "same_listing good exec skips ls0 (fst st) \<Longrightarrow> r \<in> set (regions_of ls0) \<Longrightarrow>
   (\<And>i. i \<in> set is \<Longrightarrow> fst r < i \<and> Suc i < snd r) \<Longrightarrow>
   same_listing good exec skips ls0 (fst (fold phase1_step is st))"
proof (induction "is" arbitrary: st)
  case (Cons i js)
  obtain ls locs n where st: "st = (ls, locs, n)" by (cases st)
  have "same_listing good exec skips ls0 (fst (phase1_step i st))"
    using Cons.prems(1) step_same [OF _ Cons.prems(2), of ls i locs n] Cons.prems(3) [of i] st by simp
  then show ?case using Cons.IH Cons.prems(2,3) by simp
qed simp

lemma region_same:
  "same_listing good exec skips ls0 (fst st) \<Longrightarrow> r \<in> set (regions_of ls0) \<Longrightarrow>
   same_listing good exec skips ls0 (fst (phase1_region r st))"
  by (cases r) (auto simp: phase1_region_def intro!: steps_same [where r = r])

lemma phase1_same:
  assumes "marks_ok ls" and "\<forall>i. SInsn i \<in> set ls \<longrightarrow> good i"
  shows "same_listing good exec skips ls (fst (phase1_with_locs ls locs))"
proof -
  have s: "same_listing good exec skips ls (fst (ls, locs, 0 :: nat))" using assms by (simp add: same_listing_def)
  have "same_listing good exec skips ls (fst (fold phase1_region rs st))"
    if "set rs \<subseteq> set (regions_of ls)" "same_listing good exec skips ls (fst st)" for rs and st :: "'l sched_state"
    using that by (induction rs arbitrary: st) (simp_all add: region_same)
  then show ?thesis unfolding phase1_with_locs_def using s by blast
qed

end

section \<open>A machine for the listing\<close>

text \<open>
  W, the flags of STATUS (carry, digit carry and zero in bits 0, 1 and 2) and one cell for every address
  of the data memory: before bank selects exist, the address in the text is the register.
\<close>

record listing_state =
  m_w :: u8
  m_flags :: u8
  m_cell :: "u16 \<Rightarrow> u8"

definition flag_to :: "nat \<Rightarrow> bool \<Rightarrow> u8 \<Rightarrow> u8" where
  "flag_to n b fl = (if b then set_bit n fl else unset_bit n fl)"

definition alu_result :: "string \<Rightarrow> u8 \<Rightarrow> u8 \<Rightarrow> u8 \<Rightarrow> u8" where
  "alu_result mne w v fl =
     (if mne = ''ADDWF'' then w + v else if mne = ''ANDWF'' then w AND v else if mne = ''COMF'' then NOT v
      else if mne = ''DECF'' then v - 1 else if mne = ''INCF'' then v + 1 else if mne = ''IORWF'' then w OR v
      else if mne = ''RLF'' then push_bit 1 v OR (fl AND 1)
      else if mne = ''RRF'' then drop_bit 1 v OR push_bit 7 (fl AND 1)
      else if mne = ''SUBWF'' then v - w
      else if mne = ''SWAPF'' then push_bit 4 v OR drop_bit 4 v
      else if mne = ''XORWF'' then w XOR v else v)"

definition alu_flags :: "string \<Rightarrow> u8 \<Rightarrow> u8 \<Rightarrow> u8 \<Rightarrow> u8" where
  "alu_flags mne w v fl =
     (let z = flag_to 2 (alu_result mne w v fl = 0) fl in
      if mne = ''ADDWF'' then
        flag_to 0 (256 \<le> unat w + unat v) (flag_to 1 (16 \<le> unat (w AND 15) + unat (v AND 15)) z)
      else if mne = ''SUBWF'' then flag_to 0 (w \<le> v) (flag_to 1 (w AND 15 \<le> v AND 15) z)
      else if mne = ''RLF'' then flag_to 0 (bit v 7) fl
      else if mne = ''RRF'' then flag_to 0 (bit v 0) fl
      else if mne = ''SWAPF'' then fl else z)"

definition put_result :: "bool \<Rightarrow> u16 \<Rightarrow> u8 \<Rightarrow> listing_state \<Rightarrow> listing_state" where
  "put_result to_file a r s = (if to_file then s\<lparr>m_cell := (m_cell s)(a := r)\<rparr> else s\<lparr>m_w := r\<rparr>)"

definition bit_no :: "insn \<Rightarrow> nat" where
  "bit_no i = (case parse_below 8 10 (snd (reg_bit (line_toks (i_line i)))) of Some b \<Rightarrow> b | None \<Rightarrow> 0)"

definition set_to :: "insn \<Rightarrow> u8 \<Rightarrow> u8" where
  "set_to i = flag_to (bit_no i) (i_mne i = ''BSF'')"

text \<open>
  Instructions without an address in the text (a literal, a symbolic register) do what \<open>other\<close> says, and
  skips on them skip when \<open>test\<close> says.
\<close>

definition listing_exec :: "(insn \<Rightarrow> listing_state \<Rightarrow> listing_state) \<Rightarrow> insn \<Rightarrow> listing_state \<Rightarrow> listing_state" where
  "listing_exec other i s =
     (let toks = line_toks (i_line i); mne = i_mne i; fl = m_flags s; w = m_w s in
      case literal_addr toks of
        None \<Rightarrow> other i s
      | Some a \<Rightarrow>
          (let v = m_cell s a in
           if mne \<in> set DEST_SELECTABLE then
             put_result (dest_is_file toks) a (alu_result mne w v fl) (s\<lparr>m_flags := alu_flags mne w v fl\<rparr>)
           else if mne = ''CLRF'' then put_result True a 0 (s\<lparr>m_flags := set_bit 2 fl\<rparr>)
           else if mne = ''CLRW'' then put_result False a 0 (s\<lparr>m_flags := set_bit 2 fl\<rparr>)
           else if mne = ''MOVWF'' then put_result True a w s
           else if mne = ''NOP'' then s
           else if mne = ''DECFSZ'' then put_result (dest_is_file toks) a (v - 1) s
           else if mne = ''INCFSZ'' then put_result (dest_is_file toks) a (v + 1) s
           else if mne = ''BCF'' \<or> mne = ''BSF'' then
             (if targets_status toks then s\<lparr>m_flags := set_to i fl\<rparr> else put_result True a (set_to i v) s)
           else if mne = ''BTFSC'' \<or> mne = ''BTFSS'' then s
           else other i s))"

definition listing_skips :: "(insn \<Rightarrow> listing_state \<Rightarrow> bool) \<Rightarrow> insn \<Rightarrow> listing_state \<Rightarrow> bool" where
  "listing_skips test i s \<longleftrightarrow> is_skip i \<and>
     (let toks = line_toks (i_line i); mne = i_mne i in
      case literal_addr toks of
        None \<Rightarrow> test i s
      | Some a \<Rightarrow>
          (let v = (if targets_status toks then m_flags s else m_cell s a) in
           if mne = ''DECFSZ'' then m_cell s a = 1 else if mne = ''INCFSZ'' then m_cell s a = 0xFF
           else bit v (bit_no i) = (mne = ''BTFSS'')))"

section \<open>What an instruction touches\<close>

definition touches_only :: "u16 \<Rightarrow> (listing_state \<Rightarrow> listing_state) \<Rightarrow> bool" where
  "touches_only a e \<longleftrightarrow>
     (\<exists>fw ff fv. \<forall>s. e s = s\<lparr>m_w := fw (m_w s) (m_flags s) (m_cell s a), m_flags := ff (m_w s) (m_flags s) (m_cell s a),
        m_cell := (m_cell s)(a := fv (m_w s) (m_flags s) (m_cell s a))\<rparr>)"

definition touches_cell :: "u16 \<Rightarrow> (listing_state \<Rightarrow> listing_state) \<Rightarrow> bool" where
  "touches_cell a e \<longleftrightarrow> (\<exists>g. \<forall>s. e s = s\<lparr>m_cell := (m_cell s)(a := g (m_cell s a))\<rparr>)"

lemma touches_onlyI:
  "(\<And>s. e s = s\<lparr>m_w := fw (m_w s) (m_flags s) (m_cell s a), m_flags := ff (m_w s) (m_flags s) (m_cell s a),
        m_cell := (m_cell s)(a := fv (m_w s) (m_flags s) (m_cell s a))\<rparr>) \<Longrightarrow> touches_only a e"
  unfolding touches_only_def by blast

lemma touches_commute:
  assumes "touches_cell a e" and "touches_only b f" and "a \<noteq> b"
  shows "e (f s) = f (e s)"
  using assms unfolding touches_cell_def touches_only_def by (fastforce simp: fun_upd_twist)

lemma touches_put:
  "touches_only a (\<lambda>s. put_result tf a (r (m_w s) (m_flags s) (m_cell s a)) (s\<lparr>m_flags := q (m_w s) (m_flags s) (m_cell s a)\<rparr>))"
  by (rule touches_onlyI [where fw = "\<lambda>w fl v. if tf then w else r w fl v" and ff = q and fv = "\<lambda>w fl v. if tf then r w fl v else v"])
    (simp add: put_result_def)

lemma touches_flags: "touches_only a (\<lambda>s. s\<lparr>m_flags := q (m_flags s)\<rparr>)"
  by (rule touches_onlyI [where fw = "\<lambda>w fl v. w" and ff = "\<lambda>w fl v. q fl" and fv = "\<lambda>w fl v. v"]) simp

lemma genuine_row:
  assumes "genuine dev i"
  shows "operand_bank dev (i_mne i) (line_toks (i_line i)) = Some (i_bank i)"
    and "i_addr i = literal_addr (line_toks (i_line i))"
    and "is_skip i = (i_mne i \<in> set SKIP_OPS)"
proof -
  obtain bank rw ww rfl wfl rd wr
    where b: "operand_bank dev (i_mne i) (line_toks (i_line i)) = Some bank"
      and r: "base_insn dev (i_line i) (i_mne i) (line_toks (i_line i)) bank rw ww rfl wfl rd wr =
        SInsn (i\<lparr>is_skip_target := False\<rparr>)"
    using assms unfolding genuine_def by (rule classify_insn_row)
  have "(i\<lparr>is_skip_target := False\<rparr>) = \<lparr>i_line = i_line i, i_mne = i_mne i, i_bank = bank, reads_w = rw, writes_w = ww,
      reads_flags = rfl, writes_flags = wfl, i_addr = literal_addr (line_toks (i_line i)), reads_file = rd, writes_file = wr,
      is_skip = (i_mne i \<in> set SKIP_OPS), touches_sfr = is_non_gpr_access dev (literal_addr (line_toks (i_line i))) rd wr,
      is_skip_target = False\<rparr>"
    using r by (simp add: base_insn_def)
  from arg_cong [where f = i_bank, OF this] arg_cong [where f = i_addr, OF this] arg_cong [where f = is_skip, OF this] b
  show "operand_bank dev (i_mne i) (line_toks (i_line i)) = Some (i_bank i)"
    "i_addr i = literal_addr (line_toks (i_line i))" "is_skip i = (i_mne i \<in> set SKIP_OPS)" by simp_all
qed

definition FILE_OPS :: "string list" where
  "FILE_OPS = DEST_SELECTABLE @ [''CLRF'', ''CLRW'', ''MOVWF'', ''NOP'', ''DECFSZ'', ''INCFSZ'', ''BCF'', ''BSF'', ''BTFSC'', ''BTFSS'']"

lemma banked_operand:
  assumes g: "genuine dev i" and b: "i_bank i \<noteq> None"
  obtains a where "i_addr i = Some a" "literal_addr (line_toks (i_line i)) = Some a" "i_mne i \<in> set FILE_OPS"
proof -
  have o: "operand_bank dev (i_mne i) (line_toks (i_line i)) \<noteq> Some None" using genuine_row(1) [OF g] b by simp
  then have l: "i_mne i \<notin> set LITERAL_OPS" by (auto simp: operand_bank_def)
  have "literal_addr = operand_addr" by (rule ext) (simp add: literal_addr_def operand_addr_def)
  then obtain a where a: "literal_addr (line_toks (i_line i)) = Some a"
    using o l by (cases "operand_addr (line_toks (i_line i))") (simp_all add: operand_bank_def)
  have "i_mne i \<in> set FILE_OPS"
  proof (rule ccontr)
    assume n: "i_mne i \<notin> set FILE_OPS"
    then show False using g l genuine_row(1) [OF g] by (simp add: genuine_def classify_insn_def FILE_OPS_def LITERAL_OPS_def)
  qed
  then show thesis using that [of a] a genuine_row(2) [OF g] by simp
qed

lemma exec_touches:
  assumes g: "genuine dev i" and b: "i_bank i \<noteq> None"
  shows "\<exists>a. i_addr i = Some a \<and> touches_only a (listing_exec other i)"
proof -
  obtain a where a: "i_addr i = Some a" "literal_addr (line_toks (i_line i)) = Some a" and m: "i_mne i \<in> set FILE_OPS"
    using banked_operand [OF g b] .
  let ?T = "touches_only a (listing_exec other i)"
  note e = listing_exec_def [abs_def] Let_def a
  consider "i_mne i \<in> set DEST_SELECTABLE"
    | "i_mne i \<notin> set DEST_SELECTABLE" "i_mne i \<in> set [''CLRF'', ''CLRW'', ''MOVWF'', ''NOP'', ''DECFSZ'', ''INCFSZ'', ''BTFSC'', ''BTFSS'']"
    | "i_mne i \<notin> set DEST_SELECTABLE" "i_mne i \<in> set [''BCF'', ''BSF'']"
    using m by (auto simp: FILE_OPS_def)
  then have ?T
  proof cases
    case 1
    then have "listing_exec other i = (\<lambda>s. put_result (dest_is_file (line_toks (i_line i))) a
        (alu_result (i_mne i) (m_w s) (m_cell s a) (m_flags s))
        (s\<lparr>m_flags := alu_flags (i_mne i) (m_w s) (m_cell s a) (m_flags s)\<rparr>))"
      by (intro ext) (simp add: e)
    then show ?thesis
      using touches_put [of a _ "\<lambda>w fl v. alu_result (i_mne i) w v fl" "\<lambda>w fl v. alu_flags (i_mne i) w v fl"] by simp
  next
    case 2
    then consider "i_mne i = ''CLRF''" | "i_mne i = ''CLRW''" | "i_mne i = ''MOVWF''" | "i_mne i = ''NOP''"
      | "i_mne i = ''DECFSZ''" | "i_mne i = ''INCFSZ''" | "i_mne i = ''BTFSC''" | "i_mne i = ''BTFSS''" by auto
    then show ?thesis
    proof cases
      case 1 then show ?thesis
        using touches_put [of a True "\<lambda>w fl v. 0" "\<lambda>w fl v. set_bit 2 fl"] \<open>i_mne i \<notin> _\<close> by (simp add: e)
    next
      case 2 then show ?thesis
        using touches_put [of a False "\<lambda>w fl v. 0" "\<lambda>w fl v. set_bit 2 fl"] \<open>i_mne i \<notin> _\<close> by (simp add: e)
    next
      case 3 then show ?thesis
        using touches_put [of a True "\<lambda>w fl v. w" "\<lambda>w fl v. fl"] \<open>i_mne i \<notin> _\<close> by (simp add: e)
    next
      case 4 then show ?thesis
        using touches_flags [of a "\<lambda>fl. fl"] \<open>i_mne i \<notin> _\<close> by (simp add: e)
    next
      case 5 then show ?thesis
        using touches_put [of a "dest_is_file (line_toks (i_line i))" "\<lambda>w fl v. v - 1" "\<lambda>w fl v. fl"] \<open>i_mne i \<notin> _\<close> by (simp add: e)
    next
      case 6 then show ?thesis
        using touches_put [of a "dest_is_file (line_toks (i_line i))" "\<lambda>w fl v. v + 1" "\<lambda>w fl v. fl"] \<open>i_mne i \<notin> _\<close> by (simp add: e)
    next
      case 7 then show ?thesis
        using touches_flags [of a "\<lambda>fl. fl"] \<open>i_mne i \<notin> _\<close> by (simp add: e)
    next
      case 8 then show ?thesis
        using touches_flags [of a "\<lambda>fl. fl"] \<open>i_mne i \<notin> _\<close> by (simp add: e)
    qed
  next
    case 3
    then have "listing_exec other i = (\<lambda>s. if targets_status (line_toks (i_line i)) then s\<lparr>m_flags := set_to i (m_flags s)\<rparr>
        else put_result True a (set_to i (m_cell s a)) s)"
      by (intro ext) (auto simp: e)
    then show ?thesis
      using touches_flags [of a "set_to i"] touches_put [of a True "\<lambda>w fl v. set_to i v" "\<lambda>w fl v. fl"]
      by (cases "targets_status (line_toks (i_line i))") simp_all
  qed
  with a show ?thesis by blast
qed

lemma candidate_touches:
  assumes g: "genuine dev i" and c: "is_move_candidate i"
  shows "\<exists>a. i_addr i = Some a \<and> touches_cell a (listing_exec other i)"
proof -
  have b: "i_bank i \<noteq> None" using c by (simp add: is_move_candidate_def)
  obtain a where a: "i_addr i = Some a" "literal_addr (line_toks (i_line i)) = Some a" and m: "i_mne i \<in> set FILE_OPS"
    using banked_operand [OF g b] .
  let ?i = "i\<lparr>is_skip_target := False\<rparr>"
  have c': "is_move_candidate ?i" using c by (simp add: is_move_candidate_def)
  have r: "case classify_insn dev (i_line i) (i_mne i) (line_toks (i_line i)) of
      Some (SInsn j) \<Rightarrow> is_move_candidate j | _ \<Rightarrow> False"
    using g c' by (simp add: genuine_def)
  have k: "i_mne i = ''NOP'' \<or> i_mne i = ''SWAPF'' \<and> dest_is_file (line_toks (i_line i)) \<or>
      (i_mne i = ''BCF'' \<or> i_mne i = ''BSF'') \<and> \<not> targets_status (line_toks (i_line i))"
    using m r unfolding FILE_OPS_def DEST_SELECTABLE_def classify_insn_def genuine_row(1) [OF g] base_insn_def
      DEST_SELECTABLE_READS_W_def DEST_SELECTABLE_SETS_FLAGS_def SKIP_OPS_def Let_def
    by (simp only: set_append list.set insert_iff empty_iff Un_iff) (elim disjE; simp add: is_move_candidate_def)
  have t: "touches_cell a e" if "\<And>s. e s = s\<lparr>m_cell := (m_cell s)(a := f (m_cell s a))\<rparr>" for e and f :: "u8 \<Rightarrow> u8"
    unfolding touches_cell_def using that by blast
  note e = listing_exec_def a put_result_def DEST_SELECTABLE_def Let_def
  have "touches_cell a (listing_exec other i)"
    using k
  proof (elim disjE conjE)
    assume "i_mne i = ''NOP''"
    then show ?thesis by (intro t [where f = "\<lambda>v. v"]) (simp add: e)
  next
    assume "i_mne i = ''SWAPF''" "dest_is_file (line_toks (i_line i))"
    then show ?thesis
      by (intro t [where f = "\<lambda>v. push_bit 4 v OR drop_bit 4 v"]) (simp add: e alu_result_def alu_flags_def)
  qed (rule t [where f = "set_to i"], simp add: e)+
  with a show ?thesis by blast
qed

interpretation listing: listing_machine "genuine dev" "listing_exec other" "listing_skips test"
proof
  fix c n :: insn and s
  assume g: "genuine dev c" "genuine dev n" and k: "is_move_candidate c" "i_bank n \<noteq> None" "\<not> file_collision c n"
  obtain a b where "i_addr c = Some a" "touches_cell a (listing_exec other c)"
    and "i_addr n = Some b" "touches_only b (listing_exec other n)"
    using candidate_touches [OF g(1) k(1)] exec_touches [OF g(2) k(2)] by blast
  moreover from this k(3) have "a \<noteq> b" by (auto simp: file_collision_def)
  ultimately show "listing_exec other c (listing_exec other n s) = listing_exec other n (listing_exec other c s)"
    using touches_commute by blast
qed (simp add: listing_skips_def)

end
