(* ===== verification/SchedPhase2.thy ===== *)
theory SchedPhase2
  imports SchedPhase1
begin

text \<open>
  The second reorder of the scheduler and the pass: every splice moves a \<open>MOVLW\<close>, \<open>MOVWF\<close> pair up
  inside its region, past no other pair, so the restarting loop ends; and no pass moves a line out of
  its region or away from its source location.
\<close>

section \<open>Rearranging a region\<close>

definition shuffled :: "sched_line list \<Rightarrow> sched_line list \<Rightarrow> bool" where
  "shuffled ls ls' \<longleftrightarrow> map is_barrier ls' = map is_barrier ls \<and>
     (\<forall>j < length ls. is_barrier (ls ! j) \<longrightarrow> ls' ! j = ls ! j) \<and>
     (\<forall>r \<in> set (regions_of ls). mset (segment r ls') = mset (segment r ls))"

lemma shuffled_refl [simp]: "shuffled ls ls"
  by (simp add: shuffled_def)

lemma shuffled_trans: "shuffled a b \<Longrightarrow> shuffled b c \<Longrightarrow> shuffled a c"
  using regions_of_barriers [of b a] map_eq_imp_length_eq [of is_barrier b is_barrier a]
  by (auto simp: shuffled_def)

lemma regions_apart:
  assumes "is_region ls r" and "is_region ls q" and "q \<noteq> r"
  shows "snd q \<le> fst r \<or> snd r \<le> fst q"
proof (rule ccontr)
  assume n: "\<not> ?thesis"
  have "fst q < snd q" "fst r < snd r" using assms by (simp_all add: is_region_def)
  then have "q = r" using n assms(1,2)
    by (cases "fst r \<le> fst q") (auto intro: region_unique [of ls q r "fst q"] region_unique [of ls q r "fst r"])
  then show False using assms(3) by simp
qed

lemma shuffle_inside:
  assumes ls: "ls = X @ U @ Y" and ls': "ls' = X @ U' @ Y" and u: "mset U' = mset U"
    and r: "r \<in> set (regions_of ls)" "fst r \<le> length X" "length X + length U \<le> snd r"
  shows "shuffled ls ls'"
proof -
  have reg: "is_region ls r" using r(1) by (rule regions_of_regions)
  have su: "set U' = set U" "length U' = length U" using u by (metis set_mset_mset) (metis size_mset u)
  have nb: "\<not> is_barrier x" if x: "x \<in> set U" for x
  proof -
    obtain j where "j < length U" "U ! j = x" using x by (auto simp: in_set_conv_nth)
    then have "ls ! (length X + j) = x" by (simp add: ls nth_append)
    then show ?thesis using reg r \<open>j < length U\<close> by (auto simp: is_region_def)
  qed
  have m: "map is_barrier U' = map is_barrier U"
    by (rule nth_equalityI) (use su nb in \<open>auto simp: su(2)\<close>, metis nth_mem su)
  have mb: "map is_barrier ls' = map is_barrier ls" by (simp add: ls ls' m)
  have "ls' ! j = ls ! j" if "j < length ls" "is_barrier (ls ! j)" for j
  proof -
    have "\<not> (length X \<le> j \<and> j < length X + length U)"
    proof
      assume j: "length X \<le> j \<and> j < length X + length U"
      then have "j - length X < length U" by arith
      then show False using that j nb [of "U ! (j - length X)"] by (simp add: ls nth_append)
    qed
    then show ?thesis using su by (auto simp: ls ls' nth_append)
  qed
  moreover have "mset (segment q ls') = mset (segment q ls)" if q: "q \<in> set (regions_of ls)" for q
  proof (cases "q = r")
    case True
    have "segment r (X @ V @ Y) = drop (fst r) X @ V @ take (snd r - (length X + length U)) Y"
      if "length V = length U" for V
      using that r(2,3) by (simp add: segment_def)
    then show ?thesis using True su u by (simp add: ls ls')
  next
    case False
    then have "snd q \<le> length X \<or> length X + length U \<le> fst q"
      using regions_apart [OF reg regions_of_regions [OF q]] r by auto
    then have "segment q ls' = segment q ls" using su by (auto simp: segment_def ls ls')
    then show ?thesis by simp
  qed
  ultimately show ?thesis using mb by (simp add: shuffled_def)
qed

section \<open>A splice\<close>

definition pair_at :: "sched_line \<Rightarrow> sched_line \<Rightarrow> bool" where
  "pair_at x y \<longleftrightarrow> \<not> is_barrier y \<and> (\<exists>p m. x = SInsn p \<and> y = SInsn m \<and> is_movlw_producer p \<and> is_movwf_consumer m)"

fun pairs_from :: "nat \<Rightarrow> sched_line list \<Rightarrow> nat" where
  "pairs_from n [] = 0"
| "pairs_from n [x] = 0"
| "pairs_from n (x # y # zs) = (if pair_at x y then n else 0) + pairs_from (Suc n) (y # zs)"

lemma pairs_append:
  "xs \<noteq> [] \<Longrightarrow> ys \<noteq> [] \<Longrightarrow> \<not> pair_at (last xs) (hd ys) \<Longrightarrow>
   pairs_from n (xs @ ys) = pairs_from n xs + pairs_from (n + length xs) ys"
proof (induction n xs rule: pairs_from.induct)
  case (2 n x)
  then show ?case by (cases ys) simp_all
qed simp_all

lemma pairs_none: "(\<And>x y. x \<in> set xs \<Longrightarrow> \<not> pair_at x y) \<Longrightarrow> pairs_from n xs = 0"
  by (induction n xs rule: pairs_from.induct) simp_all

lemma run_start_run:
  "rs \<le> e \<Longrightarrow> rs \<le> run_start ls rs e b \<and> run_start ls rs e b \<le> e \<and>
     (\<forall>k. run_start ls rs e b \<le> k \<and> k < e \<longrightarrow> (\<exists>p. ls ! k = SInsn p \<and> i_bank p = Some b))"
  by (induction ls rs e b rule: run_start.induct) (auto simp: less_Suc_eq split: sched_line.splits)

text \<open>What a splice found: the run up to the excursion, the pair behind it, and what follows.\<close>

lemma splice_gap_shape:
  assumes g: "splice_gap ls (rs, re) i = Some gap" and i: "rs < i" "i + 2 < re"
  obtains b y c p m where "rs < gap" "gap < i"
    and "\<And>k. gap - 1 \<le> k \<Longrightarrow> k < i \<Longrightarrow> \<exists>q. ls ! k = SInsn q \<and> i_bank q = Some b"
    and "ls ! gap = SInsn y" "\<not> reads_w y" "ls ! i = SInsn c"
    and "ls ! (i + 1) = SInsn p" "is_movlw_producer p" "ls ! (i + 2) = SInsn m" "is_movwf_consumer m"
    and "re \<le> i + 3 \<or> (\<exists>a. ls ! (i + 3) = SInsn a \<and> \<not> reads_w a)"
proof -
  obtain b where b: "excursion_bank ls i = Some b" and ok: "bundle_ok ls i b" "after_ok ls re i"
    and f: "find_dead_w_gap ls (run_start ls rs i b) i = Some gap"
    using g by (auto simp: splice_gap_def bind_eq_Some_conv Let_def split: if_split_asm)
  obtain c where c: "ls ! i = SInsn c" using b by (auto simp: excursion_bank_def split: sched_line.splits)
  obtain p m where pm: "ls ! (i + 1) = SInsn p" "ls ! (i + 2) = SInsn m" "is_movlw_producer p" "is_movwf_consumer m"
    using ok(1) by (auto simp: bundle_ok_def split: sched_line.splits)
  have "gap \<in> set [run_start ls rs i b + 1..<i]" and y: "case ls ! gap of SInsn y \<Rightarrow> \<not> reads_w y | _ \<Rightarrow> False"
    using f by (auto simp: find_dead_w_gap_def find_Some_iff)
  then have gap: "run_start ls rs i b < gap" "gap < i" by simp_all
  obtain y where y: "ls ! gap = SInsn y" "\<not> reads_w y" using y by (auto split: sched_line.splits)
  note rs = run_start_run [of rs i ls b]
  show thesis
    using that [of b y c p m] gap rs i y c pm ok(2) by (auto simp: after_ok_def split: sched_line.splits)
qed

lemma first_splice_some:
  "first_splice ls rs = Some (i, gap) \<Longrightarrow>
   \<exists>r \<in> set rs. fst r < i \<and> i + 2 < snd r \<and> splice_gap ls r i = Some gap"
proof (induction rs)
  case (Cons r rs)
  obtain a e where r: "r = (a, e)" by (cases r)
  let ?f = "if e - a < 4 then None else find (\<lambda>i. splice_gap ls (a, e) i \<noteq> None) [a + 1..<e - 2]"
  show ?case
  proof (cases ?f)
    case None
    then show ?thesis using Cons by (simp add: r)
  next
    case (Some k)
    then have "k \<in> set [a + 1..<e - 2]" "splice_gap ls (a, e) k \<noteq> None" by (auto simp: find_Some_iff split: if_split_asm)
    moreover have "i = k" "gap = the (splice_gap ls (a, e) k)"
      using Cons.prems unfolding r first_splice.simps Some by auto
    ultimately show ?thesis by (auto simp: r)
  qed
qed simp

lemma move_pair_parts:
  assumes "gap \<le> i" and "i + 2 < length xs"
  obtains A G B where "xs = A @ (G @ [xs ! i, xs ! (i + 1), xs ! (i + 2)]) @ B"
    and "move_pair i gap xs = A @ ([xs ! (i + 1), xs ! (i + 2)] @ G @ [xs ! i]) @ B"
    and "length A = gap" "length A + length G = i"
proof -
  let ?A = "take gap xs" and ?G = "drop gap (take i xs)" and ?B = "drop (i + 3) xs"
  have d: "drop i xs = xs ! i # xs ! (i + 1) # xs ! (i + 2) # ?B"
  proof -
    have "drop i xs = xs ! i # drop (Suc i) xs" using assms(2) by (intro Cons_nth_drop_Suc [symmetric]) simp
    also have "drop (Suc i) xs = xs ! Suc i # drop (Suc (Suc i)) xs"
      using assms(2) by (intro Cons_nth_drop_Suc [symmetric]) simp
    also have "drop (Suc (Suc i)) xs = xs ! Suc (Suc i) # drop (Suc (Suc (Suc i))) xs"
      using assms(2) by (intro Cons_nth_drop_Suc [symmetric]) simp
    finally show ?thesis by (simp add: numeral_eq_Suc)
  qed
  have "take gap (take i xs) = ?A" using assms(1) by (simp add: min_absorb1)
  then have t: "take i xs = ?A @ ?G" using append_take_drop_id [of gap "take i xs"] by simp
  have "xs = take i xs @ drop i xs" by simp
  also have "\<dots> = (?A @ ?G) @ (xs ! i # xs ! (i + 1) # xs ! (i + 2) # ?B)" by (rule arg_cong2 [OF t d])
  finally have 1: "xs = ?A @ (?G @ [xs ! i, xs ! (i + 1), xs ! (i + 2)]) @ ?B" by simp
  have "take (i + 1) xs = take i xs @ [xs ! i]" using assms(2) by (simp add: take_Suc_conv_app_nth)
  then have "drop gap (take (i + 1) xs) = ?G @ [xs ! i]" using assms by simp
  then have 2: "move_pair i gap xs = ?A @ ([xs ! (i + 1), xs ! (i + 2)] @ ?G @ [xs ! i]) @ ?B"
    unfolding move_pair_def by simp
  have "length ?A = gap" "length ?A + length ?G = i" using assms by simp_all
  then show thesis by (rule that [OF 1 2])
qed

lemma banked_no_producer:
  assumes "genuine dev i" and "i_bank i \<noteq> None"
  shows "\<not> pair_at (SInsn i) y"
proof -
  have "i_mne i \<notin> set LITERAL_OPS" using genuine_row(1) [OF assms(1)] assms(2) by (auto simp: operand_bank_def)
  then show ?thesis by (auto simp: pair_at_def is_movlw_producer_def LITERAL_OPS_def)
qed

lemma pairs_head: "(\<And>y. ys \<noteq> [] \<Longrightarrow> y = hd ys \<Longrightarrow> \<not> pair_at x y) \<Longrightarrow> pairs_from n (x # ys) = pairs_from (Suc n) ys"
  by (cases ys) auto

text \<open>The sum of the positions of the pairs drops: one pair moves up, and no other pair moves.\<close>

lemma splice_pairs:
  assumes g: "lines_genuine dev (A @ (G @ [SInsn c, SInsn p, SInsn m]) @ B)" and A: "A \<noteq> []" and G: "G \<noteq> []"
    and run: "\<And>x. x \<in> insert (last A) (set G) \<Longrightarrow> \<exists>q. x = SInsn q \<and> i_bank q \<noteq> None"
    and pm: "is_movlw_producer p" "is_movwf_consumer m" "\<not> is_barrier (SInsn m)"
    and after: "B \<noteq> [] \<Longrightarrow> is_barrier (hd B) \<or> (\<exists>a. hd B = SInsn a \<and> \<not> reads_w a)"
  shows "pairs_from 0 (A @ ([SInsn p, SInsn m] @ G @ [SInsn c]) @ B) <
    pairs_from 0 (A @ (G @ [SInsn c, SInsn p, SInsn m]) @ B)"
proof -
  let ?c = "SInsn c" and ?p = "SInsn p" and ?m = "SInsn m" and ?a = "length A" and ?g = "length G"
  have np: "\<not> pair_at x y" if x: "x \<in> insert (last A) (set G)" for x y
  proof -
    obtain q where q: "x = SInsn q" "i_bank q \<noteq> None" using run [OF x] by blast
    have "x \<in> set (A @ (G @ [?c, ?p, ?m]) @ B)" using x A by auto
    then show ?thesis using g q banked_no_producer by (auto simp: lines_genuine_def)
  qed
  have nm: "\<not> pair_at ?m y" for y using pm by (auto simp: pair_at_def is_movlw_producer_def is_movwf_consumer_def)
  have nc: "\<not> pair_at x ?p" for x using pm by (auto simp: pair_at_def is_movlw_producer_def is_movwf_consumer_def)
  have cb: "\<not> pair_at ?c y" if "B \<noteq> []" "y = hd B" for y
    using after [OF that(1)] that(2) by (auto simp: pair_at_def is_movwf_consumer_def)
  have pair: "pair_at ?p ?m" using pm by (auto simp: pair_at_def)
  have G0: "pairs_from n G = 0" for n using np by (intro pairs_none) simp
  have MG0: "pairs_from n (?m # G) = 0" for n using np nm by (intro pairs_none) auto
  have "pairs_from 0 (A @ G @ ?c # ?p # ?m # B) = pairs_from 0 A + (?a + ?g + 1) + pairs_from (?a + ?g + 3) B"
    using A G np by (simp add: pairs_append G0 nc pair pairs_head [OF nm] numeral_eq_Suc)
  moreover have "pairs_from 0 (A @ ?p # ?m # G @ ?c # B) = pairs_from 0 A + ?a + pairs_from (?a + ?g + 3) B"
  proof -
    have "pairs_from 0 (A @ ?p # ?m # G @ ?c # B) = pairs_from 0 A + ?a + pairs_from (?a + 1) ((?m # G) @ ?c # B)"
      using A np by (simp add: pairs_append pair)
    also have "pairs_from (?a + 1) ((?m # G) @ ?c # B) = pairs_from (?a + 1) (?m # G) + pairs_from (?a + 1 + length (?m # G)) (?c # B)"
      using G np by (intro pairs_append) simp_all
    also have "\<dots> = pairs_from (?a + ?g + 3) B" by (simp add: MG0 pairs_head [OF cb] numeral_eq_Suc)
    finally show ?thesis .
  qed
  ultimately show ?thesis by simp
qed

lemma splice_effect:
  assumes g: "lines_genuine dev ls" and f: "first_splice ls (regions_of ls) = Some (i, gap)"
  shows "gap \<le> i \<and> i + 2 < length ls \<and> shuffled ls (move_pair i gap ls) \<and>
    pairs_from 0 (move_pair i gap ls) < pairs_from 0 ls"
proof -
  obtain rs re where r: "(rs, re) \<in> set (regions_of ls)" and i: "rs < i" "i + 2 < re"
    and sp: "splice_gap ls (rs, re) i = Some gap"
    using first_splice_some [OF f] by auto
  have reg: "is_region ls (rs, re)" using r by (rule regions_of_regions)
  then have il: "i + 2 < length ls" using i by (simp add: is_region_def)
  obtain b y c p m where gap: "rs < gap" "gap < i"
    and run: "\<And>k. gap - 1 \<le> k \<Longrightarrow> k < i \<Longrightarrow> \<exists>q. ls ! k = SInsn q \<and> i_bank q = Some b"
    and c: "ls ! i = SInsn c" and p: "ls ! (i + 1) = SInsn p" "is_movlw_producer p"
    and m: "ls ! (i + 2) = SInsn m" "is_movwf_consumer m"
    and after: "re \<le> i + 3 \<or> (\<exists>a. ls ! (i + 3) = SInsn a \<and> \<not> reads_w a)"
    by (rule splice_gap_shape [OF sp i]) blast
  obtain A G B where x: "ls = A @ (G @ [ls ! i, ls ! (i + 1), ls ! (i + 2)]) @ B"
    and mv: "move_pair i gap ls = A @ ([ls ! (i + 1), ls ! (i + 2)] @ G @ [ls ! i]) @ B"
    and len: "length A = gap" "length A + length G = i"
    using move_pair_parts [of gap i ls] gap il by (auto simp del: append_assoc)
  have x': "ls = A @ (G @ [SInsn c, SInsn p, SInsn m]) @ B" using x unfolding c p(1) m(1) .
  have mv': "move_pair i gap ls = A @ ([SInsn p, SInsn m] @ G @ [SInsn c]) @ B" using mv unfolding c p(1) m(1) .
  have ne: "A \<noteq> []" "G \<noteq> []" using gap len by auto
  have at: "A ! k = ls ! k" if "k < gap" for k using that len by (subst x') (simp add: nth_append)
  have gt: "G ! k = ls ! (gap + k)" if "k < length G" for k using that len by (subst x') (simp add: nth_append)
  have la: "last A = ls ! (gap - 1)" using ne len at gap by (simp add: last_conv_nth)
  have run': "\<exists>q. z = SInsn q \<and> i_bank q \<noteq> None" if z: "z \<in> insert (last A) (set G)" for z
  proof -
    have "\<exists>k. gap - 1 \<le> k \<and> k < i \<and> z = ls ! k"
    proof (cases "z = last A")
      case True
      then show ?thesis using la gap by (intro exI [of _ "gap - 1"]) simp
    next
      case False
      then obtain k where "k < length G" "z = G ! k" using z by (auto simp: in_set_conv_nth)
      then show ?thesis using gt len by (intro exI [of _ "gap + k"]) simp
    qed
    then obtain k where k: "gap - 1 \<le> k" "k < i" "z = ls ! k" by blast
    show ?thesis using run [OF k(1,2)] k(3) by auto
  qed
  have hd: "hd B = ls ! (i + 3)" if "B \<noteq> []"
    using that unfolding len(2) [symmetric] by (subst x') (simp add: nth_append hd_conv_nth numeral_eq_Suc)
  have "length ls = i + 3 + length B" using len by (subst x') simp
  then have after': "is_barrier (hd B) \<or> (\<exists>a. hd B = SInsn a \<and> \<not> reads_w a)" if "B \<noteq> []"
  proof (cases "re \<le> i + 3")
    case True
    then have "re = i + 3" using i by simp
    then show ?thesis using reg hd [OF that] \<open>length ls = _\<close> that by (simp add: is_region_def)
  qed (use after hd that in auto)
  have bm: "\<not> is_barrier (SInsn m)" using reg i m by (auto simp: is_region_def dest: spec [of _ "i + 2"])
  have "pairs_from 0 (move_pair i gap ls) < pairs_from 0 ls"
    unfolding mv' by (subst x', rule splice_pairs [OF _ ne run' p(2) m(2) bm after']) (use g x' in simp_all)
  moreover have "shuffled ls (move_pair i gap ls)"
    by (rule shuffle_inside [OF x' mv' _ r]) (use gap len i in simp_all)
  ultimately show ?thesis using gap il by simp
qed

section \<open>Source locations\<close>

definition aligned :: "sched_line list \<Rightarrow> 'l option list \<Rightarrow> 'l sched_state \<Rightarrow> bool" where
  "aligned ls locs st \<longleftrightarrow>
     (case st of (ls', locs', n) \<Rightarrow> locs = [] \<and> locs' = [] \<or>
        length locs = length ls \<and> length locs' = length ls' \<and> mset (zip ls' locs') = mset (zip ls locs))"

lemma zip_swap_at:
  "length xs = length ys \<Longrightarrow> Suc i < length xs \<Longrightarrow> zip (swap_at i xs) (swap_at i ys) = swap_at i (zip xs ys)"
  by (simp add: swap_at_def zip_update)

lemma zip_move_pair:
  assumes "length xs = length ys" and "i + 2 < length xs"
  shows "zip (move_pair i gap xs) (move_pair i gap ys) = move_pair i gap (zip xs ys)"
  using assms by (simp add: move_pair_def zip_append take_zip drop_zip)

lemma mset_move_pair:
  assumes "gap \<le> i" and "i + 2 < length xs"
  shows "mset (move_pair i gap xs) = mset xs" and "length (move_pair i gap xs) = length xs"
proof -
  obtain A G B where x: "xs = A @ (G @ [xs ! i, xs ! (i + 1), xs ! (i + 2)]) @ B"
    and mv: "move_pair i gap xs = A @ ([xs ! (i + 1), xs ! (i + 2)] @ G @ [xs ! i]) @ B"
    by (rule move_pair_parts [OF assms])
  show *: "mset (move_pair i gap xs) = mset xs" unfolding mv by (subst (4) x) (simp add: union_ac)
  show "length (move_pair i gap xs) = length xs" using arg_cong [where f = size, OF *] by simp
qed

lemma phase1_step_aligned:
  assumes "aligned ls locs st" and "0 < i" and "Suc i < length (fst st)"
  shows "aligned ls locs (phase1_step i st) \<and> length (fst (phase1_step i st)) = length (fst st)"
proof -
  obtain xs ys n where st: "st = (xs, ys, n)" by (cases st)
  have "aligned ls locs (swap_at k xs, swap_locs k ys, m)" if k: "Suc k < length xs" for k m
    using assms(1) k by (auto simp: aligned_def st swap_locs_def zip_swap_at swap_at_mset)
  then show ?thesis using assms by (auto simp: phase1_step_def st)
qed

lemma phase1_aligned:
  assumes "locs = [] \<or> length locs = length ls"
  shows "aligned ls locs (phase1_with_locs ls locs)"
proof -
  have steps: "aligned ls locs (fold phase1_step js st) \<and> length (fst (fold phase1_step js st)) = length (fst st)"
    if "aligned ls locs st" "\<And>j. j \<in> set js \<Longrightarrow> 0 < j \<and> Suc j < length (fst st)" for js st
    using that
  proof (induction js arbitrary: st)
    case (Cons j js)
    have s: "aligned ls locs (phase1_step j st) \<and> length (fst (phase1_step j st)) = length (fst st)"
      using Cons.prems by (intro phase1_step_aligned) simp_all
    show ?case using Cons.IH [of "phase1_step j st"] Cons.prems(2) s by simp
  qed simp
  have "aligned ls locs (fold phase1_region rs st) \<and> length (fst (fold phase1_region rs st)) = length (fst st)"
    if "aligned ls locs st" "\<And>r. r \<in> set rs \<Longrightarrow> snd r \<le> length (fst st)" for rs st
    using that
  proof (induction rs arbitrary: st)
    case (Cons r rs)
    have s: "aligned ls locs (phase1_region r st) \<and> length (fst (phase1_region r st)) = length (fst st)"
    proof (cases r)
      case (Pair a b)
      have "b \<le> length (fst st)" using Cons.prems(2) [of r] Pair by simp
      then have "0 < j \<and> Suc j < length (fst st)" if "j \<in> set [a + 1..<b - 1]" for j using that by auto
      then show ?thesis using steps [OF Cons.prems(1), of "[a + 1..<b - 1]"] Pair Cons.prems(1) by (simp add: phase1_region_def)
    qed
    show ?case using Cons.IH [of "phase1_region r st"] Cons.prems(2) s by simp
  qed simp
  moreover have "snd r \<le> length ls" if "r \<in> set (regions_of ls)" for r
    using regions_of_regions [OF that] by (simp add: is_region_def)
  moreover have "aligned ls locs (ls, locs, 0)" using assms by (auto simp: aligned_def)
  ultimately show ?thesis by (simp add: phase1_with_locs_def)
qed

lemma same_shuffled: "same_listing good exec skips ls ls' \<Longrightarrow> shuffled ls ls'"
  by (simp add: same_listing_def shuffled_def)

lemma phase1_shuffled:
  assumes "classify dev asm = Some ls"
  shows "shuffled ls (fst (phase1_with_locs ls locs)) \<and> lines_genuine dev (fst (phase1_with_locs ls locs))"
proof -
  have "\<forall>i. SInsn i \<in> set ls \<longrightarrow> genuine dev i" using classify_genuine [OF assms] by (simp add: lines_genuine_def)
  note s = listing.phase1_same [OF classify_marks [OF assms] this, of "\<lambda>_ s. s" "\<lambda>_ _. False" locs]
  show ?thesis using same_shuffled [OF s] s by (simp add: same_listing_def lines_genuine_def)
qed

section \<open>The restarting loop\<close>

lemma phase2_loop_ends:
  assumes "lines_genuine dev (fst st)" and "aligned ls0 locs0 st" and "shuffled ls0 (fst st)"
  shows "\<exists>st'. phase2_loop st = Some st' \<and> aligned ls0 locs0 st' \<and> shuffled ls0 (fst st')"
  using assms
proof (induction "pairs_from 0 (fst st)" arbitrary: st rule: less_induct)
  case less
  obtain ls locs n where st: "st = (ls, locs, n)" by (cases st)
  show ?case
  proof (cases "first_splice ls (regions_of ls)")
    case None
    then have "phase2_loop st = Some st" by (subst phase2_loop.simps) (simp add: st)
    then show ?thesis using less.prems by blast
  next
    case (Some ig)
    obtain i gap where ig: "ig = (i, gap)" by (cases ig)
    let ?st = "(move_pair i gap ls, if locs = [] then locs else move_pair i gap locs, n + 1)"
    have g: "lines_genuine dev ls" using less.prems(1) by (simp add: st)
    note e = splice_effect [OF g Some [unfolded ig]]
    have i: "gap \<le> i" "i + 2 < length ls" using e by simp_all
    have "set (move_pair i gap ls) = set ls" using mset_move_pair(1) [OF i] by (metis set_mset_mset)
    then have g': "lines_genuine dev (fst ?st)" using g by (simp add: lines_genuine_def)
    have al: "aligned ls0 locs0 ?st"
      using less.prems(2) i mset_move_pair [OF i] mset_move_pair [of gap i locs] mset_move_pair [of gap i "zip ls locs"]
      by (auto simp: aligned_def st zip_move_pair)
    have "pairs_from 0 (fst ?st) < pairs_from 0 (fst st)" "shuffled ls0 (fst ?st)"
      using e shuffled_trans [of ls0 ls] less.prems(3) by (simp_all add: st)
    then obtain st' where "phase2_loop ?st = Some st'" "aligned ls0 locs0 st'" "shuffled ls0 (fst st')"
      using less.hyps [OF _ g' al] by blast
    moreover have "phase2_loop st = phase2_loop ?st"
      by (subst phase2_loop.simps) (simp add: st Some ig)
    ultimately show ?thesis by simp
  qed
qed

end
