(* ===== verification/SchedProps.thy ===== *)
theory SchedProps
  imports SchedPhase2
begin

text \<open>
  What the scheduler guarantees: the first reorder keeps what every straight-line region does, and the
  pass ends, moving lines only inside their regions. The last section runs the second reorder on a
  listing whose meaning it changes.
\<close>

section \<open>Listings evaluated\<close>

lemmas sched_eval = str_eval classify_line_def line_toks_def ends_colon_def TERMINATORS_def
  classify_insn_def DEST_SELECTABLE_def operand_bank_def LITERAL_OPS_def operand_addr_def literal_addr_def
  strip_punct_def hex_u16_def parse_below_def base_insn_def bank_of_def p16f877a_def in_window_def Let_def
  reg_bit_def targets_status_def tok1_def is_non_gpr_access_def SKIP_OPS_def DEST_SELECTABLE_READS_W_def
  DEST_SELECTABLE_SETS_FLAGS_def dest_is_file_def word_le_nat_alt bank_index.simps

definition plain_insn :: "string \<Rightarrow> string \<Rightarrow> u8 option \<Rightarrow> u16 \<Rightarrow> insn" where
  "plain_insn line mne bank a =
     \<lparr>i_line = line, i_mne = mne, i_bank = bank, reads_w = False, writes_w = False, reads_flags = False,
      writes_flags = False, i_addr = Some a, reads_file = False, writes_file = False, is_skip = False,
      touches_sfr = False, is_skip_target = False\<rparr>"

lemma eval_movf: "classify_line p16f877a ''    MOVF 0x20, W'' =
    Some (SInsn ((plain_insn ''    MOVF 0x20, W'' ''MOVF'' (Some 0) 0x20)
      \<lparr>writes_w := True, writes_flags := True, reads_file := True\<rparr>))"
  by (simp add: sched_eval plain_insn_def)

lemma eval_bsf: "classify_line p16f877a ''    BSF 0xA1, 3'' =
    Some (SInsn ((plain_insn ''    BSF 0xA1, 3'' ''BSF'' (Some 1) 0xA1)\<lparr>reads_file := True, writes_file := True\<rparr>))"
  by (simp add: sched_eval plain_insn_def)

lemma eval_movwf: "classify_line p16f877a ''    MOVWF 0x22'' =
    Some (SInsn ((plain_insn ''    MOVWF 0x22'' ''MOVWF'' (Some 0) 0x22)\<lparr>reads_w := True, writes_file := True\<rparr>))"
  by (simp add: sched_eval plain_insn_def)

lemma eval_movwf_a0: "classify_line p16f877a ''    MOVWF 0xA0'' =
    Some (SInsn ((plain_insn ''    MOVWF 0xA0'' ''MOVWF'' (Some 1) 0xA0)\<lparr>reads_w := True, writes_file := True\<rparr>))"
  by (simp add: sched_eval plain_insn_def)

lemma eval_incf: "classify_line p16f877a ''    INCF 0x21, F'' =
    Some (SInsn ((plain_insn ''    INCF 0x21, F'' ''INCF'' (Some 0) 0x21)
      \<lparr>writes_flags := True, reads_file := True, writes_file := True\<rparr>))"
  by (simp add: sched_eval plain_insn_def)

lemma eval_movlw: "classify_line p16f877a ''    MOVLW 0x05'' =
    Some (SInsn ((plain_insn ''    MOVLW 0x05'' ''MOVLW'' None 5)\<lparr>writes_w := True\<rparr>))"
  by (simp add: sched_eval plain_insn_def)

definition text_of :: "string list \<Rightarrow> string" where
  "text_of ls = concat (map (\<lambda>l. l @ [CHR 0x0A]) ls)"

lemma sample_lines: "str_lines (text_of [''    MOVF 0x20, W'', ''    BSF 0xA1, 3'', ''    MOVWF 0x22'']) =
   [''    MOVF 0x20, W'', ''    BSF 0xA1, 3'', ''    MOVWF 0x22'']"
  by (simp add: text_of_def str_lines_def split_char_def strip_cr_def strip_suffix_def strip_prefix_def Let_def)

text \<open>Three lines of which the second leaves bank 0 for a register of bank 1.\<close>

definition excursion_text :: string where
  "excursion_text = text_of [''    MOVF 0x20, W'', ''    BSF 0xA1, 3'', ''    MOVWF 0x22'']"

definition e_movf :: insn where
  "e_movf = (plain_insn ''    MOVF 0x20, W'' ''MOVF'' (Some 0) 0x20)
     \<lparr>writes_w := True, writes_flags := True, reads_file := True\<rparr>"

definition e_bsf :: insn where
  "e_bsf = (plain_insn ''    BSF 0xA1, 3'' ''BSF'' (Some 1) 0xA1)\<lparr>reads_file := True, writes_file := True\<rparr>"

definition e_movwf :: insn where
  "e_movwf = (plain_insn ''    MOVWF 0x22'' ''MOVWF'' (Some 0) 0x22)\<lparr>reads_w := True, writes_file := True\<rparr>"

lemma no_marker: "\<not> starts_with ''; --- asm start ---'' (trim_start (''    '' @ CHR ''M'' # x))"
  "\<not> starts_with ''; --- asm end ---'' (trim_start (''    '' @ CHR ''M'' # x))"
  by (simp_all add: starts_with_def trim_start_def is_ws_def)

lemma excursion_lines_eval: "classify p16f877a excursion_text = Some [SInsn e_movf, SInsn e_bsf, SInsn e_movwf]"
  by (simp add: classify_def excursion_text_def sample_lines eval_movf [folded e_movf_def] eval_bsf [folded e_bsf_def]
      eval_movwf [folded e_movwf_def] starts_with_def trim_start_def is_ws_def Let_def skips_next_def)
    (simp add: e_movf_def e_bsf_def plain_insn_def)

lemma excursion_regions: "regions_of [SInsn e_movf, SInsn e_bsf, SInsn e_movwf] = [(0, 3)]"
  by (simp add: regions_of_def is_barrier_def e_movf_def e_bsf_def e_movwf_def plain_insn_def)

lemma excursion_step: "phase1_step 1 ([SInsn e_movf, SInsn e_bsf, SInsn e_movwf], [], 0) =
    ([SInsn e_movf, SInsn e_movwf, SInsn e_bsf], [], 1)"
  by (simp add: phase1_step_def excursion_def is_move_candidate_def can_sink_def file_collision_def swap_at_def
      swap_locs_def e_movf_def e_bsf_def e_movwf_def plain_insn_def)

lemma excursion_phase1: "phase1_with_locs [SInsn e_movf, SInsn e_bsf, SInsn e_movwf] [] =
    ([SInsn e_movf, SInsn e_movwf, SInsn e_bsf], [], 1)"
  using excursion_step by (simp add: phase1_with_locs_def excursion_regions phase1_region_def upt_rec)

section \<open>Phase 1\<close>

text \<open>C38: the first reorder keeps what the listing does. Every barrier (label, call, jump, directive,
  inline assembly, access to a special-function register) stays at its line, and each straight-line
  region between barriers is a permutation of the original one that leaves W, the flags, every data
  register and a pending skip as the original does, from every state it can be entered in, whatever the
  instructions on symbolic registers do.\<close>

theorem schedule_phase1_preserves:
  assumes "classify dev asm = Some ls" and "phase1_with_locs ls locs = (ls', locs', n)"
  shows "map is_barrier ls' = map is_barrier ls \<and>
    (\<forall>j < length ls. is_barrier (ls ! j) \<longrightarrow> ls' ! j = ls ! j) \<and>
    (\<forall>r \<in> set (regions_of ls). mset (segment r ls') = mset (segment r ls) \<and>
       (\<forall>sk s. enters ls r sk \<longrightarrow>
          run_lines (listing_exec other) (listing_skips test) (segment r ls') (sk, s) =
          run_lines (listing_exec other) (listing_skips test) (segment r ls) (sk, s)))"
proof -
  have "\<forall>i. SInsn i \<in> set ls \<longrightarrow> genuine dev i"
    using classify_genuine [OF assms(1)] by (simp add: lines_genuine_def)
  from listing.phase1_same [OF classify_marks [OF assms(1)] this, of other test locs]
  show ?thesis by (simp add: assms(2) same_listing_def)
qed

lemma schedule_phase1_preserves_witness:
  "\<exists>ls ls'. classify p16f877a excursion_text = Some ls \<and> fst (phase1_with_locs ls []) = ls' \<and> ls' \<noteq> ls \<and>
     (\<forall>s. run_lines (listing_exec (\<lambda>_ s. s)) (listing_skips (\<lambda>_ _. False)) (segment (0, 3) ls') (False, s) =
          run_lines (listing_exec (\<lambda>_ s. s)) (listing_skips (\<lambda>_ _. False)) (segment (0, 3) ls) (False, s))"
proof -
  have "e_bsf \<noteq> e_movwf"
    by (simp add: e_bsf_def e_movwf_def plain_insn_def)
  moreover have "enters ls (0, 3) False" for ls by (simp add: enters_def)
  ultimately show ?thesis
    using schedule_phase1_preserves [OF excursion_lines_eval excursion_phase1, of "\<lambda>_ s. s" "\<lambda>_ _. False"]
    by (auto simp: excursion_lines_eval excursion_phase1 excursion_regions)
qed

section \<open>The pass\<close>

text \<open>C39: the pass always returns. The loop that restarts after every splice of the second reorder ends,
  so every listing that classifies without a panic is scheduled, with every barrier at its line, every
  region a permutation of its lines, and every line still beside its own source location.\<close>

theorem schedule_ends:
  assumes "classify dev asm = Some ls" and "locs = [] \<or> length locs = length ls"
  shows "\<exists>ls' locs'. schedule_with_locs dev asm locs =
      Some (Some (join_with [CHR 0x0A] (map line_raw ls') @ (if strip_suffix [CHR 0x0A] asm \<noteq> None then [CHR 0x0A] else []), locs')) \<and>
    map is_barrier ls' = map is_barrier ls \<and>
    (\<forall>j < length ls. is_barrier (ls ! j) \<longrightarrow> ls' ! j = ls ! j) \<and>
    (\<forall>r \<in> set (regions_of ls). mset (segment r ls') = mset (segment r ls)) \<and>
    (if locs = [] then locs' = [] else length locs' = length ls' \<and> mset (zip ls' locs') = mset (zip ls locs))"
proof -
  obtain ls1 locs1 n1 where p1: "phase1_with_locs ls locs = (ls1, locs1, n1)" by (cases "phase1_with_locs ls locs")
  have a: "aligned ls locs (ls1, locs1, n1)" using phase1_aligned [OF assms(2)] by (simp add: p1)
  have sh: "shuffled ls ls1" and g: "lines_genuine dev ls1"
    using phase1_shuffled [OF assms(1), of locs] by (simp_all add: p1)
  have "aligned ls locs (ls1, locs1, 0)" using a by (simp add: aligned_def)
  then obtain ls2 locs2 n2 where p2: "phase2_loop (ls1, locs1, 0) = Some (ls2, locs2, n2)"
    and al: "aligned ls locs (ls2, locs2, n2)" and s2: "shuffled ls ls2"
    using phase2_loop_ends [of dev "(ls1, locs1, 0)" ls locs] g sh by auto
  have "schedule_with_locs dev asm locs = Some (Some (join_with [CHR 0x0A] (map line_raw ls2) @
      (if strip_suffix [CHR 0x0A] asm \<noteq> None then [CHR 0x0A] else []), locs2))"
    by (simp add: schedule_with_locs_def assms(1) p1 phase2_with_locs_def p2)
  moreover have "if locs = [] then locs2 = [] else length locs2 = length ls2 \<and> mset (zip ls2 locs2) = mset (zip ls locs)"
    using al assms(2) by (auto simp: aligned_def)
  ultimately show ?thesis using s2 by (auto simp: shuffled_def)
qed

lemma schedule_ends_witness:
  "\<exists>ls ls'. classify p16f877a excursion_text = Some ls \<and> length ls = 3 \<and>
     schedule_with_locs p16f877a excursion_text ([] :: unit option list) =
       Some (Some (join_with [CHR 0x0A] (map line_raw ls') @ [CHR 0x0A], [])) \<and>
     map is_barrier ls' = [False, False, False]"
proof -
  have nl: "strip_suffix [CHR 0x0A] excursion_text \<noteq> None"
    by (simp add: excursion_text_def text_of_def strip_suffix_def strip_prefix_def)
  have b: "map is_barrier [SInsn e_movf, SInsn e_bsf, SInsn e_movwf] = [False, False, False]"
    by (simp add: is_barrier_def e_movf_def e_bsf_def e_movwf_def plain_insn_def)
  obtain ls' locs' where "schedule_with_locs p16f877a excursion_text ([] :: unit option list) =
      Some (Some (join_with [CHR 0x0A] (map line_raw ls') @ [CHR 0x0A], locs'))"
    and "map is_barrier ls' = [False, False, False]" and "locs' = []"
    using schedule_ends [OF excursion_lines_eval, of "[] :: unit option list", OF disjI1 [OF refl]] unfolding b if_P [OF nl] if_P [OF refl]
    by (elim exE conjE) (rule that)
  then show ?thesis using excursion_lines_eval by auto
qed

section \<open>Phase 2 loses a live W\<close>

text \<open>
  The gap test asks that the line at the gap does not read W, not that W is dead there: a value in W that
  a later line still stores is overwritten. Here W holds register 0x20 for the MOVWF of register 0xA0;
  the moved pair makes it store 5 instead.
\<close>

definition e_incf :: insn where
  "e_incf = (plain_insn ''    INCF 0x21, F'' ''INCF'' (Some 0) 0x21)
     \<lparr>writes_flags := True, reads_file := True, writes_file := True\<rparr>"

definition e_movwf_a0 :: insn where
  "e_movwf_a0 = (plain_insn ''    MOVWF 0xA0'' ''MOVWF'' (Some 1) 0xA0)\<lparr>reads_w := True, writes_file := True\<rparr>"

definition e_movlw :: insn where
  "e_movlw = (plain_insn ''    MOVLW 0x05'' ''MOVLW'' None 5)\<lparr>writes_w := True\<rparr>"

definition live_w :: "sched_line list" where
  "live_w = [SInsn e_movf, SInsn e_incf, SInsn e_movwf_a0, SInsn e_movlw, SInsn e_movwf]"

lemmas e_insns = e_movf_def e_incf_def e_movwf_a0_def e_movlw_def e_movwf_def plain_insn_def

lemma live_w_classified:
  "classify_lines p16f877a False [''    MOVF 0x20, W'', ''    INCF 0x21, F'', ''    MOVWF 0xA0'', ''    MOVLW 0x05'', ''    MOVWF 0x22''] =
    Some live_w"
  by (simp add: live_w_def eval_movf [folded e_movf_def] eval_incf [folded e_incf_def] eval_movwf_a0 [folded e_movwf_a0_def]
      eval_movlw [folded e_movlw_def] eval_movwf [folded e_movwf_def] starts_with_def trim_start_def is_ws_def Let_def)

lemma live_w_run: "run_start live_w 0 2 0 = 0"
  by (simp add: live_w_def numeral_2_eq_2 e_insns)

lemma live_w_gap: "find_dead_w_gap live_w 0 2 = Some 1"
  by (simp add: find_dead_w_gap_def live_w_def upt_rec e_insns)

lemma live_w_excursion: "excursion_bank live_w 2 = Some 0" "bundle_ok live_w 2 0" "after_ok live_w 5 2"
  by (simp_all add: excursion_bank_def bundle_ok_def after_ok_def is_move_candidate_def is_movlw_producer_def
      is_movwf_consumer_def live_w_def e_insns)

lemma live_w_splice: "splice_gap live_w (0, 5) 1 = None" "splice_gap live_w (0, 5) 2 = Some 1"
proof -
  show "splice_gap live_w (0, 5) 1 = None"
    by (simp add: splice_gap_def excursion_bank_def live_w_def e_insns)
  have "line_addr (live_w ! 4) = Some 0x22" "line_addr (live_w ! 2) = Some 0xA0" "live_w ! 0 = SInsn e_movf"
    "live_w ! 1 = SInsn e_incf"
    by (simp_all add: line_addr_def live_w_def e_insns)
  then show "splice_gap live_w (0, 5) 2 = Some 1"
    by (simp add: splice_gap_def live_w_excursion live_w_run live_w_gap Let_def) (simp add: e_insns)
qed

lemma live_w_regions: "regions_of live_w = [(0, 5)]"
  by (simp add: live_w_def regions_of_def is_barrier_def e_insns)

lemma live_w_spliced: "first_splice live_w (regions_of live_w) = Some (2, 1)"
proof -
  have "find (\<lambda>i. splice_gap live_w (0, 5) i \<noteq> None) [1, 2] = Some 2"
    using live_w_splice by (simp add: numeral_eq_Suc)
  moreover have "[0 + 1..<5 - 2] = [1, 2]" by (simp add: upt_rec)
  ultimately show ?thesis by (simp only: live_w_regions first_splice.simps) (simp add: live_w_splice)
qed

text \<open>What register 0xA0 holds afterwards, MOVLW loading its literal.\<close>

definition load_literal :: "insn \<Rightarrow> listing_state \<Rightarrow> listing_state" where
  "load_literal i s = (case i_addr i of Some a \<Rightarrow> s\<lparr>m_w := ucast a\<rparr> | None \<Rightarrow> s)"

lemma phase2_loses_w:
  fixes s
  defines "run ls \<equiv> m_cell (snd (run_lines (listing_exec load_literal) (\<lambda>_ _. False) ls (False, s))) 0xA0"
  shows "run live_w = m_cell s 0x20" and "run (move_pair 2 1 live_w) = 5"
  by (simp_all add: run_def live_w_def move_pair_def run_lines_def run_line_def listing_exec_def load_literal_def
      literal_addr_def sched_eval put_result_def alu_result_def e_insns)

end
