(* ===== verification/Config.thy ===== *)
theory Config
  imports RustStr Device
begin

text \<open>
  Configuration words: the resolution of an \<open>EPIC_CONFIG\<close> or \<open>#pragma config\<close> text against a device's
  region (\<^verbatim>\<open>crates/device/src/config.rs\<close>). The regions themselves are generated data and an argument. An
  error of the code is a constructor that carries what its message shows; a panic (an offset outside the
  region, a shift of a byte by 8 or more) is \<^const>\<open>None\<close>.
\<close>

section \<open>The region\<close>

record fuse_value =
  fv_name :: string
  fv_aliases :: "string list"
  fv_bits :: u8

record fuse_field =
  ff_name :: string
  ff_aliases :: "string list"
  ff_offset :: nat
  ff_mask :: u8
  ff_shift :: nat
  ff_values :: "fuse_value list"
  ff_default :: "string option"
  ff_locked :: "string option"

record config_region =
  cr_base :: u32
  cr_num :: nat
  cr_erased :: "u8 list"
  cr_fields :: "fuse_field list"

datatype config_spelling = EpicConfig | Pragma

definition spelling_name :: "config_spelling \<Rightarrow> string" where
  "spelling_name sp = (case sp of EpicConfig \<Rightarrow> ''EPIC_CONFIG'' | Pragma \<Rightarrow> ''#pragma config'')"

datatype config_error =
    Malformed config_spelling string
  | UnknownField config_spelling string "string list"
  | UnknownValue config_spelling string string "string list"
  | LockedField config_spelling string string string
  | NoDefault string "string list"
  | BadDefault string string

section \<open>Resolution\<close>

definition eq_ignore_case :: "string \<Rightarrow> string \<Rightarrow> bool" where
  "eq_ignore_case a b \<longleftrightarrow> to_lower a = to_lower b"

definition names_match :: "string \<Rightarrow> string list \<Rightarrow> string \<Rightarrow> bool" where
  "names_match name aliases given \<longleftrightarrow>
     eq_ignore_case name given \<or> list_ex (\<lambda>a. eq_ignore_case a given) aliases"

definition find_field :: "config_region \<Rightarrow> string \<Rightarrow> fuse_field option" where
  "find_field r name = find (\<lambda>f. names_match (ff_name f) (ff_aliases f) name) (cr_fields r)"

definition apply_bits :: "u8 list \<Rightarrow> fuse_field \<Rightarrow> u8 \<Rightarrow> u8 list option" where
  "apply_bits bytes f bits =
     (let i = ff_offset f in
      if i < length bytes \<and> ff_shift f < 8 then
        Some (bytes[i := (bytes ! i AND NOT (ff_mask f)) OR (push_bit (ff_shift f) bits AND ff_mask f)])
      else None)"

definition spec_pairs :: "string \<Rightarrow> string list" where
  "spec_pairs spec = filter (\<lambda>s. s \<noteq> []) (map trim (split_char (CHR '','') spec))"

definition field_names :: "config_region \<Rightarrow> string list" where
  "field_names r = concat (map (\<lambda>f. ff_name f # ff_aliases f) (cr_fields r))"

definition value_names :: "fuse_field \<Rightarrow> string list" where
  "value_names f = concat (map (\<lambda>v. fv_name v # fv_aliases v) (ff_values f))"

text \<open>One \<open>key=value\<close> pair: the field and the value it names, or the error.\<close>

definition lookup_pair :: "config_region \<Rightarrow> config_spelling \<Rightarrow> string \<Rightarrow> config_error + (fuse_field \<times> fuse_value)" where
  "lookup_pair r sp pair =
     (case split_once (\<lambda>c. c = CHR ''='') pair of
        None \<Rightarrow> Inl (Malformed sp pair)
      | Some (k, v) \<Rightarrow>
          (let key = trim k; val = trim v in
           case find (\<lambda>f. names_match (ff_name f) (ff_aliases f) key) (cr_fields r) of
             None \<Rightarrow> Inl (UnknownField sp key (field_names r))
           | Some f \<Rightarrow>
               (case find (\<lambda>v. names_match (fv_name v) (fv_aliases v) val) (ff_values f) of
                  None \<Rightarrow> Inl (UnknownValue sp val (ff_name f) (value_names f))
                | Some fv \<Rightarrow>
                    (case ff_locked f of
                       None \<Rightarrow> Inr (f, fv)
                     | Some only \<Rightarrow>
                         if eq_ignore_case (fv_name fv) only then Inr (f, fv)
                         else Inl (LockedField sp (ff_name f) only val)))))"

fun apply_pairs ::
    "config_region \<Rightarrow> config_spelling \<Rightarrow> string list \<Rightarrow> u8 list \<Rightarrow> string set \<Rightarrow>
     (config_error + (u8 list \<times> string set)) option" where
  "apply_pairs r sp [] bytes seen = Some (Inr (bytes, seen))"
| "apply_pairs r sp (p # ps) bytes seen =
     (case lookup_pair r sp p of
        Inl e \<Rightarrow> Some (Inl e)
      | Inr (f, v) \<Rightarrow>
          (case apply_bits bytes f (fv_bits v) of
             None \<Rightarrow> None
           | Some bytes' \<Rightarrow> apply_pairs r sp ps bytes' (insert (ff_name f) seen)))"

definition default_value :: "fuse_field \<Rightarrow> string \<Rightarrow> fuse_value option" where
  "default_value f d = find (\<lambda>v. fv_name v = d) (ff_values f)"

fun apply_defaults ::
    "config_spelling \<Rightarrow> fuse_field list \<Rightarrow> string set \<Rightarrow> u8 list \<Rightarrow> (config_error + u8 list) option" where
  "apply_defaults sp [] seen bytes = Some (Inr bytes)"
| "apply_defaults sp (f # fs) seen bytes =
     (if ff_name f \<in> seen then apply_defaults sp fs seen bytes
      else case ff_default f of
        None \<Rightarrow>
          if sp = Pragma then apply_defaults sp fs seen bytes
          else Some (Inl (NoDefault (ff_name f) (map fv_name (ff_values f))))
      | Some d \<Rightarrow>
          (case default_value f d of
             None \<Rightarrow> Some (Inl (BadDefault (ff_name f) d))
           | Some v \<Rightarrow>
               (case apply_bits bytes f (fv_bits v) of
                  None \<Rightarrow> None
                | Some bytes' \<Rightarrow> apply_defaults sp fs seen bytes')))"

definition try_resolve_config_in ::
    "config_region \<Rightarrow> string \<Rightarrow> config_spelling \<Rightarrow> (config_error + u8 list) option" where
  "try_resolve_config_in r spec sp =
     (case apply_pairs r sp (spec_pairs spec) (cr_erased r) {} of
        None \<Rightarrow> None
      | Some (Inl e) \<Rightarrow> Some (Inl e)
      | Some (Inr (bytes, seen)) \<Rightarrow> apply_defaults sp (cr_fields r) seen bytes)"

definition try_resolve_config :: "config_region \<Rightarrow> string \<Rightarrow> (config_error + u8 list) option" where
  "try_resolve_config r spec = try_resolve_config_in r spec EpicConfig"

definition resolve_config :: "config_region \<Rightarrow> string \<Rightarrow> u8 list option" where
  "resolve_config r spec =
     (case try_resolve_config r spec of Some (Inr bytes) \<Rightarrow> Some bytes | _ \<Rightarrow> None)"

section \<open>Device names\<close>

text \<open>\<open>resolve\<close> over the generated table's exact lookup \<open>by_name\<close>.\<close>

definition resolve_device :: "(string \<Rightarrow> device option) \<Rightarrow> string \<Rightarrow> device option" where
  "resolve_device by_name name =
     (let s = to_lower (trim name) in
      case by_name s of
        Some d \<Rightarrow> Some d
      | None \<Rightarrow>
          (case strip_prefix ''pic'' s of
             Some rest \<Rightarrow> by_name (CHR ''p'' # rest)
           | None \<Rightarrow> if starts_with ''p'' s then None else by_name (CHR ''p'' # s)))"

section \<open>What a resolved region holds\<close>

text \<open>A region as the device table means it: fields inside it that own their bits alone.\<close>

definition region_ok :: "config_region \<Rightarrow> bool" where
  "region_ok r \<longleftrightarrow> distinct (map ff_name (cr_fields r)) \<and>
     (\<forall>f \<in> set (cr_fields r). ff_offset f < length (cr_erased r) \<and> ff_shift f < 8) \<and>
     (\<forall>f \<in> set (cr_fields r). \<forall>g \<in> set (cr_fields r).
        ff_name f \<noteq> ff_name g \<and> ff_offset f = ff_offset g \<longrightarrow> ff_mask f AND ff_mask g = 0)"

definition field_bits :: "fuse_field \<Rightarrow> u8 list \<Rightarrow> u8" where
  "field_bits f bytes = bytes ! ff_offset f AND ff_mask f"

definition placed :: "fuse_field \<Rightarrow> fuse_value \<Rightarrow> u8" where
  "placed f v = push_bit (ff_shift f) (fv_bits v) AND ff_mask f"

text \<open>The pairs that name a field, and the value a text gives it: the last named one, or its default.\<close>

fun named_values :: "config_region \<Rightarrow> config_spelling \<Rightarrow> string list \<Rightarrow> (fuse_field \<times> fuse_value) list" where
  "named_values r sp [] = []"
| "named_values r sp (p # ps) =
     (case lookup_pair r sp p of Inl e \<Rightarrow> [] | Inr fv \<Rightarrow> fv # named_values r sp ps)"

definition last_value :: "(fuse_field \<times> fuse_value) list \<Rightarrow> fuse_field \<Rightarrow> fuse_value option" where
  "last_value fvs f = map_of (rev (map (\<lambda>(g, v). (ff_name g, v)) fvs)) (ff_name f)"

definition value_of :: "config_region \<Rightarrow> config_spelling \<Rightarrow> string \<Rightarrow> fuse_field \<Rightarrow> fuse_value option" where
  "value_of r sp spec f =
     (case last_value (named_values r sp (spec_pairs spec)) f of
        Some v \<Rightarrow> Some v
      | None \<Rightarrow> (case ff_default f of None \<Rightarrow> None | Some d \<Rightarrow> default_value f d))"

text \<open>One assignment after another, as both loops make them.\<close>

fun assign :: "(fuse_field \<times> fuse_value) list \<Rightarrow> u8 list \<Rightarrow> u8 list option" where
  "assign [] bytes = Some bytes"
| "assign ((f, v) # fvs) bytes = Option.bind (apply_bits bytes f (fv_bits v)) (assign fvs)"

lemma assign_append: "assign (xs @ ys) bytes = Option.bind (assign xs bytes) (assign ys)"
  by (induction xs arbitrary: bytes) (auto split: Option.bind_splits)

lemma masked_self: "((x AND NOT m) OR (p AND m)) AND m = p AND m" for m :: u8
  by (rule bit_word_eqI) (auto simp: bit_and_iff bit_or_iff bit_not_iff)

lemma masked_other:
  fixes m n :: u8
  assumes "m AND n = 0"
  shows "((x AND NOT m) OR (p AND m)) AND n = x AND n"
proof (rule bit_word_eqI)
  fix k assume k: "k < LENGTH(8)"
  have "bit (m AND n) k = False" using assms by simp
  then show "bit (((x AND NOT m) OR (p AND m)) AND n) k = bit (x AND n) k"
    using k by (auto simp: bit_and_iff bit_or_iff bit_not_iff)
qed

lemma masked_bit:
  fixes m :: u8
  assumes "\<not> bit m k"
  shows "bit ((x AND NOT m) OR (p AND m)) k = bit x k"
  using assms by (cases "k < 8") (auto simp: bit_and_iff bit_or_iff bit_not_iff dest: bit_imp_le_length)

lemma field_by_name:
  assumes "region_ok r" and "f \<in> set (cr_fields r)" and "g \<in> set (cr_fields r)" and "ff_name g = ff_name f"
  shows "g = f"
proof -
  have "inj_on ff_name (set (cr_fields r))" using assms(1) by (simp add: region_ok_def distinct_map)
  from inj_onD [OF this assms(4,3,2)] show ?thesis .
qed

lemma apply_bits_fields:
  assumes ok: "region_ok r" and f: "f \<in> set (cr_fields r)" and len: "length bytes = length (cr_erased r)"
  obtains b' where "apply_bits bytes f (fv_bits v) = Some b'" "length b' = length (cr_erased r)"
    "\<And>g. g \<in> set (cr_fields r) \<Longrightarrow> field_bits g b' = (if ff_name g = ff_name f then placed f v else field_bits g bytes)"
    "\<And>i k. i < length bytes \<Longrightarrow> \<forall>g \<in> set (cr_fields r). ff_offset g = i \<longrightarrow> \<not> bit (ff_mask g) k \<Longrightarrow> bit (b' ! i) k = bit (bytes ! i) k"
proof -
  let ?i = "ff_offset f"
  let ?b = "bytes[?i := (bytes ! ?i AND NOT (ff_mask f)) OR (push_bit (ff_shift f) (fv_bits v) AND ff_mask f)]"
  have i: "?i < length bytes" "ff_shift f < 8" using ok f len by (auto simp: region_ok_def)
  have 1: "apply_bits bytes f (fv_bits v) = Some ?b" using i by (simp add: apply_bits_def Let_def)
  have 2: "field_bits g ?b = (if ff_name g = ff_name f then placed f v else field_bits g bytes)"
    if g: "g \<in> set (cr_fields r)" for g
  proof (cases "ff_name g = ff_name f")
    case True
    then have "g = f" using field_by_name [OF ok f g] by simp
    then show ?thesis using i by (simp add: field_bits_def placed_def masked_self)
  next
    case False
    then have "?i = ff_offset g \<Longrightarrow> ff_mask f AND ff_mask g = 0" using ok f g by (auto simp: region_ok_def)
    then show ?thesis using False i by (cases "?i = ff_offset g") (auto simp: field_bits_def masked_other)
  qed
  have 3: "bit (?b ! j) k = bit (bytes ! j) k"
    if "j < length bytes" "\<forall>g \<in> set (cr_fields r). ff_offset g = j \<longrightarrow> \<not> bit (ff_mask g) k" for j k
    using that f i by (cases "j = ?i") (simp_all add: masked_bit)
  show thesis by (rule that [OF 1 _ 2 3]) (use len in simp)
qed

lemma last_value_Cons:
  "last_value ((g, v) # fvs) f =
     (case last_value fvs f of Some w \<Rightarrow> Some w | None \<Rightarrow> if ff_name g = ff_name f then Some v else None)"
  by (auto simp: last_value_def map_add_def split: option.splits)

lemma last_value_append:
  "last_value (xs @ ys) f = (case last_value ys f of Some w \<Rightarrow> Some w | None \<Rightarrow> last_value xs f)"
  by (auto simp: last_value_def map_add_def split: option.splits)

lemma assign_fields:
  assumes ok: "region_ok r" and fvs: "\<And>f v. (f, v) \<in> set fvs \<Longrightarrow> f \<in> set (cr_fields r)"
    and len: "length bytes = length (cr_erased r)"
  shows "\<exists>b'. assign fvs bytes = Some b' \<and> length b' = length (cr_erased r) \<and>
    (\<forall>g \<in> set (cr_fields r). field_bits g b' =
       (case last_value fvs g of Some v \<Rightarrow> placed g v | None \<Rightarrow> field_bits g bytes)) \<and>
    (\<forall>i k. i < length bytes \<and> (\<forall>g \<in> set (cr_fields r). ff_offset g = i \<longrightarrow> \<not> bit (ff_mask g) k) \<longrightarrow>
       bit (b' ! i) k = bit (bytes ! i) k)"
  using fvs len
proof (induction fvs arbitrary: bytes)
  case Nil
  then show ?case by (simp add: last_value_def)
next
  case (Cons fv fvs)
  obtain f v where fv: "fv = (f, v)" by (cases fv)
  have f: "f \<in> set (cr_fields r)" using Cons.prems(1) [of f v] fv by simp
  obtain b where b: "apply_bits bytes f (fv_bits v) = Some b" "length b = length (cr_erased r)"
    and fb: "\<And>g. g \<in> set (cr_fields r) \<Longrightarrow> field_bits g b = (if ff_name g = ff_name f then placed f v else field_bits g bytes)"
    and ob: "\<And>i k. i < length bytes \<Longrightarrow> \<forall>g \<in> set (cr_fields r). ff_offset g = i \<longrightarrow> \<not> bit (ff_mask g) k \<Longrightarrow> bit (b ! i) k = bit (bytes ! i) k"
    by (rule apply_bits_fields [OF ok f Cons.prems(2), of v]) blast
  obtain b' where b': "assign fvs b = Some b'" "length b' = length (cr_erased r)"
    and gb: "\<forall>g \<in> set (cr_fields r). field_bits g b' = (case last_value fvs g of Some v \<Rightarrow> placed g v | None \<Rightarrow> field_bits g b)"
    and ob': "\<forall>i k. i < length b \<and> (\<forall>g \<in> set (cr_fields r). ff_offset g = i \<longrightarrow> \<not> bit (ff_mask g) k) \<longrightarrow> bit (b' ! i) k = bit (b ! i) k"
    using Cons.IH [OF _ b(2)] Cons.prems(1) by (metis list.set_intros(2))
  have same: "g = f" if "g \<in> set (cr_fields r)" "ff_name g = ff_name f" for g
    using field_by_name [OF ok f that] .
  have "field_bits g b' = (case last_value (fv # fvs) g of Some v \<Rightarrow> placed g v | None \<Rightarrow> field_bits g bytes)"
    if g: "g \<in> set (cr_fields r)" for g
    using gb g fb [OF g] same [OF g] by (auto simp: fv last_value_Cons split: option.splits)
  then show ?case using b b' ob ob' Cons.prems(2) by (auto simp: fv)
qed

section \<open>The two loops as assignments\<close>

lemma apply_pairs_assign:
  "apply_pairs r sp ps bytes seen =
     (case assign (named_values r sp ps) bytes of
        None \<Rightarrow> None
      | Some bytes' \<Rightarrow>
          (case find (\<lambda>p. \<exists>e. lookup_pair r sp p = Inl e) ps of
             Some p \<Rightarrow> (case lookup_pair r sp p of Inl e \<Rightarrow> Some (Inl e) | Inr x \<Rightarrow> None)
           | None \<Rightarrow> Some (Inr (bytes', (\<lambda>(f, v). ff_name f) ` set (named_values r sp ps) \<union> seen))))"
  by (induction ps arbitrary: bytes seen) (auto split: sum.splits option.splits Option.bind_splits)

fun default_values :: "fuse_field list \<Rightarrow> string set \<Rightarrow> (fuse_field \<times> fuse_value) list" where
  "default_values [] seen = []"
| "default_values (f # fs) seen =
     (case (if ff_name f \<in> seen then None else Option.bind (ff_default f) (default_value f)) of
        None \<Rightarrow> default_values fs seen
      | Some v \<Rightarrow> (f, v) # default_values fs seen)"

definition defaults_known :: "config_spelling \<Rightarrow> fuse_field list \<Rightarrow> string set \<Rightarrow> bool" where
  "defaults_known sp fs seen \<longleftrightarrow> (\<forall>f \<in> set fs. ff_name f \<notin> seen \<longrightarrow>
     (case ff_default f of None \<Rightarrow> sp = Pragma | Some d \<Rightarrow> default_value f d \<noteq> None))"

lemma apply_defaults_assign:
  assumes "region_ok r" and "set fs \<subseteq> set (cr_fields r)" and "length bytes = length (cr_erased r)"
  shows "(\<exists>e. apply_defaults sp fs seen bytes = Some (Inl e)) \<or>
    (\<exists>b'. apply_defaults sp fs seen bytes = Some (Inr b') \<and> assign (default_values fs seen) bytes = Some b' \<and>
      defaults_known sp fs seen)"
  using assms(2,3)
proof (induction fs arbitrary: bytes)
  case Nil
  then show ?case by (simp add: defaults_known_def)
next
  case (Cons f fs)
  have f: "f \<in> set (cr_fields r)" "set fs \<subseteq> set (cr_fields r)" using Cons.prems(1) by simp_all
  note IH = Cons.IH [OF f(2)]
  show ?case
  proof (cases "ff_name f \<in> seen")
    case True
    then show ?thesis using IH [OF Cons.prems(2)] by (simp add: defaults_known_def)
  next
    case new: False
    show ?thesis
    proof (cases "ff_default f")
      case None
      then show ?thesis using new IH [OF Cons.prems(2)] by (cases sp) (simp_all add: defaults_known_def)
    next
      case d: (Some d)
      show ?thesis
      proof (cases "default_value f d")
        case None
        then show ?thesis using new d by simp
      next
        case v: (Some v)
        obtain b where b: "apply_bits bytes f (fv_bits v) = Some b" "length b = length (cr_erased r)"
          by (rule apply_bits_fields [OF assms(1) f(1) Cons.prems(2), of v]) blast
        then show ?thesis using new d v IH [OF b(2)] by (simp add: defaults_known_def)
      qed
    qed
  qed
qed

lemma default_values_in: "(f, v) \<in> set (default_values fs seen) \<Longrightarrow> f \<in> set fs"
  by (induction fs) (auto split: option.splits if_splits)

lemma named_values_in: "(f, v) \<in> set (named_values r sp ps) \<Longrightarrow>
    f \<in> set (cr_fields r) \<and> v \<in> set (ff_values f) \<and>
    (case ff_locked f of None \<Rightarrow> True | Some only \<Rightarrow> eq_ignore_case (fv_name v) only)"
proof (induction ps)
  case (Cons p ps)
  have "f \<in> set (cr_fields r) \<and> v \<in> set (ff_values f) \<and>
      (case ff_locked f of None \<Rightarrow> True | Some only \<Rightarrow> eq_ignore_case (fv_name v) only)"
    if "lookup_pair r sp p = Inr (f, v)"
    using that by (auto simp: lookup_pair_def Let_def find_Some_iff split: option.splits if_splits prod.splits)
  then show ?case using Cons by (auto split: sum.splits)
qed simp

lemma last_value_default:
  assumes "distinct (map ff_name fs)" and "f \<in> set fs"
  shows "last_value (default_values fs seen) f =
    (if ff_name f \<in> seen then None else Option.bind (ff_default f) (default_value f))"
proof -
  have none: "last_value (default_values gs seen) f = None" if "ff_name f \<notin> ff_name ` set gs" for gs
    using that default_values_in [of _ _ gs seen] by (fastforce simp: last_value_def map_of_eq_None_iff)
  show ?thesis using assms
  proof (induction fs)
    case (Cons g fs)
    then show ?case
      using none [of fs] by (cases "g = f") (auto simp: last_value_Cons last_value_def [of "[]"] split: option.splits)
  qed simp
qed

lemma last_value_mem: "last_value fvs f = Some v \<Longrightarrow> \<exists>g. ff_name g = ff_name f \<and> (g, v) \<in> set fvs"
  unfolding last_value_def by (drule map_of_SomeD) auto

lemma last_value_seen: "last_value fvs f = None \<longleftrightarrow> ff_name f \<notin> (\<lambda>(g, v). ff_name g) ` set fvs"
  by (force simp: last_value_def map_of_eq_None_iff)

section \<open>The property\<close>

text \<open>C40: a resolved configuration is well-typed. On a region whose fields own disjoint bits, resolution
  never panics; when it succeeds, the result has the region's length, every field holds the placed bits of
  one of its own declared values (the value of the last pair that names the field, or else its default, and
  never a pair's value that a lock rules out), except that a field the text omits and that has no default
  keeps its erased bits, which only \<open>#pragma config\<close> allows; and a bit that no field owns keeps its
  erased value.\<close>

theorem config_well_typed:
  assumes "region_ok r"
  shows "\<exists>res. try_resolve_config_in r spec sp = Some res \<and>
    (\<forall>bytes. res = Inr bytes \<longrightarrow> length bytes = length (cr_erased r) \<and>
       (\<forall>f \<in> set (cr_fields r).
          case value_of r sp spec f of
            Some v \<Rightarrow> v \<in> set (ff_values f) \<and> field_bits f bytes = placed f v \<and>
              (last_value (named_values r sp (spec_pairs spec)) f \<noteq> None \<longrightarrow>
                 (case ff_locked f of None \<Rightarrow> True | Some only \<Rightarrow> eq_ignore_case (fv_name v) only))
          | None \<Rightarrow> sp = Pragma \<and> ff_default f = None \<and> field_bits f bytes = field_bits f (cr_erased r)) \<and>
       (\<forall>i k. i < length bytes \<and> (\<forall>f \<in> set (cr_fields r). ff_offset f = i \<longrightarrow> \<not> bit (ff_mask f) k) \<longrightarrow>
          bit (bytes ! i) k = bit (cr_erased r ! i) k))"
proof -
  let ?nv = "named_values r sp (spec_pairs spec)" and ?seen = "(\<lambda>(f, v). ff_name f) ` set (named_values r sp (spec_pairs spec))"
  have fields: "f \<in> set (cr_fields r)" if "(f, v) \<in> set ?nv" for f v using named_values_in [OF that] by simp
  obtain b1 where b1: "assign ?nv (cr_erased r) = Some b1" "length b1 = length (cr_erased r)"
    using assign_fields [OF assms _ refl, of ?nv] fields by blast
  show ?thesis
  proof (cases "find (\<lambda>p. \<exists>e. lookup_pair r sp p = Inl e) (spec_pairs spec)")
    case (Some p)
    then obtain e where "lookup_pair r sp p = Inl e" by (auto simp: find_Some_iff)
    then show ?thesis by (simp add: try_resolve_config_in_def apply_pairs_assign b1 Some)
  next
    case None
    then have run: "try_resolve_config_in r spec sp = apply_defaults sp (cr_fields r) ?seen b1"
      by (simp add: try_resolve_config_in_def apply_pairs_assign b1)
    consider e where "apply_defaults sp (cr_fields r) ?seen b1 = Some (Inl e)"
      | b' where "apply_defaults sp (cr_fields r) ?seen b1 = Some (Inr b')"
        "assign (default_values (cr_fields r) ?seen) b1 = Some b'" "defaults_known sp (cr_fields r) ?seen"
      using apply_defaults_assign [OF assms subset_refl b1(2), of sp ?seen] by blast
    then show ?thesis
    proof cases
      case 1
      then show ?thesis by (simp add: run)
    next
      case (2 b')
      let ?all = "?nv @ default_values (cr_fields r) ?seen"
      have as: "assign ?all (cr_erased r) = Some b'" using b1(1) 2(2) by (simp add: assign_append)
      have all: "f \<in> set (cr_fields r)" if "(f, v) \<in> set ?all" for f v
        using that fields [of f v] default_values_in [of f v] by auto
      have len: "length b' = length (cr_erased r)"
        and fb: "\<And>g. g \<in> set (cr_fields r) \<Longrightarrow> field_bits g b' =
          (case last_value ?all g of Some v \<Rightarrow> placed g v | None \<Rightarrow> field_bits g (cr_erased r))"
        and ob: "\<And>i k. i < length (cr_erased r) \<Longrightarrow>
          \<forall>g \<in> set (cr_fields r). ff_offset g = i \<longrightarrow> \<not> bit (ff_mask g) k \<Longrightarrow> bit (b' ! i) k = bit (cr_erased r ! i) k"
        using assign_fields [OF assms _ refl, of ?all] all as by auto
      have field: "case value_of r sp spec f of
            Some v \<Rightarrow> v \<in> set (ff_values f) \<and> field_bits f b' = placed f v \<and>
              (last_value ?nv f \<noteq> None \<longrightarrow>
                 (case ff_locked f of None \<Rightarrow> True | Some only \<Rightarrow> eq_ignore_case (fv_name v) only))
          | None \<Rightarrow> sp = Pragma \<and> ff_default f = None \<and> field_bits f b' = field_bits f (cr_erased r)"
        if f: "f \<in> set (cr_fields r)" for f
      proof (cases "last_value ?nv f")
        case (Some v)
        then obtain g where "ff_name g = ff_name f" "(g, v) \<in> set ?nv" by (blast dest: last_value_mem)
        then have "(f, v) \<in> set ?nv" using field_by_name [OF assms f] fields by blast
        then have nv: "v \<in> set (ff_values f)" "case ff_locked f of None \<Rightarrow> True | Some only \<Rightarrow> eq_ignore_case (fv_name v) only"
          using named_values_in by blast+
        have "ff_name f \<in> ?seen" using Some last_value_seen [of ?nv f] by auto
        moreover have "distinct (map ff_name (cr_fields r))" using assms by (simp add: region_ok_def)
        ultimately have "last_value ?all f = Some v"
          using last_value_default [of "cr_fields r" f ?seen] f Some by (simp add: last_value_append)
        then show ?thesis using fb [OF f] nv Some by (simp add: value_of_def)
      next
        case None
        then have ns: "ff_name f \<notin> ?seen" by (simp add: last_value_seen)
        have d: "distinct (map ff_name (cr_fields r))" using assms by (simp add: region_ok_def)
        have l: "last_value ?all f = Option.bind (ff_default f) (default_value f)"
          using last_value_default [OF d f, of ?seen] ns None by (simp add: last_value_append split: option.splits)
        have k: "case ff_default f of None \<Rightarrow> sp = Pragma | Some d \<Rightarrow> default_value f d \<noteq> None"
          using 2(3) f ns by (auto simp: defaults_known_def)
        show ?thesis
        proof (cases "ff_default f")
          case None
          then show ?thesis using fb [OF f] l k \<open>last_value ?nv f = None\<close> by (simp add: value_of_def)
        next
          case (Some d)
          then obtain v where v: "default_value f d = Some v" using k by auto
          then have "v \<in> set (ff_values f)" by (auto simp: default_value_def find_Some_iff)
          then show ?thesis using fb [OF f] l v Some \<open>last_value ?nv f = None\<close> by (simp add: value_of_def)
        qed
      qed
      show ?thesis using 2(1) run len field ob by auto
    qed
  qed
qed

section \<open>A device's region\<close>

definition fuse :: "string \<Rightarrow> string list \<Rightarrow> nat \<Rightarrow> u8 \<Rightarrow> nat \<Rightarrow> (string \<times> u8) list \<Rightarrow> string option \<Rightarrow> fuse_field" where
  "fuse name aliases off m sh vals dflt =
     \<lparr>ff_name = name, ff_aliases = aliases, ff_offset = off, ff_mask = m, ff_shift = sh,
      ff_values = map (\<lambda>(n, b). \<lparr>fv_name = n, fv_aliases = [], fv_bits = b\<rparr>) vals, ff_default = dflt,
      ff_locked = None\<rparr>"

text \<open>The first byte of the 16F877A's configuration word, as its table has it.\<close>

definition p16f877a_config :: config_region where
  "p16f877a_config = \<lparr>cr_base = 0x400E, cr_num = 2, cr_erased = [0xFF, 0x3F],
     cr_fields =
       [fuse ''osc'' [''FOSC''] 0 0x03 0 [(''lp'', 0), (''xt'', 1), (''hs'', 2), (''rc'', 3)] None,
        fuse ''wdt'' [''WDTE''] 0 0x04 2 [(''off'', 0), (''on'', 1)] (Some ''off''),
        fuse ''pwrt'' [''PWRTE''] 0 0x08 3 [(''on'', 0), (''off'', 1)] (Some ''on''),
        fuse ''bor'' [''BOREN''] 0 0x40 6 [(''off'', 0), (''on'', 1)] (Some ''on''),
        fuse ''lvp'' [] 0 0x80 7 [(''off'', 0), (''on'', 1)] (Some ''off'')]\<rparr>"

lemma p16f877a_config_ok: "region_ok p16f877a_config"
  by (simp add: region_ok_def p16f877a_config_def fuse_def)

lemma p16f877a_resolves: "try_resolve_config_in p16f877a_config ''FOSC = HS, wdt=on'' EpicConfig = Some (Inr [0x76, 0x3F])"
  by code_simp

lemma config_well_typed_witness:
  "try_resolve_config_in p16f877a_config ''FOSC = HS, wdt=on'' EpicConfig = Some (Inr [0x76, 0x3F]) \<and>
   length [0x76, 0x3F :: u8] = length (cr_erased p16f877a_config) \<and> bit (0x3F :: u8) 4 = bit (cr_erased p16f877a_config ! 1) 4"
proof -
  note t = config_well_typed [OF p16f877a_config_ok, of "''FOSC = HS, wdt=on''" EpicConfig, unfolded p16f877a_resolves]
  have "\<forall>f \<in> set (cr_fields p16f877a_config). ff_offset f = 1 \<longrightarrow> \<not> bit (ff_mask f) 4"
    by (simp add: p16f877a_config_def fuse_def)
  moreover have "length [0x76, 0x3F :: u8] = length (cr_erased p16f877a_config)"
    and all: "\<forall>i k. i < length (cr_erased p16f877a_config) \<and>
        (\<forall>f \<in> set (cr_fields p16f877a_config). ff_offset f = i \<longrightarrow> \<not> bit (ff_mask f) k) \<longrightarrow>
        bit ([0x76, 0x3F :: u8] ! i) k = bit (cr_erased p16f877a_config ! i) k"
    using t by auto
  ultimately have "bit ([0x76, 0x3F :: u8] ! 1) 4 = bit (cr_erased p16f877a_config ! 1) 4"
    using all [rule_format, of 1 4] by simp
  then show ?thesis using p16f877a_resolves \<open>length _ = _\<close> by simp
qed

end
