(* ===== verification/Peephole.thy ===== *)
theory Peephole
  imports IrText IrParse
begin

text \<open>
  The peephole pass of \<^verbatim>\<open>crates/peephole/src/lib.rs\<close>: a \<open>MOVLW k\<close>, \<open>MOVWF PCLATH\<close> pair goes when the
  last pair since a label wrote the same literal. The pass keeps PCLATH on code in which only such pairs
  write it; it does not keep W.
\<close>

section \<open>Recognizers\<close>

definition is_movlw :: "string \<Rightarrow> bool" where
  "is_movlw line = starts_with ''MOVLW '' (trim_start line)"

definition is_movwf_pclath :: "string \<Rightarrow> bool" where
  "is_movwf_pclath line = starts_with ''MOVWF PCLATH'' (trim_start line)"

definition peep_label :: "string \<Rightarrow> bool" where
  "peep_label line \<longleftrightarrow> (let t = trim_start line in strip_suffix '':'' t \<noteq> None \<and> \<not> starts_with ''.'' t)"

definition movlw_operand :: "string \<Rightarrow> string" where
  "movlw_operand line = trim (case strip_prefix ''MOVLW'' (trim_start line) of Some r \<Rightarrow> r | None \<Rightarrow> line)"

definition parse_literal :: "string \<Rightarrow> nat option" where
  "parse_literal s =
     (let below = (\<lambda>r t. case from_str_radix r t of Some n \<Rightarrow> if n < 65536 then Some n else None | None \<Rightarrow> None) in
      case (case strip_prefix ''0x'' s of Some h \<Rightarrow> Some h | None \<Rightarrow> strip_prefix ''0X'' s) of
        Some h \<Rightarrow> below 16 h
      | None \<Rightarrow> below 10 s)"

definition canonical_literal :: "string \<Rightarrow> string" where
  "canonical_literal operand =
     (let t = trim operand in case parse_literal t of Some v \<Rightarrow> ''0x'' @ fmt_hex 2 v | None \<Rightarrow> t)"

section \<open>The pass\<close>

definition opens_asm :: "string \<Rightarrow> bool" where
  "opens_asm line = starts_with ''; --- asm start ---'' (trim_start line)"

definition closes_asm :: "string \<Rightarrow> bool" where
  "closes_asm line = starts_with ''; --- asm end ---'' (trim_start line)"

text \<open>The loop over the lines, each with its source location.\<close>

function peep :: "string option \<Rightarrow> bool \<Rightarrow> (string \<times> 'l option) list \<Rightarrow> (string \<times> 'l option) list" where
  "peep tracked in_asm [] = []"
| "peep tracked in_asm (l # ls) =
     (let line = fst l in
      if opens_asm line then l # peep None True ls
      else if closes_asm line then l # peep None False ls
      else if in_asm then l # peep tracked in_asm ls
      else if peep_label line then l # peep None in_asm ls
      else if is_movlw line \<and> ls \<noteq> [] \<and> is_movwf_pclath (fst (hd ls)) then
        (if starts_with ''; --- asm'' (trim_start (fst (hd ls))) then l # peep tracked in_asm ls
         else let literal = canonical_literal (movlw_operand line) in
           if tracked = Some literal then peep tracked in_asm (tl ls)
           else l # hd ls # peep (Some literal) in_asm (tl ls))
      else if is_movwf_pclath line then l # peep None in_asm ls
      else l # peep tracked in_asm ls)"
  by pat_completeness auto
termination
  by (relation "measure (\<lambda>(t, a, ls). length ls)") auto

definition with_locs :: "string list \<Rightarrow> 'l option list \<Rightarrow> (string \<times> 'l option) list" where
  "with_locs ls locs = map (\<lambda>i. (ls ! i, if i < length locs then locs ! i else None)) [0..<length ls]"

definition optimize_with_locs :: "string \<Rightarrow> 'l option list \<Rightarrow> string \<times> 'l option list" where
  "optimize_with_locs asm locs =
     (let out = peep None False (with_locs (str_lines asm) locs)
      in (join_with [CHR 0x0A] (map fst out) @ (if strip_suffix [CHR 0x0A] asm \<noteq> None then [CHR 0x0A] else []),
          map snd out))"

definition optimize :: "string \<Rightarrow> string" where
  "optimize asm = fst (optimize_with_locs asm ([] :: unit option list))"

section \<open>PCLATH\<close>

text \<open>
  W and PCLATH along a run of lines, with the value of an operand and the effect of every other line on W
  as parameters. A trace lists the lines that are not halves of a pair, with the PCLATH they run under.
\<close>

fun pclath_run ::
    "(string \<Rightarrow> u8) \<Rightarrow> (string \<Rightarrow> u8 \<Rightarrow> u8) \<Rightarrow> string list \<Rightarrow> u8 \<times> u8 \<Rightarrow> (string \<times> u8) list \<times> u8" where
  "pclath_run val other [] (w, p) = ([], p)"
| "pclath_run val other (l # ls) (w, p) =
     (if is_movlw l then pclath_run val other ls (val (canonical_literal (movlw_operand l)), p)
      else if is_movwf_pclath l then pclath_run val other ls (w, w)
      else let (t, q) = pclath_run val other ls (other l w, p) in ((l, p) # t, q))"

text \<open>Code in which a line writes PCLATH only as the second half of a pair, outside inline assembly.\<close>

fun paired :: "string list \<Rightarrow> bool" where
  "paired [] \<longleftrightarrow> True"
| "paired (l # ls) \<longleftrightarrow> \<not> opens_asm l \<and> \<not> closes_asm l \<and>
     (if is_movlw l then \<not> peep_label l \<and> (case ls of [] \<Rightarrow> True | m # ms \<Rightarrow> if is_movwf_pclath m then paired ms else paired ls)
      else \<not> is_movwf_pclath l \<and> paired ls)"

lemma movlw_not_label: "is_movlw l \<Longrightarrow> \<not> is_movwf_pclath l"
  by (auto simp: is_movlw_def is_movwf_pclath_def starts_with_def take_Suc_conv_app_nth
      dest!: arg_cong [where f = "\<lambda>s. s ! 3"])

lemma pclath_not_movlw: "is_movwf_pclath l \<Longrightarrow> \<not> is_movlw l"
  using movlw_not_label by blast

lemma pclath_not_asm: "is_movwf_pclath l \<Longrightarrow> \<not> starts_with ''; --- asm'' (trim_start l)"
  by (auto simp: is_movwf_pclath_def starts_with_def dest!: arg_cong [where f = "\<lambda>s. s ! 0"])

text \<open>
  Every kept line that is not half of a pair runs under the PCLATH it had, in the same order, and the
  text ends with the same PCLATH: W may differ, since nothing but a pair's own literal reaches PCLATH.
\<close>

lemma peep_keeps_pclath:
  assumes "paired (map fst ls)" and "case tr of None \<Rightarrow> True | Some k \<Rightarrow> p = val k"
  shows "pclath_run val other (map fst (peep tr False ls)) (w, p) = pclath_run val other (map fst ls) (w', p)"
  using assms(1,2)
proof (induction "length ls" arbitrary: ls tr w w' p rule: less_induct)
  case less
  note IH = less(1) and prems = less(2,3)
  show ?case
  proof (cases ls)
    case Nil
    then show ?thesis by simp
  next
    case (Cons l xs)
    have na: "\<not> opens_asm (fst l)" "\<not> closes_asm (fst l)" using prems(1) by (simp_all add: Cons)
    have IHx: "pclath_run val other (map fst (peep t False xs)) (v, p) = pclath_run val other (map fst xs) (v', p)"
      if "paired (map fst xs)" "case t of None \<Rightarrow> True | Some k \<Rightarrow> p = val k" for t v v'
      by (rule IH) (use that Cons in simp_all)
    show ?thesis
    proof (cases "is_movlw (fst l)")
      case True
      have nl: "\<not> peep_label (fst l)" using prems(1) True by (simp add: Cons)
      show ?thesis
      proof (cases "xs \<noteq> [] \<and> is_movwf_pclath (fst (hd xs))")
        case pair: True
        then obtain m ms where xs: "xs = m # ms" and m: "is_movwf_pclath (fst m)" by (cases xs) auto
        have ps: "paired (map fst ms)" using prems(1) True m by (simp add: Cons xs)
        note f = na nl True m pclath_not_movlw [OF m] pclath_not_asm [OF m] Cons xs
        let ?k = "canonical_literal (movlw_operand (fst l))"
        have IHm: "pclath_run val other (map fst (peep (Some ?k) False ms)) (v, val ?k) =
            pclath_run val other (map fst ms) (v', val ?k)" for v v'
          by (rule IH) (use ps f in simp_all)
        show ?thesis
        proof (cases "tr = Some ?k")
          case True
          then show ?thesis using f prems(2) IHm [of w "val ?k"] by simp
        next
          case False
          then show ?thesis using f IHm [of "val ?k" "val ?k"] by (simp add: Let_def)
        qed
      next
        case single: False
        have ps: "paired (map fst xs)" using prems(1) True single by (cases xs) (auto simp: Cons)
        show ?thesis using IHx [OF ps prems(2)] na nl True single movlw_not_label [OF True]
          by (auto simp: Cons Let_def)
      qed
    next
      case False
      then have ps: "paired (map fst xs)" and nm: "\<not> is_movwf_pclath (fst l)" using prems(1) by (simp_all add: Cons)
      let ?o = "other (fst l)"
      show ?thesis using IHx [OF ps prems(2), of "?o w" "?o w'"] IHx [OF ps, of None "?o w" "?o w'"] nm na False
        by (simp add: Cons Let_def)
    qed
  qed
qed

text \<open>The value a removed pair would leave in W is lost: a line that stores W afterwards stores the older one.\<close>

lemma peep_loses_w:
  "map fst (peep None False (map (\<lambda>l. (l, None :: unit option))
     [''MOVLW 0x08'', ''MOVWF PCLATH'', ''MOVLW 0x03'', ''MOVLW 0x08'', ''MOVWF PCLATH'', ''MOVWF 0x20''])) =
   [''MOVLW 0x08'', ''MOVWF PCLATH'', ''MOVLW 0x03'', ''MOVWF 0x20'']"
  by (simp add: opens_asm_def closes_asm_def peep_label_def is_movlw_def is_movwf_pclath_def canonical_literal_def
      parse_literal_def movlw_operand_def str_eval Let_def)

end
