(* ===== verification/Alloc.thy ===== *)
theory Alloc
  imports Device Ir IrText "HOL-Library.List_Lexorder" "HOL-Library.Char_ord"
begin

text \<open>
  The address allocator of \<^verbatim>\<open>crates/alloc/src/lib.rs\<close>: where a value of some width goes in the device's
  banks, the two arrangements of the globals around the pinned ones, and the frames of the locals.
  Addresses are natural numbers below \<open>2 ^ 16\<close>; a sum that leaves the range, an address past the last
  bank where the code expects one and a width of 0 where it divides are panics (\<^const>\<open>None\<close>). An arrangement
  that does not fit is the inner \<^const>\<open>None\<close>.
\<close>

section \<open>Banks\<close>

definition add16 :: "nat \<Rightarrow> nat \<Rightarrow> nat option" where
  "add16 a b = (if a + b < 65536 then Some (a + b) else None)"

lemma add16_Some [simp]: "add16 a b = Some c \<longleftrightarrow> c = a + b \<and> a + b < 65536"
  by (auto simp: add16_def)

definition banks :: "device \<Rightarrow> (nat \<times> nat) list" where
  "banks dev = map (\<lambda>(s, e). (unat s, unat e)) (ram_banks dev)"

definition region_at :: "device \<Rightarrow> nat \<Rightarrow> (nat \<times> nat) option" where
  "region_at dev a = find (\<lambda>(s, e). a \<le> e) (banks dev)"

lemma region_at_Some: "region_at dev a = Some (s, e) \<Longrightarrow> (s, e) \<in> set (banks dev) \<and> a \<le> e"
  unfolding region_at_def find_Some_iff by (metis case_prod_conv nth_mem)

text \<open>How many banks lie ahead: what the loops through the banks use up.\<close>

definition banks_ahead :: "device \<Rightarrow> nat \<Rightarrow> nat" where
  "banks_ahead dev a = length (filter (\<lambda>(s, e). a \<le> e) (banks dev))"

lemma banks_ahead_less:
  assumes "region_at dev a = Some (s, e)"
  shows "banks_ahead dev (Suc e) < banks_ahead dev a"
proof -
  have m: "(s, e) \<in> set (banks dev)" "a \<le> e" using region_at_Some [OF assms] by auto
  have "filter (\<lambda>(s, x). Suc e \<le> x) (banks dev) = filter (\<lambda>(s, x). Suc e \<le> x) (filter (\<lambda>(s, x). a \<le> x) (banks dev))"
    using m(2) by (auto simp: filter_filter intro!: filter_cong)
  also have "length \<dots> < length (filter (\<lambda>(s, x). a \<le> x) (banks dev))"
    by (rule length_filter_less [of "(s, e)"]) (use m in auto)
  finally show ?thesis by (simp add: banks_ahead_def)
qed

text \<open>\<open>if base % align != 0 { base += align - base % align }\<close>.\<close>

definition align_to :: "nat \<Rightarrow> nat \<Rightarrow> nat option" where
  "align_to al base =
     (if al = 0 then None
      else if base mod al \<noteq> 0 then add16 base (al - base mod al) else Some base)"

lemma align_to_ge: "align_to al b = Some c \<Longrightarrow> b \<le> c \<and> c mod al = 0 \<and> 0 < al"
proof (cases "b mod al = 0")
  case False
  assume a: "align_to al b = Some c"
  then have al: "0 < al" and c: "c = b + (al - b mod al)" using False by (auto simp: align_to_def split: if_splits)
  have le: "b \<le> c" using c by simp
  have "b mod al < al" using al by simp
  then have "c = b div al * al + al" using c div_mult_mod_eq [of b al] by linarith
  then have "c mod al = 0" by simp
  then show ?thesis using al le by simp
qed (auto simp: align_to_def split: if_splits)

section \<open>Placing one value\<close>

function physical_end :: "device \<Rightarrow> nat \<Rightarrow> nat \<Rightarrow> nat option" where
  "physical_end dev cur remaining =
     (if remaining = 0 then Some cur
      else case region_at dev cur of
        None \<Rightarrow> None
      | Some (s, e) \<Rightarrow>
          (let c = max cur s; avail = e - c + 1 in
           if remaining \<le> avail then add16 c remaining
           else Option.bind (add16 e 1) (\<lambda>c'. physical_end dev c' (remaining - avail))))"
  by pat_completeness auto
termination
  by (relation "measure (\<lambda>(dev, cur, r). banks_ahead dev cur)") (auto dest: banks_ahead_less)

function straddle_loop :: "device \<Rightarrow> nat \<Rightarrow> nat \<Rightarrow> nat \<Rightarrow> nat option option" where
  "straddle_loop dev addr cur remaining =
     (if remaining = 0 then Some (Some addr)
      else case region_at dev cur of
        None \<Rightarrow> Some None
      | Some (s, e) \<Rightarrow>
          (let c = max cur s; avail = e - c + 1 in
           if remaining \<le> avail then Some (Some addr)
           else Option.bind (add16 e 1) (\<lambda>c'. straddle_loop dev addr c' (remaining - avail))))"
  by pat_completeness auto
termination
  by (relation "measure (\<lambda>(dev, addr, cur, r). banks_ahead dev cur)") (auto dest: banks_ahead_less)

definition try_place_straddle :: "device \<Rightarrow> nat \<Rightarrow> nat \<Rightarrow> nat option option" where
  "try_place_straddle dev addr width = straddle_loop dev addr addr width"

function try_place_at :: "device \<Rightarrow> nat \<Rightarrow> nat \<Rightarrow> nat option option" where
  "try_place_at dev a width =
     (case region_at dev a of
        None \<Rightarrow> Some None
      | Some (s, e) \<Rightarrow>
          Option.bind (align_to (min width 2) (max a s)) (\<lambda>base.
          Option.bind (add16 base width) (\<lambda>top.
            if top - 1 \<le> e then Some (Some base)
            else if dev_core dev = Pic14e \<and> width > e - s + 1 then try_place_straddle dev base width
            else Option.bind (add16 e 1) (\<lambda>a'. try_place_at dev a' width))))"
  by pat_completeness auto
termination
  by (relation "measure (\<lambda>(dev, a, w). banks_ahead dev a)") (auto dest: banks_ahead_less)

function place_contiguous :: "device \<Rightarrow> nat \<Rightarrow> nat \<Rightarrow> nat option" where
  "place_contiguous dev a width =
     (case region_at dev a of
        None \<Rightarrow> None
      | Some (s, e) \<Rightarrow>
          (let base = max a s in
           Option.bind (add16 base width) (\<lambda>top.
             if top = 0 then None
             else if top - 1 \<le> e then Some base
             else Option.bind (add16 e 1) (\<lambda>a'. place_contiguous dev a' width))))"
  by pat_completeness auto
termination
  by (relation "measure (\<lambda>(dev, a, w). banks_ahead dev a)") (auto dest: banks_ahead_less)

declare physical_end.simps [simp del] straddle_loop.simps [simp del] try_place_at.simps [simp del]
  place_contiguous.simps [simp del]

section \<open>Around the pinned globals\<close>

type_synonym pinned = "(string \<times> nat \<times> nat) list"

text \<open>Past each pinned global that covers the address, in the list's order.\<close>

fun bump_start :: "pinned \<Rightarrow> nat \<Rightarrow> nat option" where
  "bump_start [] a = Some a"
| "bump_start ((n, fa, fs) # fixed) a =
     (if fa \<le> a then Option.bind (add16 fa fs) (\<lambda>e. bump_start fixed (if a < e then e else a))
      else bump_start fixed a)"

fun bump_after :: "pinned \<Rightarrow> nat \<Rightarrow> nat option" where
  "bump_after [] a = Some a"
| "bump_after ((n, fa, fs) # fixed) a =
     (if fa < a then Option.bind (add16 fa fs) (\<lambda>e. bump_after fixed (if a \<le> e then e else a))
      else bump_after fixed a)"

text \<open>The end of the first pinned global that \<open>width\<close> bytes at an address overlap.\<close>

fun first_hit :: "pinned \<Rightarrow> nat \<Rightarrow> nat \<Rightarrow> nat option option" where
  "first_hit [] a width = Some None"
| "first_hit ((n, fa, fs) # fixed) a width =
     Option.bind (add16 fa fs) (\<lambda>e.
       if a < e then Option.bind (add16 a width) (\<lambda>t. if fa < t then Some (Some e) else first_hit fixed a width)
       else first_hit fixed a width)"

lemma first_hit_Some: "first_hit fixed a w = Some (Some e) \<Longrightarrow> a < e \<and> e < 65536"
  by (induction fixed a w rule: first_hit.induct) (auto split: if_splits Option.bind_splits)

lemma first_hit_None:
  "first_hit fixed a w = Some None \<Longrightarrow> (n, fa, fs) \<in> set fixed \<Longrightarrow> a + w \<le> fa \<or> fa + fs \<le> a"
  by (induction fixed a w rule: first_hit.induct) (auto split: if_splits Option.bind_splits)

function clear_of :: "pinned \<Rightarrow> nat \<Rightarrow> nat \<Rightarrow> nat option" where
  "clear_of fixed width a =
     Option.bind (first_hit fixed a width) (\<lambda>h. case h of None \<Rightarrow> Some a | Some e \<Rightarrow> clear_of fixed width e)"
  by pat_completeness auto
termination
  by (relation "measure (\<lambda>(fixed, w, a). 65536 - a)") (auto dest!: first_hit_Some)

text \<open>The same with the address aligned again after every bump.\<close>

function clear_aligned :: "pinned \<Rightarrow> nat \<Rightarrow> nat \<Rightarrow> nat option" where
  "clear_aligned fixed width a =
     Option.bind (first_hit fixed a width) (\<lambda>h. case h of
         None \<Rightarrow> Some a
       | Some e \<Rightarrow> Option.bind (align_to (min width 2) e) (clear_aligned fixed width))"
  by pat_completeness auto
termination
proof (relation "measure (\<lambda>(fixed, w, a). 65536 - a)")
  fix fixed :: pinned and width a e b :: nat and h
  assume "first_hit fixed a width = Some h" "h = Some e" "align_to (min width 2) e = Some b"
  then show "((fixed, width, b), fixed, width, a) \<in> measure (\<lambda>(fixed, w, a). 65536 - a)"
    using first_hit_Some [of fixed a width e] align_to_ge [of "min width 2" e b] by auto
qed simp

declare clear_of.simps [simp del] clear_aligned.simps [simp del]

lemma clear_of_clear: "clear_of fixed w a = Some b \<Longrightarrow> a \<le> b \<and> first_hit fixed b w = Some None"
proof (induction fixed w a rule: clear_of.induct)
  case (1 fixed w a)
  obtain h where h: "first_hit fixed a w = Some h" using 1(2) by (subst (asm) clear_of.simps) (auto split: Option.bind_splits)
  show ?case
  proof (cases h)
    case None
    then show ?thesis using 1(2) h by (subst (asm) clear_of.simps) simp
  next
    case (Some e)
    then have "clear_of fixed w e = Some b" using 1(2) h by (subst (asm) clear_of.simps) simp
    then show ?thesis using 1(1) [OF h Some] first_hit_Some [of fixed a w e] h Some by auto
  qed
qed

lemma clear_aligned_clear:
  "clear_aligned fixed w a = Some b \<Longrightarrow> a mod (min w 2) = 0 \<Longrightarrow>
   a \<le> b \<and> b mod (min w 2) = 0 \<and> first_hit fixed b w = Some None"
proof (induction fixed w a rule: clear_aligned.induct)
  case (1 fixed w a)
  obtain h where h: "first_hit fixed a w = Some h"
    using 1(2) by (subst (asm) clear_aligned.simps) (auto split: Option.bind_splits)
  show ?case
  proof (cases h)
    case None
    then show ?thesis using 1(2,3) h by (subst (asm) clear_aligned.simps) simp
  next
    case (Some e)
    obtain a' where a': "align_to (min w 2) e = Some a'" "clear_aligned fixed w a' = Some b"
      using 1(2) h Some by (subst (asm) clear_aligned.simps) (auto split: Option.bind_splits)
    have "a < e" using first_hit_Some [of fixed a w e] h Some by simp
    then show ?thesis using 1(1) [OF h Some a'(1,2)] align_to_ge [OF a'(1)] by simp
  qed
qed

lemma try_place_at_ge:
  "try_place_at dev a w = Some (Some b) \<Longrightarrow> a \<le> b"
proof (induction dev a w rule: try_place_at.induct)
  case (1 dev a w)
  obtain s e base top where r: "region_at dev a = Some (s, e)" and b: "align_to (min w 2) (max a s) = Some base"
    and t: "add16 base w = Some top"
    using 1(2) by (subst (asm) try_place_at.simps) (auto split: option.splits Option.bind_splits)
  have base: "a \<le> base" using align_to_ge [OF b] by simp
  have strad: "straddle_loop dev x c r = Some (Some y) \<Longrightarrow> y = x" for x c r y
    by (induction dev x c r rule: straddle_loop.induct)
      (subst (asm) straddle_loop.simps, auto simp: Let_def split: option.splits Option.bind_splits if_splits)
  have a_e: "a \<le> e" using region_at_Some [OF r] by simp
  show ?case
  proof (cases "top - 1 \<le> e \<or> dev_core dev = Pic14e \<and> w > e - s + 1")
    case True
    then show ?thesis
      using 1(2) r b t base by (subst (asm) try_place_at.simps) (auto simp: try_place_straddle_def dest: strad split: if_splits)
  next
    case False
    then have "try_place_at dev (e + 1) w = Some (Some b)" "add16 e 1 = Some (e + 1)"
      using 1(2) r b t by (subst (asm) try_place_at.simps, auto split: if_splits Option.bind_splits)+
    then show ?thesis using 1(1) [OF r refl b t] False a_e by fastforce
  qed
qed

text \<open>The last check of \<open>try_float\<close>: past what the aligned address overlaps, until nothing does.\<close>

function settle :: "device \<Rightarrow> pinned \<Rightarrow> nat \<Rightarrow> nat \<Rightarrow> nat option option" where
  "settle dev fixed width start =
     Option.bind (first_hit fixed start width) (\<lambda>h. case h of
         None \<Rightarrow> Some (Some start)
       | Some e \<Rightarrow> Option.bind (try_place_at dev e width) (\<lambda>r. case r of
             None \<Rightarrow> Some None
           | Some start' \<Rightarrow> settle dev fixed width start'))"
  by pat_completeness auto
termination
proof (relation "measure (\<lambda>(dev, fixed, w, a). 65536 - a)")
  fix dev and fixed :: pinned and width a e b :: nat and h r
  assume "first_hit fixed a width = Some h" "h = Some e" "try_place_at dev e width = Some r" "r = Some b"
  then show "((dev, fixed, width, b), dev, fixed, width, a) \<in> measure (\<lambda>(dev, fixed, w, a). 65536 - a)"
    using first_hit_Some [of fixed a width e] try_place_at_ge [of dev e width b] by auto
qed simp

declare settle.simps [simp del]

section \<open>The globals\<close>

type_synonym sized = "(string \<times> nat) list"

definition gsize :: "string set \<Rightarrow> ir_global \<Rightarrow> nat" where
  "gsize fat g =
     (if \<not> gl_is_const g \<and> gl_size g = 2 \<and> CHR ''@'' # gl_name g \<in> fat then 3 else unat (gl_size g))"

definition sized_globals :: "string set \<Rightarrow> ir_global list \<Rightarrow> sized" where
  "sized_globals fat gs = map (\<lambda>g. (gl_name g, gsize fat g)) gs"

text \<open>In the order of the file.\<close>

fun float_from :: "device \<Rightarrow> pinned \<Rightarrow> sized \<Rightarrow> nat \<Rightarrow> (string \<rightharpoonup> nat) \<Rightarrow> (string \<rightharpoonup> nat) option option" where
  "float_from dev fixed [] addr out = Some (Some out)"
| "float_from dev fixed ((n, width) # gs) addr out =
     Option.bind (clear_of fixed width addr) (\<lambda>candidate.
     Option.bind (try_place_at dev candidate width) (\<lambda>r. case r of
         None \<Rightarrow> Some None
       | Some start0 \<Rightarrow>
           Option.bind (settle dev fixed width start0) (\<lambda>r'. case r' of
               None \<Rightarrow> Some None
             | Some start \<Rightarrow>
                 Option.bind (physical_end dev start width) (\<lambda>e.
                 Option.bind (bump_after fixed e) (\<lambda>addr'.
                   float_from dev fixed gs addr' (out(n \<mapsto> start)))))))"

definition try_float :: "device \<Rightarrow> pinned \<Rightarrow> sized \<Rightarrow> nat \<Rightarrow> (string \<rightharpoonup> nat) option option" where
  "try_float dev fixed gs start = Option.bind (bump_start fixed start) (\<lambda>a. float_from dev fixed gs a Map.empty)"

text \<open>Largest first, each in the first bank with room: a cursor is a bank's end and its next free address.\<close>

type_synonym cursor = "nat \<times> nat"

fun place_in :: "pinned \<Rightarrow> nat \<Rightarrow> cursor list \<Rightarrow> (cursor list \<times> nat) option option" where
  "place_in fixed width [] = Some None"
| "place_in fixed width ((e, free) # cs) =
     Option.bind (align_to (min width 2) free) (\<lambda>b0.
     Option.bind (clear_aligned fixed width b0) (\<lambda>base.
     Option.bind (add16 base width) (\<lambda>top.
       if top - 1 \<le> e then Some (Some ((e, top) # cs, base))
       else map_option (map_option (\<lambda>(cs', b). ((e, free) # cs', b))) (place_in fixed width cs))))"

fun pack_all :: "pinned \<Rightarrow> sized \<Rightarrow> cursor list \<Rightarrow> (string \<rightharpoonup> nat) \<Rightarrow> (string \<rightharpoonup> nat) option option" where
  "pack_all fixed [] cs out = Some (Some out)"
| "pack_all fixed ((n, width) # gs) cs out =
     Option.bind (place_in fixed width cs) (\<lambda>r. case r of
         None \<Rightarrow> Some None
       | Some (cs', base) \<Rightarrow> pack_all fixed gs cs' (out(n \<mapsto> base)))"

fun start_cursors :: "pinned \<Rightarrow> nat \<Rightarrow> (nat \<times> nat) list \<Rightarrow> cursor list option" where
  "start_cursors fixed start [] = Some []"
| "start_cursors fixed start ((s, e) # bs) =
     Option.bind (bump_start fixed (max s start)) (\<lambda>free.
       map_option ((#) (e, free)) (start_cursors fixed start bs))"

definition largest_first :: "sized \<Rightarrow> sized" where
  "largest_first gs = sort_key (\<lambda>(n, w). - int w) gs"

definition bin_pack :: "device \<Rightarrow> pinned \<Rightarrow> sized \<Rightarrow> nat \<Rightarrow> (string \<rightharpoonup> nat) option option" where
  "bin_pack dev fixed gs start =
     Option.bind (start_cursors fixed start (banks dev)) (\<lambda>cs. pack_all fixed (largest_first gs) cs Map.empty)"

fun global_end :: "(string \<rightharpoonup> nat) \<Rightarrow> sized \<Rightarrow> nat option" where
  "global_end m [] = Some 0"
| "global_end m ((n, width) # gs) =
     Option.bind (global_end m gs) (\<lambda>e.
       case m n of None \<Rightarrow> Some e | Some a \<Rightarrow> map_option (max e) (add16 a width))"

text \<open>The tighter of the two arrangements, the first when they tie.\<close>

definition best_at :: "device \<Rightarrow> pinned \<Rightarrow> sized \<Rightarrow> nat \<Rightarrow> (string \<rightharpoonup> nat) option option" where
  "best_at dev fixed gs start =
     Option.bind (bump_start fixed start) (\<lambda>start'.
     Option.bind (try_float dev fixed gs start') (\<lambda>seq.
     Option.bind (bin_pack dev fixed gs start) (\<lambda>bin.
       case (seq, bin) of
         (Some m, Some b) \<Rightarrow>
           Option.bind (global_end b gs) (\<lambda>eb.
           Option.bind (global_end m gs) (\<lambda>em. Some (Some (if eb < em then b else m))))
       | (Some m, None) \<Rightarrow> Some (Some m)
       | (None, b) \<Rightarrow> Some b)))"

section \<open>Frames\<close>

fun frame_end :: "device \<Rightarrow> nat \<Rightarrow> nat list \<Rightarrow> nat option" where
  "frame_end dev base [] = Some base"
| "frame_end dev base (w # ws) =
     Option.bind (place_contiguous dev base w) (\<lambda>a. Option.bind (add16 a w) (\<lambda>next. frame_end dev next ws))"

definition routine_base :: "device \<Rightarrow> nat \<Rightarrow> nat list \<Rightarrow> nat option" where
  "routine_base dev base ws =
     Option.bind (region_at dev base) (\<lambda>(s, e).
     Option.bind (frame_end dev base ws) (\<lambda>top.
       if top = 0 then None
       else if dev_core dev = Pic18 then
         (let page_end = base div 256 * 256 + 255; bank_end = min page_end e in
          if top - 1 \<le> bank_end then Some base
          else Option.bind (add16 page_end 1) (\<lambda>next.
                 map_option (\<lambda>(s', e'). max next s') (region_at dev next)))
       else if top - 1 \<le> e then Some base
       else Option.bind (add16 e 1) (\<lambda>next. map_option fst (region_at dev next))))"

text \<open>A position in a function: the block's index and the instruction's. A live range has a slot and two.\<close>

type_synonym pos = "nat \<times> nat"

definition pos_le :: "pos \<Rightarrow> pos \<Rightarrow> bool" where
  "pos_le a b \<longleftrightarrow> fst a < fst b \<or> fst a = fst b \<and> snd a \<le> snd b"

definition pos_less :: "pos \<Rightarrow> pos \<Rightarrow> bool" where
  "pos_less a b \<longleftrightarrow> fst a < fst b \<or> fst a = fst b \<and> snd a < snd b"

type_synonym live_ranges = "(string \<times> nat \<times> pos \<times> pos) list"

definition live_top :: "live_ranges \<Rightarrow> pos \<Rightarrow> string option \<Rightarrow> nat option" where
  "live_top live site excl =
     fold (\<lambda>(v, slot, lo, hi) top.
        if Some v = excl then top
        else if pos_le lo site \<and> pos_le site hi \<and> (case top of None \<Rightarrow> True | Some t \<Rightarrow> t < slot)
        then Some slot else top) live None"

definition live_high :: "device \<Rightarrow> nat \<Rightarrow> nat list \<Rightarrow> live_ranges \<Rightarrow> pos \<Rightarrow> string option \<Rightarrow> nat option" where
  "live_high dev base ws live site excl =
     (case live_top live site excl of
        None \<Rightarrow> Some base
      | Some k \<Rightarrow> if k < length ws then frame_end dev base (take (Suc k) ws) else None)"

definition bank_key :: "device \<Rightarrow> nat \<Rightarrow> nat \<times> bool" where
  "bank_key dev a =
     (if dev_core dev = Pic18 then
        (a div 256 * 2 + (if in_window (access_bank dev) (of_nat a) then 1 else 0), True)
      else (length (takeWhile (\<lambda>(s, e). \<not> a \<le> e) (banks dev)), False))"

definition round_if_routine :: "device \<Rightarrow> string \<Rightarrow> nat \<Rightarrow> (string \<rightharpoonup> nat list) \<Rightarrow> nat option" where
  "round_if_routine dev f base widths =
     (if \<not> is_runtime_routine f then Some base
      else if dev_core dev = PicBaseline then Some base
      else Option.bind (widths f) (routine_base dev base))"

text \<open>The overlay's end over the bases of the frames, in any order.\<close>

fun overlay_end :: "device \<Rightarrow> (string \<times> nat) list \<Rightarrow> (string \<rightharpoonup> nat list) \<Rightarrow> nat \<Rightarrow> nat option" where
  "overlay_end dev [] widths region_start = Some region_start"
| "overlay_end dev ((f, b) # bs) widths region_start =
     Option.bind (widths f) (\<lambda>ws. Option.bind (frame_end dev b ws) (\<lambda>e.
       map_option (max e) (overlay_end dev bs widths region_start)))"

text \<open>First-fit colouring: the lowest slot whose interval is disjoint, or a fresh one.\<close>

type_synonym slot = "pos \<times> pos \<times> nat"

definition pos_min :: "pos \<Rightarrow> pos \<Rightarrow> pos" where "pos_min a b = (if pos_le a b then a else b)"
definition pos_max :: "pos \<Rightarrow> pos \<Rightarrow> pos" where "pos_max a b = (if pos_le a b then b else a)"

fun first_fit :: "slot list \<Rightarrow> pos \<Rightarrow> pos \<Rightarrow> nat \<Rightarrow> slot list \<times> nat" where
  "first_fit [] lo hi w = ([(lo, hi, w)], 0)"
| "first_fit ((slo, shi, sw) # slots) lo hi w =
     (if pos_less hi slo \<or> pos_less shi lo then ((pos_min slo lo, pos_max shi hi, max sw w) # slots, 0)
      else (case first_fit slots lo hi w of (slots', i) \<Rightarrow> ((slo, shi, sw) # slots', Suc i)))"

definition is_site_call :: "i_call \<Rightarrow> bool" where
  "is_site_call c \<longleftrightarrow> call_func c \<noteq> ''_delay'' \<and>
     (call_callees c \<noteq> [] \<or> \<not> list_all (\<lambda>ch. ch \<in> set ''0123456789'') (call_func c))"

text \<open>
  \<open>window_order\<close>: the slots by falling heat, slots of equal heat in their old order, when the frame
  straddles the end of the access window. The heat has one entry for each slot.
\<close>

definition window_order :: "nat \<Rightarrow> nat \<Rightarrow> nat list \<Rightarrow> nat list \<Rightarrow> nat list option" where
  "window_order base win_end ws heat =
     (if base \<ge> win_end \<or> base + sum_list ws \<le> win_end then None
      else Some (sort_key (\<lambda>i. - int (heat ! i)) [0..<length ws]))"

definition perm_widths :: "nat list \<Rightarrow> nat list \<Rightarrow> nat list" where
  "perm_widths ws perm = map (\<lambda>old. ws ! old) perm"

section \<open>The call graph's text and what a root reaches\<close>

datatype edge_line = Edge string string | Ignored

definition read_edge_line :: "string \<Rightarrow> edge_line option" where
  "read_edge_line raw =
     (let line = trim raw in
      if line = [] then Some Ignored
      else case strip_prefix ''edge '' line of
        Some rest \<Rightarrow> (case split_ws rest of [a, b] \<Rightarrow> Some (Edge a b) | _ \<Rightarrow> None)
      | None \<Rightarrow> if starts_with ''depth '' line \<or> starts_with ''fn '' line then Some Ignored else None)"

type_synonym edge_map = "(string \<times> string list) list"

definition callees_in :: "edge_map \<Rightarrow> string \<Rightarrow> string list" where
  "callees_in es f = (case map_of es f of Some cs \<Rightarrow> cs | None \<Rightarrow> [])"

definition callers_of :: "edge_map \<Rightarrow> string \<Rightarrow> string list" where
  "callers_of es f = map fst (filter (\<lambda>(p, cs). f \<in> set cs) es)"

fun add_call_edge :: "string \<Rightarrow> string \<Rightarrow> edge_map \<Rightarrow> edge_map" where
  "add_call_edge a b [] = [(a, [b])]"
| "add_call_edge a b ((p, cs) # es) =
     (if p = a then (p, if b \<in> set cs then cs else cs @ [b]) # es else (p, cs) # add_call_edge a b es)"

fun read_edges :: "string list \<Rightarrow> edge_map \<Rightarrow> edge_map option" where
  "read_edges [] es = Some es"
| "read_edges (l # ls) es =
     (case read_edge_line l of
        None \<Rightarrow> None
      | Some Ignored \<Rightarrow> read_edges ls es
      | Some (Edge a b) \<Rightarrow> read_edges ls (add_call_edge a b es))"

partial_function (option) reach_loop :: "edge_map \<Rightarrow> string list \<Rightarrow> string set \<Rightarrow> string set option" where
  "reach_loop es stack seen =
     (case stack of
        [] \<Rightarrow> Some seen
      | f # st \<Rightarrow>
          if f \<in> seen then reach_loop es st seen
          else reach_loop es (rev (filter (\<lambda>c. c \<notin> insert f seen) (callees_in es f)) @ st) (insert f seen))"

definition reachable_from :: "string list \<Rightarrow> edge_map \<Rightarrow> string set option" where
  "reachable_from roots es = reach_loop es (rev roots) {}"

section \<open>Callers before callees\<close>

text \<open>
  Kahn's order over the in-degrees, the ready functions on a stack whose top is the head. An edge to an
  unknown function panics; so does a count that would fall below 0.
\<close>

type_synonym degrees = "(string \<times> nat) list"

fun raise_degree :: "string \<Rightarrow> degrees \<Rightarrow> degrees option" where
  "raise_degree c [] = None"
| "raise_degree c ((n, d) # ds) =
     (if n = c then Some ((n, Suc d) # ds) else map_option ((#) (n, d)) (raise_degree c ds))"

fun raise_degrees :: "string list \<Rightarrow> degrees \<Rightarrow> degrees option" where
  "raise_degrees [] ds = Some ds"
| "raise_degrees (c # cs) ds = Option.bind (raise_degree c ds) (raise_degrees cs)"

fun lower_degree :: "string \<Rightarrow> degrees \<Rightarrow> (degrees \<times> bool) option" where
  "lower_degree c [] = None"
| "lower_degree c ((n, d) # ds) =
     (if n = c then (case d of 0 \<Rightarrow> None | Suc k \<Rightarrow> Some ((n, k) # ds, k = 0))
      else map_option (\<lambda>(ds', z). ((n, d) # ds', z)) (lower_degree c ds))"

fun lower_degrees :: "string list \<Rightarrow> degrees \<Rightarrow> string list \<Rightarrow> (degrees \<times> string list) option" where
  "lower_degrees [] ds ready = Some (ds, ready)"
| "lower_degrees (c # cs) ds ready =
     Option.bind (lower_degree c ds) (\<lambda>(ds', zero). lower_degrees cs ds' (if zero then c # ready else ready))"

definition degree_sum :: "degrees \<Rightarrow> nat" where
  "degree_sum ds = sum_list (map snd ds)"

lemma lower_degree_sum: "lower_degree c ds = Some (ds', z) \<Longrightarrow> degree_sum ds = Suc (degree_sum ds')"
  by (induction c ds arbitrary: ds' z rule: lower_degree.induct)
    (auto simp: degree_sum_def split: if_splits nat.splits)

lemma lower_degrees_sum:
  "lower_degrees cs ds ready = Some (ds', ready') \<Longrightarrow> degree_sum ds' + length ready' \<le> degree_sum ds + length ready"
proof (induction cs arbitrary: ds ready)
  case (Cons c cs)
  obtain ds1 z where d: "lower_degree c ds = Some (ds1, z)"
    and r: "lower_degrees cs ds1 (if z then c # ready else ready) = Some (ds', ready')"
    using Cons.prems by (auto split: Option.bind_splits)
  show ?case using lower_degree_sum [OF d] Cons.IH [OF r] by (auto split: if_splits)
qed simp

function topo_loop :: "edge_map \<Rightarrow> degrees \<Rightarrow> string list \<Rightarrow> string list option" where
  "topo_loop es ds [] = Some []"
| "topo_loop es ds (f # ready) =
     Option.bind (lower_degrees (callees_in es f) ds ready) (\<lambda>r.
       map_option ((#) f) (topo_loop es (fst r) (snd r)))"
  by pat_completeness auto
termination
proof (relation "measure (\<lambda>(es, ds, ready). degree_sum ds + length ready)")
  fix es ds f ready r
  assume "lower_degrees (callees_in es f) ds ready = Some r"
  then show "((es, fst r, snd r), es, ds, f # ready) \<in> measure (\<lambda>(es, ds, ready). degree_sum ds + length ready)"
    using lower_degrees_sum [of "callees_in es f" ds ready "fst r" "snd r"] by (simp add: case_prod_unfold)
qed simp

definition topo_order :: "edge_map \<Rightarrow> string list \<Rightarrow> string list option" where
  "topo_order es funcs =
     (if \<not> list_all (\<lambda>(p, cs). p \<in> set funcs) es then None
      else Option.bind (raise_degrees (concat (map snd es)) (map (\<lambda>f. (f, 0)) (remdups funcs))) (\<lambda>ds.
        Option.bind (topo_loop es ds (rev (sort (map fst (filter (\<lambda>(f, d). d = 0) ds))))) (\<lambda>order.
          if length order = length funcs then Some order else None)))"

section \<open>The bases of the frames\<close>

text \<open>What the layout knows of the functions: slot widths, call sites, live ranges, homed arguments.\<close>

record frame_facts =
  fr_widths :: "string \<rightharpoonup> nat list"
  fr_sites :: "string \<rightharpoonup> (string \<times> pos \<times> string option) list"
  fr_live :: "string \<rightharpoonup> live_ranges"
  fr_homed :: "string set"

fun max_ends :: "device \<Rightarrow> frame_facts \<Rightarrow> (string \<rightharpoonup> nat) \<Rightarrow> string list \<Rightarrow> nat option" where
  "max_ends dev ff base [] = Some 0"
| "max_ends dev ff base (p # ps) =
     Option.bind (base p) (\<lambda>b. Option.bind (fr_widths ff p) (\<lambda>ws. Option.bind (frame_end dev b ws) (\<lambda>e.
       map_option (max e) (max_ends dev ff base ps))))"

fun max_live :: "device \<Rightarrow> frame_facts \<Rightarrow> (string \<rightharpoonup> nat) \<Rightarrow> (string \<times> pos \<times> string option) list \<Rightarrow> nat option" where
  "max_live dev ff base [] = Some 0"
| "max_live dev ff base ((p, at, dst) # ss) =
     Option.bind (base p) (\<lambda>b. Option.bind (fr_widths ff p) (\<lambda>ws. Option.bind (fr_live ff p) (\<lambda>live.
     Option.bind (live_high dev b ws live at dst) (\<lambda>h. map_option (max h) (max_live dev ff base ss)))))"

text \<open>The end of the callers' frames, or the address the live values of every site allow in the same banks.\<close>

definition derived_base :: "device \<Rightarrow> frame_facts \<Rightarrow> edge_map \<Rightarrow> bool \<Rightarrow> nat \<Rightarrow> (string \<rightharpoonup> nat) \<Rightarrow> string \<Rightarrow> nat option" where
  "derived_base dev ff es dip region_start base f =
     Option.bind (if \<not> dip \<or> f \<in> fr_homed ff then Some None
                  else case fr_sites ff f of
                    None \<Rightarrow> Some None
                  | Some ss \<Rightarrow> if ss = [] then Some None else map_option Some (max_live dev ff base ss)) (\<lambda>dipped.
     Option.bind (case callers_of es f of [] \<Rightarrow> Some region_start | ps \<Rightarrow> max_ends dev ff base ps) (\<lambda>old.
       case dipped of
         None \<Rightarrow> Some old
       | Some d \<Rightarrow>
           if bank_key dev d \<noteq> bank_key dev old then Some old
           else Option.bind (fr_widths ff f) (\<lambda>ws.
                Option.bind (frame_end dev d ws) (\<lambda>ed. Option.bind (frame_end dev old ws) (\<lambda>eo.
                  Some (if bank_key dev ed = bank_key dev eo then d else old))))))"

fun assign_bases ::
    "device \<Rightarrow> frame_facts \<Rightarrow> edge_map \<Rightarrow> bool \<Rightarrow> nat \<Rightarrow> string list \<Rightarrow> (string \<rightharpoonup> nat) \<Rightarrow> (string \<rightharpoonup> nat) option" where
  "assign_bases dev ff es dip region_start [] base = Some base"
| "assign_bases dev ff es dip region_start (f # fs) base =
     Option.bind (derived_base dev ff es dip region_start base f) (\<lambda>b0.
     Option.bind (round_if_routine dev f b0 (fr_widths ff)) (\<lambda>b.
       assign_bases dev ff es dip region_start fs (base(f \<mapsto> b))))"

text \<open>From the call graph's text to the bases of a module without interrupt handlers.\<close>

definition frame_bases :: "device \<Rightarrow> frame_facts \<Rightarrow> string list \<Rightarrow> string \<Rightarrow> bool \<Rightarrow> nat \<Rightarrow> (string \<rightharpoonup> nat) option" where
  "frame_bases dev ff funcs edges_text dip region_start =
     Option.bind (read_edges (str_lines edges_text) []) (\<lambda>es.
     Option.bind (topo_order es funcs) (\<lambda>order. assign_bases dev ff es dip region_start order Map.empty))"

section \<open>The slots of a frame\<close>

datatype dip_mode = DipOff | DipIsr | DipAll

text \<open>The callers a callee's base dips into: it lies below the end of their frame.\<close>

fun dipped_by ::
    "device \<Rightarrow> frame_facts \<Rightarrow> (string \<rightharpoonup> nat) \<Rightarrow> nat \<Rightarrow> (string \<times> pos \<times> string option) list \<Rightarrow> string set \<Rightarrow> string set option" where
  "dipped_by dev ff base bt [] d = Some d"
| "dipped_by dev ff base bt ((p, at, dst) # ss) d =
     Option.bind (base p) (\<lambda>b. Option.bind (fr_widths ff p) (\<lambda>ws. Option.bind (frame_end dev b ws) (\<lambda>e.
       dipped_by dev ff base bt ss (if bt < e then insert p d else d))))"

fun dipped_over :: "device \<Rightarrow> frame_facts \<Rightarrow> (string \<rightharpoonup> nat) \<Rightarrow> string list \<Rightarrow> string set \<Rightarrow> string set option" where
  "dipped_over dev ff base [] d = Some d"
| "dipped_over dev ff base (t # ts) d =
     (case (base t, fr_sites ff t) of
        (Some bt, Some ss) \<Rightarrow> Option.bind (dipped_by dev ff base bt ss d) (dipped_over dev ff base ts)
      | _ \<Rightarrow> dipped_over dev ff base ts d)"

definition dipped_frames ::
    "device \<Rightarrow> frame_facts \<Rightarrow> dip_mode \<Rightarrow> (string \<rightharpoonup> nat) \<Rightarrow> string list \<Rightarrow> string set option" where
  "dipped_frames dev ff mode base ts = (if mode = DipOff then Some {} else dipped_over dev ff base ts {})"

text \<open>
  The order the slots are placed in: by falling heat for a frame that straddles the window's end, unless
  a callee dips into it or the permutation would move its end; the colouring's order otherwise.
\<close>

definition slot_order :: "device \<Rightarrow> bool \<Rightarrow> nat \<Rightarrow> nat list \<Rightarrow> nat list \<Rightarrow> nat list option" where
  "slot_order dev dipped base ws heat =
     Option.bind (frame_end dev base ws) (\<lambda>size_end.
       if dipped then Some [0..<length ws]
       else case Option.bind (access_bank dev) (\<lambda>(lo, hi). window_order base (unat hi + 1) ws heat) of
         None \<Rightarrow> Some [0..<length ws]
       | Some p \<Rightarrow> map_option (\<lambda>e. if e = size_end then p else [0..<length ws])
                     (frame_end dev base (perm_widths ws p)))"

fun place_slots :: "device \<Rightarrow> nat list \<Rightarrow> nat list \<Rightarrow> nat \<Rightarrow> nat list \<Rightarrow> nat list option" where
  "place_slots dev ws [] addr out = Some out"
| "place_slots dev ws (i # order) addr out =
     Option.bind (place_contiguous dev addr (ws ! i)) (\<lambda>start. Option.bind (add16 start (ws ! i)) (\<lambda>next.
       place_slots dev ws order next (out[i := start])))"

text \<open>The address of every slot, by the slot's number.\<close>

definition slot_addrs :: "device \<Rightarrow> bool \<Rightarrow> nat \<Rightarrow> nat list \<Rightarrow> nat list \<Rightarrow> nat list option" where
  "slot_addrs dev dipped base ws heat =
     Option.bind (slot_order dev dipped base ws heat) (\<lambda>order.
       place_slots dev ws order base (replicate (length ws) 0))"

end
