(* ===== verification/AllocProps.thy ===== *)
theory AllocProps
  imports Alloc "HOL-Library.Multiset"
begin

text \<open>
  What the allocator guarantees: every global of a successful arrangement is inside one bank, aligned, and
  apart from every other and from the pinned ones; and a function's frame is apart from the frames of
  everything it can be waiting for.
\<close>

section \<open>One value\<close>

definition banks_ok :: "device \<Rightarrow> bool" where
  "banks_ok dev \<longleftrightarrow> (\<forall>(s, e) \<in> set (banks dev). s \<le> e) \<and> sorted_wrt (\<lambda>a b. snd a < fst b) (banks dev)"

definition in_bank :: "device \<Rightarrow> nat \<Rightarrow> nat \<Rightarrow> bool" where
  "in_bank dev a w \<longleftrightarrow> (\<exists>(s, e) \<in> set (banks dev). s \<le> a \<and> a + w \<le> e + 1)"

text \<open>A width the enhanced core does not have to spread over banks.\<close>

definition no_straddle :: "device \<Rightarrow> nat \<Rightarrow> bool" where
  "no_straddle dev w \<longleftrightarrow> 0 < w \<and> (dev_core dev = Pic14e \<longrightarrow> (\<forall>(s, e) \<in> set (banks dev). w \<le> e - s + 1))"

lemma try_place_at_in:
  "try_place_at dev a w = Some (Some b) \<Longrightarrow> no_straddle dev w \<Longrightarrow>
   a \<le> b \<and> in_bank dev b w \<and> b mod (min w 2) = 0"
proof (induction dev a w rule: try_place_at.induct)
  case (1 dev a w)
  obtain s e base top where r: "region_at dev a = Some (s, e)" and b: "align_to (min w 2) (max a s) = Some base"
    and t: "add16 base w = Some top"
    using 1(2) by (subst (asm) try_place_at.simps) (auto split: option.splits Option.bind_splits)
  have m: "(s, e) \<in> set (banks dev)" "a \<le> e" using region_at_Some [OF r] by auto
  have base: "max a s \<le> base" "base mod (min w 2) = 0" using align_to_ge [OF b] by simp_all
  have ns: "\<not> (dev_core dev = Pic14e \<and> w > e - s + 1)" using 1(3) m by (auto simp: no_straddle_def)
  show ?case
  proof (cases "top - 1 \<le> e")
    case True
    then have "b = base" using 1(2) r b t by (subst (asm) try_place_at.simps) simp
    moreover have "in_bank dev base w" using m base True t unfolding in_bank_def by (intro bexI [of _ "(s, e)"]) auto
    ultimately show ?thesis using base by simp
  next
    case False
    then have n: "try_place_at dev (e + 1) w = Some (Some b)" "add16 e 1 = Some (e + 1)"
      using 1(2) r b t ns by (subst (asm) try_place_at.simps, auto split: if_splits Option.bind_splits)+
    show ?thesis using 1(1) [OF r refl b t False ns n(2,1) 1(3)] m by simp
  qed
qed

lemma region_at_in:
  assumes "banks_ok dev" and "(s, e) \<in> set (banks dev)" and "s \<le> a" "a \<le> e"
  shows "region_at dev a = Some (s, e)"
proof -
  obtain i where i: "i < length (banks dev)" "banks dev ! i = (s, e)" using assms(2) by (auto simp: in_set_conv_nth)
  have "\<not> (case banks dev ! j of (s, x) \<Rightarrow> a \<le> x)" if "j < i" for j
    using assms(1,3) i that sorted_wrt_nth_less [of _ "banks dev" j i] by (fastforce simp: banks_ok_def split: prod.splits)
  then show ?thesis using i assms(4) unfolding region_at_def find_Some_iff by (intro exI [of _ i]) simp
qed

lemma physical_end_in:
  assumes "banks_ok dev" and "in_bank dev a w" and "0 < w" and "physical_end dev a w = Some e"
  shows "e = a + w"
proof -
  obtain s t where m: "(s, t) \<in> set (banks dev)" "s \<le> a" "a + w \<le> t + 1" using assms(2) by (auto simp: in_bank_def)
  then have "region_at dev a = Some (s, t)" using assms by (intro region_at_in) simp_all
  moreover have "max a s = a" using m by simp
  moreover have "w \<le> t - a + 1" using m by simp
  ultimately show ?thesis using assms(3,4) by (subst (asm) physical_end.simps) (simp add: Let_def)
qed

definition apart :: "nat \<Rightarrow> nat \<Rightarrow> nat \<Rightarrow> nat \<Rightarrow> bool" where
  "apart a w b v \<longleftrightarrow> a + w \<le> b \<or> b + v \<le> a"

text \<open>What a value at an address needs of the device and the pinned globals.\<close>

definition well_placed :: "device \<Rightarrow> pinned \<Rightarrow> nat \<Rightarrow> nat \<Rightarrow> bool" where
  "well_placed dev fixed a w \<longleftrightarrow> in_bank dev a w \<and> a mod (min w 2) = 0 \<and> (\<forall>(n, fa, fs) \<in> set fixed. apart a w fa fs)"

lemma first_hit_apart: "first_hit fixed a w = Some None \<Longrightarrow> \<forall>(n, fa, fs) \<in> set fixed. apart a w fa fs"
  using first_hit_None [of fixed a w] by (auto simp: apart_def)

lemma settle_placed:
  "settle dev fixed w a = Some (Some b) \<Longrightarrow> no_straddle dev w \<Longrightarrow> in_bank dev a w \<Longrightarrow> a mod (min w 2) = 0 \<Longrightarrow>
   a \<le> b \<and> well_placed dev fixed b w"
proof (induction dev fixed w a rule: settle.induct)
  case (1 dev fixed w a)
  obtain h where h: "first_hit fixed a w = Some h" using 1(2) by (subst (asm) settle.simps) (auto split: Option.bind_splits)
  show ?case
  proof (cases h)
    case None
    then have "a = b" using 1(2) h by (subst (asm) settle.simps) simp
    then show ?thesis using 1(4,5) first_hit_apart [of fixed b w] h None by (simp add: well_placed_def)
  next
    case (Some e)
    obtain a' where a': "try_place_at dev e w = Some (Some a')" "settle dev fixed w a' = Some (Some b)"
      using 1(2) h Some by (subst (asm) settle.simps) (auto split: Option.bind_splits option.splits)
    have "a < e" using first_hit_Some [of fixed a w e] h Some by simp
    then show ?thesis using 1(1) [OF h Some a'(1) refl a'(2) 1(3)] try_place_at_in [OF a'(1) 1(3)] by auto
  qed
qed

section \<open>Arrangements\<close>

definition globals_ok :: "device \<Rightarrow> pinned \<Rightarrow> sized \<Rightarrow> (string \<rightharpoonup> nat) \<Rightarrow> bool" where
  "globals_ok dev fixed gs m \<longleftrightarrow>
     (\<forall>(n, w) \<in> set gs. \<exists>a. m n = Some a \<and> well_placed dev fixed a w) \<and>
     (\<forall>(n, w) \<in> set gs. \<forall>(n', w') \<in> set gs. n \<noteq> n' \<longrightarrow> apart (the (m n)) w (the (m n')) w')"

lemma bump_after_ge: "bump_after fixed a = Some b \<Longrightarrow> a \<le> b"
  by (induction fixed a arbitrary: b rule: bump_after.induct) (auto split: if_splits Option.bind_splits)

lemma float_from_ok:
  assumes dev: "banks_ok dev"
  shows "float_from dev fixed gs addr out = Some (Some m) \<Longrightarrow> distinct (map fst gs) \<Longrightarrow>
    (\<And>n w. (n, w) \<in> set gs \<Longrightarrow> no_straddle dev w) \<Longrightarrow>
    (\<forall>n. n \<notin> fst ` set gs \<longrightarrow> m n = out n) \<and> (\<forall>(n, w) \<in> set gs. \<exists>a. m n = Some a \<and> addr \<le> a) \<and> globals_ok dev fixed gs m"
proof (induction gs arbitrary: addr out)
  case Nil
  then show ?case by (simp add: globals_ok_def)
next
  case (Cons g gs)
  obtain n w where g: "g = (n, w)" by (cases g)
  obtain c a0 a e addr' where s: "clear_of fixed w addr = Some c" "try_place_at dev c w = Some (Some a0)"
      "settle dev fixed w a0 = Some (Some a)" "physical_end dev a w = Some e" "bump_after fixed e = Some addr'"
    and rest: "float_from dev fixed gs addr' (out(n \<mapsto> a)) = Some (Some m)"
    using Cons.prems(1) by (auto simp: g split: Option.bind_splits option.splits)
  have ns: "no_straddle dev w" using Cons.prems(3) [of n w] g by simp
  have c: "addr \<le> c" using clear_of_clear [OF s(1)] by simp
  have a0: "c \<le> a0" "in_bank dev a0 w" "a0 mod (min w 2) = 0" using try_place_at_in [OF s(2) ns] by simp_all
  have a: "a0 \<le> a" "well_placed dev fixed a w" using settle_placed [OF s(3) ns a0(2,3)] by simp_all
  have e: "a + w \<le> addr'"
    using physical_end_in [OF dev _ _ s(4)] a(2) ns bump_after_ge [OF s(5)] by (simp add: well_placed_def no_straddle_def)
  have IH: "\<forall>k. k \<notin> fst ` set gs \<longrightarrow> m k = (out(n \<mapsto> a)) k" "\<forall>(k, v) \<in> set gs. \<exists>b. m k = Some b \<and> addr' \<le> b" "globals_ok dev fixed gs m"
  proof -
    have "distinct (map fst gs)" using Cons.prems(2) by (simp add: g)
    moreover have "no_straddle dev v" if "(k, v) \<in> set gs" for k v using Cons.prems(3) [of k v] that by (simp add: g)
    ultimately show "\<forall>k. k \<notin> fst ` set gs \<longrightarrow> m k = (out(n \<mapsto> a)) k"
      "\<forall>(k, v) \<in> set gs. \<exists>b. m k = Some b \<and> addr' \<le> b" "globals_ok dev fixed gs m"
      using Cons.IH [OF rest] by blast+
  qed
  have n: "n \<notin> fst ` set gs" using Cons.prems(2) by (simp add: g)
  then have mn: "m n = Some a" using IH(1) by simp
  have ap: "apart a w (the (m k)) v" if "(k, v) \<in> set gs" for k v
    using IH(2) that e by (force simp: apart_def)
  have "globals_ok dev fixed ((n, w) # gs) m"
    using IH(3) a(2) mn ap n by (auto simp: globals_ok_def) (auto simp: apart_def)
  moreover have "\<forall>(k, v) \<in> set ((n, w) # gs). \<exists>b. m k = Some b \<and> addr \<le> b"
    using IH(2) mn c a0 a e by fastforce
  moreover have "\<forall>k. k \<notin> fst ` set ((n, w) # gs) \<longrightarrow> m k = out k" using IH(1) by auto
  ultimately show ?case by (simp only: g)
qed

lemma place_in_cursor:
  "place_in fixed w cs = Some (Some (cs', b)) \<Longrightarrow>
   \<exists>i < length cs. cs' = cs[i := (fst (cs ! i), b + w)] \<and> snd (cs ! i) \<le> b \<and> b + w \<le> fst (cs ! i) + 1 \<and>
     b mod (min w 2) = 0 \<and> first_hit fixed b w = Some None"
proof (induction fixed w cs arbitrary: cs' b rule: place_in.induct)
  case (2 fixed w e free cs)
  obtain b0 base top where s: "align_to (min w 2) free = Some b0" "clear_aligned fixed w b0 = Some base" "add16 base w = Some top"
    using "2.prems" by (auto split: Option.bind_splits)
  have b0: "free \<le> b0" "b0 mod (min w 2) = 0" using align_to_ge [OF s(1)] by simp_all
  have base: "b0 \<le> base" "base mod (min w 2) = 0" "first_hit fixed base w = Some None"
    using clear_aligned_clear [OF s(2) b0(2)] by simp_all
  show ?case
  proof (cases "top - 1 \<le> e")
    case True
    then have "cs' = (e, top) # cs" "b = base" using "2.prems" s by simp_all
    then show ?thesis using True b0 base s(3) by (intro exI [of _ 0]) auto
  next
    case False
    then obtain cs1 where r: "place_in fixed w cs = Some (Some (cs1, b))" "cs' = (e, free) # cs1"
      using "2.prems" s by auto
    obtain i where "i < length cs" "cs1 = cs[i := (fst (cs ! i), b + w)]" "snd (cs ! i) \<le> b" "b + w \<le> fst (cs ! i) + 1"
        "b mod (min w 2) = 0" "first_hit fixed b w = Some None"
      using "2.IH" [OF s False r(1)] by (elim exE conjE) (rule that)
    then show ?thesis unfolding r(2) by (intro exI [of _ "Suc i"]) simp
  qed
qed simp

text \<open>A cursor stays in its bank, and what is placed there ends before it.\<close>

definition cursors_ok :: "(nat \<times> nat) list \<Rightarrow> cursor list \<Rightarrow> bool" where
  "cursors_ok bs cs \<longleftrightarrow> length cs = length bs \<and>
     (\<forall>i < length bs. fst (cs ! i) = snd (bs ! i) \<and> fst (bs ! i) \<le> snd (cs ! i))"

definition held :: "(nat \<times> nat) list \<Rightarrow> cursor list \<Rightarrow> nat \<Rightarrow> nat \<Rightarrow> bool" where
  "held bs cs a w \<longleftrightarrow> (\<exists>i < length bs. fst (bs ! i) \<le> a \<and> a + w \<le> snd (bs ! i) + 1 \<and> a + w \<le> snd (cs ! i))"

lemma start_cursors_ok: "start_cursors fixed start bs = Some cs \<Longrightarrow> cursors_ok bs cs"
proof (induction fixed start bs arbitrary: cs rule: start_cursors.induct)
  case (2 fixed start s e bs)
  have ge: "bump_start fixed a = Some b \<Longrightarrow> a \<le> b" for fixed a b
    by (induction fixed a arbitrary: b rule: bump_start.induct) (auto split: if_splits Option.bind_splits)
  obtain free cs1 where c: "bump_start fixed (max s start) = Some free" "start_cursors fixed start bs = Some cs1" "cs = (e, free) # cs1"
    using 2(2) by (auto split: Option.bind_splits)
  have "cursors_ok bs cs1" using 2(1) c by simp
  then show ?case using ge [OF c(1)] c(3) by (auto simp: cursors_ok_def nth_Cons')
qed (simp add: cursors_ok_def)

lemma held_apart:
  assumes dev: "banks_ok dev" and h: "held (banks dev) cs a w" and i: "i < length (banks dev)"
    and b: "fst (banks dev ! i) \<le> b" "b + v \<le> snd (banks dev ! i) + 1" "snd (cs ! i) \<le> b" and pos: "0 < w" "0 < v"
  shows "apart b v a w"
proof -
  obtain j where j: "j < length (banks dev)" "fst (banks dev ! j) \<le> a" "a + w \<le> snd (banks dev ! j) + 1" "a + w \<le> snd (cs ! j)"
    using h by (auto simp: held_def)
  have less: "snd (banks dev ! x) < fst (banks dev ! y)" if "x < y" "y < length (banks dev)" for x y
    using dev that by (auto simp: banks_ok_def sorted_wrt_iff_nth_less)
  consider "i = j" | "i < j" | "j < i" by linarith
  then show ?thesis
  proof cases
    case 1 then show ?thesis using j b by (simp add: apart_def)
  next
    case 2 then show ?thesis using less [of i j] j b pos by (simp add: apart_def)
  next
    case 3 then show ?thesis using less [of j i] i j b pos by (simp add: apart_def)
  qed
qed

lemma pack_all_ok:
  assumes dev: "banks_ok dev"
  shows "pack_all fixed gs cs out = Some (Some m) \<Longrightarrow> cursors_ok (banks dev) cs \<Longrightarrow> distinct (map fst gs) \<Longrightarrow>
    (\<And>n w. (n, w) \<in> set gs \<Longrightarrow> 0 < w) \<Longrightarrow>
    (\<forall>n. n \<notin> fst ` set gs \<longrightarrow> m n = out n) \<and> globals_ok dev fixed gs m \<and>
    (\<forall>(n, w) \<in> set gs. \<forall>a v. held (banks dev) cs a v \<and> 0 < v \<longrightarrow> apart (the (m n)) w a v)"
proof (induction gs arbitrary: cs out)
  case Nil
  then show ?case by (simp add: globals_ok_def)
next
  case (Cons g gs)
  obtain n w where g: "g = (n, w)" by (cases g)
  obtain cs' b where p: "place_in fixed w cs = Some (Some (cs', b))" and rest: "pack_all fixed gs cs' (out(n \<mapsto> b)) = Some (Some m)"
    using Cons.prems(1) by (auto simp: g split: Option.bind_splits option.splits)
  obtain i where i: "i < length cs" "cs' = cs[i := (fst (cs ! i), b + w)]" "snd (cs ! i) \<le> b" "b + w \<le> fst (cs ! i) + 1"
      "b mod (min w 2) = 0" "first_hit fixed b w = Some None"
    using place_in_cursor [OF p] by (elim exE conjE) (rule that)
  have w: "0 < w" using Cons.prems(4) [of n w] by (simp add: g)
  have ib: "i < length (banks dev)" "fst (cs ! i) = snd (banks dev ! i)" "fst (banks dev ! i) \<le> b"
    using Cons.prems(2) i(1,3) by (auto simp: cursors_ok_def)
  have ok': "cursors_ok (banks dev) cs'" using Cons.prems(2) i ib by (auto simp: cursors_ok_def nth_list_update)
  have "in_bank dev b w"
    unfolding in_bank_def using ib i(4) by (intro bexI [of _ "banks dev ! i"]) (auto simp: case_prod_unfold)
  then have wp: "well_placed dev fixed b w" using i(5) first_hit_apart [OF i(6)] by (simp add: well_placed_def)
  have hb: "held (banks dev) cs' b w"
    unfolding held_def using ib i by (intro exI [of _ i]) simp
  have hmono: "held (banks dev) cs' a v" if h: "held (banks dev) cs a v" for a v
  proof -
    obtain j where "j < length (banks dev)" "fst (banks dev ! j) \<le> a" "a + v \<le> snd (banks dev ! j) + 1" "a + v \<le> snd (cs ! j)"
      using h by (auto simp: held_def)
    then show ?thesis using i unfolding held_def by (intro exI [of _ j]) (auto simp: nth_list_update)
  qed
  have IH: "\<forall>k. k \<notin> fst ` set gs \<longrightarrow> m k = (out(n \<mapsto> b)) k" "globals_ok dev fixed gs m"
    "\<forall>(k, u) \<in> set gs. \<forall>a v. held (banks dev) cs' a v \<and> 0 < v \<longrightarrow> apart (the (m k)) u a v"
  proof -
    have "distinct (map fst gs)" using Cons.prems(3) by (simp add: g)
    moreover have "0 < v" if "(k, v) \<in> set gs" for k v using Cons.prems(4) [of k v] that by (simp add: g)
    ultimately show "\<forall>k. k \<notin> fst ` set gs \<longrightarrow> m k = (out(n \<mapsto> b)) k" "globals_ok dev fixed gs m"
      "\<forall>(k, u) \<in> set gs. \<forall>a v. held (banks dev) cs' a v \<and> 0 < v \<longrightarrow> apart (the (m k)) u a v"
      using Cons.IH [OF rest ok'] by blast+
  qed
  have n: "n \<notin> fst ` set gs" using Cons.prems(3) by (simp add: g)
  then have mn: "m n = Some b" using IH(1) by simp
  have ap: "apart (the (m k)) u b w" if "(k, u) \<in> set gs" for k u using IH(3) that hb w by blast
  have "globals_ok dev fixed ((n, w) # gs) m"
    using IH(2) wp mn ap by (auto simp: globals_ok_def) (auto simp: apart_def)
  moreover have "\<forall>k. k \<notin> fst ` set ((n, w) # gs) \<longrightarrow> m k = out k" using IH(1) by auto
  moreover have "apart (the (m k)) u a v" if "(k, u) \<in> set ((n, w) # gs)" "held (banks dev) cs a v" "0 < v" for k u a v
  proof (cases "(k, u) = (n, w)")
    case True
    then show ?thesis using held_apart [OF dev that(2) ib(1,3) _ i(3) that(3) w] i(4) ib(2) mn by simp
  next
    case False
    then show ?thesis using that IH(3) hmono by auto
  qed
  ultimately show ?case by (auto simp: g)
qed

lemma globals_ok_cong: "set gs = set hs \<Longrightarrow> globals_ok dev fixed gs m = globals_ok dev fixed hs m"
  by (simp add: globals_ok_def)

lemma bin_pack_ok:
  assumes "banks_ok dev" and "bin_pack dev fixed gs start = Some (Some m)" and "distinct (map fst gs)"
    and "\<And>n w. (n, w) \<in> set gs \<Longrightarrow> 0 < w"
  shows "globals_ok dev fixed gs m"
proof -
  obtain cs where cs: "start_cursors fixed start (banks dev) = Some cs" "pack_all fixed (largest_first gs) cs Map.empty = Some (Some m)"
    using assms(2) by (auto simp: bin_pack_def split: Option.bind_splits)
  have set: "set (largest_first gs) = set gs" by (simp add: largest_first_def)
  have "mset (map fst (largest_first gs)) = mset (map fst gs)" by (simp add: largest_first_def)
  then have "distinct (map fst (largest_first gs))" using assms(3) mset_eq_imp_distinct_iff by blast
  then have "globals_ok dev fixed (largest_first gs) m"
    using pack_all_ok [OF assms(1) cs(2) start_cursors_ok [OF cs(1)]] assms(4) set by blast
  then show ?thesis using globals_ok_cong [OF set] by blast
qed

text \<open>C10: the allocator's global map is sound. When an arrangement of the floating globals around the
  pinned ones is found (in file order or largest first, whichever ends lower), every global has an
  address, starts on an even address unless it is a single byte, lies whole inside one bank of the device,
  and shares no byte with another floating global or with a pinned one, provided none of them is so large
  that the enhanced core has to spread it over banks.\<close>

theorem globals_placed_apart:
  assumes "banks_ok dev" and "best_at dev fixed gs start = Some (Some m)" and "distinct (map fst gs)"
    and "\<forall>(n, w) \<in> set gs. no_straddle dev w"
  shows "(\<forall>(n, w) \<in> set gs. \<exists>a. m n = Some a \<and>
      (\<exists>(s, e) \<in> set (banks dev). s \<le> a \<and> a + w \<le> e + 1) \<and> a mod (min w 2) = 0 \<and>
      (\<forall>(p, fa, fs) \<in> set fixed. a + w \<le> fa \<or> fa + fs \<le> a)) \<and>
    (\<forall>(n, w) \<in> set gs. \<forall>(n', w') \<in> set gs. n \<noteq> n' \<longrightarrow>
      the (m n) + w \<le> the (m n') \<or> the (m n') + w' \<le> the (m n))"
proof -
  have f: "globals_ok dev fixed gs m'" if "try_float dev fixed gs a = Some (Some m')" for a m'
    using float_from_ok [OF assms(1)] assms(3,4) that by (fastforce simp: try_float_def split: Option.bind_splits)
  have b: "globals_ok dev fixed gs m'" if "bin_pack dev fixed gs start = Some (Some m')" for m'
    using bin_pack_ok [OF assms(1) that assms(3)] assms(4) by (auto simp: no_straddle_def)
  have "globals_ok dev fixed gs m"
    using assms(2) by (auto simp: best_at_def split: Option.bind_splits option.splits if_splits intro: f b)
  then show ?thesis by (simp add: globals_ok_def well_placed_def in_bank_def apart_def)
qed

text \<open>Evaluation rules: what each search does when its first look succeeds, or moves it on.\<close>

lemma clear_of_eval:
  "first_hit fixed a w = Some None \<Longrightarrow> clear_of fixed w a = Some a"
  "first_hit fixed a w = Some (Some e) \<Longrightarrow> clear_of fixed w a = clear_of fixed w e"
  by (subst clear_of.simps, simp)+

lemma clear_aligned_eval:
  "first_hit fixed a w = Some None \<Longrightarrow> clear_aligned fixed w a = Some a"
  "first_hit fixed a w = Some (Some e) \<Longrightarrow> align_to (min w 2) e = Some b \<Longrightarrow> clear_aligned fixed w a = clear_aligned fixed w b"
  by (subst clear_aligned.simps, simp)+

lemma settle_eval: "first_hit fixed a w = Some None \<Longrightarrow> settle dev fixed w a = Some (Some a)"
  by (subst settle.simps) simp

lemma try_place_at_eval:
  "region_at dev a = Some (s, e) \<Longrightarrow> align_to (min w 2) (max a s) = Some b \<Longrightarrow> b + w < 65536 \<Longrightarrow> b + w \<le> Suc e \<Longrightarrow>
   try_place_at dev a w = Some (Some b)"
  by (subst try_place_at.simps) (auto simp: add16_def)

lemma place_contiguous_eval:
  "region_at dev a = Some (s, e) \<Longrightarrow> 0 < w \<Longrightarrow> max a s + w < 65536 \<Longrightarrow> max a s + w \<le> Suc e \<Longrightarrow>
   place_contiguous dev a w = Some (max a s)"
  by (subst place_contiguous.simps) (auto simp: add16_def Let_def)

lemma physical_end_eval:
  "region_at dev a = Some (s, e) \<Longrightarrow> 0 < w \<Longrightarrow> max a s \<le> e \<Longrightarrow> w \<le> e - max a s + 1 \<Longrightarrow> physical_end dev a w = add16 (max a s) w"
  by (subst physical_end.simps) (auto simp: Let_def)

lemmas place_evals = clear_of_eval clear_aligned_eval settle_eval try_place_at_eval place_contiguous_eval physical_end_eval
  region_at_def banks_def align_to_def add16_def

theorem globals_placed_apart_witness:
  "\<exists>m. best_at p16f877a [(''pin'', 0x22, 2)] [(''a'', 2), (''b'', 1)] 0x20 = Some (Some m) \<and>
     m ''a'' = Some 0x20 \<and> m ''b'' = Some 0x24 \<and>
     (\<exists>(s, e) \<in> set (banks p16f877a). s \<le> the (m ''b'') \<and> the (m ''b'') + 1 \<le> e + 1) \<and>
     (the (m ''a'') + 2 \<le> the (m ''b'') \<or> the (m ''b'') + 1 \<le> the (m ''a''))"
proof -
  let ?best = "best_at p16f877a [(''pin'', 0x22, 2)] [(''a'', 2), (''b'', 1)] 0x20"
  have "map_option (map_option (\<lambda>m. (m ''a'', m ''b''))) ?best = Some (Some (Some 0x20, Some 0x24))"
    by (simp add: best_at_def try_float_def bin_pack_def largest_first_def place_evals p16f877a_def)
  then obtain m where m: "?best = Some (Some m)" "m ''a'' = Some 0x20" "m ''b'' = Some 0x24" by auto
  have "banks_ok p16f877a" "\<forall>(n, w) \<in> set [(''a'', 2), (''b'', 1)]. no_straddle p16f877a w"
    by (simp_all add: banks_ok_def no_straddle_def banks_def p16f877a_def)
  from globals_placed_apart [OF this(1) m(1) _ this(2)] show ?thesis using m by fastforce
qed

end
