(* ===== verification/FrameProps.thy ===== *)
theory FrameProps
  imports AllocProps
begin

text \<open>
  The overlay: the order the bases are assigned in has callers first, a base is never below the end of a
  caller's frame or below what it must keep of it, the slots of a frame lie between its base and its end
  in whatever order they are placed, and so the frames of two functions on one call chain share no byte.
\<close>

section \<open>The order of the functions\<close>

lemma lower_degree_map:
  "lower_degree c ds = Some (ds', z) \<Longrightarrow> \<exists>k. map_of ds c = Some (Suc k) \<and> map_of ds' = (map_of ds)(c \<mapsto> k) \<and> z = (k = 0)"
proof (induction c ds arbitrary: ds' z rule: lower_degree.induct)
  case (2 c n d ds)
  show ?case
  proof (cases "n = c")
    case True
    then show ?thesis using 2(2) by (cases d) (auto simp: fun_eq_iff)
  next
    case False
    then obtain ds1 where d: "lower_degree c ds = Some (ds1, z)" "ds' = (n, d) # ds1" using 2(2) by auto
    obtain k where "map_of ds c = Some (Suc k)" "map_of ds1 = (map_of ds)(c \<mapsto> k)" "z = (k = 0)"
      using 2(1) [OF False d(1)] by blast
    then show ?thesis using d(2) False by (auto simp: fun_upd_twist)
  qed
qed simp

lemma lower_degrees_ready:
  assumes "lower_degrees cs ds ready = Some (ds', ready')" and "distinct ready" and "\<forall>c \<in> set ready. map_of ds c = Some 0"
  shows "distinct ready' \<and> (\<forall>c \<in> set ready'. map_of ds' c = Some 0) \<and>
    (\<forall>c. map_of ds c = Some 0 \<longrightarrow> map_of ds' c = Some 0 \<and> (c \<in> set ready' \<longrightarrow> c \<in> set ready))"
  using assms
proof (induction cs arbitrary: ds ready)
  case (Cons c cs)
  obtain ds1 z where d: "lower_degree c ds = Some (ds1, z)"
    and r: "lower_degrees cs ds1 (if z then c # ready else ready) = Some (ds', ready')"
    using Cons.prems(1) by (auto split: Option.bind_splits)
  obtain k where k: "map_of ds c = Some (Suc k)" "map_of ds1 = (map_of ds)(c \<mapsto> k)" "z = (k = 0)"
    using lower_degree_map [OF d] by blast
  let ?r = "if z then c # ready else ready"
  have cr: "c \<notin> set ready" using Cons.prems(3) k(1) by auto
  have 1: "distinct ?r" "\<forall>x \<in> set ?r. map_of ds1 x = Some 0" using Cons.prems(2,3) cr k by auto
  have 2: "map_of ds x = Some 0 \<Longrightarrow> map_of ds1 x = Some 0 \<and> x \<noteq> c" for x using k by auto
  show ?case using Cons.IH [OF r 1] 2 by (auto split: if_splits)
qed simp

lemma topo_loop_distinct:
  "topo_loop es ds ready = Some order \<Longrightarrow> distinct ready \<Longrightarrow> \<forall>c \<in> set ready. map_of ds c = Some 0 \<Longrightarrow>
   distinct order \<and> (\<forall>c \<in> set order. c \<in> set ready \<or> map_of ds c \<noteq> Some 0)"
proof (induction es ds ready arbitrary: order rule: topo_loop.induct)
  case (2 es ds f ready)
  obtain ds' ready' order' where l: "lower_degrees (callees_in es f) ds ready = Some (ds', ready')"
    and t: "topo_loop es ds' ready' = Some order'" and o: "order = f # order'"
    using 2(2) by (auto split: Option.bind_splits)
  have f: "distinct ready" "f \<notin> set ready" "map_of ds f = Some 0" "\<forall>c \<in> set ready. map_of ds c = Some 0"
    using 2(3,4) by simp_all
  note r = lower_degrees_ready [OF l f(1,4)]
  have IH: "distinct order' \<and> (\<forall>c \<in> set order'. c \<in> set ready' \<or> map_of ds' c \<noteq> Some 0)"
    using 2(1) [OF l, of order'] t r by simp
  then have "f \<notin> set order'" using r f by blast
  then show ?case using IH r o by auto
qed simp

lemma topo_order_distinct:
  assumes "topo_order es funcs = Some order"
  shows "distinct order"
proof -
  obtain ds where r: "raise_degrees (concat (map snd es)) (map (\<lambda>f. (f, 0)) (remdups funcs)) = Some ds"
    and t: "topo_loop es ds (rev (sort (map fst (filter (\<lambda>(f, d). d = 0) ds)))) = Some order"
    using assms by (auto simp: topo_order_def split: Option.bind_splits if_splits)
  have names: "raise_degree c xs = Some ys \<Longrightarrow> map fst ys = map fst xs" for c xs ys
    by (induction c xs arbitrary: ys rule: raise_degree.induct) (auto split: if_splits)
  have "raise_degrees cs xs = Some ys \<Longrightarrow> map fst ys = map fst xs" for cs xs ys
    by (induction cs arbitrary: xs) (auto split: Option.bind_splits simp: names)
  from this [OF r] have d: "distinct (map fst ds)" by (simp add: comp_def)
  let ?z = "map fst (filter (\<lambda>(f, d). d = 0) ds)"
  have "distinct ?z" using d by (rule distinct_map_filter)
  moreover have "map_of ds c = Some 0" if "c \<in> set ?z" for c using that d by (auto intro: map_of_is_SomeI)
  ultimately show ?thesis using topo_loop_distinct [OF t] by simp
qed

section \<open>Frames\<close>

lemma place_contiguous_in: "place_contiguous dev a w = Some b \<Longrightarrow> a \<le> b \<and> in_bank dev b w"
proof (induction dev a w rule: place_contiguous.induct)
  case (1 dev a w)
  obtain s e where r: "region_at dev a = Some (s, e)"
    using 1(2) by (subst (asm) place_contiguous.simps) (auto split: option.splits)
  let ?base = "max a s"
  have t: "add16 ?base w = Some (?base + w)" "?base + w \<noteq> 0"
    using 1(2) r by (subst (asm) place_contiguous.simps, auto simp: Let_def add16_def split: if_splits)+
  have m: "(s, e) \<in> set (banks dev)" "a \<le> e" using region_at_Some [OF r] by auto
  show ?case
  proof (cases "?base + w - 1 \<le> e")
    case True
    then have "b = ?base" using 1(2) r t by (subst (asm) place_contiguous.simps) (simp add: Let_def split: if_splits)
    then show ?thesis using True t(2) m unfolding in_bank_def by (auto intro!: bexI [of _ "(s, e)"])
  next
    case False
    then have n: "add16 e 1 = Some (e + 1)" "place_contiguous dev (e + 1) w = Some b"
      using 1(2) r t by (subst (asm) place_contiguous.simps, auto simp: Let_def split: Option.bind_splits)+
    show ?thesis using 1(1) [OF r refl refl t False n] m by simp
  qed
qed

text \<open>The addresses along a walk over widths.\<close>

fun walk_addrs :: "device \<Rightarrow> nat \<Rightarrow> nat list \<Rightarrow> nat list option" where
  "walk_addrs dev a [] = Some []"
| "walk_addrs dev a (w # ws) =
     Option.bind (place_contiguous dev a w) (\<lambda>s. Option.bind (add16 s w) (\<lambda>next.
       map_option ((#) s) (walk_addrs dev next ws)))"

lemma frame_end_slots:
  "frame_end dev b ws = Some e \<Longrightarrow>
   b \<le> e \<and> (\<exists>as. walk_addrs dev b ws = Some as \<and> length as = length ws \<and>
     (\<forall>i < length ws. b \<le> as ! i \<and> as ! i + ws ! i \<le> e \<and> in_bank dev (as ! i) (ws ! i)))"
proof (induction dev b ws rule: frame_end.induct)
  case (2 dev b w ws)
  obtain a where a: "place_contiguous dev b w = Some a" "add16 a w = Some (a + w)" "frame_end dev (a + w) ws = Some e"
    using 2(2) by (auto split: Option.bind_splits)
  have ab: "b \<le> a" "in_bank dev a w" using place_contiguous_in [OF a(1)] by simp_all
  obtain as where as: "a + w \<le> e" "walk_addrs dev (a + w) ws = Some as" "length as = length ws"
    "\<forall>i < length ws. a + w \<le> as ! i \<and> as ! i + ws ! i \<le> e \<and> in_bank dev (as ! i) (ws ! i)"
    using 2(1) [OF a] by blast
  have "walk_addrs dev b (w # ws) = Some (a # as)" using a as by (simp add: add16_def)
  moreover have "b \<le> (a # as) ! i \<and> (a # as) ! i + (w # ws) ! i \<le> e \<and> in_bank dev ((a # as) ! i) ((w # ws) ! i)"
    if "i < length (w # ws)" for i
  proof (cases i)
    case 0
    then show ?thesis using ab as(1) by simp
  next
    case (Suc j)
    then have "a + w \<le> as ! j \<and> as ! j + ws ! j \<le> e \<and> in_bank dev (as ! j) (ws ! j)" using that as(4) by simp
    then show ?thesis using Suc ab by simp
  qed
  ultimately show ?case using ab as by (intro conjI exI [of _ "a # as"]) auto
qed simp

lemma routine_base_ge:
  assumes dev: "banks_ok dev" and r: "routine_base dev b ws = Some c"
  shows "b \<le> c"
proof -
  obtain s e where reg: "region_at dev b = Some (s, e)" using r by (auto simp: routine_base_def split: Option.bind_splits)
  have be: "(s, e) \<in> set (banks dev)" "b \<le> e" using region_at_Some [OF reg] by auto
  have page: "b \<le> b div 256 * 256 + 255" using div_mult_mod_eq [of b 256] mod_less_divisor [of 256 b] by linarith
  have next_start: "e < s'" if "region_at dev (e + 1) = Some (s', e')" for s' e'
  proof (rule ccontr)
    assume n: "\<not> e < s'"
    have m: "(s', e') \<in> set (banks dev)" "e + 1 \<le> e'" using region_at_Some [OF that] by auto
    have "s \<le> e" using dev be by (auto simp: banks_ok_def)
    then have "region_at dev e = Some (s, e)" using region_at_in [OF dev be(1)] by simp
    moreover have "region_at dev e = Some (s', e')" using region_at_in [OF dev m(1), of e] n m(2) by simp
    ultimately show False using m(2) by simp
  qed
  show ?thesis
    using r reg be page next_start
    by (fastforce simp: routine_base_def Let_def split: Option.bind_splits if_splits)
qed

lemma round_if_routine_ge:
  "banks_ok dev \<Longrightarrow> round_if_routine dev f b widths = Some c \<Longrightarrow> b \<le> c"
  using routine_base_ge by (auto simp: round_if_routine_def split: if_splits Option.bind_splits)

lemma max_ends_ge:
  "max_ends dev ff base ps = Some m \<Longrightarrow> p \<in> set ps \<Longrightarrow>
   \<exists>b ws e. base p = Some b \<and> fr_widths ff p = Some ws \<and> frame_end dev b ws = Some e \<and> e \<le> m"
  by (induction ps arbitrary: m) (fastforce split: Option.bind_splits)+

lemma max_live_ge:
  "max_live dev ff base ss = Some m \<Longrightarrow> (p, pt, dst) \<in> set ss \<Longrightarrow>
   \<exists>b ws live h. base p = Some b \<and> fr_widths ff p = Some ws \<and> fr_live ff p = Some live \<and>
     live_high dev b ws live pt dst = Some h \<and> h \<le> m"
  by (induction dev ff base ss arbitrary: m rule: max_live.induct) (fastforce split: Option.bind_splits)+

lemma live_top_ge:
  assumes "(v, k, lo, hi) \<in> set live" and "Some v \<noteq> excl" and "pos_le lo pt" "pos_le pt hi"
  shows "\<exists>t. live_top live pt excl = Some t \<and> k \<le> t"
proof -
  define step where "step = (\<lambda>(v :: string, slot :: nat, lo, hi) top.
        if Some v = excl then top
        else if pos_le lo pt \<and> pos_le pt hi \<and> (case top of None \<Rightarrow> True | Some t \<Rightarrow> t < slot)
        then Some slot else top)"
  have mono: "\<exists>t'. step x (Some t) = Some t' \<and> t \<le> t'" for x t
    by (auto simp: step_def split: prod.splits)
  have grow: "\<exists>t'. fold step xs (Some t) = Some t' \<and> t \<le> t'" for xs t
  proof (induction xs arbitrary: t)
    case (Cons x xs)
    obtain t1 where "step x (Some t) = Some t1" "t \<le> t1" using mono by blast
    then show ?case using Cons [of t1] by fastforce
  qed simp
  have "\<exists>t. fold step live top = Some t \<and> k \<le> t" for top
    using assms(1)
  proof (induction live arbitrary: top)
    case (Cons x xs)
    show ?case
    proof (cases "x = (v, k, lo, hi)")
      case True
      have "\<exists>t1. step x top = Some t1 \<and> k \<le> t1" using True assms(2-4) by (cases top) (auto simp: step_def)
      then obtain t1 where t1: "step x top = Some t1" "k \<le> t1" by blast
      then show ?thesis using grow [of xs t1] by fastforce
    next
      case False
      then show ?thesis using Cons by simp
    qed
  qed simp
  then show ?thesis by (simp add: live_top_def step_def)
qed

lemma walk_addrs_take: "walk_addrs dev b ws = Some as \<Longrightarrow> walk_addrs dev b (take n ws) = Some (take n as)"
proof (induction dev b ws arbitrary: as n rule: walk_addrs.induct)
  case (2 dev b w ws)
  then show ?case by (cases n) (auto simp: add16_def split: Option.bind_splits if_splits)
qed simp

lemma live_high_ge:
  assumes "live_high dev b ws live pt excl = Some h"
  shows "b \<le> h \<and> (\<forall>v k lo hi as. (v, k, lo, hi) \<in> set live \<longrightarrow> Some v \<noteq> excl \<longrightarrow> pos_le lo pt \<longrightarrow> pos_le pt hi \<longrightarrow>
    walk_addrs dev b ws = Some as \<longrightarrow> as ! k + ws ! k \<le> h)"
proof (cases "live_top live pt excl")
  case None
  then have "h = b" using assms by (simp add: live_high_def)
  moreover have "\<not> ((v, k, lo, hi) \<in> set live \<and> Some v \<noteq> excl \<and> pos_le lo pt \<and> pos_le pt hi)" for v k lo hi
    using live_top_ge [of v k lo hi live excl pt] None by auto
  ultimately show ?thesis by blast
next
  case (Some t)
  have t: "t < length ws" "frame_end dev b (take (Suc t) ws) = Some h"
    using assms Some by (simp_all add: live_high_def split: if_splits)
  obtain as' where as': "walk_addrs dev b (take (Suc t) ws) = Some as'" "b \<le> h"
      "\<forall>i < length (take (Suc t) ws). as' ! i + take (Suc t) ws ! i \<le> h"
    using frame_end_slots [OF t(2)] by blast
  have "as ! k + ws ! k \<le> h"
    if "(v, k, lo, hi) \<in> set live" "Some v \<noteq> excl" "pos_le lo pt" "pos_le pt hi" "walk_addrs dev b ws = Some as" for v k lo hi as
  proof -
    have "k \<le> t" using live_top_ge [OF that(1-4)] Some by simp
    moreover have "as' = take (Suc t) as" using walk_addrs_take [OF that(5)] as'(1) by simp
    ultimately show ?thesis using as'(3) t(1) by (auto dest: spec [of _ k])
  qed
  then show ?thesis using as'(2) by blast
qed

text \<open>
  A function's base is at or past its callers' bases, and past the end of a caller's frame or, when it
  dips, past what is live at each of its sites.
\<close>

definition above :: "device \<Rightarrow> frame_facts \<Rightarrow> bool \<Rightarrow> (string \<rightharpoonup> nat) \<Rightarrow> string \<Rightarrow> string \<Rightarrow> nat \<Rightarrow> bool" where
  "above dev ff dip base f p b \<longleftrightarrow> (\<exists>bp ws e. base p = Some bp \<and> fr_widths ff p = Some ws \<and> frame_end dev bp ws = Some e \<and>
     (e \<le> b \<or> dip \<and> (\<forall>ss pt dst. fr_sites ff f = Some ss \<longrightarrow> (p, pt, dst) \<in> set ss \<longrightarrow>
       (\<exists>live h. fr_live ff p = Some live \<and> live_high dev bp ws live pt dst = Some h \<and> h \<le> b))))"

definition stacked :: "device \<Rightarrow> frame_facts \<Rightarrow> bool \<Rightarrow> edge_map \<Rightarrow> (string \<rightharpoonup> nat) \<Rightarrow> string \<Rightarrow> bool" where
  "stacked dev ff dip es base f \<longleftrightarrow> (\<exists>b. base f = Some b \<and> (\<forall>p \<in> set (callers_of es f). above dev ff dip base f p b))"

lemma derived_base_above:
  assumes "derived_base dev ff es dip start base f = Some b0" and "p \<in> set (callers_of es f)" and "b0 \<le> b"
  shows "above dev ff dip base f p b"
proof -
  obtain old where old: "max_ends dev ff base (callers_of es f) = Some old"
    using assms(1,2) by (auto simp: derived_base_def split: list.splits Option.bind_splits)
  obtain bp ws e where e: "base p = Some bp" "fr_widths ff p = Some ws" "frame_end dev bp ws = Some e" "e \<le> old"
    using max_ends_ge [OF old assms(2)] by blast
  have ne: "callers_of es f \<noteq> []" using assms(2) by auto
  obtain dipped where dd: "(if \<not> dip \<or> f \<in> fr_homed ff then Some None
      else case fr_sites ff f of None \<Rightarrow> Some None
      | Some ss \<Rightarrow> if ss = [] then Some None else map_option Some (max_live dev ff base ss)) = Some dipped"
    using assms(1) unfolding derived_base_def by (auto split: Option.bind_split_asm)
  have b0: "b0 = old \<or> dipped = Some b0"
    using assms(1) dd old ne unfolding derived_base_def
    by (simp split: list.splits) (auto split: option.splits Option.bind_splits if_splits)
  consider "b0 = old" | ss where "dip" "fr_sites ff f = Some ss" "max_live dev ff base ss = Some b0"
    using b0 dd by (auto split: option.splits if_splits)
  then show ?thesis
  proof cases
    case 1
    then show ?thesis using e assms(3) unfolding above_def by fastforce
  next
    case 2
    have "\<exists>live h. fr_live ff p = Some live \<and> live_high dev bp ws live pt dst = Some h \<and> h \<le> b"
      if "(p, pt, dst) \<in> set ss" for pt dst
      using max_live_ge [OF 2(3) that] e assms(3) by fastforce
    then show ?thesis using e 2 unfolding above_def by fastforce
  qed
qed

lemma above_keep: "above dev ff dip base0 f p b \<Longrightarrow> (\<And>bp. base0 p = Some bp \<Longrightarrow> base p = Some bp) \<Longrightarrow> above dev ff dip base f p b"
  unfolding above_def by fastforce

lemma assign_bases_stacked:
  assumes dev: "banks_ok dev"
  shows "assign_bases dev ff es dip start fs base0 = Some base \<Longrightarrow> distinct fs \<Longrightarrow> set fs \<inter> dom base0 = {} \<Longrightarrow>
    (\<forall>f. f \<notin> set fs \<longrightarrow> base f = base0 f) \<and> (\<forall>f \<in> set fs. stacked dev ff dip es base f)"
proof (induction fs arbitrary: base0)
  case (Cons f fs)
  obtain b0 b where d: "derived_base dev ff es dip start base0 f = Some b0" and b: "round_if_routine dev f b0 (fr_widths ff) = Some b"
    and rest: "assign_bases dev ff es dip start fs (base0(f \<mapsto> b)) = Some base"
    using Cons.prems(1) by (auto split: Option.bind_splits)
  have IH: "\<forall>g. g \<notin> set fs \<longrightarrow> base g = (base0(f \<mapsto> b)) g" "\<forall>g \<in> set fs. stacked dev ff dip es base g"
  proof -
    have "distinct fs" "set fs \<inter> dom (base0(f \<mapsto> b)) = {}" using Cons.prems(2,3) by auto
    from Cons.IH [OF rest this]
    show "\<forall>g. g \<notin> set fs \<longrightarrow> base g = (base0(f \<mapsto> b)) g" "\<forall>g \<in> set fs. stacked dev ff dip es base g" by blast+
  qed
  have ge: "b0 \<le> b" using round_if_routine_ge [OF dev b] .
  have keep: "base p = Some bp" if p: "base0 p = Some bp" for p bp
  proof -
    have "p \<noteq> f" "p \<notin> set fs" using p Cons.prems(3) by auto
    then show ?thesis using IH(1) p by simp
  qed
  have "above dev ff dip base f p b" if "p \<in> set (callers_of es f)" for p
    using derived_base_above [OF d that ge] keep by (rule above_keep)
  moreover have "base f = Some b" using IH(1) Cons.prems(2) by simp
  ultimately have "stacked dev ff dip es base f" by (simp add: stacked_def)
  moreover have "\<forall>g. g \<notin> set (f # fs) \<longrightarrow> base g = base0 g" using IH(1) by simp
  ultimately show ?case using IH(2) by simp
qed simp

text \<open>Every call edge has a site the dip looks at: the call sites mirror the call graph.\<close>

definition sites_cover :: "frame_facts \<Rightarrow> edge_map \<Rightarrow> bool" where
  "sites_cover ff es \<longleftrightarrow> (\<forall>(p, cs) \<in> set es. \<forall>f \<in> set cs. \<exists>(q, s) \<in> set (case fr_sites ff f of Some ss \<Rightarrow> ss | None \<Rightarrow> []). q = p)"

lemma sites_coverD:
  assumes "sites_cover ff es" and "p \<in> set (callers_of es f)"
  obtains ss pt dst where "fr_sites ff f = Some ss" "(p, pt, dst) \<in> set ss"
proof -
  obtain cs where "(p, cs) \<in> set es" "f \<in> set cs" using assms(2) by (auto simp: callers_of_def)
  then obtain q s where "(q, s) \<in> set (case fr_sites ff f of Some ss \<Rightarrow> ss | None \<Rightarrow> [])" "q = p"
    using assms(1) by (fastforce simp: sites_cover_def)
  then show thesis using that by (cases "fr_sites ff f"; cases s) auto
qed

lemma above_base_le:
  assumes "above dev ff dip base f p b" and "p \<in> set (callers_of es f)" and "sites_cover ff es"
  shows "\<exists>bp. base p = Some bp \<and> bp \<le> b"
proof -
  obtain ss pt dst where s: "fr_sites ff f = Some ss" "(p, pt, dst) \<in> set ss" using sites_coverD [OF assms(3,2)] .
  obtain bp ws e where e: "base p = Some bp" "frame_end dev bp ws = Some e"
      "e \<le> b \<or> (\<exists>live h. live_high dev bp ws live pt dst = Some h \<and> h \<le> b)"
    using assms(1) s unfolding above_def by blast
  have "bp \<le> e" using frame_end_slots [OF e(2)] by simp
  then show ?thesis using e live_high_ge by fastforce
qed

section \<open>The order of the slots\<close>

lemma walk_addrs_ge: "walk_addrs dev a ws = Some as \<Longrightarrow> length as = length ws \<and> (\<forall>i < length ws. a \<le> as ! i)"
proof (induction dev a ws arbitrary: as rule: walk_addrs.induct)
  case (2 dev a w ws)
  obtain s xs where s: "place_contiguous dev a w = Some s" "add16 s w = Some (s + w)"
      "walk_addrs dev (s + w) ws = Some xs" "as = s # xs"
    using 2(2) by (auto simp: add16_def split: Option.bind_splits if_splits)
  have "a \<le> s" using place_contiguous_in [OF s(1)] by simp
  moreover have "length xs = length ws \<and> (\<forall>i < length ws. s + w \<le> xs ! i)" using 2(1) [OF s(1,2,3)] .
  ultimately show ?case using s(4) by (auto simp: nth_Cons split: nat.splits)
qed simp

lemma walk_addrs_rises:
  "walk_addrs dev a ws = Some as \<Longrightarrow> i < j \<Longrightarrow> j < length ws \<Longrightarrow> as ! i + ws ! i \<le> as ! j"
proof (induction dev a ws arbitrary: as i j rule: walk_addrs.induct)
  case (2 dev a w ws)
  obtain s xs where s: "place_contiguous dev a w = Some s" "add16 s w = Some (s + w)"
      "walk_addrs dev (s + w) ws = Some xs" "as = s # xs"
    using 2(2) by (auto simp: add16_def split: Option.bind_splits if_splits)
  obtain j' where j: "j = Suc j'" "j' < length ws" using 2(3,4) by (cases j) auto
  show ?case
  proof (cases i)
    case 0
    then show ?thesis using walk_addrs_ge [OF s(3)] s(4) j by simp
  next
    case (Suc i')
    then show ?thesis using 2(1) [OF s(1,2,3), of i' j'] 2(3) s(4) j by simp
  qed
qed simp

lemma place_slots_walk:
  "place_slots dev ws order a out0 = Some out \<Longrightarrow> distinct order \<Longrightarrow> set order \<subseteq> {..<length out0} \<Longrightarrow>
   length out = length out0 \<and> (\<forall>i. i \<notin> set order \<longrightarrow> out ! i = out0 ! i) \<and>
   (\<exists>xs. walk_addrs dev a (map ((!) ws) order) = Some xs \<and> (\<forall>j < length order. out ! (order ! j) = xs ! j))"
proof (induction order arbitrary: a out0)
  case (Cons i order)
  obtain s where s: "place_contiguous dev a (ws ! i) = Some s" "add16 s (ws ! i) = Some (s + ws ! i)"
      "place_slots dev ws order (s + ws ! i) (out0[i := s]) = Some out"
    using Cons.prems(1) by (auto simp: add16_def split: Option.bind_splits if_splits)
  obtain xs where IH: "length out = length out0" "\<forall>k. k \<notin> set order \<longrightarrow> out ! k = out0[i := s] ! k"
      "walk_addrs dev (s + ws ! i) (map ((!) ws) order) = Some xs" "\<forall>j < length order. out ! (order ! j) = xs ! j"
    using Cons.IH [OF s(3)] Cons.prems(2,3) by auto
  have "walk_addrs dev a (map ((!) ws) (i # order)) = Some (s # xs)" by (simp add: s(1,2) IH(3))
  moreover have "out ! ((i # order) ! j) = (s # xs) ! j" if "j < length (i # order)" for j
    using that IH Cons.prems(2,3) by (cases j) auto
  ultimately show ?case using IH(1,2) by auto
qed simp

lemma slot_order_facts:
  assumes "slot_order dev dipped b ws heat = Some order"
  shows "distinct order \<and> set order = {..<length ws} \<and> (dipped \<longrightarrow> order = [0..<length ws]) \<and>
    (\<exists>e. frame_end dev b ws = Some e \<and> frame_end dev b (map ((!) ws) order) = Some e)"
proof -
  obtain e where e: "frame_end dev b ws = Some e"
    using assms by (auto simp: slot_order_def split: Option.bind_splits)
  have same: "map ((!) ws) [0..<length ws] = ws" by (rule map_nth)
  from e assms consider "order = [0..<length ws]"
    | win where "\<not> dipped" "window_order b win ws heat = Some order" "frame_end dev b (perm_widths ws order) = Some e"
    by (fastforce simp: slot_order_def split: if_splits option.splits Option.bind_splits)
  then show ?thesis
  proof cases
    case 1
    then show ?thesis using e same by auto
  next
    case 2
    then show ?thesis using e by (auto simp: window_order_def perm_widths_def split: if_splits)
  qed
qed

text \<open>Every slot lies whole in one bank between the frame's base and its end, apart from the others.\<close>

lemma slot_addrs_layout:
  assumes "slot_addrs dev dipped b ws heat = Some as"
  shows "\<exists>e. frame_end dev b ws = Some e \<and> length as = length ws \<and> (dipped \<longrightarrow> walk_addrs dev b ws = Some as) \<and>
    (\<forall>k < length ws. b \<le> as ! k \<and> as ! k + ws ! k \<le> e \<and> in_bank dev (as ! k) (ws ! k) \<and>
       (\<forall>i < length ws. i \<noteq> k \<longrightarrow> as ! k + ws ! k \<le> as ! i \<or> as ! i + ws ! i \<le> as ! k))"
proof -
  obtain order where o: "slot_order dev dipped b ws heat = Some order"
    and pl: "place_slots dev ws order b (replicate (length ws) 0) = Some as"
    using assms by (auto simp: slot_addrs_def split: Option.bind_splits)
  obtain e where of: "distinct order" "set order = {..<length ws}" "dipped \<longrightarrow> order = [0..<length ws]"
      "frame_end dev b ws = Some e" "frame_end dev b (map ((!) ws) order) = Some e"
    using slot_order_facts [OF o] by blast
  obtain xs where xs: "length as = length ws" "walk_addrs dev b (map ((!) ws) order) = Some xs"
      "\<forall>j < length order. as ! (order ! j) = xs ! j"
    using place_slots_walk [OF pl of(1)] of(2) by auto
  have bounds: "\<forall>j < length order. b \<le> xs ! j \<and> xs ! j + ws ! (order ! j) \<le> e \<and> in_bank dev (xs ! j) (ws ! (order ! j))"
    using frame_end_slots [OF of(5)] xs(2) by auto
  have rise: "xs ! i + ws ! (order ! i) \<le> xs ! j" if "i < j" "j < length order" for i j
    using walk_addrs_rises [OF xs(2) that(1)] that by simp
  have at: "\<exists>j < length order. order ! j = k" if "k < length ws" for k
    using that of(2) by (metis in_set_conv_nth lessThan_iff)
  have ids: "walk_addrs dev b ws = Some as" if dipped
  proof -
    have o2: "order = [0..<length ws]" using that of(3) by simp
    then have "xs = as" using xs(1,3) walk_addrs_ge [OF xs(2)] by (intro nth_equalityI) auto
    then show ?thesis using xs(2) o2 by (simp add: map_nth)
  qed
  have sep: "b \<le> as ! k \<and> as ! k + ws ! k \<le> e \<and> in_bank dev (as ! k) (ws ! k) \<and>
      (\<forall>i < length ws. i \<noteq> k \<longrightarrow> as ! k + ws ! k \<le> as ! i \<or> as ! i + ws ! i \<le> as ! k)" if k: "k < length ws" for k
  proof -
    obtain j where j: "j < length order" "order ! j = k" using at [OF k] by blast
    have "as ! k + ws ! k \<le> as ! i \<or> as ! i + ws ! i \<le> as ! k" if i: "i < length ws" "i \<noteq> k" for i
    proof -
      obtain l where l: "l < length order" "order ! l = i" using at [OF i(1)] by blast
      then have "l \<noteq> j" using j i(2) by blast
      then show ?thesis using rise [of l j] rise [of j l] j l xs(3) by (metis linorder_neqE_nat)
    qed
    then show ?thesis using bounds xs(3) j by auto
  qed
  show ?thesis using of(4) xs(1) ids sep by blast
qed

text \<open>A frame outside the dipped set ends at or below the base of every function called from it.\<close>

lemma dipped_by_mem:
  "dipped_by dev ff base bt ss d = Some D \<Longrightarrow> d \<subseteq> D \<and>
   (\<forall>p at dst. (p, at, dst) \<in> set ss \<longrightarrow> p \<notin> D \<longrightarrow>
      (\<exists>b ws e. base p = Some b \<and> fr_widths ff p = Some ws \<and> frame_end dev b ws = Some e \<and> e \<le> bt))"
proof (induction dev ff base bt ss d rule: dipped_by.induct)
  case (2 dev ff base bt p at dst ss d)
  obtain b ws e where e: "base p = Some b" "fr_widths ff p = Some ws" "frame_end dev b ws = Some e"
      "dipped_by dev ff base bt ss (if bt < e then insert p d else d) = Some D"
    using 2(2) by (auto split: Option.bind_splits)
  from 2(1) [OF e(1-3)] e show ?case by (cases "bt < e") fastforce+
qed simp

lemma dipped_over_mem:
  "dipped_over dev ff base ts d = Some D \<Longrightarrow> d \<subseteq> D \<and>
   (t \<in> set ts \<longrightarrow> base t = Some bt \<longrightarrow> fr_sites ff t = Some ss \<longrightarrow> (p, at, dst) \<in> set ss \<longrightarrow> p \<notin> D \<longrightarrow>
      (\<exists>b ws e. base p = Some b \<and> fr_widths ff p = Some ws \<and> frame_end dev b ws = Some e \<and> e \<le> bt))"
proof (induction ts arbitrary: d)
  case (Cons x ts)
  show ?case
  proof (cases "base x = None \<or> fr_sites ff x = None")
    case True
    then have "dipped_over dev ff base ts d = Some D" using Cons.prems by (auto split: option.splits)
    from Cons.IH [OF this] True show ?thesis by auto
  next
    case False
    then obtain bx sx d1 where d1: "base x = Some bx" "fr_sites ff x = Some sx" "dipped_by dev ff base bx sx d = Some d1"
        "dipped_over dev ff base ts d1 = Some D"
      using Cons.prems by (auto split: Option.bind_splits)
    from dipped_by_mem [OF d1(3)] Cons.IH [OF d1(4)] d1(1,2) show ?thesis by fastforce
  qed
qed simp

text \<open>C20: frames that are live together share no byte. In the bases the allocator derives from the call
  graph for a module without interrupt handlers, and the slot addresses it then walks out, in the order
  of heat where the code permutes a frame, take a function p with a call of f, and a function g that
  is f or runs while f waits. A slot of p that holds a value live across the call (every slot of p, when
  no callee's base dips into p's frame) lies whole inside one bank, apart from p's other slots, and ends
  at or before every slot of g. It is assumed that the device's banks are in ascending order
  (\<open>banks_ok\<close>), that every edge of the call graph has a call site among the facts, and that placing the
  slots of the two frames does not panic; homed values, which later take another slot's address, are not
  part of the layout here.\<close>

theorem frames_apart:
  assumes "banks_ok dev" and "read_edges (str_lines edges_text) [] = Some es" and "sites_cover ff es"
    and "frame_bases dev ff funcs edges_text (mode = DipAll) region_start = Some base"
    and "p \<in> set (callers_of es f)" and "fr_sites ff f = Some ss" "(p, pt, dst) \<in> set ss"
    and "(f, g) \<in> {(q, h). q \<in> set (callers_of es h)}\<^sup>*"
    and "fr_widths ff p = Some wp" "k < length wp"
    and "dipped_frames dev ff mode base ts = Some D" "f \<in> set ts"
    and "p \<in> D \<longrightarrow> (\<exists>v lo hi live. fr_live ff p = Some live \<and> (v, k, lo, hi) \<in> set live \<and> Some v \<noteq> dst \<and> pos_le lo pt \<and> pos_le pt hi)"
    and "base p = Some bp" "slot_addrs dev (p \<in> D) bp wp hp = Some ap"
    and "base g = Some bg" "slot_addrs dev (g \<in> D) bg wg hg = Some ag"
  shows "length ap = length wp \<and> length ag = length wg \<and>
    (\<exists>(s, e) \<in> set (banks dev). s \<le> ap ! k \<and> ap ! k + wp ! k \<le> e + 1) \<and>
    (\<forall>i < length wp. i \<noteq> k \<longrightarrow> ap ! k + wp ! k \<le> ap ! i \<or> ap ! i + wp ! i \<le> ap ! k) \<and>
    (\<forall>j < length wg. ap ! k + wp ! k \<le> ag ! j)"
proof -
  let ?dip = "mode = DipAll"
  obtain order where o: "topo_order es funcs = Some order" and a: "assign_bases dev ff es ?dip region_start order Map.empty = Some base"
    using assms(2,4) by (auto simp: frame_bases_def split: Option.bind_splits)
  have st: "stacked dev ff ?dip es base h" if "base h = Some b" for h b
    using assign_bases_stacked [OF assms(1) a topo_order_distinct [OF o]] that by (cases "h \<in> set order") auto
  have "\<exists>bf. base f = Some bf \<and> bf \<le> bg"
    using assms(8,16)
  proof (induction arbitrary: bg rule: rtrancl_induct)
    case (step q h)
    obtain bh where "base h = Some bh" "above dev ff ?dip base h q bh" using st [OF step(4)] step(2) by (auto simp: stacked_def)
    then obtain bq where "base q = Some bq" "bq \<le> bg" using above_base_le [OF _ _ assms(3)] step(2,4) by fastforce
    then show ?case using step(3) by fastforce
  qed simp
  then obtain bf where bf: "base f = Some bf" "bf \<le> bg" by blast
  then have ab: "above dev ff ?dip base f p bf" using st assms(5) by (auto simp: stacked_def)
  then obtain e where p: "frame_end dev bp wp = Some e"
      "e \<le> bf \<or> ?dip \<and> (\<forall>ss pt dst. fr_sites ff f = Some ss \<longrightarrow> (p, pt, dst) \<in> set ss \<longrightarrow>
         (\<exists>live h. fr_live ff p = Some live \<and> live_high dev bp wp live pt dst = Some h \<and> h \<le> bf))"
    using assms(9,14) unfolding above_def by force
  have lp: "length ap = length wp" "ap ! k + wp ! k \<le> e" "in_bank dev (ap ! k) (wp ! k)"
      "\<forall>i < length wp. i \<noteq> k \<longrightarrow> ap ! k + wp ! k \<le> ap ! i \<or> ap ! i + wp ! i \<le> ap ! k"
      "p \<in> D \<longrightarrow> walk_addrs dev bp wp = Some ap"
    using slot_addrs_layout [OF assms(15)] p(1) assms(10) by auto
  have lg: "length ag = length wg" "\<forall>j < length wg. bg \<le> ag ! j"
    using slot_addrs_layout [OF assms(17)] by auto
  have end_le: "ap ! k + wp ! k \<le> bf"
  proof (cases "e \<le> bf")
    case True
    then show ?thesis using lp(2) by simp
  next
    case False
    then obtain live h where l: "fr_live ff p = Some live" "live_high dev bp wp live pt dst = Some h" "h \<le> bf" ?dip
      using p(2) assms(6,7) by blast
    then have d: "dipped_over dev ff base ts {} = Some D" using assms(11) by (simp add: dipped_frames_def)
    have D: "p \<in> D"
    proof (rule ccontr)
      assume "p \<notin> D"
      with dipped_over_mem [OF d, of f bf ss p pt dst] assms(6,7,12) bf(1)
      obtain b ws e' where "base p = Some b" "fr_widths ff p = Some ws" "frame_end dev b ws = Some e'" "e' \<le> bf" by auto
      then show False using False assms(9,14) p(1) by simp
    qed
    then obtain v lo hi where v: "(v, k, lo, hi) \<in> set live" "Some v \<noteq> dst" "pos_le lo pt" "pos_le pt hi"
      using assms(13) l(1) by auto
    have "ap ! k + wp ! k \<le> h" using live_high_ge [OF l(2)] v D lp(5) by blast
    then show ?thesis using l(3) by simp
  qed
  have "ap ! k + wp ! k \<le> ag ! j" if "j < length wg" for j
    using end_le bf(2) lg(2) that by (meson le_trans)
  then show ?thesis using lp(1,3,4) lg(1) by (auto simp: in_bank_def)
qed

definition dip_example :: frame_facts where
  "dip_example = \<lparr>
     fr_widths = [''main'' \<mapsto> [1, 2], ''f'' \<mapsto> [1], ''g'' \<mapsto> [2]],
     fr_sites = [''f'' \<mapsto> [(''main'', (0, 2), None)], ''g'' \<mapsto> [(''f'', (0, 0), None)]],
     fr_live = [''main'' \<mapsto> [(''x'', 0, (0, 0), (0, 3)), (''y'', 1, (0, 0), (0, 1))], ''f'' \<mapsto> [], ''g'' \<mapsto> []],
     fr_homed = {}\<rparr>"

text \<open>A straddling PIC18 frame places its hotter second slot first, unless a callee dips into it.\<close>

lemma hot_slot_first:
  "slot_addrs p18f4550 False 0x58 [8, 8] [1, 9] = Some [0x60, 0x58] \<and>
   slot_addrs p18f4550 True 0x58 [8, 8] [1, 9] = Some [0x58, 0x60]"
  by (simp add: slot_addrs_def slot_order_def window_order_def perm_widths_def place_evals p18f4550_def)

theorem frames_apart_witness:
  "\<exists>base. frame_bases p16f877a dip_example [''main'', ''f'', ''g''] (''edge main f'' @ [CHR 0x0A] @ ''edge f g'') True 0x20 = Some base \<and>
     base ''main'' = Some 0x20 \<and> base ''g'' = Some 0x21 \<and>
     slot_addrs p16f877a True 0x20 [1, 2] [5, 1] = Some [0x20, 0x21] \<and> slot_addrs p16f877a False 0x21 [2] [1] = Some [0x21] \<and>
     (\<forall>j < length [2 :: nat]. [0x20, 0x21 :: nat] ! 0 + [1, 2] ! 0 \<le> [0x21] ! j)"
proof -
  let ?t = "''edge main f'' @ [CHR 0x0A] @ ''edge f g''"
  let ?es = "[(''main'', [''f'']), (''f'', [''g''])]"
  have e: "read_edges (str_lines ?t) [] = Some ?es" by code_simp
  let ?bases = "frame_bases p16f877a dip_example [''main'', ''f'', ''g''] ?t True 0x20"
  have order: "topo_order ?es [''main'', ''f'', ''g''] = Some [''main'', ''f'', ''g'']"
    by (simp add: topo_order_def callees_in_def)
  have nr: "\<not> is_runtime_routine ''main''" "\<not> is_runtime_routine ''f''" "\<not> is_runtime_routine ''g''" by code_simp+
  have "map_option (\<lambda>b. (b ''main'', b ''f'', b ''g'')) ?bases = Some (Some 0x20, Some 0x21, Some 0x21)"
    by (simp add: frame_bases_def e [simplified] order [simplified] derived_base_def callers_of_def dip_example_def live_high_def live_top_def pos_le_def
      round_if_routine_def nr bank_key_def place_evals p16f877a_def)
  then obtain base where b: "?bases = Some base" "base ''main'' = Some 0x20" "base ''f'' = Some 0x21" "base ''g'' = Some 0x21" by auto
  have dev: "banks_ok p16f877a" by (simp add: banks_ok_def banks_def p16f877a_def)
  have cov: "sites_cover dip_example ?es" by (simp add: sites_cover_def dip_example_def)
  have cs: "''main'' \<in> set (callers_of ?es ''f'')" "''f'' \<in> set (callers_of ?es ''g'')" by (simp_all add: callers_of_def)
  then have r: "(''f'', ''g'') \<in> {(q, h). q \<in> set (callers_of ?es h)}\<^sup>*" by (intro r_into_rtrancl) simp
  have D: "dipped_frames p16f877a dip_example DipAll base [''f'', ''g''] = Some {''main'', ''f''}"
    by (simp add: dipped_frames_def dip_example_def b place_evals p16f877a_def insert_commute)
  have w: "slot_addrs p16f877a True 0x20 [1, 2] [5, 1] = Some [0x20, 0x21]" "slot_addrs p16f877a False 0x21 [2] [1] = Some [0x21]"
    by (simp_all add: slot_addrs_def slot_order_def place_evals p16f877a_def upt_rec)
  have "length [0x20, 0x21 :: nat] = length [1, 2 :: nat] \<and> length [0x21 :: nat] = length [2 :: nat] \<and>
    (\<exists>(s, e) \<in> set (banks p16f877a). s \<le> [0x20, 0x21] ! 0 \<and> [0x20, 0x21] ! 0 + [1, 2] ! 0 \<le> e + 1) \<and>
    (\<forall>i < length [1, 2 :: nat]. i \<noteq> 0 \<longrightarrow> [0x20, 0x21 :: nat] ! 0 + [1, 2] ! 0 \<le> [0x20, 0x21] ! i \<or>
       [0x20, 0x21 :: nat] ! i + [1, 2] ! i \<le> [0x20, 0x21] ! 0) \<and>
    (\<forall>j < length [2 :: nat]. [0x20, 0x21 :: nat] ! 0 + [1, 2] ! 0 \<le> [0x21] ! j)"
    by (rule frames_apart [OF dev e cov _ cs(1) _ _ r, where mode = "DipAll" and base = base and D = "{''main'', ''f''}" and ts = "[''f'', ''g'']"
        and ss = "[(''main'', (0, 2), None)]" and pt = "(0, 2)" and dst = "None" and bp = "0x20" and bg = "0x21"
        and hp = "[5, 1]" and hg = "[1]" and funcs = "[''main'', ''f'', ''g'']" and region_start = "0x20"])
      (use b D w in \<open>simp_all add: dip_example_def pos_le_def\<close>)
  then show ?thesis using b w by blast
qed

end
