(* ===== verification/Spec2Isabelle.thy ===== *)
theory Spec2Isabelle
  imports Sim14Props SimBaselineProps Sim14eProps Sim18Props Sie HexProps AsmProps IrRoundTrip CallGraphProps DelayProps BankingProps Asm18Props Asm18Lands SchedProps Config Peephole FrameProps
begin

text \<open>
  A verification development for \<^verbatim>\<open>epic-cc\<close>, a C compiler for the 8-bit PIC microcontrollers
  (Rust, one crate per directory of \<^verbatim>\<open>src/crates\<close>). The development models the parts whose behaviour is
  decided by the crates' own code and text: the instruction-set simulators the compiler is tested on,
  the assembler and the Intel HEX files between the two, the text boundary of the intermediate
  representation, and those passes over the assembly text and over the call graph that fit a
  self-contained model.

  \<^bold>\<open>How the program is put together.\<close> \<^verbatim>\<open>driver\<close> runs \<^verbatim>\<open>clang\<close>, merges the modules (\<^verbatim>\<open>wholeprog\<close>), reads the LLVM
  text (\<^verbatim>\<open>irparse\<close>) into the representation of \<^verbatim>\<open>ir\<close>, rewrites it to operations the cores have
  (\<^verbatim>\<open>legalize\<close>), derives the call graph and its stack depth (\<^verbatim>\<open>callgraph\<close>), places the variables (\<^verbatim>\<open>alloc\<close>),
  selects instructions (\<^verbatim>\<open>isel\<close> and one crate for each core, which call \<^verbatim>\<open>iselcore\<close>), and on the classic
  core reorders them (\<^verbatim>\<open>schedule\<close>), inserts bank selects (\<^verbatim>\<open>banking\<close>) and drops redundant lines (\<^verbatim>\<open>peephole\<close>).
  \<^verbatim>\<open>asm\<close> turns the listing into words and a HEX file, which \<^verbatim>\<open>sim\<close> loads and runs. All of them read the
  memory facts of \<^verbatim>\<open>device\<close>.

  \<^bold>\<open>Theories and code.\<close>
  \<^item> \<open>Prelude\<close>, \<open>RustStr\<close>: machine integers, bit lemmas, and the Rust string operations the text passes use.
  \<^item> \<open>Device\<close> (\<^verbatim>\<open>device/src/lib.rs\<close>): the record of memory facts and its two address queries. The table of
    parts is generated from TOML, so a device is an argument of every definition that reads one.
  \<^item> \<open>Eeprom\<close>, \<open>Timing\<close>, \<open>Sim14\<close>, \<open>Sim14e\<close>, \<open>SimBaseline\<close>, \<open>Sim18\<close> (\<^verbatim>\<open>sim/src/lib.rs\<close>): the data EEPROM, the cycle
    costs and run loops, and the four cores. A core is a record with the fields of its \<^verbatim>\<open>struct\<close>; every
    method is a function on it, named after the method with the core's prefix (\<open>p14_step\<close> is
    \<^verbatim>\<open>Pic14::step\<close>). \<open>Sie\<close> (\<^verbatim>\<open>sim/src/sie.rs\<close>) is the USB engine over the 16-bit core's memory.
  \<^item> \<open>Asm\<close>, \<open>Encode\<close>, \<open>Encode18\<close>, \<open>Asm18\<close> (\<^verbatim>\<open>asm/src/lib.rs\<close>): the two passes and the encoders, from text to words;
    \<open>Hex\<close>: the HEX writers of \<^verbatim>\<open>asm\<close> and readers of \<^verbatim>\<open>sim\<close>.
  \<^item> \<open>Ir\<close>, \<open>IrText\<close>, \<open>IrParse\<close> (\<^verbatim>\<open>ir/src/lib.rs\<close>): the representation, its writer and its reader.
  \<^item> \<open>CallGraph\<close> (\<^verbatim>\<open>callgraph/src/lib.rs\<close>): edges, the coloured depth-first search, the depth check.
  \<^item> \<open>Delay\<close> (\<^verbatim>\<open>iselcore/src/delay.rs\<close>) and \<open>DelayCode\<close> (\<open>emit_delay\<close> of \<^verbatim>\<open>isel/src/lib.rs\<close>): the cycle-exact delays.
  \<^item> \<open>Banking\<close> (\<^verbatim>\<open>banking/src/lib.rs\<close>): the recognizers, the walk over the functions, and the scan that inserts
    selects.
  \<^item> \<open>Schedule\<close> (\<^verbatim>\<open>schedule/src/lib.rs\<close>): the classification of the lines, the regions between barriers and the two
    reorders.
  \<^item> \<open>Config\<close> (\<^verbatim>\<open>device/src/config.rs\<close>): a configuration text resolved against a device's region, and the device name lookup.
  \<^item> \<open>Peephole\<close> (\<^verbatim>\<open>peephole/src/lib.rs\<close>): the pass over the text, its argument for PCLATH, and a text that it changes.
  \<^item> \<open>Alloc\<close> (\<^verbatim>\<open>alloc/src/lib.rs\<close>): where the globals go around the pinned ones (\<open>best_at\<close>) and the bases and slots of
    the frames (\<open>frame_bases\<close>, \<open>slot_addrs\<close>; \<open>slot_order\<close> is the order of heat the code permutes some frames
    into). The live ranges, call sites and homed arguments are an argument,
    the record \<open>frame_facts\<close>.
  The remaining theories hold lemmas and properties: \<open>Sim14Facts\<close>, \<open>Sim14Props\<close>, \<open>Sim14eProps\<close>,
  \<open>SimBaselineProps\<close>, \<open>Sim18Facts\<close>, \<open>Sim18Props\<close>, \<open>Exec14\<close> (assembled words on the classic core),
  \<open>HexProps\<close>, \<open>AsmProps\<close>, \<open>Asm18Facts\<close>, \<open>Asm18Ends\<close>, \<open>Asm18Source\<close>, \<open>Asm18Run\<close>, \<open>Asm18Props\<close>, \<open>Asm18Lands\<close>, \<open>IrTokens\<close>,
  \<open>IrInst\<close>, \<open>IrCallAsm\<close>, \<open>IrRoundTrip\<close>, \<open>CallGraphProps\<close>, \<open>DelayRun\<close>, \<open>DelayProps\<close>, \<open>BankingProps\<close>, \<open>SchedFacts\<close>, \<open>SchedPhase1\<close>, \<open>SchedPhase2\<close>, \<open>SchedProps\<close>, \<open>AllocProps\<close>, \<open>FrameProps\<close>.

  \<^bold>\<open>Conventions.\<close> A \<^verbatim>\<open>u8\<close>, \<^verbatim>\<open>u16\<close> or \<^verbatim>\<open>u32\<close> that can wrap is a word of its width; a \<^verbatim>\<open>usize\<close> or \<^verbatim>\<open>u64\<close> counter is a
  natural number. Register files and program memory are lists, and an index outside them is written out
  as what the code does: a panic is \<^const>\<open>None\<close> (or a constructor of the result, in the call graph), an
  error value is a value. Text is \<^typ>\<open>string\<close>, in ASCII. A hash map whose order the code reads is an association list.

  \<^bold>\<open>What the properties show.\<close>
  \<^item> The simulators (C1--C21). Each core is an instance of the locale \<open>sim_core\<close> of \<open>Timing\<close> (two of them of
    \<open>total_core\<close>), whose laws are a frame for one step and its cycle bounds: from them every core's
    \<open>run\<close> returns, never steps more often than its budget allows and stops within a known time (C1, C2,
    C9, C16); C1 also says when the classic core panics: a fetch past the program, or one of the words 0x3B00 to
    0x3BFF its code calls unreachable. Beyond it: indices stay in the register file and the program (C3); TO and PD survive every direct
    write but not one through INDF (C4, C5); interrupt entry and return, shadow registers and both stack views
    (C6, C14, C19); Timer0 and ADC (C7, C8); writes to PCL of the baseline core (C11); the linear memory window and exactly when the enhanced core panics (C12, C13);
    carry, decimal and table instructions (C15, C17, C18, C21).
  \<^item> The USB engine (C22--C24): a token touches only the packet memory its descriptor names, a new SETUP
    silences the old transfer, and delivered bytes are the sent ones. \<open>usb_history\<close> is the step relation of
    firmware writes and tokens.
  \<^item> HEX files (C25--C27): reading what was written rebuilds the image, also with a configuration region,
    and every record's checksum holds.
  \<^item> Assembler (C28, C29, C35--C37): layout of the word-addressed cores, what a padded table buys a
    computed jump, termination of the 16-bit core's rounds on sources without a table, a source on which
    they do not end, and that every branch the finished words hold goes to its label on the simulator.
  \<^item> Text boundary (C30), call depth (C31), delays from the planner to the simulated cycles (C32), banking
    (C33, C34).
  \<^item> Scheduling (C38, C39). The locale \<open>listing_machine\<close> is the contract between the classification and the first
    reorder: a move candidate commutes with a neighbour that needs a bank, and only skips skip. Inside it
    the reorder keeps every region's run; its interpretation executes the classified lines on W, the
    flags and the data registers. The pass ends, and moves lines only inside their regions, with their
    source locations. \<open>phase2_loses_w\<close> shows a listing that the second reorder changes.
  \<^item> Configuration words (C40): resolution does not panic, and every byte it returns is built from declared values.
  \<^item> Addresses (C10, C20): the globals of an arrangement are whole inside a bank, aligned and apart; what is live
    in a frame across a call is below every frame that runs meanwhile.

  \<^bold>\<open>Bounds and fuel.\<close> The run loops of the cores recurse on the number of cycles left, which every step
  lowers, so they are total. The search of the call graph recurses on the call depth, with fuel for more frames than there are
  functions, and \<open>CallGraphProps\<close> proves that it never runs out. The walk of \<open>banking\<close>, the rounds of the
  16-bit assembler and the restarting loop of \<open>schedule\<close> may run forever, and are \<^theory_text>\<open>partial_function\<close>s whose
  \<^const>\<open>None\<close> is that they do not end; C35 proves the rounds end, C36 that a table can prevent it.

  \<^bold>\<open>Not modelled.\<close> The instruction selectors but for the delay (a template for each operation over the
  register bookkeeping of about 50,000 lines), \<^verbatim>\<open>legalize\<close>, \<^verbatim>\<open>irparse\<close>, \<^verbatim>\<open>wholeprog\<close> and
  \<^verbatim>\<open>outline\<close> (large rewriting passes, left out for their size), \<^verbatim>\<open>superopt\<close> (an offline search), the rest of \<^verbatim>\<open>alloc\<close> (live ranges and the colouring over them, interrupt regions, homing, staging), \<^verbatim>\<open>gdbserver\<close>, \<^verbatim>\<open>driver\<close> (command line, files, child processes),
  \<^verbatim>\<open>fuzz\<close> and \<^verbatim>\<open>sdcc-parity\<close> (test tools) and the generated device table.
\<close>

end
